(* ===== verification/Prelude.thy ===== *)
theory Prelude
  imports Complex_Main "HOL-Library.Word" "HOL-Library.AList" "HOL-Library.Monad_Syntax"
begin

text \<open>
  Shared vocabulary of the development.

  \<^item> \<open>u8\<close>, \<open>u16\<close>, \<open>u32\<close>, \<open>u64\<close> are the unsigned machine integers of the sources
    (\<^verbatim>\<open>uint8_t\<close> to \<^verbatim>\<open>uint64_t\<close>); their arithmetic wraps.
  \<^item> \<open>fault\<close> is what stops a C++ function before its last statement: an exception that is
    thrown, a failed \<^verbatim>\<open>assert\<close>, a null pointer that is dereferenced, an array index out of range,
    other undefined behaviour such as a \<^verbatim>\<open>memcpy\<close> between overlapping regions.
    A fallible function
    returns \<open>fault + 'a\<close>.
  \<^item> \<open>('k, 'v) umap\<close> is \<^verbatim>\<open>std::unordered_map\<close>: an association list with distinct keys
    whose order is the order of iteration. \<open>um_find\<close>, \<open>um_set\<close>, \<open>um_erase\<close> are
    \<^verbatim>\<open>find\<close>, assignment through \<^verbatim>\<open>operator[]\<close> and \<^verbatim>\<open>erase\<close>; \<open>um_at\<close> is a read
    through \<^verbatim>\<open>operator[]\<close>, which inserts a default element when the key is missing.
    The iteration order of the C++ container is unspecified; no property of the
    development depends on where a new key is placed.
\<close>

section \<open>Machine integers and faults\<close>

type_synonym u8 = "8 word"
type_synonym u16 = "16 word"
type_synonym u32 = "32 word"
type_synonym u64 = "64 word"

datatype fault = Throw string | AssertFail | NullDeref | OutOfRange | Undefined

type_synonym 'a res = "fault + 'a"

definition rbind :: "'a res \<Rightarrow> ('a \<Rightarrow> 'b res) \<Rightarrow> 'b res" where
  "rbind m f = (case m of Inl e \<Rightarrow> Inl e | Inr x \<Rightarrow> f x)"

definition assert_that :: "bool \<Rightarrow> 'a res \<Rightarrow> 'a res" where
  "assert_that b m = (if b then m else Inl AssertFail)"

text \<open>An access \<^verbatim>\<open>a[i]\<close> to a fixed-size array.\<close>

definition array_at :: "'a list \<Rightarrow> nat \<Rightarrow> 'a res" where
  "array_at xs i = (if i < length xs then Inr (xs ! i) else Inl OutOfRange)"

named_theorems res_iff \<open>inversion of successful fallible computations\<close>

lemma rbind_simps [simp]:
  "rbind (Inl e) f = Inl e"
  "rbind (Inr x) f = f x"
  by (simp_all add: rbind_def)

lemma rbind_Inr_iff [res_iff]:
  "rbind m f = Inr y \<longleftrightarrow> (\<exists>x. m = Inr x \<and> f x = Inr y)"
  by (cases m) auto

lemma assert_that_Inr_iff [res_iff]: "assert_that b m = Inr y \<longleftrightarrow> b \<and> m = Inr y"
  by (simp add: assert_that_def)

lemma assert_that_simps [simp]:
  "assert_that True m = m"
  "assert_that False m = Inl AssertFail"
  by (simp_all add: assert_that_def)

text \<open>A loop whose body may fault: it stops at the first fault.\<close>

fun foldr_res :: "('a \<Rightarrow> 's \<Rightarrow> 's res) \<Rightarrow> 'a list \<Rightarrow> 's \<Rightarrow> 's res" where
  "foldr_res f [] s = Inr s"
| "foldr_res f (x # xs) s = rbind (f x s) (foldr_res f xs)"

lemma foldr_res_append:
  "foldr_res f (xs @ ys) s = rbind (foldr_res f xs s) (foldr_res f ys)"
proof (induction xs arbitrary: s)
  case (Cons x xs)
  then show ?case by (cases "f x s") auto
qed simp

lemma foldr_res_invariant:
  assumes "foldr_res f xs s = Inr t" and "P s"
    and "\<And>x s t. x \<in> set xs \<Longrightarrow> P s \<Longrightarrow> f x s = Inr t \<Longrightarrow> P t"
  shows "P t"
  using assms
proof (induction xs arbitrary: s)
  case (Cons x xs)
  from Cons.prems(1) obtain u where u: "f x s = Inr u" "foldr_res f xs u = Inr t"
    by (auto simp: res_iff)
  have "P u" using Cons.prems(2,3) u(1) by (meson list.set_intros(1))
  then show ?case using Cons.IH [OF u(2)] Cons.prems(3) by (meson list.set_intros(2))
qed simp

section \<open>Hash maps\<close>

type_synonym ('k, 'v) umap = "('k \<times> 'v) list"

abbreviation um_find :: "('k, 'v) umap \<Rightarrow> 'k \<Rightarrow> 'v option" where
  "um_find \<equiv> map_of"

abbreviation um_set :: "'k \<Rightarrow> 'v \<Rightarrow> ('k, 'v) umap \<Rightarrow> ('k, 'v) umap" where
  "um_set \<equiv> AList.update"

abbreviation um_erase :: "'k \<Rightarrow> ('k, 'v) umap \<Rightarrow> ('k, 'v) umap" where
  "um_erase \<equiv> AList.delete"

abbreviation um_keys :: "('k, 'v) umap \<Rightarrow> 'k list" where
  "um_keys m \<equiv> map fst m"

abbreviation um_ok :: "('k, 'v) umap \<Rightarrow> bool" where
  "um_ok m \<equiv> distinct (um_keys m)"

definition um_at :: "'v \<Rightarrow> 'k \<Rightarrow> ('k, 'v) umap \<Rightarrow> 'v \<times> ('k, 'v) umap" where
  "um_at d k m = (case um_find m k of Some v \<Rightarrow> (v, m) | None \<Rightarrow> (d, um_set k d m))"

definition um_get :: "'v \<Rightarrow> 'k \<Rightarrow> ('k, 'v) umap \<Rightarrow> 'v" where
  "um_get d k m = (case um_find m k of Some v \<Rightarrow> v | None \<Rightarrow> d)"

lemma um_find_set [simp]: "um_find (um_set k v m) k' = (if k' = k then Some v else um_find m k')"
  by (simp add: update_conv')

lemma um_find_erase [simp]: "um_find (um_erase k m) k' = (if k' = k then None else um_find m k')"
  by (simp add: delete_conv')

lemma um_ok_set [simp, intro]: "um_ok m \<Longrightarrow> um_ok (um_set k v m)"
  by (rule distinct_update)

lemma um_ok_erase [simp, intro]: "um_ok m \<Longrightarrow> um_ok (um_erase k m)"
  by (rule distinct_delete)

lemma set_um_keys_set [simp]: "fst ` set (um_set k v m) = insert k (fst ` set m)"
  by (simp add: dom_update)

lemma set_um_keys_erase [simp]: "fst ` set (um_erase k m) = fst ` set m - {k}"
  by (auto simp: AList.delete_eq image_iff)

lemma um_set_subset: "x \<in> set (um_set k v m) \<Longrightarrow> x = (k, v) \<or> x \<in> set m"
  by (induction m) (auto split: if_splits)

lemma um_find_None_iff: "um_find m k = None \<longleftrightarrow> k \<notin> fst ` set m"
  by (rule map_of_eq_None_iff)

lemma um_find_in_set: "um_ok m \<Longrightarrow> (k, v) \<in> set m \<longleftrightarrow> um_find m k = Some v"
  by simp

lemma um_at_find:
  "um_find (snd (um_at d k m)) k' =
     (if k' = k then Some (um_get d k m) else um_find m k')"
  by (simp add: um_at_def um_get_def split: option.splits)

lemma um_at_fst [simp]: "fst (um_at d k m) = um_get d k m"
  by (simp add: um_at_def um_get_def split: option.splits)

lemma um_ok_at [simp, intro]: "um_ok m \<Longrightarrow> um_ok (snd (um_at d k m))"
  by (simp add: um_at_def split: option.splits)

lemma um_get_set [simp]: "um_get d k' (um_set k v m) = (if k' = k then v else um_get d k' m)"
  by (simp add: um_get_def)

lemma um_get_Some [simp]: "um_find m k = Some v \<Longrightarrow> um_get d k m = v"
  by (simp add: um_get_def)

lemma um_get_None [simp]: "um_find m k = None \<Longrightarrow> um_get d k m = d"
  by (simp add: um_get_def)

lemma um_map_values_find [simp]:
  "um_find (map (\<lambda>(k, v). (k, f k v)) m) k = map_option (f k) (um_find m k)"
  by (induction m) auto

lemma um_keys_map_values [simp]: "um_keys (map (\<lambda>(k, v). (k, f k v)) m) = um_keys m"
  by (induction m) auto

lemma um_filter_find:
  "um_ok m \<Longrightarrow> um_find (filter (\<lambda>(k, v). P k v) m) k =
     (case um_find m k of Some v \<Rightarrow> if P k v then Some v else None | None \<Rightarrow> None)"
proof (induction m)
  case (Cons x m)
  then show ?case
    by (cases x) (auto split: option.splits simp: map_of_eq_None_iff image_iff)
qed simp

lemma um_ok_filter [simp, intro]: "um_ok m \<Longrightarrow> um_ok (filter P m)"
  by (induction m) auto

section \<open>Words\<close>

lemma unat_u64_less [simp]: "unat (x :: u64) < 18446744073709551616"
  using unsigned_less [of x, where ?'a = nat] by simp

lemma u32_of_nat: "n < 4294967296 \<Longrightarrow> unat (of_nat n :: u32) = n"
  by (simp add: unat_of_nat)

lemma u32_of_nat_inj: "m < 4294967296 \<Longrightarrow> n < 4294967296 \<Longrightarrow> (of_nat m :: u32) = of_nat n \<longleftrightarrow> m = n"
  by (metis u32_of_nat)

lemma u64_of_nat: "n < 18446744073709551616 \<Longrightarrow> unat (of_nat n :: u64) = n"
  by (simp add: unat_of_nat)

end
