(* ===== verification/Memory.thy ===== *)
theory Memory
  imports Prelude
begin

text \<open>
  The memory layer: \<^verbatim>\<open>memory/SequentialBuffer.h\<close>, \<^verbatim>\<open>RefCounter.h\<close>, \<^verbatim>\<open>IntrusivePtr.h\<close>,
  \<^verbatim>\<open>ConcurrentStack.h\<close>, \<^verbatim>\<open>ObjectPool.h\<close> and \<^verbatim>\<open>SharedObjectPool.h\<close>.

  A \<^verbatim>\<open>SequentialBuffer\<close> keeps its raw storage as a list of \<^verbatim>\<open>_capacity\<close> cells; what
  \<^verbatim>\<open>malloc\<close> leaves in fresh cells is the parameter \<open>junk\<close>. Intrusive pointers are variables of an
  explicit store, so that copies and moves between aliases are visible. The blocks of a pool
  are named by the sequence number they are initialised with.
\<close>

section \<open>SequentialBuffer\<close>

record 'a SequentialBuffer =
  sb_rewinding_size :: nat
  sb_starting_index :: nat
  sb_buffer :: "'a list"
  sb_capacity :: nat
  sb_count :: nat

definition new_SequentialBuffer :: "'a \<Rightarrow> nat \<Rightarrow> 'a SequentialBuffer" where
  "new_SequentialBuffer junk capacity = \<lparr>sb_rewinding_size = capacity div 2, sb_starting_index = 0,
     sb_buffer = replicate capacity junk, sb_capacity = capacity, sb_count = 0\<rparr>"

definition PushBack :: "'a \<Rightarrow> 'a \<Rightarrow> 'a SequentialBuffer \<Rightarrow> 'a SequentialBuffer res" where
  "PushBack junk data b =
    (let b' = (if sb_capacity b = sb_starting_index b + sb_count b then
                 let new_capacity = (sb_capacity b * 2) mod 2 ^ 32 in
                 b\<lparr>sb_buffer := take (sb_count b) (drop (sb_starting_index b) (sb_buffer b)) @
                                replicate (new_capacity - sb_count b) junk,
                   sb_starting_index := 0, sb_capacity := new_capacity,
                   sb_rewinding_size := new_capacity div 2\<rparr>
               else b)
     in if sb_starting_index b' + sb_count b' < sb_capacity b'
        then Inr (b'\<lparr>sb_buffer := (sb_buffer b')[sb_starting_index b' + sb_count b' := data],
                     sb_count := sb_count b' + 1\<rparr>)
        else Inl OutOfRange)"

text \<open>\<^verbatim>\<open>EraseFront\<close> rewinds with \<^verbatim>\<open>memcpy\<close>, which is undefined when the regions overlap.\<close>

definition EraseFront :: "nat \<Rightarrow> 'a SequentialBuffer \<Rightarrow> 'a SequentialBuffer res" where
  "EraseFront n b = assert_that (sb_count b \<ge> n)
    (let b1 = b\<lparr>sb_count := sb_count b - n, sb_starting_index := sb_starting_index b + n\<rparr>;
         s = sb_starting_index b1; moved = sb_capacity b1 - s in
     rbind (if s \<ge> sb_rewinding_size b1 then
              if s < moved then Inl Undefined
              else Inr (b1\<lparr>sb_buffer := drop s (sb_buffer b1) @ drop moved (sb_buffer b1), sb_starting_index := 0\<rparr>)
            else Inr b1)
       (\<lambda>b2. Inr (if sb_count b2 = 0 then b2\<lparr>sb_starting_index := 0\<rparr> else b2)))"

text \<open>\<^verbatim>\<open>operator []\<close>: its assertion bounds the index by \<^verbatim>\<open>_starting_index + _count\<close>.\<close>

definition sb_at :: "nat \<Rightarrow> 'a SequentialBuffer \<Rightarrow> 'a res" where
  "sb_at index b = assert_that (index < sb_starting_index b + sb_count b)
     (array_at (sb_buffer b) (sb_starting_index b + index))"

text \<open>The elements from \<^verbatim>\<open>Begin\<close> to \<^verbatim>\<open>End\<close>, and the invariant of the representation.\<close>

definition contents :: "'a SequentialBuffer \<Rightarrow> 'a list" where
  "contents b = take (sb_count b) (drop (sb_starting_index b) (sb_buffer b))"

definition sb_inv :: "'a SequentialBuffer \<Rightarrow> bool" where
  "sb_inv b \<longleftrightarrow> 0 < sb_capacity b \<and> even (sb_capacity b) \<and> length (sb_buffer b) = sb_capacity b \<and>
     sb_starting_index b + sb_count b \<le> sb_capacity b \<and> sb_rewinding_size b = sb_capacity b div 2 \<and>
     sb_starting_index b < sb_rewinding_size b"

lemma length_contents: "sb_inv b \<Longrightarrow> length (contents b) = sb_count b"
  by (auto simp: contents_def sb_inv_def)

lemma new_SequentialBuffer_ok:
  "0 < n \<Longrightarrow> even n \<Longrightarrow> sb_inv (new_SequentialBuffer j n) \<and> contents (new_SequentialBuffer j n) = []"
  by (auto simp: new_SequentialBuffer_def sb_inv_def contents_def elim!: evenE)

lemma contents_store:
  assumes "s + n < length xs"
  shows "take (Suc n) (drop s (xs[s + n := x])) = take n (drop s xs) @ [x]"
proof -
  have "drop s (xs[s + n := x]) = (drop s xs)[n := x]" using assms by (simp add: drop_update_swap)
  then show ?thesis using assms by (simp add: take_Suc_conv_app_nth)
qed

lemma PushBack_ok:
  assumes "sb_inv b" "sb_capacity b < 2 ^ 31"
  shows "\<exists>b'. PushBack j x b = Inr b' \<and> sb_inv b' \<and> contents b' = contents b @ [x] \<and>
    sb_capacity b' \<le> max (sb_capacity b) (4 * length (contents b))"
proof (cases "sb_capacity b = sb_starting_index b + sb_count b")
  case True
  have cap: "sb_capacity b * 2 mod 2 ^ 32 = sb_capacity b * 2" using assms(2) by simp
  define b1 where "b1 = b\<lparr>sb_buffer := contents b @ replicate (sb_capacity b * 2 - sb_count b) j,
    sb_starting_index := 0, sb_capacity := sb_capacity b * 2, sb_rewinding_size := sb_capacity b * 2 div 2\<rparr>"
  have l: "length (contents b) = sb_count b" "sb_count b < sb_capacity b * 2" "0 < sb_capacity b"
    "sb_capacity b \<le> 2 * sb_count b"
    using assms(1) length_contents [OF assms(1)] True by (auto simp: sb_inv_def elim!: evenE)
  have p: "PushBack j x b = Inr (b1\<lparr>sb_buffer := (sb_buffer b1)[sb_count b := x], sb_count := sb_count b + 1\<rparr>)"
    using True l unfolding PushBack_def Let_def cap b1_def contents_def [symmetric] by auto
  show ?thesis unfolding p using l assms(1)
    by (simp add: b1_def sb_inv_def contents_def [of "sb_buffer_update _ _"] contents_def [of "b\<lparr>sb_count := _\<rparr>"]
        contents_def [of "_\<lparr>sb_count := _\<rparr>"] list_update_append take_Suc_conv_app_nth)
next
  case False
  then show ?thesis
    using assms(1) contents_store [of "sb_starting_index b" "sb_count b" "sb_buffer b" x]
    by (simp add: PushBack_def sb_inv_def contents_def Let_def)
qed

lemma EraseFront_ok:
  assumes "sb_inv b" "n \<le> sb_count b"
  shows "\<exists>b'. EraseFront n b = Inr b' \<and> sb_inv b' \<and> contents b' = drop n (contents b) \<and>
    sb_capacity b' = sb_capacity b"
proof -
  define s where "s = sb_starting_index b + n"
  have s: "s + (sb_count b - n) \<le> sb_capacity b" using assms by (simp add: s_def sb_inv_def)
  have h: "s \<ge> sb_rewinding_size b \<Longrightarrow> \<not> s < sb_capacity b - s"
    using assms(1) by (auto simp: sb_inv_def elim!: evenE)
  have d: "drop n (contents b) = take (sb_count b - n) (drop s (sb_buffer b))"
    by (simp add: contents_def s_def drop_take add.commute)
  show ?thesis
    unfolding d using assms s h
    by (cases "s \<ge> sb_rewinding_size b"; cases "sb_count b = n")
      (auto simp: EraseFront_def sb_inv_def contents_def Let_def s_def [symmetric])
qed

lemma sb_at_ok:
  assumes "sb_inv b" "i < sb_count b"
  shows "sb_at i b = Inr (contents b ! i)"
  using assms by (simp add: sb_at_def array_at_def contents_def sb_inv_def)

text \<open>\<^verbatim>\<open>RecvFromStream\<close>: the stream gets the place behind the last element and how much room there is, and answers with a result and what it
  wrote. A stream that keeps to its contract writes as many elements as it reports, if any, and no more than fit.\<close>

definition RecvFromStream :: "(nat \<Rightarrow> int \<times> 'a list) \<Rightarrow> 'a SequentialBuffer \<Rightarrow> int \<times> 'a SequentialBuffer" where
  "RecvFromStream recv b =
    (let e = sb_starting_index b + sb_count b;
         (ret, data) = recv (sb_capacity b - e);
         b1 = b\<lparr>sb_buffer := take e (sb_buffer b) @ data @ drop (e + length data) (sb_buffer b)\<rparr> in
     (ret, if ret > 0 then b1\<lparr>sb_count := sb_count b + nat ret\<rparr> else b1))"

lemma RecvFromStream_ok:
  assumes "sb_inv b" "recv (sb_capacity b - (sb_starting_index b + sb_count b)) = (ret, data)"
    and "length data = nat ret" "length data \<le> sb_capacity b - (sb_starting_index b + sb_count b)"
  shows "\<exists>b'. RecvFromStream recv b = (ret, b') \<and> sb_inv b' \<and> contents b' = contents b @ data \<and> sb_capacity b' = sb_capacity b"
proof -
  let ?e = "sb_starting_index b + sb_count b"
  let ?b = "b\<lparr>sb_buffer := take ?e (sb_buffer b) @ data @ drop (?e + length data) (sb_buffer b), sb_count := sb_count b + length data\<rparr>"
  have len: "length (sb_buffer b) = sb_capacity b" "?e + length data \<le> sb_capacity b" using assms(1,4) by (auto simp: sb_inv_def)
  have "RecvFromStream recv b = (ret, ?b)" using assms(2,3) by (simp add: RecvFromStream_def Let_def)
  moreover have "sb_inv ?b" using assms(1) len by (auto simp: sb_inv_def)
  moreover have "contents ?b = contents b @ data" using len by (simp add: contents_def take_drop [symmetric] add.commute drop_take)
  ultimately show ?thesis by auto
qed

text \<open>Receiving in pieces and consuming in pieces, over the operations of a buffer.\<close>

fun serve ::
  "('q \<Rightarrow> 'a list) \<Rightarrow> ('a \<Rightarrow> 'q \<Rightarrow> 'q res) \<Rightarrow> (nat \<Rightarrow> 'q \<Rightarrow> 'q res) \<Rightarrow>
     ('a list \<times> nat) list \<Rightarrow> 'q \<Rightarrow> ('a list \<times> 'q) res" where
  "serve elements push erase [] q = Inr ([], q)"
| "serve elements push erase ((xs, k) # rest) q =
     rbind (foldr_res push xs q) (\<lambda>q1.
       let taken = take k (elements q1) in
       rbind (erase (length taken) q1) (\<lambda>q2.
       rbind (serve elements push erase rest q2) (\<lambda>(out, q3). Inr (taken @ out, q3))))"

text \<open>What a reader of a socket relies on: a buffer that grows at the back and is consumed at the front.
  \<open>room n q\<close> says that the buffer can still take elements while it holds fewer than \<open>n\<close>.\<close>

locale fifo_buffer =
  fixes elements :: "'q \<Rightarrow> 'a list" and inv :: "'q \<Rightarrow> bool" and room :: "nat \<Rightarrow> 'q \<Rightarrow> bool"
    and push :: "'a \<Rightarrow> 'q \<Rightarrow> 'q res" and erase :: "nat \<Rightarrow> 'q \<Rightarrow> 'q res"
  assumes push_ok: "inv q \<Longrightarrow> room n q \<Longrightarrow> length (elements q) < n \<Longrightarrow>
      \<exists>q'. push x q = Inr q' \<and> inv q' \<and> room n q' \<and> elements q' = elements q @ [x]"
    and erase_ok: "inv q \<Longrightarrow> room n q \<Longrightarrow> k \<le> length (elements q) \<Longrightarrow>
      \<exists>q'. erase k q = Inr q' \<and> inv q' \<and> room n q' \<and> elements q' = drop k (elements q)"
begin

lemma push_all_ok:
  "inv q \<Longrightarrow> room n q \<Longrightarrow> length (elements q) + length xs \<le> n \<Longrightarrow>
    \<exists>q'. foldr_res push xs q = Inr q' \<and> inv q' \<and> room n q' \<and> elements q' = elements q @ xs"
proof (induction xs arbitrary: q)
  case (Cons x xs)
  then obtain q1 where q1: "push x q = Inr q1" "inv q1" "room n q1" "elements q1 = elements q @ [x]"
    using push_ok [of q n x] by auto
  then show ?case using Cons.IH [of q1] Cons.prems(3) by auto
qed simp

lemma serve_ok:
  "inv q \<Longrightarrow> room n q \<Longrightarrow> length (elements q) + length (concat (map fst rounds)) \<le> n \<Longrightarrow>
    \<exists>out q'. serve elements push erase rounds q = Inr (out, q') \<and> inv q' \<and> out @ elements q' = elements q @ concat (map fst rounds)"
proof (induction rounds arbitrary: q)
  case (Cons r rounds)
  obtain xs k where r: "r = (xs, k)" by (cases r)
  have "length (elements q) + length xs \<le> n" using Cons.prems(3) by (simp add: r)
  then obtain q1 where q1: "foldr_res push xs q = Inr q1" "inv q1" "room n q1" "elements q1 = elements q @ xs"
    using push_all_ok [OF Cons.prems(1,2)] by blast
  let ?t = "take k (elements q1)"
  obtain q2 where q2: "erase (length ?t) q1 = Inr q2" "inv q2" "room n q2" "elements q2 = drop (length ?t) (elements q1)"
    using erase_ok [OF q1(2,3), of "length ?t"] by auto
  have "length (elements q2) + length (concat (map fst rounds)) \<le> n"
    using Cons.prems(3) by (simp add: q2(4) q1(4) r)
  then obtain out q3 where s: "serve elements push erase rounds q2 = Inr (out, q3)" "inv q3"
      "out @ elements q3 = elements q2 @ concat (map fst rounds)"
    using Cons.IH [OF q2(2,3)] by blast
  have "?t @ elements q2 = elements q1" by (simp add: q2(4) min_def)
  then have "(?t @ out) @ elements q3 = elements q @ concat (map fst (r # rounds))"
    using s(3) q1(4) unfolding append_assoc r by (metis append_assoc concat.simps(2) fst_conv list.simps(9))
  then show ?case using q1(1) q2(1) s(1,2) by (simp add: r Let_def)
qed simp

end

interpretation sb: fifo_buffer contents sb_inv "\<lambda>n b. sb_capacity b \<le> max 1048576 (4 * n) \<and> 4 * n < 2 ^ 31"
  "PushBack j" EraseFront for j
proof
  fix q :: "'a SequentialBuffer" and n x j
  assume a: "sb_inv q" "sb_capacity q \<le> max 1048576 (4 * n) \<and> 4 * n < 2 ^ 31" "length (contents q) < n"
  then have "sb_capacity q < 2 ^ 31" by auto
  from PushBack_ok [OF a(1) this, of j x] a(2,3)
  show "\<exists>q'. PushBack j x q = Inr q' \<and> sb_inv q' \<and>
      (sb_capacity q' \<le> max 1048576 (4 * n) \<and> 4 * n < 2 ^ 31) \<and> contents q' = contents q @ [x]"
    by fastforce
next
  fix q :: "'a SequentialBuffer" and n k
  assume "sb_inv q" "sb_capacity q \<le> max 1048576 (4 * n) \<and> 4 * n < 2 ^ 31" "k \<le> length (contents q)"
  then show "\<exists>q'. EraseFront k q = Inr q' \<and> sb_inv q' \<and>
      (sb_capacity q' \<le> max 1048576 (4 * n) \<and> 4 * n < 2 ^ 31) \<and> contents q' = drop k (contents q)"
    using EraseFront_ok [of q k] by (auto simp: length_contents)
qed

text \<open>C21. A \<^verbatim>\<open>SequentialBuffer\<close> of even capacity is a faithful byte queue: pushing pieces of a
  stream and erasing consumed prefixes in any interleaving never faults, through growth and
  rewinding alike, and what was consumed followed by what is left is what was pushed.\<close>

theorem sequential_buffer_is_fifo:
  assumes "0 < cap" "even cap" "cap \<le> 1048576" "length (concat (map fst rounds)) \<le> 268435456"
  shows "\<exists>out b. serve contents (PushBack j) EraseFront rounds (new_SequentialBuffer j cap) = Inr (out, b) \<and>
    out @ contents b = concat (map fst rounds)"
  using sb.serve_ok [of "new_SequentialBuffer j cap" 268435456 rounds j] new_SequentialBuffer_ok [OF assms(1,2), of j] assms(3,4)
  by (simp add: new_SequentialBuffer_def) blast

theorem sequential_buffer_is_fifo_witness:
  "\<exists>out b. serve contents (PushBack 0) EraseFront [([1, 2, 3 :: nat], 2), ([4, 5, 6], 3)] (new_SequentialBuffer 0 2) = Inr (out, b) \<and>
    out @ contents b = [1, 2, 3, 4, 5, 6]"
  using sequential_buffer_is_fifo [of 2 "[([1, 2, 3 :: nat], 2), ([4, 5, 6], 3)]" 0]
  by (simp del: serve.simps)

text \<open>The assertion of \<^verbatim>\<open>operator []\<close> adds \<^verbatim>\<open>_starting_index\<close>, so after a consumed prefix it lets
  an index past the last element through and returns a stale cell instead of failing.\<close>

theorem index_guard_too_weak:
  assumes "sb_inv b" "sb_count b \<le> i" "i < sb_starting_index b + sb_count b" "sb_starting_index b + i < sb_capacity b"
  shows "sb_at i b = Inr (sb_buffer b ! (sb_starting_index b + i)) \<and> length (contents b) \<le> i"
  using assms length_contents [OF assms(1)] by (simp add: sb_at_def array_at_def sb_inv_def)

theorem index_guard_too_weak_witness:
  "let b = \<lparr>sb_rewinding_size = 2, sb_starting_index = 1, sb_buffer = [7, 8, 9, 0 :: nat], sb_capacity = 4, sb_count = 1\<rparr>
   in contents b = [8] \<and> sb_at 1 b = Inr 9"
  using index_guard_too_weak [of "\<lparr>sb_rewinding_size = 2, sb_starting_index = 1, sb_buffer = [7, 8, 9, 0 :: nat],
      sb_capacity = 4, sb_count = 1\<rparr>" 1]
  by (simp add: sb_inv_def contents_def)

section \<open>Reference counts and intrusive pointers\<close>

text \<open>\<^verbatim>\<open>RefCounter\<close> and \<^verbatim>\<open>SingleThreadRefCounter\<close>: a 32-bit counter; every operation returns the new value.\<close>

definition Retain :: "u32 \<Rightarrow> u32" where "Retain c = c + 1"

definition RetainN :: "u32 \<Rightarrow> u32 \<Rightarrow> u32" where "RetainN n c = c + n"

definition Release :: "u32 \<Rightarrow> u32" where "Release c = c - 1"

definition ReleaseN :: "u32 \<Rightarrow> u32 \<Rightarrow> u32" where "ReleaseN n c = c - n"

definition CAS :: "u32 \<Rightarrow> u32 \<Rightarrow> u32 \<Rightarrow> bool \<times> u32" where
  "CAS expected desired c = (if c = expected then (True, desired) else (False, c))"

text \<open>A store of counted objects and of \<^verbatim>\<open>IntrusivePtr\<close> variables. \<open>ps_deleted\<close> is the sequence of
  calls of the deleter.\<close>

record ptr_store =
  ps_count :: "nat \<Rightarrow> u32"
  ps_ptr :: "nat \<Rightarrow> nat option"
  ps_deleted :: "nat list"

definition ip_Release :: "nat \<Rightarrow> ptr_store \<Rightarrow> ptr_store" where
  "ip_Release v st = (case ps_ptr st v of
     None \<Rightarrow> st
   | Some a \<Rightarrow>
       let result = Release (ps_count st a) in
       st\<lparr>ps_count := (ps_count st)(a := result),
          ps_deleted := (if result = 0 then ps_deleted st @ [a] else ps_deleted st),
          ps_ptr := (ps_ptr st)(v := None)\<rparr>)"

definition ip_construct :: "nat \<Rightarrow> nat \<Rightarrow> ptr_store \<Rightarrow> ptr_store" where
  "ip_construct v a st = st\<lparr>ps_count := (ps_count st)(a := Retain (ps_count st a)), ps_ptr := (ps_ptr st)(v \<mapsto> a)\<rparr>"

text \<open>Copy assignment retains the source's object, releases the target and then reads the source
  again; move assignment does not retain and clears the source.\<close>

definition ip_copy_assign :: "nat \<Rightarrow> nat \<Rightarrow> ptr_store \<Rightarrow> ptr_store" where
  "ip_copy_assign dst src st = (case ps_ptr st src of
     None \<Rightarrow> ip_Release dst st
   | Some a \<Rightarrow>
       let st1 = ip_Release dst (st\<lparr>ps_count := (ps_count st)(a := Retain (ps_count st a))\<rparr>)
       in st1\<lparr>ps_ptr := (ps_ptr st1)(dst := ps_ptr st1 src)\<rparr>)"

definition ip_move_assign :: "nat \<Rightarrow> nat \<Rightarrow> ptr_store \<Rightarrow> ptr_store" where
  "ip_move_assign dst src st = (case ps_ptr st src of
     None \<Rightarrow> ip_Release dst st
   | Some a \<Rightarrow>
       let st1 = ip_Release dst st;
           st2 = st1\<lparr>ps_ptr := (ps_ptr st1)(dst := ps_ptr st1 src)\<rparr>
       in st2\<lparr>ps_ptr := (ps_ptr st2)(src := None)\<rparr>)"

definition no_pointers :: ptr_store where
  "no_pointers = \<lparr>ps_count = (\<lambda>_. 0), ps_ptr = (\<lambda>_. None), ps_deleted = []\<rparr>"

text \<open>What a program does with its pointers, self-assignment apart.\<close>

inductive ptr_step :: "ptr_store \<Rightarrow> ptr_store \<Rightarrow> bool" where
  construct: "ps_ptr st v = None \<Longrightarrow> ptr_step st (ip_construct v a st)"
| copy: "dst \<noteq> src \<Longrightarrow> ptr_step st (ip_copy_assign dst src st)"
| move: "dst \<noteq> src \<Longrightarrow> ptr_step st (ip_move_assign dst src st)"
| release: "ptr_step st (ip_Release v st)"

inductive_cases ptr_stepE: "ptr_step st st'"

definition refs :: "ptr_store \<Rightarrow> nat \<Rightarrow> nat set" where
  "refs st a = {v. ps_ptr st v = Some a}"

definition live :: "ptr_store \<Rightarrow> nat set" where
  "live st = {v. ps_ptr st v \<noteq> None}"

definition ptr_inv :: "ptr_store \<Rightarrow> bool" where
  "ptr_inv st \<longleftrightarrow> finite (live st) \<and> (\<forall>a. ps_count st a = of_nat (card (refs st a)))"

lemma refs_frame [simp]:
  "refs (st\<lparr>ps_count := c\<rparr>) = refs st" "live (st\<lparr>ps_count := c\<rparr>) = live st"
  "refs (st\<lparr>ps_deleted := d\<rparr>) = refs st" "live (st\<lparr>ps_deleted := d\<rparr>) = live st"
  by (simp_all add: refs_def live_def fun_eq_iff)

lemma refs_upd: "refs (st\<lparr>ps_ptr := (ps_ptr st)(v := x)\<rparr>) a = (if x = Some a then insert v (refs st a) else refs st a - {v})"
  by (auto simp: refs_def)

lemma live_upd: "finite (live st) \<Longrightarrow> finite (live (st\<lparr>ps_ptr := (ps_ptr st)(v := x)\<rparr>))"
  by (rule finite_subset [of _ "insert v (live st)"]) (auto simp: live_def)

lemma finite_refs: "finite (live st) \<Longrightarrow> finite (refs st a)"
  by (rule finite_subset [of _ "live st"]) (auto simp: refs_def live_def)

lemma card_refs_upd:
  assumes "finite (live st)"
  shows "card (refs (st\<lparr>ps_ptr := (ps_ptr st)(v := x)\<rparr>) a) =
    (if x = Some a then if ps_ptr st v = Some a then card (refs st a) else Suc (card (refs st a))
     else if ps_ptr st v = Some a then card (refs st a) - 1 else card (refs st a))"
proof -
  have "v \<in> refs st a \<longleftrightarrow> ps_ptr st v = Some a" by (simp add: refs_def)
  then show ?thesis
    using finite_refs [OF assms, of a] unfolding refs_upd by (simp add: insert_absorb)
qed

text \<open>Counts are exact also in the middle of an assignment: \<open>d a\<close> extra references are held by the code.\<close>

definition counted :: "(nat \<Rightarrow> nat) \<Rightarrow> ptr_store \<Rightarrow> bool" where
  "counted d st \<longleftrightarrow> finite (live st) \<and> (\<forall>a. ps_count st a = of_nat (card (refs st a) + d a))"

lemma counted_0: "counted (\<lambda>_. 0) st = ptr_inv st"
  by (simp add: counted_def ptr_inv_def)

lemma refs_pos: "finite (live st) \<Longrightarrow> ps_ptr st v = Some a \<Longrightarrow> 0 < card (refs st a)"
  using finite_refs [of st a] by (auto simp: card_gt_0_iff refs_def)

lemma counted_deleted [simp]: "counted d (st\<lparr>ps_deleted := x\<rparr>) = counted d st"
  by (simp add: counted_def)

lemma counted_Release:
  assumes "counted d st"
  shows "counted d (ip_Release v st)"
proof (cases "ps_ptr st v")
  case (Some a)
  have fin: "finite (live st)" using assms by (simp add: counted_def)
  define n where "n = card (refs st a) - 1"
  have n: "card (refs st a) = Suc n" using refs_pos [OF fin Some] by (simp add: n_def)
  define st1 where "st1 = st\<lparr>ps_ptr := (ps_ptr st)(v := None)\<rparr>"
  have "card (refs st1 b) = (if b = a then n else card (refs st b))" for b
    unfolding st1_def card_refs_upd [OF fin] using Some n by auto
  moreover have "finite (live st1)" unfolding st1_def using fin by (rule live_upd)
  ultimately have "counted d (st1\<lparr>ps_count := (ps_count st)(a := Release (ps_count st a))\<rparr>)"
    using assms n by (simp add: counted_def Release_def)
  moreover have "ip_Release v st = (st1\<lparr>ps_count := (ps_count st)(a := Release (ps_count st a))\<rparr>)
      \<lparr>ps_deleted := ps_deleted (ip_Release v st)\<rparr>"
    using Some by (simp add: ip_Release_def st1_def Let_def)
  ultimately show ?thesis using counted_deleted by metis
qed (use assms in \<open>simp add: ip_Release_def\<close>)

lemma ip_Release_ptr: "ps_ptr (ip_Release v st) = (ps_ptr st)(v := None)"
  by (auto simp: ip_Release_def Let_def split: option.splits)

lemma ptr_inv_Release: "ptr_inv st \<Longrightarrow> ptr_inv (ip_Release v st)"
  using counted_Release [of "\<lambda>_. 0" st v] by (simp only: counted_0)

lemma counted_store:
  assumes "counted (d(a := Suc (d a))) st" "ps_ptr st v = None"
  shows "counted d (st\<lparr>ps_ptr := (ps_ptr st)(v \<mapsto> a)\<rparr>)"
proof -
  have fin: "finite (live st)" using assms by (simp add: counted_def)
  show ?thesis
    using assms live_upd [OF fin, of v "Some a"] card_refs_upd [OF fin, of v "Some a"]
    by (auto simp: counted_def)
qed

lemma counted_Retain:
  "counted d st \<Longrightarrow> counted (d(a := Suc (d a))) (st\<lparr>ps_count := (ps_count st)(a := Retain (ps_count st a))\<rparr>)"
  by (simp add: counted_def Retain_def)

lemma ptr_step_counted:
  assumes "ptr_step st st'" "counted d st"
  shows "counted d st'"
  using assms(1)
proof cases
  case (construct v a)
  show ?thesis
    using counted_store [OF counted_Retain [OF assms(2)], of a v] construct(2) by (simp add: construct(1) ip_construct_def)
next
  case (copy dst src)
  show ?thesis
  proof (cases "ps_ptr st src")
    case (Some a)
    define st1 where "st1 = ip_Release dst (st\<lparr>ps_count := (ps_count st)(a := Retain (ps_count st a))\<rparr>)"
    have "counted (d(a := Suc (d a))) st1" unfolding st1_def by (intro counted_Release counted_Retain assms(2))
    from counted_store [OF this, of dst]
    show ?thesis using Some copy by (simp add: ip_copy_assign_def Let_def st1_def ip_Release_ptr)
  qed (use assms(2) copy in \<open>simp add: ip_copy_assign_def counted_Release\<close>)
next
  case (move dst src)
  show ?thesis
  proof (cases "ps_ptr st src")
    case (Some a)
    define st1 where "st1 = ip_Release dst st"
    have c: "counted d st1" unfolding st1_def using assms(2) by (rule counted_Release)
    have s: "ps_ptr st1 src = Some a" "ps_ptr st1 dst = None" using Some move by (simp_all add: st1_def ip_Release_ptr)
    define st2 where "st2 = st1\<lparr>ps_ptr := (ps_ptr st1)(src := None)\<rparr>"
    have fin: "finite (live st1)" using c by (simp add: counted_def)
    have "card (refs st1 a) + d a = card (refs st2 a) + Suc (d a)"
      using card_refs_upd [OF fin, of src None a] s(1) refs_pos [OF fin s(1)] by (simp add: st2_def)
    moreover have "card (refs st2 b) = card (refs st1 b)" if "b \<noteq> a" for b
      using card_refs_upd [OF fin, of src None b] s(1) that by (simp add: st2_def)
    moreover have "ps_count st2 = ps_count st1" "finite (live st2)" using live_upd [OF fin, of src None] by (simp_all add: st2_def)
    ultimately have "counted (d(a := Suc (d a))) st2" using c unfolding counted_def by (auto simp del: of_nat_add of_nat_Suc)
    from counted_store [OF this, of dst]
    show ?thesis using Some move s by (simp add: ip_move_assign_def Let_def st1_def [symmetric] st2_def fun_upd_twist)
  qed (use assms(2) move in \<open>simp add: ip_move_assign_def counted_Release\<close>)
next
  case (release v)
  then show ?thesis using assms(2) by (simp add: counted_Release)
qed

lemma ptr_step_inv: "ptr_step st st' \<Longrightarrow> ptr_inv st \<Longrightarrow> ptr_inv st'"
  using ptr_step_counted [of st st' "\<lambda>_. 0"] by (simp add: counted_0)

lemma ptr_inv_no_pointers: "ptr_inv no_pointers"
  by (simp add: ptr_inv_def no_pointers_def live_def refs_def)

lemma ptr_reachable_inv: "ptr_step\<^sup>*\<^sup>* no_pointers st \<Longrightarrow> ptr_inv st"
  by (induction rule: rtranclp_induct) (auto intro: ptr_inv_no_pointers ptr_step_inv)

lemma ip_Release_deleted:
  assumes "counted d st" "ps_deleted (ip_Release v st) = ps_deleted st @ [a]" "card (refs st a) + d a < 2 ^ 32"
  shows "refs (ip_Release v st) a = {} \<and> d a = 0"
proof -
  from assms(2) have v: "ps_ptr st v = Some a" and z: "Release (ps_count st a) = 0"
    by (auto simp: ip_Release_def Let_def split: option.splits if_splits)
  have fin: "finite (live st)" using assms(1) by (simp add: counted_def)
  have "of_nat (card (refs st a) + d a) = (of_nat 1 :: u32)"
    using z assms(1) by (simp add: counted_def Release_def)
  then have "card (refs st a) + d a = 1"
    using assms(3) by (subst (asm) u32_of_nat_inj) simp_all
  moreover have "v \<in> refs st a" using v by (simp add: refs_def)
  ultimately have "refs st a = {v}" "d a = 0"
    using finite_refs [OF fin, of a] refs_pos [OF fin v] by (auto simp: card_Suc_eq add_is_1)
  then show ?thesis by (auto simp: refs_def ip_Release_ptr)
qed


text \<open>C16. Reference counting is exact: in every state a program reaches by creating, copying, moving and
  releasing pointers (self-assignment apart), the counter of an object is the number of pointers
  to it, and a step that calls the deleter on an object leaves no pointer to it.\<close>

theorem refcount_exact:
  assumes "ptr_step\<^sup>*\<^sup>* no_pointers st"
  shows "ps_count st a = of_nat (card (refs st a)) \<and>
    (ps_deleted (ip_Release v st) = ps_deleted st @ [a] \<and> card (refs st a) < 2 ^ 32 \<longrightarrow>
       refs (ip_Release v st) a = {})"
proof -
  note inv = ptr_reachable_inv [OF assms]
  show ?thesis
    using inv ip_Release_deleted [of "\<lambda>_. 0" st v a] by (auto simp: counted_0 ptr_inv_def)
qed

theorem refcount_exact_witness:
  "let st = ip_copy_assign 2 1 (ip_construct 1 7 no_pointers) in
   ps_count st 7 = of_nat (card (refs st 7)) \<and> ps_count st 7 = 2"
proof -
  let ?st = "ip_copy_assign 2 1 (ip_construct 1 7 no_pointers)"
  have "ptr_step no_pointers (ip_construct 1 7 no_pointers)" by (rule ptr_step.construct) (simp add: no_pointers_def)
  moreover have "ptr_step (ip_construct 1 7 no_pointers) ?st" by (rule ptr_step.copy) simp
  ultimately have "ptr_step\<^sup>*\<^sup>* no_pointers ?st" by (meson rtranclp.rtrancl_refl rtranclp.rtrancl_into_rtrancl)
  from refcount_exact [OF this, of 7]
  show ?thesis
    by (simp add: ip_copy_assign_def ip_construct_def ip_Release_def no_pointers_def Retain_def Let_def)
qed

text \<open>Copying a pointer onto itself loses the object: the variable ends up null while the reference it
  had taken stays counted, so the deleter is never called for it.\<close>

theorem self_assignment_leaks:
  assumes "ptr_inv st" "ps_ptr st v = Some a"
  shows "let st' = ip_copy_assign v v st in
    ps_ptr st' v = None \<and> ps_count st' a = of_nat (card (refs st' a)) + 1 \<and> \<not> ptr_inv st'"
proof -
  let ?st' = "ip_copy_assign v v st"
  have fin: "finite (live st)" using assms(1) by (simp add: ptr_inv_def)
  have p: "ps_ptr ?st' = (ps_ptr st)(v := None)" "ps_count ?st' a = ps_count st a"
    using assms(2) by (simp_all add: ip_copy_assign_def Let_def ip_Release_def Retain_def Release_def)
  have "card (refs ?st' a) = card (refs st a) - 1"
    using card_refs_upd [OF fin, of v None a] assms(2) by (simp add: refs_def p(1))
  then have "card (refs st a) = Suc (card (refs ?st' a))" using refs_pos [OF fin assms(2)] by simp
  then have "of_nat (card (refs st a)) = (of_nat (card (refs ?st' a)) + 1 :: u32)" by simp
  then show ?thesis using p assms(1) by (auto simp: ptr_inv_def Let_def intro!: exI [of _ a])
qed

theorem self_assignment_leaks_witness:
  "let st' = ip_copy_assign 1 1 (ip_construct 1 7 no_pointers) in ps_ptr st' 1 = None \<and> ps_count st' 7 \<noteq> 0"
proof -
  have i: "ptr_inv (ip_construct 1 7 no_pointers)"
    by (rule ptr_step_inv [OF ptr_step.construct ptr_inv_no_pointers]) (simp add: no_pointers_def)
  have "refs (ip_copy_assign 1 1 (ip_construct 1 7 no_pointers)) 7 = {}"
    by (auto simp: refs_def ip_copy_assign_def ip_construct_def ip_Release_def no_pointers_def Let_def)
  then show ?thesis
    using self_assignment_leaks [OF i, of 1 7] by (simp add: ip_construct_def Let_def)
qed

section \<open>Object pools\<close>

text \<open>A block is named by the sequence number it is initialised with. The stack of free blocks has its
  top at the head of the list (\<^verbatim>\<open>std::deque\<close> used at its back, or \<^verbatim>\<open>ConcurrentStack\<close>, whose operations
  run under a spin lock and are atomic).\<close>

record ObjectBlock =
  bl_id :: u64
  bl_is_heap_allocation :: bool

record ObjectPool =
  op_pool :: "ObjectBlock list"
  op_object_sequence :: u64

definition stack_push :: "'a \<Rightarrow> 'a list \<Rightarrow> 'a list" where
  "stack_push value st = value # st"

fun stack_try_pop :: "'a list \<Rightarrow> ('a \<times> 'a list) option" where
  "stack_try_pop [] = None"
| "stack_try_pop (x # st) = Some (x, st)"

fun AllocateChunk :: "nat \<Rightarrow> ObjectBlock list \<times> u64 \<Rightarrow> ObjectBlock list \<times> u64" where
  "AllocateChunk 0 (pool, sequence) = (pool, sequence)"
| "AllocateChunk (Suc n) (pool, sequence) =
     AllocateChunk n (stack_push \<lparr>bl_id = sequence, bl_is_heap_allocation = False\<rparr> pool, sequence + 1)"

text \<open>The loop of the constructors. Its counter is 32 bits wide and can wrap below \<^verbatim>\<open>pool_size\<close>, so it
  may not end.\<close>

partial_function (option) allocate_loop ::
  "u32 \<Rightarrow> u32 \<Rightarrow> u32 \<Rightarrow> ObjectBlock list \<times> u64 \<Rightarrow> (ObjectBlock list \<times> u64) option" where
  "allocate_loop pool_size chunk_size sz acc =
    (if sz < pool_size then
       let allocation_size = (if sz + chunk_size > pool_size then pool_size - sz else chunk_size) in
       allocate_loop pool_size chunk_size (sz + chunk_size) (AllocateChunk (unat allocation_size) acc)
     else Some acc)"

declare allocate_loop.simps [code]

definition new_ObjectPool :: "u32 \<Rightarrow> u32 \<Rightarrow> u64 \<Rightarrow> ObjectPool option res" where
  "new_ObjectPool pool_size chunk_size start_sequence =
    assert_that (chunk_size > 0)
      (Inr (map_option (\<lambda>(pool, sequence). \<lparr>op_pool = pool, op_object_sequence = sequence\<rparr>)
              (allocate_loop pool_size chunk_size 0 ([], start_sequence))))"

definition Pool_Push :: "ObjectBlock \<Rightarrow> ObjectPool \<Rightarrow> ObjectPool" where
  "Pool_Push block p =
    (if bl_is_heap_allocation block then p else p\<lparr>op_pool := stack_push block (op_pool p)\<rparr>)"

definition Pool_Pop :: "bool \<Rightarrow> ObjectPool \<Rightarrow> ObjectBlock option \<times> ObjectPool" where
  "Pool_Pop must_allocation p =
    (case stack_try_pop (op_pool p) of
       Some (ret, rest) \<Rightarrow> (Some ret, p\<lparr>op_pool := rest\<rparr>)
     | None \<Rightarrow>
         if must_allocation then
           (Some \<lparr>bl_id = op_object_sequence p, bl_is_heap_allocation = True\<rparr>,
            p\<lparr>op_object_sequence := op_object_sequence p + 1\<rparr>)
         else (None, p))"

text \<open>\<^verbatim>\<open>SharedObjectPool::Pop\<close> wraps the block in a pointer whose deleter is \<^verbatim>\<open>Push\<close>; a null pointer when
  the pool is exhausted. The object's address is its sequence number.\<close>

definition SharedObjectPool_Pop :: "nat \<Rightarrow> ObjectBlock list \<Rightarrow> ptr_store \<Rightarrow> ObjectBlock list \<times> ptr_store" where
  "SharedObjectPool_Pop v pool st =
    (case stack_try_pop pool of
       Some (ret, rest) \<Rightarrow> (rest, ip_construct v (unat (bl_id ret)) st)
     | None \<Rightarrow> (pool, st\<lparr>ps_ptr := (ps_ptr st)(v := None)\<rparr>))"

lemma AllocateChunk_eq:
  "AllocateChunk n (pool, s) =
     (rev (map (\<lambda>i. \<lparr>bl_id = s + of_nat i, bl_is_heap_allocation = False\<rparr>) [0 ..< n]) @ pool, s + of_nat n)"
proof (induction n arbitrary: pool s)
  case (Suc n)
  have "map (\<lambda>i. \<lparr>bl_id = s + of_nat i, bl_is_heap_allocation = False\<rparr>) [0 ..< Suc n] =
      \<lparr>bl_id = s, bl_is_heap_allocation = False\<rparr> #
      map (\<lambda>i. \<lparr>bl_id = s + 1 + of_nat i, bl_is_heap_allocation = False\<rparr>) [0 ..< n]"
    by (simp add: upt_conv_Cons map_Suc_upt [symmetric] add.assoc del: upt_Suc)
  then show ?case using Suc [of "stack_push \<lparr>bl_id = s, bl_is_heap_allocation = False\<rparr> pool" "s + 1"]
    by (simp add: stack_push_def ac_simps del: upt_Suc)
qed simp

definition numbered :: "u64 \<Rightarrow> nat \<Rightarrow> ObjectBlock list" where
  "numbered s n = rev (map (\<lambda>i. \<lparr>bl_id = s + of_nat i, bl_is_heap_allocation = False\<rparr>) [0 ..< n])"

lemma numbered_add:
  "numbered s (m + n) = numbered (s + of_nat m) n @ numbered s m"
proof -
  have "[m ..< m + n] = map (\<lambda>i. i + m) [0 ..< n]" by (simp add: map_add_upt add.commute)
  then show ?thesis by (simp add: numbered_def upt_add_eq_append [of 0 m n] ac_simps)
qed

lemma allocate_loop_numbered:
  assumes "0 < chunk_size" "unat pool_size + unat chunk_size < 2 ^ 32" "unat sz \<le> unat pool_size + unat chunk_size"
  shows "allocate_loop pool_size chunk_size sz (numbered s (min (unat sz) (unat pool_size)) @ pool, s + of_nat (min (unat sz) (unat pool_size))) =
    Some (numbered s (unat pool_size) @ pool, s + of_nat (unat pool_size))"
  using assms(3)
proof (induction "unat pool_size - unat sz" arbitrary: sz rule: less_induct)
  case less
  show ?case
  proof (cases "sz < pool_size")
    case True
    have c: "0 < unat chunk_size" "unat sz < unat pool_size" using assms(1) True by (simp_all add: word_less_nat_alt unat_gt_0)
    have u: "unat (sz + chunk_size) = unat sz + unat chunk_size"
      using assms(2) c by (intro unat_add_lem [THEN iffD1]) simp
    define n where "n = unat (if sz + chunk_size > pool_size then pool_size - sz else chunk_size)"
    have n: "unat sz + n = min (unat (sz + chunk_size)) (unat pool_size)"
      using c by (simp add: n_def u word_less_nat_alt unat_sub word_le_nat_alt)
    have ch: "AllocateChunk n (numbered s (unat sz) @ pool, s + of_nat (unat sz)) =
        (numbered s (unat sz + n) @ pool, s + of_nat (unat sz + n))"
      using numbered_add [of s "unat sz" n] by (simp add: AllocateChunk_eq numbered_def add.assoc)
    have "allocate_loop pool_size chunk_size (sz + chunk_size)
        (numbered s (min (unat (sz + chunk_size)) (unat pool_size)) @ pool,
         s + of_nat (min (unat (sz + chunk_size)) (unat pool_size))) =
        Some (numbered s (unat pool_size) @ pool, s + of_nat (unat pool_size))"
      using c u by (intro less.hyps) auto
    then show ?thesis
      using True c ch by (subst allocate_loop.simps) (simp add: Let_def n_def [symmetric] n min_def del: word_of_nat_eq_iff)
  next
    case False
    then show ?thesis by (subst allocate_loop.simps) (simp add: word_less_nat_alt min_def not_less)
  qed
qed

text \<open>Building a pool ends and gives exactly \<^verbatim>\<open>pool_size\<close> free blocks, numbered from
  \<^verbatim>\<open>start_sequence\<close> without gaps, whatever the chunk size; the last chunk is cut to fit.\<close>

theorem object_pool_construction:
  assumes "0 < chunk_size" "unat pool_size + unat chunk_size < 2 ^ 32" "unat start + unat pool_size < 2 ^ 64"
  shows "\<exists>p. new_ObjectPool pool_size chunk_size start = Inr (Some p) \<and>
    map bl_id (rev (op_pool p)) = map (\<lambda>i. start + of_nat i) [0 ..< unat pool_size] \<and>
    length (op_pool p) = unat pool_size \<and> distinct (map bl_id (op_pool p)) \<and>
    op_object_sequence p = start + of_nat (unat pool_size)"
proof -
  have "allocate_loop pool_size chunk_size 0 ([], start) = Some (numbered start (unat pool_size), start + of_nat (unat pool_size))"
    using allocate_loop_numbered [OF assms(1,2), of 0 start "[]"] by (simp add: numbered_def)
  moreover have "inj_on (\<lambda>i. start + of_nat i) {0 ..< unat pool_size}"
  proof (rule inj_onI)
    fix i j assume "i \<in> {0 ..< unat pool_size}" "j \<in> {0 ..< unat pool_size}" and "start + of_nat i = start + of_nat j"
    then have "(of_nat i :: u64) = of_nat j" "i < 18446744073709551616" "j < 18446744073709551616"
      using assms(3) by (simp_all only: add_left_cancel atLeastLessThan_iff) simp_all
    then show "i = j" by (metis u64_of_nat)
  qed
  ultimately have p: "new_ObjectPool pool_size chunk_size start =
      Inr (Some \<lparr>op_pool = numbered start (unat pool_size), op_object_sequence = start + of_nat (unat pool_size)\<rparr>)"
    and d: "distinct (map (\<lambda>i. start + of_nat i) [0 ..< unat pool_size])"
    using assms(1) by (simp_all add: new_ObjectPool_def distinct_map)
  have "map bl_id (rev (numbered start (unat pool_size))) = map (\<lambda>i. start + of_nat i) [0 ..< unat pool_size]"
    by (simp add: numbered_def o_def)
  moreover from this have "map bl_id (numbered start (unat pool_size)) = rev (map (\<lambda>i. start + of_nat i) [0 ..< unat pool_size])"
    by (metis rev_map rev_rev_ident)
  ultimately show ?thesis using p d by (simp add: numbered_def)
qed

theorem object_pool_construction_witness:
  "\<exists>p. new_ObjectPool 5 2 1 = Inr (Some p) \<and> length (op_pool p) = 5 \<and> distinct (map bl_id (op_pool p))"
  using object_pool_construction [of 2 5 1] by auto

text \<open>The blocks in the pool together with those the program holds: pairwise different, never a heap
  block in the pool, and \<open>n\<close> pooled blocks in all.\<close>

definition pool_inv :: "nat \<Rightarrow> ObjectPool \<Rightarrow> ObjectBlock list \<Rightarrow> bool" where
  "pool_inv n p held \<longleftrightarrow> distinct (map bl_id (op_pool p @ held)) \<and> (\<forall>b \<in> set (op_pool p). \<not> bl_is_heap_allocation b) \<and>
     length (filter (\<lambda>b. \<not> bl_is_heap_allocation b) (op_pool p @ held)) = n \<and>
     (\<forall>b \<in> set (op_pool p @ held). unat (bl_id b) < unat (op_object_sequence p))"

lemma Pool_Pop_inv:
  assumes "pool_inv n p held" "unat (op_object_sequence p) + 1 < 2 ^ 64" "Pool_Pop must p = (r, p')"
  shows "case r of None \<Rightarrow> \<not> must \<and> p' = p \<and> op_pool p = []
    | Some b \<Rightarrow> pool_inv n p' (b # held) \<and> b \<notin> set held"
proof (cases "op_pool p")
  case (Cons b rest)
  then show ?thesis using assms by (auto simp: Pool_Pop_def pool_inv_def)
next
  case Nil
  have u: "unat (op_object_sequence p + 1) = unat (op_object_sequence p) + 1"
    using assms(2) by (simp add: unat_word_ariths)
  show ?thesis
    using assms(1,3) Nil u by (cases must) (fastforce simp: Pool_Pop_def pool_inv_def)+
qed

lemma Pool_Push_inv:
  assumes "pool_inv n p (xs @ b # ys)"
  shows "pool_inv n (Pool_Push b p) (xs @ ys)"
  using assms by (auto simp: Pool_Push_def pool_inv_def stack_push_def)

datatype pool_op = PopOp bool | PushOp nat

text \<open>A run of pops and pushes; \<open>PushOp i\<close> gives back the \<open>i\<close>-th block the program holds.\<close>

fun pool_run :: "pool_op list \<Rightarrow> ObjectPool \<times> ObjectBlock list \<Rightarrow> ObjectPool \<times> ObjectBlock list" where
  "pool_run [] s = s"
| "pool_run (PopOp must # ops) (p, held) =
     (case Pool_Pop must p of (None, p') \<Rightarrow> pool_run ops (p', held) | (Some b, p') \<Rightarrow> pool_run ops (p', b # held))"
| "pool_run (PushOp i # ops) (p, held) =
     (if i < length held then pool_run ops (Pool_Push (held ! i) p, take i held @ drop (Suc i) held)
      else pool_run ops (p, held))"

lemma pool_run_inv:
  "pool_inv n p held \<Longrightarrow> unat (op_object_sequence p) + length ops < 2 ^ 64 \<Longrightarrow>
    pool_inv n (fst (pool_run ops (p, held))) (snd (pool_run ops (p, held)))"
proof (induction ops arbitrary: p held)
  case (Cons x ops)
  have q: "unat (op_object_sequence (snd (Pool_Pop m p))) \<le> unat (op_object_sequence p) + 1" for m
    by (auto simp: Pool_Pop_def unat_word_ariths split: option.splits prod.splits)
  show ?case
  proof (cases x)
    case (PopOp m)
    obtain r p' where r: "Pool_Pop m p = (r, p')" by (cases "Pool_Pop m p")
    have s: "unat (op_object_sequence p') + length ops < 2 ^ 64" using q [of m] Cons.prems(2) by (simp add: r)
    show ?thesis
      using Pool_Pop_inv [OF Cons.prems(1) _ r] Cons.prems Cons.IH [OF _ s] r
      by (cases r) (auto simp: PopOp)
  next
    case (PushOp i)
    have "pool_inv n (Pool_Push (held ! i) p) (take i held @ drop (Suc i) held)" if "i < length held"
      using that Cons.prems(1) by (intro Pool_Push_inv) (simp add: id_take_nth_drop [symmetric])
    moreover have "op_object_sequence (Pool_Push b p) = op_object_sequence p" for b by (simp add: Pool_Push_def)
    ultimately show ?thesis using Cons.IH Cons.prems by (simp add: PushOp)
  qed
qed simp

text \<open>A pool never hands out the same block twice and never loses one: after any run of pops and
  pushes the free and the held blocks are pairwise different and the pooled ones still number as
  many as at the start. Heap blocks made for \<^verbatim>\<open>must_allocation\<close> do not enter the pool.\<close>

theorem object_pool_conserves_blocks:
  assumes "pool_inv n p []" "unat (op_object_sequence p) + length ops < 2 ^ 64" "pool_run ops (p, []) = (p', held)"
  shows "distinct (map bl_id (op_pool p' @ held)) \<and>
    length (filter (\<lambda>b. \<not> bl_is_heap_allocation b) (op_pool p' @ held)) = n \<and>
    (\<forall>b \<in> set (op_pool p'). \<not> bl_is_heap_allocation b)"
  using pool_run_inv [OF assms(1,2)] assms(3) unfolding pool_inv_def by auto

theorem object_pool_conserves_blocks_witness:
  "let p = \<lparr>op_pool = [\<lparr>bl_id = 1, bl_is_heap_allocation = False\<rparr>], op_object_sequence = 2\<rparr>;
       (p', held) = pool_run [PopOp False, PopOp True, PushOp 1] (p, [])
   in distinct (map bl_id (op_pool p' @ held)) \<and> length (op_pool p') = 1 \<and> length held = 1"
proof -
  let ?p = "\<lparr>op_pool = [\<lparr>bl_id = 1, bl_is_heap_allocation = False\<rparr>], op_object_sequence = 2\<rparr>"
  have r: "pool_run [PopOp False, PopOp True, PushOp 1] (?p, []) =
      (\<lparr>op_pool = [\<lparr>bl_id = 1, bl_is_heap_allocation = False\<rparr>], op_object_sequence = 3\<rparr>,
       [\<lparr>bl_id = 2, bl_is_heap_allocation = True\<rparr>])"
    by (simp add: Pool_Pop_def Pool_Push_def stack_push_def)
  show ?thesis
    using object_pool_conserves_blocks [of 1 ?p, OF _ _ r] unfolding r Let_def by (simp add: pool_inv_def)
qed

end
