(* ===== verification/Concurrent.thy ===== *)
theory Concurrent
  imports Prelude "HOL-Library.Multiset"
begin

text \<open>
  The concurrency layer: \<^verbatim>\<open>concurrent/ConcurrentMap.h\<close>, \<^verbatim>\<open>LinearWorkQueue.h\<close> and \<^verbatim>\<open>LinearWorker.h\<close>.

  Every operation of \<^verbatim>\<open>ConcurrentMap\<close> runs under the map's mutex and is one atomic step. A
  \<^verbatim>\<open>LinearWorkQueue\<close> is two bounded queues and a pointer to the one that is filled; \<^verbatim>\<open>TryPush\<close> reads
  the pointer and pushes in two steps that other threads can come between, and the consumer swaps
  the queues and drains the other one. Each push and pop on one of the two queues is atomic (the
  third-party \<^verbatim>\<open>atomic_queue::AtomicQueue\<close>).
\<close>

section \<open>ConcurrentMap\<close>

definition cm_Insert :: "'k \<Rightarrow> 'v \<Rightarrow> ('k, 'v) umap \<Rightarrow> bool \<times> ('k, 'v) umap" where
  "cm_Insert key value m = (um_find m key \<noteq> None, um_set key value m)"

definition cm_TryGet :: "'k \<Rightarrow> ('k, 'v) umap \<Rightarrow> 'v option" where
  "cm_TryGet key m = um_find m key"

text \<open>\<^verbatim>\<open>Process\<close> runs its argument on the stored value in place.\<close>

definition cm_Process :: "'k \<Rightarrow> ('v \<Rightarrow> 'v) \<Rightarrow> ('k, 'v) umap \<Rightarrow> bool \<times> ('k, 'v) umap" where
  "cm_Process key processor m =
    (case um_find m key of None \<Rightarrow> (False, m) | Some v \<Rightarrow> (True, um_set key (processor v) m))"

text \<open>The argument of \<^verbatim>\<open>RemoveIf\<close> may change the object behind the stored pointer, whether it then
  agrees to the removal or not: it works on a state \<open>'s\<close>.\<close>

definition cm_RemoveIf ::
  "'k \<Rightarrow> ('v \<Rightarrow> 's \<Rightarrow> bool \<times> 's) \<Rightarrow> ('k, 'v) umap \<Rightarrow> 's \<Rightarrow> 'v option \<times> ('k, 'v) umap \<times> 's" where
  "cm_RemoveIf key processor m s =
    (case um_find m key of
       None \<Rightarrow> (None, m, s)
     | Some v \<Rightarrow> (case processor v s of
                   (True, s') \<Rightarrow> (Some v, um_erase key m, s')
                 | (False, s') \<Rightarrow> (None, m, s')))"

definition cm_Remove :: "'k \<Rightarrow> ('k, 'v) umap \<Rightarrow> 'v option \<times> ('k, 'v) umap" where
  "cm_Remove key m = (case um_find m key of None \<Rightarrow> (None, m) | Some v \<Rightarrow> (Some v, um_erase key m))"

text \<open>A sequence of removals, one after the other.\<close>

fun claims :: "('k \<Rightarrow> 'm \<Rightarrow> 'v option \<times> 'm) \<Rightarrow> 'k list \<Rightarrow> 'm \<Rightarrow> 'v option list \<times> 'm" where
  "claims claim [] m = ([], m)"
| "claims claim (k # ks) m = (let (r, m') = claim k m; (rs, m'') = claims claim ks m' in (r # rs, m''))"

text \<open>What the network engine relies on: an entry is there until somebody takes it, and only one taker
  gets it.\<close>

locale claim_table =
  fixes lookup :: "'k \<Rightarrow> 'm \<Rightarrow> 'v option" and insert :: "'k \<Rightarrow> 'v \<Rightarrow> 'm \<Rightarrow> 'm"
    and claim :: "'k \<Rightarrow> 'm \<Rightarrow> 'v option \<times> 'm"
  assumes lookup_insert: "lookup k' (insert k v m) = (if k' = k then Some v else lookup k' m)"
    and claim_result: "fst (claim k m) = lookup k m"
    and lookup_claim: "lookup k' (snd (claim k m)) = (if k' = k then None else lookup k' m)"
begin

lemma claims_Cons: "fst (claims claim (k # ks) m) = fst (claim k m) # fst (claims claim ks (snd (claim k m)))"
  by (simp add: Let_def split: prod.splits)

lemma claims_once:
  "i < j \<Longrightarrow> j < length ks \<Longrightarrow> ks ! i = ks ! j \<Longrightarrow> fst (claims claim ks m) ! j = None"
proof -
  have gone: "lookup k m = None \<Longrightarrow> j < length ks \<Longrightarrow> ks ! j = k \<Longrightarrow> fst (claims claim ks m) ! j = None" for k j ks m
  proof (induction ks arbitrary: m j)
    case (Cons x ks)
    have "lookup k (snd (claim x m)) = None" using Cons.prems(1) by (simp add: lookup_claim)
    then show ?case
      using Cons claim_result [of x m] by (cases j) (auto simp: claims_Cons simp del: claims.simps)
  qed simp
  show "i < j \<Longrightarrow> j < length ks \<Longrightarrow> ks ! i = ks ! j \<Longrightarrow> fst (claims claim ks m) ! j = None"
  proof (induction ks arbitrary: m i j)
    case (Cons x ks)
    show ?case
    proof (cases i)
      case 0
      have "lookup x (snd (claim x m)) = None" by (simp add: lookup_claim)
      then show ?thesis using Cons.prems 0 gone [of x "snd (claim x m)" "j - 1" ks]
        by (cases j) (auto simp: claims_Cons simp del: claims.simps)
    next
      case (Suc i')
      then show ?thesis using Cons.prems Cons.IH [of i' "j - 1" "snd (claim x m)"]
        by (cases j) (auto simp: claims_Cons simp del: claims.simps)
    qed
  qed simp
qed

end

interpretation cm: claim_table cm_TryGet "\<lambda>k v m. snd (cm_Insert k v m)" cm_Remove
  by unfold_locales (auto simp: cm_TryGet_def cm_Insert_def cm_Remove_def split: option.splits)

text \<open>An entry of a \<^verbatim>\<open>ConcurrentMap\<close> is taken at most once: of all removals of one key, with no insertion
  between them, only the first can succeed.\<close>

theorem concurrent_map_claims_once:
  assumes "i < j" "j < length ks" "ks ! i = ks ! j"
  shows "fst (claims cm_Remove ks m) ! j = None"
  using assms by (rule cm.claims_once)

theorem concurrent_map_claims_once_witness:
  "fst (claims cm_Remove [4, 4] [(4 :: nat, ''s'')]) ! 1 = None \<and> fst (claims cm_Remove [4, 4] [(4 :: nat, ''s'')]) ! 0 = Some ''s''"
  using concurrent_map_claims_once [of 0 1 "[4, 4]" "[(4 :: nat, ''s'')]"] by (simp add: cm_Remove_def)

section \<open>LinearWorkQueue\<close>

record 'a LinearWorkQueue =
  lq_first :: "'a list"
  lq_second :: "'a list"
  lq_submission_is_first :: bool

definition new_LinearWorkQueue :: "'a LinearWorkQueue" where
  "new_LinearWorkQueue = \<lparr>lq_first = [], lq_second = [], lq_submission_is_first = True\<rparr>"

definition LockSubmissionQueue :: "'a LinearWorkQueue \<Rightarrow> 'a LinearWorkQueue" where
  "LockSubmissionQueue q = q\<lparr>lq_submission_is_first := \<not> lq_submission_is_first q\<rparr>"

definition submission :: "'a LinearWorkQueue \<Rightarrow> 'a list" where
  "submission q = (if lq_submission_is_first q then lq_first q else lq_second q)"

definition fetch :: "'a LinearWorkQueue \<Rightarrow> 'a list" where
  "fetch q = (if lq_submission_is_first q then lq_second q else lq_first q)"

text \<open>\<^verbatim>\<open>try_push\<close> on the queue whose pointer was read earlier.\<close>

definition try_push_at :: "nat \<Rightarrow> bool \<Rightarrow> 'a \<Rightarrow> 'a LinearWorkQueue \<Rightarrow> bool \<times> 'a LinearWorkQueue" where
  "try_push_at cap at_first x q =
    (if at_first then
       if length (lq_first q) < cap then (True, q\<lparr>lq_first := lq_first q @ [x]\<rparr>) else (False, q)
     else if length (lq_second q) < cap then (True, q\<lparr>lq_second := lq_second q @ [x]\<rparr>) else (False, q))"

definition TryPush :: "nat \<Rightarrow> 'a \<Rightarrow> 'a LinearWorkQueue \<Rightarrow> bool \<times> 'a LinearWorkQueue" where
  "TryPush cap x q = try_push_at cap (lq_submission_is_first q) x q"

definition TryPop :: "'a LinearWorkQueue \<Rightarrow> 'a option \<times> 'a LinearWorkQueue" where
  "TryPop q = (case fetch q of
     [] \<Rightarrow> (None, q)
   | x # xs \<Rightarrow> (Some x, if lq_submission_is_first q then q\<lparr>lq_second := xs\<rparr> else q\<lparr>lq_first := xs\<rparr>))"

text \<open>The whole system: producers that have read the pointer but not pushed yet, the consumer (draining the
  fetch queue or between two rounds), and the history of completed pushes and pops.\<close>

record 'a work_system =
  ws_queue :: "'a LinearWorkQueue"
  ws_in_flight :: "nat \<Rightarrow> (bool \<times> 'a) option"
  ws_draining :: bool
  ws_pushed :: "'a list"
  ws_popped :: "'a list"

definition idle_system :: "'a work_system" where
  "idle_system = \<lparr>ws_queue = new_LinearWorkQueue, ws_in_flight = (\<lambda>_. None), ws_draining = False,
     ws_pushed = [], ws_popped = []\<rparr>"

inductive work_step :: "nat \<Rightarrow> 'a work_system \<Rightarrow> 'a work_system \<Rightarrow> bool" for cap where
  begin_push: "ws_in_flight s p = None \<Longrightarrow>
    work_step cap s (s\<lparr>ws_in_flight := (ws_in_flight s)(p \<mapsto> (lq_submission_is_first (ws_queue s), x))\<rparr>)"
| end_push: "ws_in_flight s p = Some (b, x) \<Longrightarrow> try_push_at cap b x (ws_queue s) = (ok, q') \<Longrightarrow>
    work_step cap s (s\<lparr>ws_queue := q', ws_in_flight := (ws_in_flight s)(p := None),
      ws_pushed := (if ok then ws_pushed s @ [x] else ws_pushed s)\<rparr>)"
| swap: "\<not> ws_draining s \<Longrightarrow>
    work_step cap s (s\<lparr>ws_queue := LockSubmissionQueue (ws_queue s), ws_draining := True\<rparr>)"
| pop: "ws_draining s \<Longrightarrow> TryPop (ws_queue s) = (Some x, q') \<Longrightarrow>
    work_step cap s (s\<lparr>ws_queue := q', ws_popped := ws_popped s @ [x]\<rparr>)"
| drained: "ws_draining s \<Longrightarrow> TryPop (ws_queue s) = (None, q') \<Longrightarrow>
    work_step cap s (s\<lparr>ws_draining := False\<rparr>)"

definition work_inv :: "nat \<Rightarrow> 'a work_system \<Rightarrow> bool" where
  "work_inv cap s \<longleftrightarrow>
     mset (ws_pushed s) = mset (ws_popped s) + mset (lq_first (ws_queue s)) + mset (lq_second (ws_queue s)) \<and>
     length (lq_first (ws_queue s)) \<le> cap \<and> length (lq_second (ws_queue s)) \<le> cap"

lemma work_step_inv: "work_step cap s t \<Longrightarrow> work_inv cap s \<Longrightarrow> work_inv cap t"
proof (induction rule: work_step.induct)
  case (end_push s p b x ok q')
  then show ?case by (auto simp: work_inv_def try_push_at_def split: if_splits)
next
  case (pop s x q')
  then show ?case by (auto simp: work_inv_def TryPop_def fetch_def split: list.splits if_splits)
qed (auto simp: work_inv_def LockSubmissionQueue_def)

lemma work_reachable_inv: "(work_step cap)\<^sup>*\<^sup>* idle_system s \<Longrightarrow> work_inv cap s"
proof (induction rule: rtranclp_induct)
  case base
  show ?case by (simp add: work_inv_def idle_system_def new_LinearWorkQueue_def)
qed (rule work_step_inv)

text \<open>C10. No work is lost or done twice, however producers and the consumer interleave: the completed
  pushes are, as a bag, the pops and what is still in the two queues, and neither queue exceeds its
  size.\<close>

theorem work_queue_conserves:
  assumes "(work_step cap)\<^sup>*\<^sup>* idle_system s"
  shows "mset (ws_pushed s) = mset (ws_popped s) + mset (submission (ws_queue s)) + mset (fetch (ws_queue s)) \<and>
    length (submission (ws_queue s)) \<le> cap \<and> length (fetch (ws_queue s)) \<le> cap"
  using work_reachable_inv [OF assms] by (auto simp: work_inv_def submission_def fetch_def)

text \<open>When every \<^verbatim>\<open>TryPush\<close> runs without interruption, the queue is first-in first-out.\<close>

inductive serial_step :: "nat \<Rightarrow> 'a work_system \<Rightarrow> 'a work_system \<Rightarrow> bool" for cap where
  serial_push: "TryPush cap x (ws_queue s) = (ok, q') \<Longrightarrow>
    serial_step cap s (s\<lparr>ws_queue := q', ws_pushed := (if ok then ws_pushed s @ [x] else ws_pushed s)\<rparr>)"
| serial_swap: "\<not> ws_draining s \<Longrightarrow>
    serial_step cap s (s\<lparr>ws_queue := LockSubmissionQueue (ws_queue s), ws_draining := True\<rparr>)"
| serial_pop: "ws_draining s \<Longrightarrow> TryPop (ws_queue s) = (Some x, q') \<Longrightarrow>
    serial_step cap s (s\<lparr>ws_queue := q', ws_popped := ws_popped s @ [x]\<rparr>)"
| serial_drained: "ws_draining s \<Longrightarrow> TryPop (ws_queue s) = (None, q') \<Longrightarrow>
    serial_step cap s (s\<lparr>ws_draining := False\<rparr>)"

definition fifo_inv :: "'a work_system \<Rightarrow> bool" where
  "fifo_inv s \<longleftrightarrow> ws_pushed s = ws_popped s @ fetch (ws_queue s) @ submission (ws_queue s) \<and>
     (\<not> ws_draining s \<longrightarrow> fetch (ws_queue s) = [])"

lemma serial_step_inv: "serial_step cap s t \<Longrightarrow> fifo_inv s \<Longrightarrow> fifo_inv t"
proof (induction rule: serial_step.induct)
  case (serial_push x s ok q')
  then show ?case by (auto simp: fifo_inv_def TryPush_def try_push_at_def fetch_def submission_def split: if_splits)
next
  case (serial_pop s x q')
  then show ?case by (auto simp: fifo_inv_def TryPop_def fetch_def submission_def split: list.splits if_splits)
next
  case (serial_drained s q')
  then show ?case by (auto simp: fifo_inv_def TryPop_def split: list.splits)
qed (auto simp: fifo_inv_def LockSubmissionQueue_def fetch_def submission_def)

text \<open>Without such an interruption work is done in the order it was submitted: the pops are a prefix of the
  pushes, and the fetch queue comes before the submission queue.\<close>

theorem work_queue_fifo:
  assumes "(serial_step cap)\<^sup>*\<^sup>* idle_system s"
  shows "ws_pushed s = ws_popped s @ fetch (ws_queue s) @ submission (ws_queue s)"
proof -
  have "fifo_inv s"
    using assms
  proof (induction rule: rtranclp_induct)
    case base
    show ?case by (simp add: fifo_inv_def idle_system_def new_LinearWorkQueue_def fetch_def submission_def)
  qed (rule serial_step_inv)
  then show ?thesis by (simp add: fifo_inv_def)
qed

theorem work_queue_fifo_witness:
  "\<exists>s. (serial_step 8)\<^sup>*\<^sup>* idle_system s \<and> ws_pushed s = [5 :: nat] \<and>
     ws_pushed s = ws_popped s @ fetch (ws_queue s) @ submission (ws_queue s)"
proof -
  define s where "s = idle_system\<lparr>ws_queue := new_LinearWorkQueue\<lparr>lq_first := [5 :: nat]\<rparr>, ws_pushed := [5]\<rparr>"
  have "serial_step 8 idle_system s"
    using serial_step.serial_push [of 8 5 idle_system True]
    by (simp add: s_def idle_system_def new_LinearWorkQueue_def TryPush_def try_push_at_def)
  then have r: "(serial_step 8)\<^sup>*\<^sup>* idle_system s" by blast
  moreover have "ws_pushed s = [5]" by (simp add: s_def)
  ultimately show ?thesis using work_queue_fifo [OF r] by blast
qed

theorem work_queue_conserves_witness:
  "\<exists>s. (work_step 8)\<^sup>*\<^sup>* idle_system s \<and> ws_in_flight s 0 = Some (True, 5 :: nat) \<and>
     mset (ws_pushed s) = mset (ws_popped s) + mset (submission (ws_queue s)) + mset (fetch (ws_queue s))"
proof -
  define s where "s = (idle_system :: nat work_system)\<lparr>ws_in_flight := (\<lambda>_. None)(0 \<mapsto> (True, 5))\<rparr>"
  have "work_step 8 idle_system s"
    using work_step.begin_push [of idle_system 0 8 5]
    by (simp add: s_def idle_system_def new_LinearWorkQueue_def)
  then have r: "(work_step 8)\<^sup>*\<^sup>* idle_system s" by blast
  moreover have "ws_in_flight s 0 = Some (True, 5)" by (simp add: s_def)
  ultimately show ?thesis using work_queue_conserves [OF r] by blast
qed

text \<open>The steps of one producer whose first push is overtaken by two rounds of the consumer.\<close>

definition overtaken :: "'a \<Rightarrow> 'a \<Rightarrow> 'a work_system list" where
  "overtaken x y =
    (let q1 = new_LinearWorkQueue\<lparr>lq_submission_is_first := False\<rparr>;
         q2 = q1\<lparr>lq_first := [x]\<rparr>; q3 = q2\<lparr>lq_second := [y]\<rparr>;
         q4 = q3\<lparr>lq_submission_is_first := True\<rparr>; q5 = q4\<lparr>lq_second := []\<rparr>;
         q6 = q5\<lparr>lq_submission_is_first := False\<rparr>; q7 = q6\<lparr>lq_first := []\<rparr>;
         s0 = idle_system\<lparr>ws_in_flight := (\<lambda>_. None)(0 \<mapsto> (True, x))\<rparr>
     in [s0,
         s0\<lparr>ws_queue := q1, ws_draining := True\<rparr>,
         s0\<lparr>ws_queue := q1, ws_draining := False\<rparr>,
         idle_system\<lparr>ws_queue := q2, ws_pushed := [x]\<rparr>,
         idle_system\<lparr>ws_queue := q2, ws_in_flight := (\<lambda>_. None)(0 \<mapsto> (False, y)), ws_pushed := [x]\<rparr>,
         idle_system\<lparr>ws_queue := q3, ws_pushed := [x, y]\<rparr>,
         idle_system\<lparr>ws_queue := q4, ws_draining := True, ws_pushed := [x, y]\<rparr>,
         idle_system\<lparr>ws_queue := q5, ws_draining := True, ws_pushed := [x, y], ws_popped := [y]\<rparr>,
         idle_system\<lparr>ws_queue := q5, ws_draining := False, ws_pushed := [x, y], ws_popped := [y]\<rparr>,
         idle_system\<lparr>ws_queue := q6, ws_draining := True, ws_pushed := [x, y], ws_popped := [y]\<rparr>,
         idle_system\<lparr>ws_queue := q7, ws_draining := True, ws_pushed := [x, y], ws_popped := [y, x]\<rparr>])"

lemmas work_defs = idle_system_def new_LinearWorkQueue_def LockSubmissionQueue_def try_push_at_def TryPop_def fetch_def

lemma overtaken_first: "0 < cap \<Longrightarrow> work_step cap idle_system (overtaken x y ! 0)"
  using work_step.begin_push [of idle_system 0 cap x] by (simp add: overtaken_def work_defs Let_def)

lemma overtaken_step:
  assumes "1 < cap" "i < 10"
  shows "work_step cap (overtaken x y ! i) (overtaken x y ! Suc i)"
proof -
  have c: "i \<in> {0, 1, 2, 3, 4, 5, 6, 7, 8, 9}" using assms(2) by auto
  have "work_step cap (overtaken x y ! 0) (overtaken x y ! 1)"
    using work_step.swap [of "overtaken x y ! 0" cap] by (simp add: overtaken_def work_defs Let_def)
  moreover have "work_step cap (overtaken x y ! 1) (overtaken x y ! 2)"
    using work_step.drained [of "overtaken x y ! 1" _ cap] by (simp add: overtaken_def work_defs Let_def)
  moreover have "work_step cap (overtaken x y ! 2) (overtaken x y ! 3)"
    using work_step.end_push [of "overtaken x y ! 2" 0 True x cap] assms(1) by (simp add: overtaken_def work_defs Let_def)
  moreover have "work_step cap (overtaken x y ! 3) (overtaken x y ! 4)"
    using work_step.begin_push [of "overtaken x y ! 3" 0 cap y] by (simp add: overtaken_def work_defs Let_def)
  moreover have "work_step cap (overtaken x y ! 4) (overtaken x y ! 5)"
    using work_step.end_push [of "overtaken x y ! 4" 0 False y cap] assms(1) by (simp add: overtaken_def work_defs Let_def)
  moreover have "work_step cap (overtaken x y ! 5) (overtaken x y ! 6)"
    using work_step.swap [of "overtaken x y ! 5" cap] by (simp add: overtaken_def work_defs Let_def)
  moreover have "work_step cap (overtaken x y ! 6) (overtaken x y ! 7)"
    using work_step.pop [of "overtaken x y ! 6" y _ cap] by (simp add: overtaken_def work_defs Let_def)
  moreover have "work_step cap (overtaken x y ! 7) (overtaken x y ! 8)"
    using work_step.drained [of "overtaken x y ! 7" _ cap] by (simp add: overtaken_def work_defs Let_def)
  moreover have "work_step cap (overtaken x y ! 8) (overtaken x y ! 9)"
    using work_step.swap [of "overtaken x y ! 8" cap] by (simp add: overtaken_def work_defs Let_def)
  moreover have "work_step cap (overtaken x y ! 9) (overtaken x y ! 10)"
    using work_step.pop [of "overtaken x y ! 9" x _ cap] by (simp add: overtaken_def work_defs Let_def)
  ultimately show ?thesis using c by (elim insertE emptyE) (simp_all add: numeral_eq_Suc)
qed

text \<open>With the interruption order is lost even for a single producer: if the consumer swaps and drains
  between the producer's read of the queue pointer and its push, the element lands in the queue
  that was just drained, and the producer's next element is taken first.\<close>

theorem work_queue_can_reorder:
  assumes "1 < cap"
  shows "\<exists>s. (work_step cap)\<^sup>*\<^sup>* idle_system s \<and> ws_pushed s = [x, y] \<and> ws_popped s = [y, x]"
proof -
  have "(work_step cap)\<^sup>*\<^sup>* idle_system (overtaken x y ! i)" if "i \<le> 10" for i
    using that
  proof (induction i)
    case 0
    have "0 < cap" using assms by simp
    then show ?case by (intro r_into_rtranclp overtaken_first)
  next
    case (Suc i)
    then show ?case using overtaken_step [OF assms, of i x y] by (simp add: rtranclp.rtrancl_into_rtrancl)
  qed
  then have "(work_step cap)\<^sup>*\<^sup>* idle_system (overtaken x y ! 10)" by simp
  moreover have "ws_pushed (overtaken x y ! 10) = [x, y]" "ws_popped (overtaken x y ! 10) = [y, x]"
    by (simp_all add: overtaken_def Let_def)
  ultimately show ?thesis by blast
qed

theorem work_queue_can_reorder_witness:
  "\<exists>s. (work_step 65536)\<^sup>*\<^sup>* idle_system s \<and> ws_pushed s = [1, 2 :: nat] \<and> ws_popped s = [2, 1]"
  using work_queue_can_reorder [of 65536 1 "2 :: nat"] by simp

section \<open>LinearWorker\<close>

text \<open>One round of \<^verbatim>\<open>WorkerMain\<close>. The input of a round is what the queue gave and the readings of the clock
  (at the top of the round and after \<^verbatim>\<open>UpdateContext\<close>) and the answer of the virtual \<^verbatim>\<open>Update\<close>; the
  output is the calls of the virtual functions.\<close>

datatype 'a worker_call =
  CallUpdateContext "'a list" int int | CallUpdate int int | CallUpdateEveryTick int | CallSleep

record worker_state =
  lw_run :: bool
  lw_last_update_time :: int
  lw_last_update_context_time :: int

definition new_worker :: worker_state where
  "new_worker = \<lparr>lw_run = True, lw_last_update_time = 0, lw_last_update_context_time = 0\<rparr>"

definition worker_round ::
  "int \<Rightarrow> 'a list \<times> int \<times> int \<times> bool \<Rightarrow> worker_state \<Rightarrow> 'a worker_call list \<times> worker_state" where
  "worker_round update_tick input w =
    (let (contexts, current_time, later_time, answer) = input;
         calls1 = (if contexts \<noteq> []
                   then [CallUpdateContext contexts current_time (current_time - lw_last_update_context_time w)] else []);
         w1 = (if contexts \<noteq> [] then w\<lparr>lw_last_update_context_time := later_time\<rparr> else w);
         due = (current_time - lw_last_update_time w1 \<ge> update_tick);
         calls2 = (if due then [CallUpdate current_time (current_time - lw_last_update_time w1)] else []);
         w2 = (if due then w1\<lparr>lw_run := answer, lw_last_update_time := current_time\<rparr> else w1);
         no_sleep = (contexts \<noteq> [] \<or> due)
     in (calls1 @ calls2 @ [CallUpdateEveryTick current_time] @ (if no_sleep then [] else [CallSleep]), w2))"

fun worker_main ::
  "int \<Rightarrow> ('a list \<times> int \<times> int \<times> bool) list \<Rightarrow> worker_state \<Rightarrow> 'a worker_call list \<times> worker_state" where
  "worker_main tick [] w = ([], w)"
| "worker_main tick (i # is) w =
     (if lw_run w then let (cs, w') = worker_round tick i w; (ds, w'') = worker_main tick is w' in (cs @ ds, w'')
      else ([], w))"

fun submitted :: "'a worker_call list \<Rightarrow> 'a list" where
  "submitted [] = []"
| "submitted (CallUpdateContext xs _ _ # cs) = xs @ submitted cs"
| "submitted (_ # cs) = submitted cs"

fun simulated :: "'a worker_call list \<Rightarrow> int" where
  "simulated [] = 0"
| "simulated (CallUpdate _ d # cs) = d + simulated cs"
| "simulated (_ # cs) = simulated cs"

lemma submitted_append: "submitted (cs @ ds) = submitted cs @ submitted ds"
  by (induction cs rule: submitted.induct) auto

lemma simulated_append: "simulated (cs @ ds) = simulated cs + simulated ds"
  by (induction cs rule: simulated.induct) auto

lemma worker_round_calls:
  assumes "worker_round tick (contexts, t, t', answer) w = (cs, w')"
  shows "submitted cs = contexts" "simulated cs = lw_last_update_time w' - lw_last_update_time w"
  using assms by (auto simp: worker_round_def Let_def split: if_splits)

lemma worker_main_time:
  "worker_main tick is w = (cs, w') \<Longrightarrow> simulated cs = lw_last_update_time w' - lw_last_update_time w"
proof (induction "is" arbitrary: w cs)
  case (Cons i "is")
  obtain a b c d where i: "i = (a, b, c, d)" by (cases i)
  obtain c1 w1 where r: "worker_round tick i w = (c1, w1)" by (cases "worker_round tick i w")
  obtain c2 where m: "worker_main tick is w1 = (c2, snd (worker_main tick is w1))" by (metis prod.collapse)
  show ?case
    using Cons.prems Cons.IH m worker_round_calls(2) [OF r [unfolded i]]
    by (cases "lw_run w") (auto simp: r simulated_append split: prod.splits)
qed simp

lemma worker_main_contexts:
  "worker_main tick is w = (cs, w') \<Longrightarrow> \<exists>n \<le> length is. submitted cs = concat (map fst (take n is)) \<and>
    (n < length is \<longrightarrow> \<not> lw_run w')"
proof (induction "is" arbitrary: w cs)
  case (Cons i "is")
  obtain a b c d where i: "i = (a, b, c, d)" by (cases i)
  obtain c1 w1 where r: "worker_round tick i w = (c1, w1)" by (cases "worker_round tick i w")
  show ?case
  proof (cases "lw_run w")
    case True
    obtain c2 where m: "worker_main tick is w1 = (c2, w')" "cs = c1 @ c2"
      using Cons.prems True by (auto simp: r split: prod.splits)
    then obtain n where "n \<le> length is" "submitted c2 = concat (map fst (take n is))" "n < length is \<longrightarrow> \<not> lw_run w'"
      using Cons.IH by blast
    then show ?thesis
      using worker_round_calls(1) [OF r [unfolded i]] m(2)
      by (intro exI [of _ "Suc n"]) (simp add: submitted_append i)
  next
    case False
    then show ?thesis using Cons.prems by (intro exI [of _ 0]) auto
  qed
qed auto



end
