(* ===== verification/Float32.thy ===== *)
theory Float32
  imports Prelude "HOL-Library.Log_Nat"
begin

text \<open>
  \<^verbatim>\<open>CoordinateUnit\<close> is \<^verbatim>\<open>float\<close>, the IEEE 754 binary32 format. A finite float is
  represented by its exact value, a rational number; every arithmetic operation computes
  the exact result and rounds it to the nearest float, ties to even (\<open>fl32\<close>), with
  gradual underflow below \<open>2 ^ -126\<close>. Infinities, NaN and the sign of zero are not
  represented, so the model does not cover coordinates beyond \<open>2 ^ 128\<close>.
  The facts the coordinate theories rest on are that \<open>fl32\<close> is monotone and leaves
  every number with a 24-bit significand unchanged.
\<close>

section \<open>Rounding to an integer, ties to even\<close>

type_synonym CoordinateUnit = rat

definition rne :: "rat \<Rightarrow> int" where
  "rne t = (let f = \<lfloor>t\<rfloor>; d = t - of_int f in
     if d < 1 / 2 then f else if 1 / 2 < d then f + 1 else if even f then f else f + 1)"

lemma rne_floor_bounds: "\<lfloor>t\<rfloor> \<le> rne t \<and> rne t \<le> \<lfloor>t\<rfloor> + 1"
  by (simp add: rne_def Let_def)

lemma rne_of_int [simp]: "rne (of_int n) = n"
  by (simp add: rne_def Let_def)

lemma rne_mono: "s \<le> t \<Longrightarrow> rne s \<le> rne t"
proof -
  assume st: "s \<le> t"
  show ?thesis
  proof (cases "\<lfloor>s\<rfloor> = \<lfloor>t\<rfloor>")
    case True
    with st show ?thesis by (auto simp: rne_def Let_def)
  next
    case False
    with st have "\<lfloor>s\<rfloor> + 1 \<le> \<lfloor>t\<rfloor>"
      using floor_mono [OF st] by linarith
    then show ?thesis
      using rne_floor_bounds [of s] rne_floor_bounds [of t] by linarith
  qed
qed

lemma rne_le: "t \<le> of_int n \<Longrightarrow> rne t \<le> n"
  using rne_mono [of t "of_int n"] by simp

lemma le_rne: "of_int n \<le> t \<Longrightarrow> n \<le> rne t"
  using rne_mono [of "of_int n" t] by simp

section \<open>The binade of a positive number\<close>

definition ilog2 :: "rat \<Rightarrow> int" where
  "ilog2 x = (let (a, b) = quotient_of x;
                  k = int (floorlog 2 (nat a)) - int (floorlog 2 (nat b))
              in if 2 powi k \<le> x then k else k - 1)"

lemma floorlog2_bounds:
  assumes "0 < (n :: int)"
  shows "(2::rat) powi (int (floorlog 2 (nat n)) - 1) \<le> of_int n"
    and "of_int n < (2::rat) powi (int (floorlog 2 (nat n)))"
proof -
  from assms have pos: "0 < nat n" by simp
  have b: "2 ^ (floorlog 2 (nat n) - 1) \<le> nat n \<and> nat n < 2 ^ floorlog 2 (nat n)"
    using floorlog_bounds [of "nat n" 2] pos by simp
  have f: "0 < floorlog 2 (nat n)"
    using pos by (simp add: floorlog_def)
  have "(of_nat (2 ^ (floorlog 2 (nat n) - 1)) :: rat) \<le> of_nat (nat n)"
    using b of_nat_le_iff by blast
  moreover have "(of_nat (2 ^ (floorlog 2 (nat n) - 1)) :: rat) =
      2 powi (int (floorlog 2 (nat n)) - 1)"
    using f by (simp add: power_int_def nat_diff_distrib)
  ultimately show "(2::rat) powi (int (floorlog 2 (nat n)) - 1) \<le> of_int n"
    using assms by (metis of_int_of_nat_eq int_nat_eq order_less_imp_le)
  have "(of_nat (nat n) :: rat) < of_nat (2 ^ floorlog 2 (nat n))"
    using b of_nat_less_iff by blast
  then show "of_int n < (2::rat) powi (int (floorlog 2 (nat n)))"
    using assms by simp
qed

lemma ilog2_bounds:
  assumes "0 < x"
  shows "2 powi ilog2 x \<le> x" and "x < 2 powi (ilog2 x + 1)"
proof -
  obtain a b where ab: "quotient_of x = (a, b)" by (cases "quotient_of x")
  then have bpos: "0 < b" by (rule quotient_of_denom_pos)
  have x: "x = of_int a / of_int b" using ab by (rule quotient_of_div)
  with assms bpos have apos: "0 < a" by (simp add: zero_less_divide_iff)
  define la lb where "la = int (floorlog 2 (nat a))" and "lb = int (floorlog 2 (nat b))"
  define k where "k = la - lb"
  have A: "(2::rat) powi (la - 1) \<le> of_int a" "of_int a < (2::rat) powi la"
    using floorlog2_bounds [OF apos] by (simp_all add: la_def)
  have B: "(2::rat) powi (lb - 1) \<le> of_int b" "of_int b < (2::rat) powi lb"
    using floorlog2_bounds [OF bpos] by (simp_all add: lb_def)
  have "(2::rat) powi (k - 1) = 2 powi (la - 1) / 2 powi lb"
    by (simp add: k_def power_int_diff)
  also have "\<dots> \<le> x"
    unfolding x using A B bpos apos by (intro frac_le) auto
  finally have lo: "(2::rat) powi (k - 1) \<le> x" .
  have "x < 2 powi la / 2 powi (lb - 1)"
    unfolding x using A B bpos apos by (intro frac_less) auto
  also have "\<dots> = 2 powi (k + 1)"
    by (simp add: k_def power_int_diff power_int_add)
  finally have hi: "x < 2 powi (k + 1)" .
  have e: "ilog2 x = (if 2 powi k \<le> x then k else k - 1)"
    by (simp add: ilog2_def ab k_def la_def lb_def)
  show "2 powi ilog2 x \<le> x" using lo e by simp
  show "x < 2 powi (ilog2 x + 1)" using hi e by auto
qed

lemma powi2_le_iff [simp]: "(2::rat) powi m \<le> 2 powi n \<longleftrightarrow> m \<le> n"
  using power_int_increasing [of m n "2::rat"] power_int_strict_increasing [of n m "2::rat"]
  by (auto simp: not_le [symmetric])

lemma powi2_less_iff [simp]: "(2::rat) powi m < 2 powi n \<longleftrightarrow> m < n"
  by (meson linorder_not_less powi2_le_iff)

lemma ilog2_mono:
  assumes "0 < x" "x \<le> y"
  shows "ilog2 x \<le> ilog2 y"
proof -
  have "(2::rat) powi ilog2 x < 2 powi (ilog2 y + 1)"
    using ilog2_bounds(1) [OF assms(1)] ilog2_bounds(2) [of y] assms by linarith
  then show ?thesis by simp
qed

section \<open>Rounding to binary32\<close>

definition ulp_exp :: "rat \<Rightarrow> int" where
  "ulp_exp x = max (- 149) (ilog2 x - 23)"

definition fl32_pos :: "rat \<Rightarrow> rat" where
  "fl32_pos x = (let e = ulp_exp x in of_int (rne (x / 2 powi e)) * 2 powi e)"

definition fl32 :: "rat \<Rightarrow> rat" where
  "fl32 x = (if x = 0 then 0 else if 0 < x then fl32_pos x else - fl32_pos (- x))"

text \<open>The arithmetic of \<^verbatim>\<open>float\<close>.\<close>

definition fadd :: "CoordinateUnit \<Rightarrow> CoordinateUnit \<Rightarrow> CoordinateUnit" where
  "fadd x y = fl32 (x + y)"

definition fsub :: "CoordinateUnit \<Rightarrow> CoordinateUnit \<Rightarrow> CoordinateUnit" where
  "fsub x y = fl32 (x - y)"

definition fmul :: "CoordinateUnit \<Rightarrow> CoordinateUnit \<Rightarrow> CoordinateUnit" where
  "fmul x y = fl32 (x * y)"

definition fdiv :: "CoordinateUnit \<Rightarrow> CoordinateUnit \<Rightarrow> CoordinateUnit" where
  "fdiv x y = fl32 (x / y)"

text \<open>\<^verbatim>\<open>static_cast<int>(float)\<close>: truncation; outside the range of \<^verbatim>\<open>int32_t\<close> the
  conversion instruction of the target gives the smallest \<^verbatim>\<open>int32_t\<close>.\<close>

definition trunc_rat :: "rat \<Rightarrow> int" where
  "trunc_rat x = (if 0 \<le> x then \<lfloor>x\<rfloor> else \<lceil>x\<rceil>)"

definition to_int32 :: "CoordinateUnit \<Rightarrow> int" where
  "to_int32 x = (let t = trunc_rat x in
     if - 2147483648 \<le> t \<and> t \<le> 2147483647 then t else - 2147483648)"

lemmas float_ops = fadd_def fsub_def fmul_def fdiv_def

section \<open>Exactness and monotonicity\<close>

lemma powi2_pos [simp]: "0 < (2::rat) powi e"
  by simp

lemma powi2_shift: "u \<le> e \<Longrightarrow> (2::rat) powi e = of_int (2 ^ nat (e - u)) * 2 powi u"
proof -
  assume "u \<le> e"
  then have "(2::rat) powi e = 2 powi (e - u) * 2 powi u"
    by (simp flip: power_int_add)
  also have "(2::rat) powi (e - u) = of_int (2 ^ nat (e - u))"
    using \<open>u \<le> e\<close> by (simp add: power_int_def)
  finally show ?thesis .
qed

text \<open>A multiple of the spacing of \<open>x\<close>'s binade that bounds \<open>x\<close> bounds its rounding.\<close>

lemma fl32_pos_ge:
  assumes "ulp_exp x \<le> e" "of_int n * 2 powi e \<le> x"
  shows "of_int n * 2 powi e \<le> fl32_pos x"
proof -
  define u where "u = ulp_exp x"
  have p: "of_int n * (2::rat) powi e = of_int (n * 2 ^ nat (e - u)) * 2 powi u"
    using powi2_shift [OF assms(1)] by (simp add: u_def)
  have "of_int (n * 2 ^ nat (e - u)) \<le> x / 2 powi u"
    using assms(2) unfolding p by (simp add: field_simps)
  then have "n * 2 ^ nat (e - u) \<le> rne (x / 2 powi u)" by (rule le_rne)
  then have "(of_int (n * 2 ^ nat (e - u)) :: rat) * 2 powi u \<le> of_int (rne (x / 2 powi u)) * 2 powi u"
    by (intro mult_right_mono) (simp_all only: of_int_le_iff, simp)
  then show ?thesis unfolding p by (simp add: fl32_pos_def Let_def u_def)
qed

lemma fl32_pos_le:
  assumes "ulp_exp x \<le> e" "x \<le> of_int n * 2 powi e"
  shows "fl32_pos x \<le> of_int n * 2 powi e"
proof -
  define u where "u = ulp_exp x"
  have p: "of_int n * (2::rat) powi e = of_int (n * 2 ^ nat (e - u)) * 2 powi u"
    using powi2_shift [OF assms(1)] by (simp add: u_def)
  have "x / 2 powi u \<le> of_int (n * 2 ^ nat (e - u))"
    using assms(2) unfolding p by (simp add: field_simps)
  then have "rne (x / 2 powi u) \<le> n * 2 ^ nat (e - u)" by (rule rne_le)
  then have "of_int (rne (x / 2 powi u)) * 2 powi u \<le> (of_int (n * 2 ^ nat (e - u)) :: rat) * 2 powi u"
    by (intro mult_right_mono) (simp_all only: of_int_le_iff, simp)
  then show ?thesis unfolding p by (simp add: fl32_pos_def Let_def u_def)
qed

lemma fl32_pos_mono:
  assumes "0 < x" "x \<le> y"
  shows "fl32_pos x \<le> fl32_pos y"
proof (cases "ulp_exp x = ulp_exp y")
  case True
  have "rne (x / 2 powi ulp_exp x) \<le> rne (y / 2 powi ulp_exp x)"
    using assms by (intro rne_mono divide_right_mono) auto
  then show ?thesis
    using True by (simp add: fl32_pos_def Let_def)
next
  case False
  with assms ilog2_mono [OF assms] have lt: "ulp_exp x < ulp_exp y"
    by (auto simp: ulp_exp_def)
  define e where "e = ulp_exp y"
  have e: "e = ilog2 y - 23" "ilog2 x - 23 < e"
    using lt by (auto simp: ulp_exp_def e_def)
  have P: "of_int (2 ^ 23) * (2::rat) powi e = 2 powi ilog2 y"
    using e by (simp add: power_int_diff)
  have "x < 2 powi (ilog2 x + 1)" using assms(1) by (rule ilog2_bounds)
  also have "\<dots> \<le> 2 powi ilog2 y" using e by simp
  finally have "fl32_pos x \<le> of_int (2 ^ 23) * 2 powi e"
    using lt P by (intro fl32_pos_le) (simp_all add: e_def)
  also have "\<dots> \<le> fl32_pos y"
    using P ilog2_bounds(1) [of y] assms by (intro fl32_pos_ge) (simp_all add: e_def)
  finally show ?thesis .
qed

lemma fl32_pos_nonneg: "0 < x \<Longrightarrow> 0 \<le> fl32_pos x"
  using fl32_pos_ge [of x "ulp_exp x" 0] by simp

theorem fl32_mono: "x \<le> y \<Longrightarrow> fl32 x \<le> fl32 y"
proof -
  assume xy: "x \<le> y"
  consider "0 < x" | "x \<le> 0" "0 \<le> y" | "y < 0" by linarith
  then show ?thesis
  proof cases
    case 1
    with xy show ?thesis by (simp add: fl32_def fl32_pos_mono)
  next
    case 2
    then have "fl32 x \<le> 0" "0 \<le> fl32 y"
      using fl32_pos_nonneg [of "- x"] fl32_pos_nonneg [of y] by (auto simp: fl32_def)
    then show ?thesis by simp
  next
    case 3
    with xy show ?thesis using fl32_pos_mono [of "- y" "- x"] by (simp add: fl32_def)
  qed
qed

lemma fl32_uminus [simp]: "fl32 (- x) = - fl32 x"
  by (simp add: fl32_def)

lemma fl32_0 [simp]: "fl32 0 = 0"
  by (simp add: fl32_def)

lemma fl32_pos_exact:
  assumes "0 < x" "x = of_int m * 2 powi e" "m < 2 ^ 24" "- 149 \<le> e"
  shows "fl32_pos x = x"
proof -
  have "ulp_exp x \<le> e"
  proof (rule ccontr)
    assume "\<not> ulp_exp x \<le> e"
    with assms(4) have e: "e + 1 \<le> ilog2 x - 23" by (auto simp: ulp_exp_def)
    have "(2::rat) powi (e + 24) \<le> 2 powi ilog2 x" using e by simp
    also have "\<dots> \<le> x" using assms(1) by (rule ilog2_bounds)
    also have "\<dots> < of_int (2 ^ 24) * 2 powi e"
      unfolding assms(2) by (intro mult_strict_right_mono) (simp_all only: of_int_less_iff assms(3) powi2_pos)
    also have "\<dots> = 2 powi (e + 24)" by (simp add: power_int_add)
    finally show False by simp
  qed
  then show ?thesis
    using fl32_pos_ge [of x e m] fl32_pos_le [of x e m] assms(2) by simp
qed

text \<open>A number with a significand of at most 24 bits is a float: rounding leaves it.\<close>

theorem fl32_exact:
  assumes "x = of_int m * 2 powi e" "\<bar>m\<bar> < 2 ^ 24" "- 149 \<le> e"
  shows "fl32 x = x"
proof -
  consider "x = 0" | "0 < x" | "x < 0" by linarith
  then show ?thesis
  proof cases
    case 2
    then show ?thesis using fl32_pos_exact [of x m e] assms by (simp add: fl32_def)
  next
    case 3
    then show ?thesis using fl32_pos_exact [of "- x" "- m" e] assms by (simp add: fl32_def)
  qed simp
qed

lemma fl32_of_int: "\<bar>n\<bar> < 2 ^ 24 \<Longrightarrow> fl32 (of_int n) = of_int n"
  using fl32_exact [of "of_int n" n 0] by simp

lemma fl32_numeral [simp]: "(numeral n :: int) < 16777216 \<Longrightarrow> fl32 (numeral n) = numeral n"
  using fl32_of_int [of "numeral n"] by simp

lemma fl32_1 [simp]: "fl32 1 = 1"
  using fl32_of_int [of 1] by simp

lemma fl32_half [simp]: "fl32 (1 / 2) = 1 / 2"
  by (rule fl32_exact [of _ 1 "-1"]) (simp_all add: power_int_minus)

text \<open>A float bounds the rounding of whatever it bounds.\<close>

lemma fl32_le: "x \<le> r \<Longrightarrow> fl32 r = r \<Longrightarrow> fl32 x \<le> r"
  using fl32_mono [of x r] by simp

lemma le_fl32: "r \<le> x \<Longrightarrow> fl32 r = r \<Longrightarrow> r \<le> fl32 x"
  using fl32_mono [of r x] by simp

lemma fl32_lessD: "fl32 x < r \<Longrightarrow> fl32 r = r \<Longrightarrow> x < r"
  using le_fl32 [of r x] by linarith

lemma less_fl32D: "r < fl32 x \<Longrightarrow> fl32 r = r \<Longrightarrow> r < x"
  using fl32_le [of x r] by linarith

lemma fl32_nonneg: "0 \<le> x \<Longrightarrow> 0 \<le> fl32 x"
  using fl32_mono [of 0 x] by simp

lemma trunc_rat_mono: "x \<le> y \<Longrightarrow> trunc_rat x \<le> trunc_rat y"
  by (auto simp: trunc_rat_def floor_mono ceiling_mono intro: order_trans [of _ 0])

lemma to_int32_small: "\<bar>x\<bar> \<le> 2147483647 \<Longrightarrow> to_int32 x = trunc_rat x"
proof -
  assume "\<bar>x\<bar> \<le> 2147483647"
  then have "trunc_rat (- 2147483647) \<le> trunc_rat x" "trunc_rat x \<le> trunc_rat 2147483647"
    by (auto intro: trunc_rat_mono)
  then show ?thesis by (simp add: to_int32_def trunc_rat_def)
qed

section \<open>The rounding error\<close>

lemma rne_error: "\<bar>of_int (rne t) - t\<bar> \<le> 1 / 2"
proof -
  have "of_int \<lfloor>t\<rfloor> \<le> t" "t < of_int \<lfloor>t\<rfloor> + 1" by linarith+
  then show ?thesis by (auto simp: rne_def Let_def abs_le_iff)
qed

lemma fl32_pos_error:
  assumes "0 < x" "x < 2 powi k" "- 125 \<le> k"
  shows "\<bar>fl32_pos x - x\<bar> \<le> 2 powi (k - 25)"
proof -
  define e where "e = ulp_exp x"
  have "(2::rat) powi ilog2 x < 2 powi k" using ilog2_bounds(1) [OF assms(1)] assms(2) by linarith
  then have e: "e \<le> k - 24" using assms(3) by (simp add: e_def ulp_exp_def)
  have "fl32_pos x - x = (of_int (rne (x / 2 powi e)) - x / 2 powi e) * 2 powi e"
    by (simp add: fl32_pos_def e_def Let_def left_diff_distrib)
  then have "\<bar>fl32_pos x - x\<bar> = \<bar>of_int (rne (x / 2 powi e)) - x / 2 powi e\<bar> * 2 powi e"
    by (simp add: abs_mult)
  also have "\<dots> \<le> 1 / 2 * 2 powi e"
    by (intro mult_right_mono rne_error) simp
  also have "\<dots> = 2 powi (e - 1)" by (simp add: power_int_diff)
  also have "\<dots> \<le> 2 powi (k - 25)" using e by simp
  finally show ?thesis .
qed

theorem fl32_error:
  assumes "\<bar>x\<bar> < 2 powi k" "- 125 \<le> k"
  shows "\<bar>fl32 x - x\<bar> \<le> 2 powi (k - 25)"
proof -
  consider "x = 0" | "0 < x" | "x < 0" by linarith
  then show ?thesis
  proof cases
    case 2
    then show ?thesis using assms fl32_pos_error [of x k] by (simp add: fl32_def)
  next
    case 3
    then show ?thesis using assms fl32_pos_error [of "- x" k] by (simp add: fl32_def abs_minus_commute)
  qed simp
qed

lemma fl32_error_17: "\<bar>x\<bar> < 131072 \<Longrightarrow> \<bar>fl32 x - x\<bar> \<le> 1 / 256"
  using fl32_error [of x 17] by (simp add: power_int_minus)

end
