(* ===== verification/Coordinate.thy ===== *)
theory Coordinate
  imports Float32
begin

text \<open>
  The static geometry of the game world: \<^verbatim>\<open>common/game/coordinate/Base.h\<close> and
  \<^verbatim>\<open>common/game/coordinate/SectorGrid.h\<close>. The world is a grid of 5 by 5 square sectors of
  5000 units; the sector in the centre has its left lower corner at the origin. The theory
  holds the tables and the pure functions on sector numbers, directions and positions, and
  shows that the tables agree with the geometry: neighbours are translates of each other,
  opposite steps cancel, and \<open>GetSectorByPosition\<close> inverts
  \<open>GetSectorFixtureRectangle\<close>.
\<close>

section \<open>Base.h\<close>

record Vector2 =
  vec_x :: CoordinateUnit
  vec_y :: CoordinateUnit

type_synonym Size = Vector2

definition vec2 :: "CoordinateUnit \<Rightarrow> CoordinateUnit \<Rightarrow> Vector2" where
  "vec2 a b = \<lparr>vec_x = a, vec_y = b\<rparr>"

definition vec_scale :: "Vector2 \<Rightarrow> CoordinateUnit \<Rightarrow> Vector2" where
  "vec_scale v k = vec2 (fmul (vec_x v) k) (fmul (vec_y v) k)"

definition vec_plus :: "Vector2 \<Rightarrow> Vector2 \<Rightarrow> Vector2" where
  "vec_plus v w = vec2 (fadd (vec_x v) (vec_x w)) (fadd (vec_y v) (vec_y w))"

record FixtureRectangle =
  up :: CoordinateUnit
  down :: CoordinateUnit
  left :: CoordinateUnit
  right :: CoordinateUnit

definition make_rectangle :: "Vector2 \<Rightarrow> Size \<Rightarrow> CoordinateUnit \<Rightarrow> FixtureRectangle" where
  "make_rectangle position sz anchor_point =
     \<lparr>up = fadd (vec_y position) (fmul (vec_y sz) (fsub 1 anchor_point)),
      down = fsub (vec_y position) (fmul (vec_y sz) anchor_point),
      left = fsub (vec_x position) (fmul (vec_x sz) anchor_point),
      right = fadd (vec_x position) (fmul (vec_x sz) (fsub 1 anchor_point))\<rparr>"

definition LeftDown :: "FixtureRectangle \<Rightarrow> Vector2" where
  "LeftDown r = vec2 (left r) (down r)"

definition Center :: "FixtureRectangle \<Rightarrow> Vector2" where
  "Center r = vec2 (fadd (left r) (fdiv (fsub (right r) (left r)) 2))
                   (fadd (down r) (fdiv (fsub (up r) (down r)) 2))"

record Indexer2 =
  row :: int
  column :: int

definition indexer :: "int \<Rightarrow> int \<Rightarrow> Indexer2" where
  "indexer r c = \<lparr>row = r, column = c\<rparr>"

datatype Direction =
  DirUp | DirUpRight | DirRight | DirDownRight | DirDown | DirDownLeft | DirLeft | DirUpLeft | DirMax

datatype FixtureLocation = LocIn | LocGray | LocLeave | LocMax

fun dir_index :: "Direction \<Rightarrow> nat" where
  "dir_index DirUp = 0"
| "dir_index DirUpRight = 1"
| "dir_index DirRight = 2"
| "dir_index DirDownRight = 3"
| "dir_index DirDown = 4"
| "dir_index DirDownLeft = 5"
| "dir_index DirLeft = 6"
| "dir_index DirUpLeft = 7"
| "dir_index DirMax = 8"

definition INVALID_SECTOR :: u64 where
  "INVALID_SECTOR = - 1"

record SectorInfo =
  si_sector_id :: u64
  si_grid_index :: Indexer2

definition sector_info :: "u64 \<Rightarrow> int \<times> int \<Rightarrow> SectorInfo" where
  "sector_info s rc = \<lparr>si_sector_id = s, si_grid_index = indexer (fst rc) (snd rc)\<rparr>"

definition ChunkSize :: CoordinateUnit where "ChunkSize = 100"

definition SectorSize :: Size where
  "SectorSize = vec2 (fmul 50 ChunkSize) (fmul 50 ChunkSize)"

definition SectorGrayZoneChunk :: CoordinateUnit where "SectorGrayZoneChunk = 10"

definition ForceConstant :: CoordinateUnit where "ForceConstant = 500"

definition SectorGridWidth :: int where "SectorGridWidth = 5"

definition SectorGridHeight :: int where "SectorGridHeight = 5"

definition SectorGrid :: "SectorInfo list list" where
  "SectorGrid =
    [[sector_info 0 (0, 0), sector_info 1 (0, 1), sector_info 2 (0, 2), sector_info 3 (0, 3),
      sector_info 4 (0, 4)],
     [sector_info 5 (1, 0), sector_info 6 (1, 1), sector_info 7 (1, 2), sector_info 8 (1, 3),
      sector_info 9 (1, 4)],
     [sector_info 10 (2, 0), sector_info 11 (2, 1), sector_info 12 (2, 2), sector_info 13 (2, 3),
      sector_info 14 (2, 4)],
     [sector_info 15 (3, 0), sector_info 16 (3, 1), sector_info 17 (3, 2), sector_info 18 (3, 3),
      sector_info 19 (3, 4)],
     [sector_info 20 (4, 0), sector_info 21 (4, 1), sector_info 22 (4, 2), sector_info 23 (4, 3),
      sector_info 24 (4, 4)]]"

definition SectorGridList :: "SectorInfo list" where
  "SectorGridList =
    [SectorGrid ! 0 ! 0, SectorGrid ! 0 ! 1, SectorGrid ! 0 ! 2, SectorGrid ! 0 ! 3, SectorGrid ! 0 ! 4,
     SectorGrid ! 1 ! 0, SectorGrid ! 1 ! 1, SectorGrid ! 1 ! 2, SectorGrid ! 1 ! 3, SectorGrid ! 1 ! 4,
     SectorGrid ! 2 ! 0, SectorGrid ! 2 ! 1, SectorGrid ! 2 ! 2, SectorGrid ! 2 ! 3, SectorGrid ! 2 ! 4,
     SectorGrid ! 3 ! 0, SectorGrid ! 3 ! 1, SectorGrid ! 3 ! 2, SectorGrid ! 3 ! 3, SectorGrid ! 3 ! 4,
     SectorGrid ! 4 ! 0, SectorGrid ! 4 ! 1, SectorGrid ! 4 ! 2, SectorGrid ! 4 ! 3, SectorGrid ! 4 ! 4]"

definition SectorNearDirectionGrid :: "Direction list list" where
  "SectorNearDirectionGrid =
    [[DirMax, DirUp, DirMax],
     [DirUp, DirUpRight, DirRight],
     [DirMax, DirRight, DirMax],
     [DirRight, DirDownRight, DirDown],
     [DirMax, DirDown, DirMax],
     [DirDown, DirDownLeft, DirLeft],
     [DirMax, DirLeft, DirMax],
     [DirLeft, DirUpLeft, DirUp],
     [DirMax, DirMax, DirMax]]"

definition PhaseForce :: "Indexer2 list" where
  "PhaseForce =
    [indexer 1 0, indexer 1 1, indexer 0 1, indexer (- 1) 1, indexer (- 1) 0,
     indexer (- 1) (- 1), indexer 0 (- 1), indexer 1 (- 1), indexer 0 0]"

definition PhaseGrid :: "Direction list list" where
  "PhaseGrid =
    [[DirUpLeft, DirUp, DirUpRight],
     [DirLeft, DirMax, DirRight],
     [DirDownLeft, DirDown, DirDownRight]]"

definition CenterSector :: SectorInfo where
  "CenterSector = SectorGrid ! nat (SectorGridWidth div 2) ! nat (SectorGridHeight div 2)"

section \<open>SectorGrid.h\<close>

definition GetSectorFixtureRectangle :: "u64 \<Rightarrow> FixtureRectangle res" where
  "GetSectorFixtureRectangle sector_id = rbind (array_at SectorGridList (unat sector_id)) (\<lambda>info.
     Inr (make_rectangle
       (vec2 (fmul (of_int (column (si_grid_index info) - column (si_grid_index CenterSector)))
                   (vec_x SectorSize))
             (fmul (of_int (row (si_grid_index CenterSector) - row (si_grid_index info)))
                   (vec_y SectorSize)))
       SectorSize 0))"

definition GetSectorAbsFixtureRectangle :: "u64 \<Rightarrow> FixtureRectangle res" where
  "GetSectorAbsFixtureRectangle sector_id = rbind (GetSectorFixtureRectangle sector_id) (\<lambda>rect.
     let left_down = LeftDown rect in
     Inr (make_rectangle
       (vec2 (fadd (vec_x left_down)
                   (fmul (of_int (column (si_grid_index CenterSector))) (vec_x SectorSize)))
             (fadd (vec_y left_down)
                   (fmul (of_int (SectorGridWidth - row (si_grid_index CenterSector) - 1))
                         (vec_y SectorSize))))
       SectorSize 0))"

definition GetSectorByPosition :: "Vector2 \<Rightarrow> u64" where
  "GetSectorByPosition position =
    (let px = fadd (vec_x position)
                (fmul (of_int (column (si_grid_index CenterSector))) (vec_x SectorSize));
         py = fadd (vec_y position)
                (fmul (of_int (row (si_grid_index CenterSector))) (vec_y SectorSize));
         r = SectorGridHeight - to_int32 (fdiv py (vec_y SectorSize)) - 1;
         c = to_int32 (fdiv px (vec_x SectorSize))
     in if r \<ge> SectorGridHeight \<or> r < 0 \<or> c \<ge> SectorGridWidth \<or> c < 0
        then INVALID_SECTOR
        else si_sector_id (SectorGrid ! nat r ! nat c))"

definition GetNextSector :: "u64 \<Rightarrow> Direction \<Rightarrow> u64 res" where
  "GetNextSector base_sector_id direction =
     rbind (array_at SectorGridList (unat base_sector_id)) (\<lambda>info.
       let base_index = si_grid_index info;
           direction_force = PhaseForce ! dir_index direction;
           r = row base_index - row direction_force;
           c = column base_index + column direction_force
       in if r < 0 \<or> r \<ge> SectorGridHeight \<or> c < 0 \<or> c \<ge> SectorGridWidth
          then Inr INVALID_SECTOR
          else Inr (si_sector_id (SectorGrid ! nat r ! nat c)))"

text \<open>The loop of \<^verbatim>\<open>GetNearSectors\<close> fills the array of three from its front; the unused
  entries keep \<^verbatim>\<open>INVALID_SECTOR\<close>.\<close>

fun near_loop :: "u64 \<Rightarrow> Direction list \<Rightarrow> nat \<Rightarrow> u64 list \<Rightarrow> u64 list res" where
  "near_loop base [] index sectors = Inr sectors"
| "near_loop base (d # ds) index sectors =
     (if d = DirMax then near_loop base ds index sectors
      else rbind (GetNextSector base d) (\<lambda>sector_id.
        if sector_id = INVALID_SECTOR then near_loop base ds index sectors
        else near_loop base ds (Suc index) (sectors[index := sector_id])))"

definition GetNearSectors :: "u64 \<Rightarrow> Direction \<Rightarrow> u64 list res" where
  "GetNearSectors base_sector_id direction =
     rbind (array_at SectorGridList (unat base_sector_id)) (\<lambda>_.
       near_loop base_sector_id (SectorNearDirectionGrid ! dir_index direction) 0
         [INVALID_SECTOR, INVALID_SECTOR, INVALID_SECTOR])"

fun dir_of_index :: "nat \<Rightarrow> Direction" where
  "dir_of_index n =
     [DirUp, DirUpRight, DirRight, DirDownRight, DirDown, DirDownLeft, DirLeft, DirUpLeft, DirMax] ! n"

definition GetOpositeDirection :: "Direction \<Rightarrow> Direction" where
  "GetOpositeDirection direction =
     (let oposite = dir_index direction + 4 in
      dir_of_index (if oposite \<ge> 8 then oposite - 8 else oposite))"

text \<open>The two loops of \<^verbatim>\<open>IsNearPhase\<close>, which stop at the first hit.\<close>

fun leads_to :: "u64 \<Rightarrow> u64 \<Rightarrow> Direction list \<Rightarrow> bool res" where
  "leads_to from dest [] = Inr False"
| "leads_to from dest (d # ds) = rbind (GetNextSector from d) (\<lambda>s.
     if s = dest then Inr True else leads_to from dest ds)"

definition IsNearPhase :: "u64 \<Rightarrow> Direction \<Rightarrow> u64 \<Rightarrow> Direction \<Rightarrow> bool res" where
  "IsNearPhase origin_sector_id origin_phase dest_sector_id dest_phase =
     rbind (leads_to origin_sector_id dest_sector_id
              (SectorNearDirectionGrid ! dir_index origin_phase)) (\<lambda>is_origin_near_phase.
     rbind (leads_to dest_sector_id origin_sector_id
              (SectorNearDirectionGrid ! dir_index dest_phase)) (\<lambda>is_dest_near_phase.
     Inr (is_origin_near_phase \<and> is_dest_near_phase)))"

text \<open>A \<^verbatim>\<open>constexpr\<close> constant: the compiler evaluates it, so its array access is in range.\<close>

definition WorldRect :: FixtureRectangle where
  "WorldRect = make_rectangle
     (Center (projr (GetSectorFixtureRectangle (si_sector_id CenterSector))))
     (vec_scale SectorSize (of_int SectorGridWidth)) (1 / 2)"

section \<open>The tables\<close>

named_theorems coord_simps \<open>evaluation of the constant tables\<close>

lemma SectorSize_simps [simp]: "vec_x SectorSize = 5000" "vec_y SectorSize = 5000"
  by (simp_all add: SectorSize_def vec2_def ChunkSize_def fmul_def)

lemma vec2_simps [simp]: "vec_x (vec2 a b) = a" "vec_y (vec2 a b) = b"
  by (simp_all add: vec2_def)

lemma indexer_simps [simp]: "row (indexer r c) = r" "column (indexer r c) = c"
  by (simp_all add: indexer_def)

lemma sector_info_simps [simp]:
  "si_sector_id (sector_info s rc) = s" "si_grid_index (sector_info s rc) = indexer (fst rc) (snd rc)"
  by (simp_all add: sector_info_def)

lemma grid_dims [simp]: "SectorGridWidth = 5" "SectorGridHeight = 5"
  by (simp_all add: SectorGridWidth_def SectorGridHeight_def)

lemma CenterSector_eq [simp]: "CenterSector = sector_info 12 (2, 2)"
  by (simp add: CenterSector_def SectorGrid_def numeral_2_eq_2)

text \<open>The sector in a row and a column of the grid.\<close>

definition sid_at :: "int \<Rightarrow> int \<Rightarrow> u64" where
  "sid_at r c = of_int (5 * r + c)"

abbreviation on_grid :: "int \<Rightarrow> int \<Rightarrow> bool" where
  "on_grid r c \<equiv> 0 \<le> r \<and> r < 5 \<and> 0 \<le> c \<and> c < 5"

lemma SectorGrid_nth:
  assumes "on_grid r c"
  shows "SectorGrid ! nat r ! nat c = sector_info (sid_at r c) (r, c)"
proof -
  from assms have "r \<in> {0, 1, 2, 3, 4}" "c \<in> {0, 1, 2, 3, 4}" by auto
  then show ?thesis by (elim insertE emptyE) (simp_all add: SectorGrid_def sid_at_def)
qed

lemma SectorGridList_length [simp]: "length SectorGridList = 25"
  by (simp add: SectorGridList_def)

lemma SectorGridList_nth:
  assumes "i < 25"
  shows "SectorGridList ! i = sector_info (of_nat i) (int (i div 5), int (i mod 5))"
proof -
  have "SectorGridList = map (\<lambda>i. sector_info (of_nat i) (int (i div 5), int (i mod 5))) [0..<25]"
    by code_simp
  then have "SectorGridList ! i =
      map (\<lambda>i. sector_info (of_nat i) (int (i div 5), int (i mod 5))) [0..<25] ! i" by (rule arg_cong)
  also have "\<dots> = sector_info (of_nat i) (int (i div 5), int (i mod 5))"
    using assms by (subst nth_map) (simp_all del: upt_rec_numeral)
  finally show ?thesis .
qed

lemma array_at_SectorGridList:
  "array_at SectorGridList (unat s) =
     (if unat s < 25 then Inr (sector_info s (int (unat s div 5), int (unat s mod 5))) else Inl OutOfRange)"
  by (simp add: array_at_def SectorGridList_nth)

text \<open>The row and the column of a sector, and the step a direction takes on the grid.\<close>

definition srow :: "u64 \<Rightarrow> int" where "srow s = int (unat s div 5)"

definition scol :: "u64 \<Rightarrow> int" where "scol s = int (unat s mod 5)"

definition drow :: "Direction \<Rightarrow> int" where "drow d = row (PhaseForce ! dir_index d)"

definition dcol :: "Direction \<Rightarrow> int" where "dcol d = column (PhaseForce ! dir_index d)"

lemma drow_simps [simp]:
  "drow DirUp = 1" "drow DirUpRight = 1" "drow DirRight = 0" "drow DirDownRight = - 1"
  "drow DirDown = - 1" "drow DirDownLeft = - 1" "drow DirLeft = 0" "drow DirUpLeft = 1" "drow DirMax = 0"
  by (simp_all add: drow_def PhaseForce_def)

lemma dcol_simps [simp]:
  "dcol DirUp = 0" "dcol DirUpRight = 1" "dcol DirRight = 1" "dcol DirDownRight = 1"
  "dcol DirDown = 0" "dcol DirDownLeft = - 1" "dcol DirLeft = - 1" "dcol DirUpLeft = - 1" "dcol DirMax = 0"
  by (simp_all add: dcol_def PhaseForce_def)

lemma unat_sid_at: "on_grid r c \<Longrightarrow> unat (sid_at r c) = nat (5 * r + c)"
  unfolding sid_at_def by (subst unat_eq_nat_uint) (simp only: uint_word_of_int, simp)

lemma sid_at_simps [simp]:
  assumes "on_grid r c"
  shows "srow (sid_at r c) = r" "scol (sid_at r c) = c" "unat (sid_at r c) < 25"
    "sid_at r c \<noteq> INVALID_SECTOR"
proof -
  show lt: "unat (sid_at r c) < 25" and "srow (sid_at r c) = r" "scol (sid_at r c) = c"
    using assms by (simp_all add: srow_def scol_def unat_sid_at nat_less_iff zdiv_int zmod_int)
  show "sid_at r c \<noteq> INVALID_SECTOR"
  proof
    assume "sid_at r c = INVALID_SECTOR"
    then have "unat (sid_at r c) = 18446744073709551615"
      by (simp add: INVALID_SECTOR_def unsigned_minus_1_eq_mask mask_eq_exp_minus_1)
    with lt show False by simp
  qed
qed

lemma sector_row_col:
  assumes "unat s < 25"
  shows "on_grid (srow s) (scol s)" "s = sid_at (srow s) (scol s)"
proof -
  show g: "on_grid (srow s) (scol s)"
    using assms by (simp add: srow_def scol_def)
  have "unat (sid_at (srow s) (scol s)) = unat s"
    using g by (simp add: unat_sid_at) (simp add: srow_def scol_def nat_add_distrib nat_mult_distrib)
  then show "s = sid_at (srow s) (scol s)" by (metis word_unat_eq_iff)
qed

lemma sid_at_inject: "on_grid r c \<Longrightarrow> on_grid r' c' \<Longrightarrow> sid_at r c = sid_at r' c' \<longleftrightarrow> r = r' \<and> c = c'"
  by (metis sid_at_simps(1,2))

lemma GetNextSector_eq:
  assumes "unat s < 25"
  shows "GetNextSector s d =
    Inr (if on_grid (srow s - drow d) (scol s + dcol d)
         then sid_at (srow s - drow d) (scol s + dcol d) else INVALID_SECTOR)"
  using assms
  by (auto simp: GetNextSector_def array_at_SectorGridList srow_def scol_def drow_def dcol_def
      SectorGrid_nth Let_def)

lemma GetNextSector_OutOfRange: "\<not> unat s < 25 \<Longrightarrow> GetNextSector s d = Inl OutOfRange"
  by (simp add: GetNextSector_def array_at_SectorGridList)

lemma GetNextSector_valid:
  assumes "unat s < 25" "GetNextSector s d = Inr t" "t \<noteq> INVALID_SECTOR"
  shows "on_grid (srow s - drow d) (scol s + dcol d)" "t = sid_at (srow s - drow d) (scol s + dcol d)"
    "unat t < 25" "srow t = srow s - drow d" "scol t = scol s + dcol d"
  using assms by (auto simp: GetNextSector_eq split: if_splits)

section \<open>Neighbours\<close>

text \<open>What a rectangle of the grid looks like: five thousand units a side, the row counted
  downwards from the centre, the column to the right.\<close>

lemma grid_axis:
  assumes "- 2 \<le> k" "k \<le> 2"
  shows "fmul (of_int k) 5000 = of_int k * 5000" "fadd (of_int k * 5000) 5000 = of_int k * 5000 + 5000"
    "fsub (of_int k * 5000) 0 = of_int k * 5000" "fadd (of_int k * 5000) 10000 = of_int k * 5000 + 10000"
proof -
  from assms have "k \<in> {- 2, - 1, 0, 1, 2}" by auto
  then show "fmul (of_int k) 5000 = of_int k * 5000" "fadd (of_int k * 5000) 5000 = of_int k * 5000 + 5000"
    "fsub (of_int k * 5000) 0 = of_int k * 5000" "fadd (of_int k * 5000) 10000 = of_int k * 5000 + 10000"
    by (elim insertE emptyE; simp add: float_ops)+
qed

definition grid_rect :: "int \<Rightarrow> int \<Rightarrow> FixtureRectangle" where
  "grid_rect r c =
     \<lparr>up = of_int (2 - r) * 5000 + 5000, down = of_int (2 - r) * 5000,
      left = of_int (c - 2) * 5000, right = of_int (c - 2) * 5000 + 5000\<rparr>"

lemma GetSectorFixtureRectangle_eq:
  assumes "unat s < 25"
  shows "GetSectorFixtureRectangle s = Inr (grid_rect (srow s) (scol s))"
proof -
  have r: "- 2 \<le> 2 - srow s" "2 - srow s \<le> 2" and c: "- 2 \<le> scol s - 2" "scol s - 2 \<le> 2"
    using sector_row_col(1) [OF assms] by auto
  have m: "fmul 5000 (fsub 1 0) = 5000" "fmul 5000 0 = 0" by (simp_all add: float_ops)
  show ?thesis
    using assms grid_axis [OF r] grid_axis [OF c] m
    by (simp add: GetSectorFixtureRectangle_def array_at_SectorGridList make_rectangle_def
        grid_rect_def srow_def scol_def del: of_int_diff)
qed

lemma GetSectorFixtureRectangle_OutOfRange:
  "\<not> unat s < 25 \<Longrightarrow> GetSectorFixtureRectangle s = Inl OutOfRange"
  by (simp add: GetSectorFixtureRectangle_def array_at_SectorGridList)

lemma WorldRect_eq: "WorldRect = \<lparr>up = 15000, down = - 10000, left = - 10000, right = 15000\<rparr>"
proof -
  have "srow 12 = 2" "scol 12 = 2" "unat (12 :: u64) < 25" by (simp_all add: srow_def scol_def)
  then have "GetSectorFixtureRectangle 12 = Inr (grid_rect 2 2)"
    using GetSectorFixtureRectangle_eq [of 12] by simp
  then show ?thesis
    by (simp add: WorldRect_def grid_rect_def Center_def make_rectangle_def vec_scale_def float_ops)
qed

lemma opposite_force [simp]:
  "d \<noteq> DirMax \<Longrightarrow> drow (GetOpositeDirection d) = - drow d"
  "d \<noteq> DirMax \<Longrightarrow> dcol (GetOpositeDirection d) = - dcol d"
  by (cases d; simp add: GetOpositeDirection_def)+

text \<open>A step to a neighbouring sector is a translation of the sector's rectangle by one
  sector size in that direction, and a step back in the opposite direction returns to the
  sector: the grid tables, the direction forces and the rectangles describe one geometry.\<close>

theorem next_sector_geometry:
  assumes "unat s < 25" "GetNextSector s d = Inr t" "t \<noteq> INVALID_SECTOR" "d \<noteq> DirMax"
  shows "GetNextSector t (GetOpositeDirection d) = Inr s \<and>
    (\<exists>rs rt. GetSectorFixtureRectangle s = Inr rs \<and> GetSectorFixtureRectangle t = Inr rt \<and>
      up rt = up rs + of_int (drow d) * 5000 \<and> down rt = down rs + of_int (drow d) * 5000 \<and>
      left rt = left rs + of_int (dcol d) * 5000 \<and> right rt = right rs + of_int (dcol d) * 5000)"
proof -
  note t = GetNextSector_valid [OF assms(1-3)]
  have "GetNextSector t (GetOpositeDirection d) = Inr s"
    using t(3-5) assms(4) sector_row_col [OF assms(1)] by (simp add: GetNextSector_eq)
  then show ?thesis
    using GetSectorFixtureRectangle_eq [OF assms(1)] GetSectorFixtureRectangle_eq [OF t(3)] t(4,5)
    by (simp add: grid_rect_def algebra_simps)
qed

text \<open>The near sectors of a phase: the valid neighbours in the directions of the table.\<close>

definition near_directions :: "Direction \<Rightarrow> Direction list" where
  "near_directions d = filter (\<lambda>e. e \<noteq> DirMax) (SectorNearDirectionGrid ! dir_index d)"

definition valid_next :: "u64 \<Rightarrow> Direction \<Rightarrow> u64 list" where
  "valid_next s d = (case GetNextSector s d of
     Inr t \<Rightarrow> if t = INVALID_SECTOR then [] else [t] | Inl _ \<Rightarrow> [])"

lemma valid_next_cases:
  assumes "unat s < 25"
  obtains "GetNextSector s d = Inr INVALID_SECTOR" "valid_next s d = []"
  | t where "GetNextSector s d = Inr t" "t \<noteq> INVALID_SECTOR" "valid_next s d = [t]"
  using assms by (cases "on_grid (srow s - drow d) (scol s + dcol d)")
    (auto simp: GetNextSector_eq valid_next_def)

lemma near_loop_eq:
  assumes "unat s < 25"
    and "i + length (concat (map (valid_next s) (filter (\<lambda>e. e \<noteq> DirMax) ds))) \<le> length xs"
  shows "near_loop s ds i xs =
    (let v = concat (map (valid_next s) (filter (\<lambda>e. e \<noteq> DirMax) ds))
     in Inr (take i xs @ v @ drop (i + length v) xs))"
  using assms(2)
proof (induction ds arbitrary: i xs)
  case (Cons d ds)
  show ?case
  proof (cases "d = DirMax")
    case True
    with Cons show ?thesis by simp
  next
    case False
    show ?thesis
    proof (rule valid_next_cases [OF assms(1), of d])
      assume "GetNextSector s d = Inr INVALID_SECTOR" "valid_next s d = []"
      with Cons False show ?thesis by simp
    next
      fix t assume t: "GetNextSector s d = Inr t" "t \<noteq> INVALID_SECTOR" "valid_next s d = [t]"
      with Cons.prems False have "i < length xs" by auto
      with t False Cons.prems Cons.IH [of "Suc i" "xs[i := t]"] show ?thesis
        by (auto simp: Let_def take_Suc_conv_app_nth drop_update_cancel)
    qed
  qed
qed simp

lemma near_directions_simps [simp]:
  "near_directions DirUp = [DirUp]" "near_directions DirUpRight = [DirUp, DirUpRight, DirRight]"
  "near_directions DirRight = [DirRight]" "near_directions DirDownRight = [DirRight, DirDownRight, DirDown]"
  "near_directions DirDown = [DirDown]" "near_directions DirDownLeft = [DirDown, DirDownLeft, DirLeft]"
  "near_directions DirLeft = [DirLeft]" "near_directions DirUpLeft = [DirLeft, DirUpLeft, DirUp]"
  "near_directions DirMax = []"
  by (simp_all add: near_directions_def SectorNearDirectionGrid_def)

lemma near_directions_props:
  "length (near_directions d) \<le> 3" "distinct (near_directions d)" "DirMax \<notin> set (near_directions d)"
  by (cases d; simp)+

definition near_list :: "u64 \<Rightarrow> Direction \<Rightarrow> u64 list" where
  "near_list s d = concat (map (valid_next s) (near_directions d))"

lemma length_near_list: "length (near_list s d) \<le> 3"
proof -
  have "length (concat (map (valid_next s) ds)) \<le> length ds" for ds
    by (induction ds) (auto simp: valid_next_def split: sum.splits)
  from this [of "near_directions d"] show ?thesis
    using near_directions_props(1) [of d] by (simp add: near_list_def)
qed

lemma GetNearSectors_eq:
  assumes "unat s < 25"
  shows "GetNearSectors s d = Inr (near_list s d @ replicate (3 - length (near_list s d)) INVALID_SECTOR)"
proof -
  let ?v = "near_list s d"
  let ?xs = "replicate 3 INVALID_SECTOR"
  have xs: "[INVALID_SECTOR, INVALID_SECTOR, INVALID_SECTOR] = ?xs" by (simp add: numeral_3_eq_3)
  have "near_loop s (SectorNearDirectionGrid ! dir_index d) 0 ?xs = Inr (?v @ drop (length ?v) ?xs)"
    using near_loop_eq [OF assms, of 0 "SectorNearDirectionGrid ! dir_index d" ?xs] length_near_list [of s d]
    by (simp add: near_list_def near_directions_def Let_def)
  with assms show ?thesis
    by (simp add: GetNearSectors_def array_at_SectorGridList xs)
qed

lemma GetNearSectors_OutOfRange: "\<not> unat s < 25 \<Longrightarrow> GetNearSectors s d = Inl OutOfRange"
  by (simp add: GetNearSectors_def array_at_SectorGridList)

lemma direction_eqI: "drow d = drow e \<Longrightarrow> dcol d = dcol e \<Longrightarrow> d = e"
  by (cases d; cases e) simp_all

lemma set_near_list:
  "unat s < 25 \<Longrightarrow> t \<in> set (near_list s d) \<longleftrightarrow>
    (\<exists>e \<in> set (near_directions d). GetNextSector s e = Inr t \<and> t \<noteq> INVALID_SECTOR)"
  by (auto simp: near_list_def valid_next_def split: sum.splits if_splits) force

lemma distinct_near_list:
  assumes "unat s < 25"
  shows "distinct (near_list s d)"
proof -
  have *: "distinct ds \<Longrightarrow> distinct (concat (map (valid_next s) ds))" for ds
  proof (induction ds)
    case (Cons d ds)
    have "t \<notin> set (valid_next s e)" if "t \<in> set (valid_next s d)" "e \<in> set ds" for t e
    proof
      assume "t \<in> set (valid_next s e)"
      with that(1) have "GetNextSector s d = Inr t" "GetNextSector s e = Inr t" "t \<noteq> INVALID_SECTOR"
        by (auto simp: valid_next_def split: sum.splits if_splits)
      then have "drow d = drow e" "dcol d = dcol e"
        using GetNextSector_valid(4,5) [OF assms, of d t] GetNextSector_valid(4,5) [OF assms, of e t]
        by simp_all
      then have "d = e" by (rule direction_eqI)
      with Cons.prems that(2) show False by simp
    qed
    moreover have "distinct (valid_next s d)" by (simp add: valid_next_def split: sum.splits)
    ultimately show ?case using Cons by auto
  qed simp
  show ?thesis using * [OF near_directions_props(2)] by (simp add: near_list_def)
qed

text \<open>C20. \<open>GetNearSectors\<close> returns the existing neighbours in the directions of the phase
  table, each once, before the unused \<open>INVALID_SECTOR\<close> entries, never the sector itself.\<close>

theorem near_sectors_spec:
  assumes "unat s < 25"
  shows "\<exists>v k. GetNearSectors s d = Inr (v @ replicate k INVALID_SECTOR) \<and> length v + k = 3 \<and>
    distinct v \<and> s \<notin> set v \<and> INVALID_SECTOR \<notin> set v \<and>
    (\<forall>t. t \<in> set v \<longleftrightarrow> t \<noteq> INVALID_SECTOR \<and>
       (\<exists>e \<in> set (SectorNearDirectionGrid ! dir_index d). e \<noteq> DirMax \<and> GetNextSector s e = Inr t))"
proof -
  let ?v = "near_list s d"
  have mem: "t \<in> set ?v \<longleftrightarrow> t \<noteq> INVALID_SECTOR \<and>
      (\<exists>e \<in> set (SectorNearDirectionGrid ! dir_index d). e \<noteq> DirMax \<and> GetNextSector s e = Inr t)" for t
    using set_near_list [OF assms] by (auto simp: near_directions_def)
  have "s \<notin> set ?v"
  proof
    assume "s \<in> set ?v"
    then obtain e where e: "e \<noteq> DirMax" "GetNextSector s e = Inr s" "s \<noteq> INVALID_SECTOR"
      using mem by blast
    then have "drow e = 0" "dcol e = 0" using GetNextSector_valid(4,5) [OF assms e(2,3)] by simp_all
    with e(1) show False by (cases e) simp_all
  qed
  moreover have "length ?v + (3 - length ?v) = 3" using length_near_list [of s d] by simp
  ultimately show ?thesis
    using GetNearSectors_eq [OF assms] distinct_near_list [OF assms] mem by blast
qed

section \<open>Positions\<close>

text \<open>One axis of \<open>GetSectorByPosition\<close>: the index of the strip a coordinate falls into.\<close>

definition strip :: "CoordinateUnit \<Rightarrow> int" where
  "strip x = to_int32 (fdiv (fadd x 10000) 5000)"

lemma GetSectorByPosition_eq:
  "GetSectorByPosition p =
    (if on_grid (4 - strip (vec_y p)) (strip (vec_x p))
     then sid_at (4 - strip (vec_y p)) (strip (vec_x p)) else INVALID_SECTOR)"
proof -
  have m: "fmul 2 5000 = 10000" by (simp add: float_ops)
  show ?thesis
    using SectorGrid_nth [of "4 - strip (vec_y p)" "strip (vec_x p)"]
    by (auto simp: GetSectorByPosition_def strip_def m Let_def)
qed

lemma GetSectorByPosition_valid:
  assumes "GetSectorByPosition p = t" "t \<noteq> INVALID_SECTOR"
  shows "strip (vec_x p) = scol t" "strip (vec_y p) = 4 - srow t" "unat t < 25"
proof -
  have g: "on_grid (4 - strip (vec_y p)) (strip (vec_x p))"
    and t: "t = sid_at (4 - strip (vec_y p)) (strip (vec_x p))"
    using assms by (simp_all add: GetSectorByPosition_eq split: if_splits)
  show "strip (vec_x p) = scol t" "strip (vec_y p) = 4 - srow t" "unat t < 25"
    unfolding t using sid_at_simps [OF g] by simp_all
qed

text \<open>A strip boundary is a float, and so are the points just below it, so rounding moves no
  coordinate across by more than a sixty-fourth of a unit.\<close>

lemma fl32_dyadic: "\<bar>m\<bar> < 2 ^ 24 \<Longrightarrow> k \<le> 149 \<Longrightarrow> fl32 (of_int m / 2 ^ k) = of_int m / 2 ^ k"
  by (rule fl32_exact [of _ m "- int k"]) (simp_all add: power_int_minus field_simps)

lemma strip_ge:
  assumes "0 \<le> k" "k \<le> 5" "of_int k * 5000 - 10000 \<le> x" "x \<le> 1000000"
  shows "k \<le> strip x"
proof -
  have "of_int (k * 5000) \<le> fadd x 10000" "fadd x 10000 \<le> 1010000"
    unfolding fadd_def using assms fl32_of_int [of "k * 5000"] by (auto intro: le_fl32 fl32_le)
  then have "of_int k \<le> fdiv (fadd x 10000) 5000" "fdiv (fadd x 10000) 5000 \<le> 202"
    unfolding fdiv_def using assms fl32_of_int [of k] by (auto intro!: le_fl32 fl32_le)
  moreover from this have "to_int32 (fdiv (fadd x 10000) 5000) = trunc_rat (fdiv (fadd x 10000) 5000)"
    using assms by (intro to_int32_small) (auto intro: order_trans [of _ "of_int k"])
  ultimately show ?thesis
    using trunc_rat_mono [of "of_int k" "fdiv (fadd x 10000) 5000"] assms(1)
    by (simp add: strip_def trunc_rat_def)
qed

lemma strip_less:
  assumes "1 \<le> k" "k \<le> 5" "x \<le> of_int k * 5000 - 10000 - 1 / 64" "- 1000000 \<le> x"
  shows "strip x < k"
proof -
  define b :: rat where "b = of_int (k * 320000 - 1) / 2 ^ 6"
  define q :: rat where "q = of_int (k * 524288 - 1) / 2 ^ 19"
  have "\<bar>k * 320000 - 1\<bar> < 2 ^ 24" "\<bar>k * 524288 - 1\<bar> < 2 ^ 24"
    using assms(1,2) by simp_all
  then have "fl32 b = b" "fl32 q = q"
    unfolding b_def q_def by (simp_all only: fl32_dyadic)
  have "x + 10000 \<le> b" using assms(3) by (simp add: b_def field_simps)
  then have p: "fadd x 10000 \<le> b" "- 990000 \<le> fadd x 10000"
    unfolding fadd_def using \<open>fl32 b = b\<close> assms(4) fl32_of_int [of "- 990000"]
    by (auto intro: fl32_le le_fl32)
  have "fadd x 10000 / 5000 \<le> b / 5000" "b / 5000 \<le> q"
    using p(1) by (simp_all add: b_def q_def field_simps)
  then have d: "fdiv (fadd x 10000) 5000 \<le> q" "- 198 \<le> fdiv (fadd x 10000) 5000"
    unfolding fdiv_def using p(2) \<open>fl32 q = q\<close> by (auto intro: fl32_le le_fl32)
  have "q < of_int k" "0 \<le> q" "q \<le> 5"
    using assms(1,2) by (simp_all add: q_def field_simps)
  then have "trunc_rat q < k" by (simp add: trunc_rat_def floor_less_iff)
  moreover have "to_int32 (fdiv (fadd x 10000) 5000) = trunc_rat (fdiv (fadd x 10000) 5000)"
    using d \<open>q \<le> 5\<close> by (intro to_int32_small) (simp add: abs_le_iff)
  ultimately show ?thesis
    using trunc_rat_mono [OF d(1)] by (simp add: strip_def)
qed

lemma strip_inside:
  assumes "0 \<le> k" "k < 5" "of_int (k - 2) * 5000 \<le> x" "x \<le> of_int (k - 2) * 5000 + 5000 - 1 / 64"
  shows "strip x = k"
proof (rule antisym)
  have b: "of_int k * 5000 - 10000 \<le> x" "x \<le> of_int (k + 1) * 5000 - 10000 - 1 / 64"
    using assms by (simp_all add: algebra_simps)
  have "(0::rat) \<le> of_int k" "(of_int k :: rat) \<le> 5" using assms(1,2) by simp_all
  then have "- 1000000 \<le> x" "x \<le> 1000000" using b by (simp_all add: algebra_simps)
  then show "strip x \<le> k" "k \<le> strip x"
    using strip_less [of "k + 1" x] strip_ge [of k x] assms b by auto
qed

text \<open>C23. Every position inside a sector's rectangle is mapped back to that sector. The bound
  of a sixty-fourth of a unit below the right and the upper edge is what the rounding of
  \<^verbatim>\<open>position + offset\<close> needs.\<close>

theorem sector_of_position:
  assumes "unat s < 25" "GetSectorFixtureRectangle s = Inr r"
    and "left r \<le> vec_x p" "vec_x p \<le> right r - 1 / 64"
    and "down r \<le> vec_y p" "vec_y p \<le> up r - 1 / 64"
  shows "GetSectorByPosition p = s"
proof -
  note g = sector_row_col [OF assms(1)]
  have r: "r = grid_rect (srow s) (scol s)"
    using assms(1,2) by (simp add: GetSectorFixtureRectangle_eq)
  have "strip (vec_x p) = scol s" "strip (vec_y p) = 4 - srow s"
    using g(1) assms(3-6) unfolding r grid_rect_def by (auto intro!: strip_inside)
  with g show ?thesis by (simp add: GetSectorByPosition_eq)
qed

theorem sector_of_position_witness:
  "unat (7 :: u64) < 25 \<and> GetSectorFixtureRectangle 7 = Inr (grid_rect 1 2) \<and>
   GetSectorByPosition (vec2 2500 7500) = 7"
proof -
  have r: "unat (7 :: u64) < 25" "GetSectorFixtureRectangle 7 = Inr (grid_rect 1 2)"
    using GetSectorFixtureRectangle_eq [of 7] by (simp_all add: srow_def scol_def)
  show ?thesis
    using r sector_of_position [OF r, of "vec2 2500 7500"] by (simp add: grid_rect_def)
qed

text \<open>The truncation towards zero of \<^verbatim>\<open>static_cast<int>\<close> reaches across the lower edges of
  the world: a position almost a whole sector to the left of the world is reported as lying
  in the leftmost sector of its row instead of in no sector.\<close>

theorem position_west_of_world_accepted:
  assumes "- 14999 \<le> vec_x p" "vec_x p < left WorldRect"
    and "0 \<le> r" "r < 5" "down (grid_rect r 0) \<le> vec_y p" "vec_y p \<le> up (grid_rect r 0) - 1 / 64"
  shows "GetSectorByPosition p = sid_at r 0 \<and> GetSectorByPosition p \<noteq> INVALID_SECTOR"
proof -
  have y: "strip (vec_y p) = 4 - r"
    using assms(3-6) unfolding grid_rect_def by (auto intro!: strip_inside)
  have x: "fadd (vec_x p) 10000 \<le> 0" "- 4999 \<le> fadd (vec_x p) 10000"
    unfolding fadd_def using assms(1,2) by (auto simp: WorldRect_eq intro!: fl32_le le_fl32)
  have q: "fl32 (- 8191 / 8192) = - 8191 / 8192"
    using fl32_dyadic [of "- 8191" 13] by simp
  have "fdiv (fadd (vec_x p) 10000) 5000 \<le> 0" "- 8191 / 8192 \<le> fdiv (fadd (vec_x p) 10000) 5000"
    unfolding fdiv_def using x fl32_le [of _ 0] le_fl32 [OF _ q] by simp_all
  then have "trunc_rat (fdiv (fadd (vec_x p) 10000) 5000) = 0"
    by (auto simp: trunc_rat_def floor_eq_iff ceiling_eq_iff)
  then have "strip (vec_x p) = 0" by (simp add: strip_def to_int32_def)
  with y assms(3,4) show ?thesis by (simp add: GetSectorByPosition_eq)
qed

theorem position_west_of_world_accepted_witness:
  "GetSectorByPosition (vec2 (- 12000) 2500) = sid_at 2 0 \<and> - 12000 < left WorldRect"
  using position_west_of_world_accepted [of "vec2 (- 12000) 2500" 2]
  by (simp add: WorldRect_eq grid_rect_def)

theorem next_sector_geometry_witness:
  "GetNextSector 12 DirUp = Inr 7 \<and> GetNextSector 7 (GetOpositeDirection DirUp) = Inr 12"
proof -
  have s: "unat (12 :: u64) < 25" "srow 12 = 2" "scol 12 = 2" by (simp_all add: srow_def scol_def)
  then have n: "GetNextSector 12 DirUp = Inr 7" by (simp add: GetNextSector_eq sid_at_def)
  have "(7 :: u64) \<noteq> INVALID_SECTOR" by (simp add: INVALID_SECTOR_def)
  then show ?thesis using n next_sector_geometry [OF s(1) n] by simp
qed

theorem near_sectors_spec_witness:
  "unat (12 :: u64) < 25 \<and> (\<exists>v k. GetNearSectors 12 DirUpLeft = Inr (v @ replicate k INVALID_SECTOR) \<and>
     length v + k = 3 \<and> distinct v)"
proof -
  have s: "unat (12 :: u64) < 25" by simp
  show ?thesis using s near_sectors_spec [OF s, of DirUpLeft] by blast
qed

end
