(* ===== verification/SectorSystem.thy ===== *)
theory SectorSystem
  imports Coordinate
begin

text \<open>
  Moving objects and the sector that simulates them: \<^verbatim>\<open>coordinate/Fixture.h\<close> and
  \<^verbatim>\<open>coordinate/SectorSystem.h\<close>, \<^verbatim>\<open>SectorSystem.cpp\<close>.

  A \<^verbatim>\<open>Fixture*\<close> of \<^verbatim>\<open>SectorSystem::_fixtures\<close> is owned by that map alone, so the map
  holds the fixtures by value. \<^verbatim>\<open>new Fixture()\<close> value-initialises: members without an
  initialiser are zero. The virtual interface \<^verbatim>\<open>SectorSystem::Callback\<close> is the record
  \<open>callback\<close> of functions that take the fixture and a client state \<open>'w\<close> and return both,
  since the callee may write to the fixture it is handed.
\<close>

section \<open>Fixture.h\<close>

definition FixtureRectangleOverlap :: "FixtureRectangle \<Rightarrow> FixtureRectangle \<Rightarrow> bool" where
  "FixtureRectangleOverlap r1 r2 =
    (if up r1 = down r1 \<or> left r1 = right r1 \<or> up r2 = down r2 \<or> left r2 = right r2 then False
     else if left r1 > right r2 \<or> left r2 > right r1 then False
     else if down r1 > up r2 \<or> down r2 > up r1 then False
     else True)"

record Fixture =
  fx_id :: u64
  fx_position :: Vector2
  fx_size :: Vector2
  fx_force :: CoordinateUnit
  fx_direction :: Direction
  fx_location :: FixtureLocation
  fx_is_observing_fixture :: bool
  fx_phase :: Direction
  fx_sector_id :: u64
  fx_last_transform_time :: int
  fx_personal_delta_time :: u64
  fx_user_data :: u64

definition new_Fixture :: Fixture where
  "new_Fixture = \<lparr>fx_id = 0, fx_position = vec2 0 0, fx_size = vec2 0 0, fx_force = ForceConstant,
     fx_direction = DirUp, fx_location = LocIn, fx_is_observing_fixture = False, fx_phase = DirMax,
     fx_sector_id = 0, fx_last_transform_time = 0, fx_personal_delta_time = 0, fx_user_data = 0\<rparr>"

definition ToFixtureRectangle :: "Fixture \<Rightarrow> FixtureRectangle" where
  "ToFixtureRectangle f = make_rectangle (fx_position f) (fx_size f) (1 / 2)"

text \<open>\<^verbatim>\<open>Fixture::Move\<close>: the returned movement and the fixture afterwards. \<open>delta_time\<close> is
  the count of a \<^verbatim>\<open>Milliseconds\<close>; the sum with \<^verbatim>\<open>personal_delta_time\<close> is unsigned.\<close>

definition Move :: "int \<Rightarrow> Fixture \<Rightarrow> Vector2 \<times> Fixture" where
  "Move delta_time f =
    (if fx_direction f = DirMax then (vec2 0 0, f)
     else
       let time_ratio = fdiv (fl32 (of_nat (unat (of_int delta_time + fx_personal_delta_time f)))) 1000;
           direction_force = PhaseForce ! dir_index (fx_direction f);
           mx = fmul (fmul (fx_force f) time_ratio) (of_int (column direction_force));
           my = fmul (fmul (fx_force f) time_ratio) (of_int (row direction_force));
           backup_position = fx_position f;
           moved = f\<lparr>fx_position := vec2 (fadd (vec_x (fx_position f)) mx) (fadd (vec_y (fx_position f)) my)\<rparr>;
           after_rect = ToFixtureRectangle moved;
           mx1 = (if left WorldRect > left after_rect
                  then fadd mx (fsub (left WorldRect) (left after_rect)) else mx);
           mx2 = (if right WorldRect < right after_rect
                  then fsub mx1 (fsub (right after_rect) (right WorldRect)) else mx1);
           my1 = (if down WorldRect > down after_rect
                  then fadd my (fsub (down WorldRect) (down after_rect)) else my);
           my2 = (if up WorldRect < up after_rect
                  then fsub my1 (fsub (up after_rect) (up WorldRect)) else my1);
           movement = vec2 mx2 my2
       in (movement, moved\<lparr>fx_position := vec_plus backup_position movement,
                           fx_personal_delta_time := 0\<rparr>))"

section \<open>SectorSystem\<close>

definition TransformCooltime :: int where "TransformCooltime = 1000"

record SectorSystem =
  ss_sector_id :: u64
  ss_fixtures :: "(u64, Fixture) umap"
  ss_current_fixture_id :: u64
  ss_base_position :: Vector2
  ss_size :: Size
  ss_chunk_size :: CoordinateUnit
  ss_gray_zone_chunk :: CoordinateUnit
  ss_direction_ratio :: Size
  ss_inner_box :: Size
  ss_inner_box_position :: Vector2

record 'w callback =
  OnChangeFixturePhase :: "u64 \<Rightarrow> Fixture \<Rightarrow> Direction \<Rightarrow> 'w \<Rightarrow> (Fixture \<times> 'w) res"
  OnChangeFixtureLocation ::
    "u64 \<Rightarrow> Fixture \<Rightarrow> FixtureLocation \<Rightarrow> Direction \<Rightarrow> 'w \<Rightarrow> (Fixture \<times> 'w) res"

definition new_SectorSystem ::
  "u64 \<Rightarrow> u64 \<Rightarrow> Vector2 \<Rightarrow> Size \<Rightarrow> CoordinateUnit \<Rightarrow> CoordinateUnit \<Rightarrow> SectorSystem" where
  "new_SectorSystem server_id sector_id base_position sector_size chunk_size gray_zone_chunk =
    \<lparr>ss_sector_id = sector_id, ss_fixtures = [],
     ss_current_fixture_id =
       server_id * 1000000000000000 + 200000000000000 + 100000000000 * sector_id + 1,
     ss_base_position = base_position, ss_size = sector_size, ss_chunk_size = chunk_size,
     ss_gray_zone_chunk = gray_zone_chunk,
     ss_direction_ratio = vec2 (fdiv (vec_x sector_size) 3) (fdiv (vec_y sector_size) 3),
     ss_inner_box = vec2 (fsub (vec_x sector_size) (fmul (fmul chunk_size gray_zone_chunk) 2))
                         (fsub (vec_y sector_size) (fmul (fmul chunk_size gray_zone_chunk) 2)),
     ss_inner_box_position = vec2 (fadd (vec_x base_position) (fmul chunk_size gray_zone_chunk))
                                  (fadd (vec_y base_position) (fmul chunk_size gray_zone_chunk))\<rparr>"

definition CreateFixture_copy :: "Fixture \<Rightarrow> SectorSystem \<Rightarrow> SectorSystem res" where
  "CreateFixture_copy origin ss =
    (if um_find (ss_fixtures ss) (fx_id origin) \<noteq> None then Inl (Throw ''duplicate fixture id'')
     else Inr (ss\<lparr>ss_fixtures := um_set (fx_id origin) origin (ss_fixtures ss)\<rparr>))"

definition CreateFixture_id ::
  "Vector2 \<Rightarrow> Size \<Rightarrow> u64 \<Rightarrow> SectorSystem \<Rightarrow> (Fixture \<times> SectorSystem) res" where
  "CreateFixture_id position sz fixture_id ss =
    (if um_find (ss_fixtures ss) fixture_id \<noteq> None then Inl (Throw ''duplicate fixture id'')
     else let fixture = new_Fixture\<lparr>fx_direction := DirMax, fx_position := position, fx_size := sz,
                          fx_id := fixture_id, fx_sector_id := ss_sector_id ss\<rparr>
          in Inr (fixture, ss\<lparr>ss_fixtures := um_set (fx_id fixture) fixture (ss_fixtures ss)\<rparr>))"

definition CreateFixture :: "Vector2 \<Rightarrow> Size \<Rightarrow> SectorSystem \<Rightarrow> (Fixture \<times> SectorSystem) res" where
  "CreateFixture position sz ss =
     CreateFixture_id position sz (ss_current_fixture_id ss)
       (ss\<lparr>ss_current_fixture_id := ss_current_fixture_id ss + 1\<rparr>)"

definition RemoveFixture :: "u64 \<Rightarrow> SectorSystem \<Rightarrow> SectorSystem" where
  "RemoveFixture fixture_id ss =
    (case um_find (ss_fixtures ss) fixture_id of
       None \<Rightarrow> ss
     | Some _ \<Rightarrow> ss\<lparr>ss_fixtures := um_erase fixture_id (ss_fixtures ss)\<rparr>)"

definition GetFixture :: "u64 \<Rightarrow> SectorSystem \<Rightarrow> Fixture option" where
  "GetFixture fixture_id ss = um_find (ss_fixtures ss) fixture_id"

text \<open>A write through the \<^verbatim>\<open>Fixture*\<close> that \<^verbatim>\<open>GetFixture\<close> or \<^verbatim>\<open>CreateFixture\<close> returned.\<close>

definition write_fixture :: "u64 \<Rightarrow> Fixture \<Rightarrow> SectorSystem \<Rightarrow> SectorSystem" where
  "write_fixture k f ss = ss\<lparr>ss_fixtures := um_set k f (ss_fixtures ss)\<rparr>"

definition CalculateCurrentLocation :: "SectorSystem \<Rightarrow> Fixture \<Rightarrow> FixtureLocation" where
  "CalculateCurrentLocation ss fixture =
    (if FixtureRectangleOverlap (make_rectangle (ss_inner_box_position ss) (ss_inner_box ss) 0)
          (ToFixtureRectangle fixture) then LocIn
     else if FixtureRectangleOverlap (make_rectangle (ss_base_position ss) (ss_size ss) 0)
          (ToFixtureRectangle fixture) then LocGray
     else LocLeave)"

definition clamp02 :: "CoordinateUnit \<Rightarrow> CoordinateUnit" where
  "clamp02 v = (let v1 = (if v < 0 then 0 else v) in if v1 > 2 then 2 else v1)"

definition CalculateCurrentPhase :: "SectorSystem \<Rightarrow> Fixture \<Rightarrow> Direction" where
  "CalculateCurrentPhase ss fixture =
    (let rx = clamp02 (fdiv (fsub (vec_x (fx_position fixture)) (vec_x (ss_base_position ss)))
                            (vec_x (ss_direction_ratio ss)));
         ry = clamp02 (fdiv (fsub (vec_y (fx_position fixture)) (vec_y (ss_base_position ss)))
                            (vec_y (ss_direction_ratio ss)))
     in PhaseGrid ! nat (2 - to_int32 \<bar>ry\<bar>) ! nat (to_int32 \<bar>rx\<bar>))"

text \<open>The body of the loop of \<^verbatim>\<open>SectorSystem::Update\<close> for one fixture.\<close>

definition update_fixture ::
  "'w callback \<Rightarrow> SectorSystem \<Rightarrow> int \<Rightarrow> int \<Rightarrow> Fixture \<Rightarrow> 'w \<Rightarrow> (Fixture \<times> 'w) res" where
  "update_fixture cb ss current_time delta_time fixture0 w =
    (let fixture = snd (Move delta_time fixture0) in
     if fx_is_observing_fixture fixture then Inr (fixture, w)
     else if fx_last_transform_time fixture + TransformCooltime > current_time then Inr (fixture, w)
     else case fx_location fixture of
       LocIn \<Rightarrow>
         let current_location = CalculateCurrentLocation ss fixture in
         if current_location \<noteq> fx_location fixture then
           let current_phase = CalculateCurrentPhase ss fixture in
           rbind (OnChangeFixtureLocation cb (ss_sector_id ss) fixture current_location current_phase w)
             (\<lambda>(f, w'). Inr (f\<lparr>fx_phase := current_phase, fx_location := current_location\<rparr>, w'))
         else Inr (fixture, w)
     | LocGray \<Rightarrow>
         let current_location = CalculateCurrentLocation ss fixture;
             current_phase = CalculateCurrentPhase ss fixture in
         if current_location \<noteq> fx_location fixture then
           let current_phase' = (if current_location = LocIn then DirMax else current_phase) in
           rbind (OnChangeFixtureLocation cb (ss_sector_id ss) fixture current_location current_phase' w)
             (\<lambda>(f, w'). Inr (f\<lparr>fx_location := current_location, fx_phase := current_phase'\<rparr>, w'))
         else if current_phase \<noteq> fx_phase fixture then
           rbind (if current_phase \<noteq> DirMax
                  then OnChangeFixturePhase cb (ss_sector_id ss) fixture current_phase w
                  else Inr (fixture, w))
             (\<lambda>(f, w'). Inr (f\<lparr>fx_phase := current_phase\<rparr>, w'))
         else Inr (fixture, w)
     | _ \<Rightarrow> Inr (fixture, w))"

fun update_fixtures ::
  "'w callback \<Rightarrow> SectorSystem \<Rightarrow> int \<Rightarrow> int \<Rightarrow> (u64, Fixture) umap \<Rightarrow> 'w \<Rightarrow>
     ((u64, Fixture) umap \<times> 'w) res" where
  "update_fixtures cb ss now dt [] w = Inr ([], w)"
| "update_fixtures cb ss now dt ((k, f) # fs) w =
     rbind (update_fixture cb ss now dt f w) (\<lambda>(f', w').
     rbind (update_fixtures cb ss now dt fs w') (\<lambda>(fs', w'').
     Inr ((k, f') # fs', w'')))"

definition SectorSystem_Update ::
  "'w callback \<Rightarrow> int \<Rightarrow> int \<Rightarrow> SectorSystem \<Rightarrow> 'w \<Rightarrow> (SectorSystem \<times> 'w) res" where
  "SectorSystem_Update cb current_time delta_time ss w =
     rbind (update_fixtures cb ss current_time delta_time (ss_fixtures ss) w) (\<lambda>(fs, w').
       Inr (ss\<lparr>ss_fixtures := fs\<rparr>, w'))"

text \<open>The sector system \<^verbatim>\<open>World::AddSector\<close> makes for a sector of the grid.\<close>

definition sector_system :: "u64 \<Rightarrow> u64 \<Rightarrow> FixtureRectangle \<Rightarrow> SectorSystem" where
  "sector_system server_id sector_id rect =
     new_SectorSystem server_id sector_id (LeftDown rect) SectorSize ChunkSize SectorGrayZoneChunk"

section \<open>The shape of a sector of the grid\<close>

text \<open>The fields that the constructor computes from the rectangle and no operation changes.\<close>

definition shaped :: "u64 \<Rightarrow> SectorSystem \<Rightarrow> bool" where
  "shaped s ss \<longleftrightarrow> unat s < 25 \<and> ss_sector_id ss = s \<and>
     ss_base_position ss = LeftDown (grid_rect (srow s) (scol s)) \<and> ss_size ss = SectorSize \<and>
     ss_direction_ratio ss = vec2 (fdiv 5000 3) (fdiv 5000 3) \<and> ss_inner_box ss = vec2 3000 3000 \<and>
     ss_inner_box_position ss =
       vec2 (left (grid_rect (srow s) (scol s)) + 1000) (down (grid_rect (srow s) (scol s)) + 1000)"

lemma grid_offset:
  assumes "- 2 \<le> k" "k \<le> 2"
  shows "fadd (of_int k * 5000) 1000 = of_int k * 5000 + 1000"
    "fadd (of_int k * 5000 + 1000) 3000 = of_int k * 5000 + 4000"
    "fsub (of_int k * 5000 + 1000) 0 = of_int k * 5000 + 1000"
    "fl32 (of_int k * 5000) = of_int k * 5000" "fl32 (of_int k * 5000 + 1000) = of_int k * 5000 + 1000"
    "fl32 (of_int k * 5000 + 4000) = of_int k * 5000 + 4000"
    "fl32 (of_int k * 5000 + 5000) = of_int k * 5000 + 5000"
proof -
  from assms have "k \<in> {- 2, - 1, 0, 1, 2}" by auto
  then show "fadd (of_int k * 5000) 1000 = of_int k * 5000 + 1000"
    "fadd (of_int k * 5000 + 1000) 3000 = of_int k * 5000 + 4000"
    "fsub (of_int k * 5000 + 1000) 0 = of_int k * 5000 + 1000"
    "fl32 (of_int k * 5000) = of_int k * 5000" "fl32 (of_int k * 5000 + 1000) = of_int k * 5000 + 1000"
    "fl32 (of_int k * 5000 + 4000) = of_int k * 5000 + 4000"
    "fl32 (of_int k * 5000 + 5000) = of_int k * 5000 + 5000"
    by (elim insertE emptyE; simp add: float_ops)+
qed

lemma grid_offset_range:
  assumes "unat s < 25"
  shows "- 2 \<le> scol s - 2" "scol s - 2 \<le> 2" "- 2 \<le> 2 - srow s" "2 - srow s \<le> 2"
  using sector_row_col(1) [OF assms] by auto

lemma sector_system_shaped:
  assumes "unat s < 25"
  shows "shaped s (sector_system srv s (grid_rect (srow s) (scol s)))"
proof -
  note g = grid_offset_range [OF assms]
  have m: "fmul 100 10 = 1000" "fsub 5000 (fmul 1000 2) = 3000" by (simp_all add: float_ops)
  show ?thesis
    using assms grid_offset(1) [OF g(1,2)] grid_offset(1) [OF g(3,4)]
    by (simp add: shaped_def sector_system_def new_SectorSystem_def LeftDown_def ChunkSize_def
        SectorGrayZoneChunk_def m grid_rect_def del: of_int_diff)
qed

lemma shaped_rectangles:
  assumes "shaped s ss"
  shows "make_rectangle (ss_base_position ss) (ss_size ss) 0 = grid_rect (srow s) (scol s)"
    and "make_rectangle (ss_inner_box_position ss) (ss_inner_box ss) 0 =
      \<lparr>up = down (grid_rect (srow s) (scol s)) + 4000, down = down (grid_rect (srow s) (scol s)) + 1000,
       left = left (grid_rect (srow s) (scol s)) + 1000, right = left (grid_rect (srow s) (scol s)) + 4000\<rparr>"
proof -
  from assms have s: "unat s < 25" by (simp add: shaped_def)
  note g = grid_offset_range [OF s]
  have m: "fmul 5000 (fsub 1 0) = 5000" "fmul 5000 0 = 0" "fmul 3000 (fsub 1 0) = 3000" "fmul 3000 0 = 0"
    by (simp_all add: float_ops)
  show "make_rectangle (ss_base_position ss) (ss_size ss) 0 = grid_rect (srow s) (scol s)"
    using assms grid_axis [OF g(1,2)] grid_axis [OF g(3,4)]
    by (simp add: shaped_def make_rectangle_def LeftDown_def m grid_rect_def del: of_int_diff)
  show "make_rectangle (ss_inner_box_position ss) (ss_inner_box ss) 0 =
      \<lparr>up = down (grid_rect (srow s) (scol s)) + 4000, down = down (grid_rect (srow s) (scol s)) + 1000,
       left = left (grid_rect (srow s) (scol s)) + 1000, right = left (grid_rect (srow s) (scol s)) + 4000\<rparr>"
    using assms grid_offset [OF g(1,2)] grid_offset [OF g(3,4)]
    by (simp add: shaped_def make_rectangle_def m grid_rect_def del: of_int_diff)
qed

section \<open>Location\<close>

text \<open>A fixture with an extent: its rectangle is not degenerate and its half sizes, as the code
  computes them, are at least a sixty-fourth.\<close>

definition solid :: "Fixture \<Rightarrow> bool" where
  "solid f \<longleftrightarrow>
     left (ToFixtureRectangle f) < right (ToFixtureRectangle f) \<and>
     down (ToFixtureRectangle f) < up (ToFixtureRectangle f) \<and>
     1 / 64 \<le> fmul (vec_x (fx_size f)) (1 / 2) \<and> 1 / 64 \<le> fmul (vec_y (fx_size f)) (1 / 2)"

definition in_world :: "Vector2 \<Rightarrow> bool" where
  "in_world p \<longleftrightarrow> left WorldRect \<le> vec_x p \<and> vec_x p \<le> right WorldRect \<and>
     down WorldRect \<le> vec_y p \<and> vec_y p \<le> up WorldRect"

lemma overlap_sym: "FixtureRectangleOverlap r q = FixtureRectangleOverlap q r"
  by (auto simp: FixtureRectangleOverlap_def)

text \<open>An edge of the fixture's rectangle beyond a float puts the centre beyond it.\<close>

lemma rectangle_centre:
  assumes "solid f" "fl32 b = b"
  shows "right (ToFixtureRectangle f) < b \<Longrightarrow> vec_x (fx_position f) < b - 1 / 64"
    and "b < left (ToFixtureRectangle f) \<Longrightarrow> b + 1 / 64 < vec_x (fx_position f)"
    and "up (ToFixtureRectangle f) < b \<Longrightarrow> vec_y (fx_position f) < b - 1 / 64"
    and "b < down (ToFixtureRectangle f) \<Longrightarrow> b + 1 / 64 < vec_y (fx_position f)"
proof -
  have h: "fsub 1 (1 / 2) = 1 / 2" by (simp add: fsub_def)
  note defs = ToFixtureRectangle_def make_rectangle_def h fadd_def fsub_def
  show "right (ToFixtureRectangle f) < b \<Longrightarrow> vec_x (fx_position f) < b - 1 / 64"
    using assms fl32_lessD [OF _ assms(2)] by (force simp: defs solid_def)
  show "b < left (ToFixtureRectangle f) \<Longrightarrow> b + 1 / 64 < vec_x (fx_position f)"
    using assms less_fl32D [OF _ assms(2)] by (force simp: defs solid_def)
  show "up (ToFixtureRectangle f) < b \<Longrightarrow> vec_y (fx_position f) < b - 1 / 64"
    using assms fl32_lessD [OF _ assms(2)] by (force simp: defs solid_def)
  show "b < down (ToFixtureRectangle f) \<Longrightarrow> b + 1 / 64 < vec_y (fx_position f)"
    using assms less_fl32D [OF _ assms(2)] by (force simp: defs solid_def)
qed

lemma grid_rect_floats:
  assumes "unat s < 25"
  defines "r \<equiv> grid_rect (srow s) (scol s)"
  shows "fl32 (left r) = left r" "fl32 (right r) = right r" "fl32 (down r) = down r" "fl32 (up r) = up r"
    "fl32 (left r + 1000) = left r + 1000" "fl32 (left r + 4000) = left r + 4000"
    "fl32 (down r + 1000) = down r + 1000" "fl32 (down r + 4000) = down r + 4000"
  using grid_offset [OF grid_offset_range(1,2) [OF assms(1)]]
    grid_offset [OF grid_offset_range(3,4) [OF assms(1)]]
  by (simp_all add: r_def grid_rect_def del: of_int_diff)

text \<open>A solid fixture that misses a proper rectangle lies entirely to one side of it.\<close>

lemma missed_rectangle:
  assumes "\<not> FixtureRectangleOverlap r (ToFixtureRectangle f)" "solid f" "left r < right r" "down r < up r"
  shows "right (ToFixtureRectangle f) < left r \<or> right r < left (ToFixtureRectangle f) \<or>
    up (ToFixtureRectangle f) < down r \<or> up r < down (ToFixtureRectangle f)"
  using assms by (auto simp: FixtureRectangleOverlap_def solid_def split: if_splits)

lemma location_Leave_side:
  assumes "shaped s ss" "solid f" "CalculateCurrentLocation ss f = LocLeave"
  defines "r \<equiv> grid_rect (srow s) (scol s)"
  shows "vec_x (fx_position f) < left r - 1 / 64 \<or> right r + 1 / 64 < vec_x (fx_position f) \<or>
    vec_y (fx_position f) < down r - 1 / 64 \<or> up r + 1 / 64 < vec_y (fx_position f)"
proof -
  have s: "unat s < 25" using assms(1) by (simp add: shaped_def)
  have "\<not> FixtureRectangleOverlap r (ToFixtureRectangle f)"
    using assms(3) shaped_rectangles(1) [OF assms(1)]
    by (auto simp: CalculateCurrentLocation_def r_def split: if_splits)
  moreover have "left r < right r" "down r < up r" by (simp_all add: r_def grid_rect_def)
  ultimately have "right (ToFixtureRectangle f) < left r \<or> right r < left (ToFixtureRectangle f) \<or>
      up (ToFixtureRectangle f) < down r \<or> up r < down (ToFixtureRectangle f)"
    using assms(2) by (intro missed_rectangle)
  then show ?thesis
    using rectangle_centre [OF assms(2)] grid_rect_floats [OF s, folded r_def] by blast
qed

lemma leave_destination:
  assumes "shaped s ss" "solid f" "in_world (fx_position f)"
    and "CalculateCurrentLocation ss f = LocLeave"
  shows "GetSectorByPosition (fx_position f) \<noteq> s"
proof
  assume eq: "GetSectorByPosition (fx_position f) = s"
  have s: "unat s < 25" using assms(1) by (simp add: shaped_def)
  note g = sector_row_col(1) [OF s]
  have w: "- 10000 \<le> vec_x (fx_position f)" "vec_x (fx_position f) \<le> 15000"
    "- 10000 \<le> vec_y (fx_position f)" "vec_y (fx_position f) \<le> 15000"
    using assms(3) by (simp_all add: in_world_def WorldRect_eq)
  have "s \<noteq> INVALID_SECTOR" using sector_row_col(2) [OF s] sid_at_simps(4) [OF g] by simp
  then have x: "strip (vec_x (fx_position f)) = scol s" and y: "strip (vec_y (fx_position f)) = 4 - srow s"
    using GetSectorByPosition_valid [OF eq] by simp_all
  have hi: "strip v \<ge> k + 1" if "of_int (k - 2) * 5000 + 5000 < v" "v \<le> 15000" "0 \<le> k" "k < 5" for k v
    using strip_ge [of "k + 1" v] that by (simp add: algebra_simps)
  have lo: "strip v < k" if "v < of_int (k - 2) * 5000 - 1 / 64" "- 10000 \<le> v" "0 \<le> k" "k < 5" for k v
  proof -
    have "k \<noteq> 0" using that(1,2) by auto
    then show ?thesis using strip_less [of k v] that by (simp add: algebra_simps)
  qed
  show False
    using location_Leave_side [OF assms(1,2,4)] hi [of "scol s" "vec_x (fx_position f)"]
      lo [of "vec_x (fx_position f)" "scol s"] hi [of "4 - srow s" "vec_y (fx_position f)"]
      lo [of "vec_y (fx_position f)" "4 - srow s"] x y w g
    by (auto simp: grid_rect_def)
qed


section \<open>Phase\<close>

text \<open>One axis of \<open>CalculateCurrentPhase\<close>: which third of the sector a coordinate is in.\<close>

definition third :: "CoordinateUnit \<Rightarrow> CoordinateUnit \<Rightarrow> int" where
  "third v b = to_int32 \<bar>clamp02 (fdiv (fsub v b) (fdiv 5000 3))\<bar>"

lemma direction_ratio_bounds: "1666 \<le> fdiv 5000 3" "fdiv 5000 3 \<le> 1667"
  unfolding fdiv_def by (auto intro: le_fl32 fl32_le)

lemma clamp02_range: "0 \<le> clamp02 v" "clamp02 v \<le> 2"
  by (simp_all add: clamp02_def Let_def)

lemma to_int32_clamp02: "to_int32 \<bar>clamp02 v\<bar> = \<lfloor>clamp02 v\<rfloor>"
  using clamp02_range [of v] to_int32_small [of "clamp02 v"] by (simp add: trunc_rat_def)

lemma third_floor: "third v b = \<lfloor>clamp02 (fdiv (fsub v b) (fdiv 5000 3))\<rfloor>"
  by (simp only: third_def to_int32_clamp02)

lemma third_range: "third v b \<in> {0, 1, 2}"
proof -
  have "0 \<le> third v b" "third v b \<le> 2"
    using clamp02_range [of "fdiv (fsub v b) (fdiv 5000 3)"] by (simp_all add: third_floor floor_le_iff)
  then show ?thesis by auto
qed

lemma third_low:
  assumes "v - b \<le> 1600"
  shows "third v b = 0"
proof -
  have a: "fsub v b \<le> 1600" unfolding fsub_def using assms by (auto intro: fl32_le)
  have "fsub v b / fdiv 5000 3 \<le> 63 / 64"
  proof (cases "0 \<le> fsub v b")
    case True
    then have "fsub v b / fdiv 5000 3 \<le> 1600 / 1666"
      using a direction_ratio_bounds by (intro frac_le) auto
    then show ?thesis by linarith
  next
    case False
    then have "fsub v b / fdiv 5000 3 \<le> 0"
      using direction_ratio_bounds(1) by (intro divide_nonpos_pos) auto
    then show ?thesis by linarith
  qed
  moreover have "fl32 (63 / 64) = 63 / 64" using fl32_dyadic [of 63 6] by simp
  ultimately have "fdiv (fsub v b) (fdiv 5000 3) \<le> 63 / 64"
    by (metis fdiv_def fl32_le)
  then have "0 \<le> clamp02 (fdiv (fsub v b) (fdiv 5000 3))" "clamp02 (fdiv (fsub v b) (fdiv 5000 3)) < 1"
    by (simp_all add: clamp02_def Let_def)
  then show ?thesis by (simp add: third_floor floor_eq_iff)
qed

lemma third_high:
  assumes "3400 \<le> v - b"
  shows "third v b = 2"
proof -
  have "3400 \<le> fsub v b" unfolding fsub_def using assms by (auto intro: le_fl32)
  then have "3400 / 1667 \<le> fsub v b / fdiv 5000 3"
    using direction_ratio_bounds by (intro frac_le) auto
  then have "2 \<le> fsub v b / fdiv 5000 3" by linarith
  then have "2 \<le> fl32 (fsub v b / fdiv 5000 3)" by (rule le_fl32) simp
  then have "2 \<le> fdiv (fsub v b) (fdiv 5000 3)" by (simp only: fdiv_def)
  then show ?thesis by (simp add: third_def clamp02_def Let_def to_int32_def trunc_rat_def)
qed

lemma phase_thirds:
  assumes "shaped s ss"
  defines "r \<equiv> grid_rect (srow s) (scol s)"
  shows "CalculateCurrentPhase ss f =
    PhaseGrid ! nat (2 - third (vec_y (fx_position f)) (down r)) ! nat (third (vec_x (fx_position f)) (left r))"
  using assms(1)
  by (simp add: CalculateCurrentPhase_def shaped_def third_def LeftDown_def r_def Let_def)

lemma phase_cases:
  assumes "shaped s ss"
  defines "r \<equiv> grid_rect (srow s) (scol s)"
  shows "CalculateCurrentPhase ss f = DirMax \<longleftrightarrow>
    third (vec_y (fx_position f)) (down r) = 1 \<and> third (vec_x (fx_position f)) (left r) = 1"
  using third_range [of "vec_y (fx_position f)" "down r"] third_range [of "vec_x (fx_position f)" "left r"]
  unfolding phase_thirds [OF assms(1), folded r_def] by (auto simp: PhaseGrid_def)

lemma gray_phase:
  assumes "shaped s ss" "solid f" "CalculateCurrentLocation ss f \<noteq> LocIn"
  shows "CalculateCurrentPhase ss f \<noteq> DirMax"
proof -
  define r where "r = grid_rect (srow s) (scol s)"
  define q where "q = \<lparr>up = down r + 4000, down = down r + 1000, left = left r + 1000, right = left r + 4000\<rparr>"
  have s: "unat s < 25" using assms(1) by (simp add: shaped_def)
  have "\<not> FixtureRectangleOverlap q (ToFixtureRectangle f)"
    using assms(3) shaped_rectangles(2) [OF assms(1)]
    by (auto simp: CalculateCurrentLocation_def r_def q_def split: if_splits)
  moreover have "left q < right q" "down q < up q" by (simp_all add: q_def)
  ultimately have "right (ToFixtureRectangle f) < left q \<or> right q < left (ToFixtureRectangle f) \<or>
      up (ToFixtureRectangle f) < down q \<or> up q < down (ToFixtureRectangle f)"
    using assms(2) by (intro missed_rectangle)
  moreover have "fl32 (left q) = left q" "fl32 (right q) = right q" "fl32 (down q) = down q" "fl32 (up q) = up q"
    using grid_rect_floats [OF s, folded r_def] by (simp_all add: q_def)
  ultimately have "vec_x (fx_position f) < left q - 1 / 64 \<or> right q + 1 / 64 < vec_x (fx_position f) \<or>
      vec_y (fx_position f) < down q - 1 / 64 \<or> up q + 1 / 64 < vec_y (fx_position f)"
    using rectangle_centre [OF assms(2)] by blast
  then have "third (vec_x (fx_position f)) (left r) \<noteq> 1 \<or> third (vec_y (fx_position f)) (down r) \<noteq> 1"
    using third_low [of "vec_x (fx_position f)" "left r"] third_high [of "vec_x (fx_position f)" "left r"]
      third_low [of "vec_y (fx_position f)" "down r"] third_high [of "vec_y (fx_position f)" "down r"]
    by (auto simp: q_def)
  then show ?thesis using phase_cases [OF assms(1), of f, folded r_def] by blast
qed

text \<open>Outside the inner zone a fixture always has a proper phase: it has neighbouring
  sectors that must observe it.\<close>

theorem gray_or_leave_has_phase:
  assumes "shaped s ss" "solid f" "CalculateCurrentLocation ss f \<noteq> LocIn"
  shows "CalculateCurrentPhase ss f \<noteq> DirMax"
  using assms by (rule gray_phase)

text \<open>If the sector under a fixture is one of the eight neighbours of its own sector, that
  neighbour is among the near sectors of the fixture's phase, so it already holds an observing
  copy when the object is handed over.\<close>

theorem destination_is_near:
  assumes "shaped s ss" "in_world (fx_position f)"
    and "GetNextSector s d = Inr t" "d \<noteq> DirMax" "t \<noteq> INVALID_SECTOR"
    and "GetSectorByPosition (fx_position f) = t"
  shows "\<exists>ns. GetNearSectors s (CalculateCurrentPhase ss f) = Inr ns \<and> t \<in> set ns"
proof -
  let ?x = "vec_x (fx_position f)" and ?y = "vec_y (fx_position f)"
  define r where "r = grid_rect (srow s) (scol s)"
  define tx ty where "tx = third ?x (left r)" and "ty = third ?y (down r)"
  have s: "unat s < 25" using assms(1) by (simp add: shaped_def)
  note g = sector_row_col(1) [OF s]
  note n = GetNextSector_valid [OF s assms(3,5)]
  have w: "- 10000 \<le> ?x" "?x \<le> 15000" "- 10000 \<le> ?y" "?y \<le> 15000"
    using assms(2) by (simp_all add: in_world_def WorldRect_eq)
  have x: "strip ?x = scol s + dcol d" and y: "strip ?y = 4 - srow s + drow d"
    using GetSectorByPosition_valid [OF assms(6,5)] n(4,5) by simp_all
  have up: "of_int k * 5000 - 10000 - 1 / 64 < v" if "k \<le> strip v" "- 10000 \<le> v" "1 \<le> k" "k \<le> 5" for k v
    using strip_less [of k v] that by force
  have dn: "v < of_int k * 5000 - 10000" if "strip v < k" "v \<le> 15000" "0 \<le> k" "k \<le> 5" for k v
    using strip_ge [of k v] that by force
  have r: "left r = of_int (scol s) * 5000 - 10000" "down r = of_int (4 - srow s) * 5000 - 10000"
    by (simp_all add: r_def grid_rect_def algebra_simps)
  have tx: "(dcol d = 1 \<longrightarrow> tx = 2) \<and> (dcol d = - 1 \<longrightarrow> tx = 0)"
    unfolding tx_def using up [of "scol s + 1" ?x] dn [of ?x "scol s"] x w g n(1)
    by (auto intro!: third_high third_low simp: r algebra_simps)
  have ty: "(drow d = 1 \<longrightarrow> ty = 2) \<and> (drow d = - 1 \<longrightarrow> ty = 0)"
    unfolding ty_def using up [of "4 - srow s + 1" ?y] dn [of ?y "4 - srow s"] y w g n(1)
    by (auto intro!: third_high third_low simp: r algebra_simps)
  have "d \<in> set (near_directions (PhaseGrid ! nat (2 - ty) ! nat tx))"
    using tx ty assms(4) third_range [of ?x "left r"] third_range [of ?y "down r"]
    unfolding tx_def [symmetric] ty_def [symmetric]
    by (cases d) (auto simp: PhaseGrid_def)
  then have "t \<in> set (near_list s (CalculateCurrentPhase ss f))"
    using set_near_list [OF s] assms(3,5) phase_thirds [OF assms(1), of f]
    by (auto simp: tx_def ty_def r_def)
  then show ?thesis using GetNearSectors_eq [OF s] by auto
qed

section \<open>Movement\<close>

text \<open>One axis of \<open>Move\<close>: position \<open>v\<close>, movement \<open>m\<close>, half size \<open>h\<close> and the edges of the world.
  Each operation is off by at most 1/256, so the clamped rectangle leaves the world by less
  than 1/32.\<close>

definition clamp_axis ::
  "CoordinateUnit \<Rightarrow> CoordinateUnit \<Rightarrow> CoordinateUnit \<Rightarrow> CoordinateUnit \<Rightarrow> CoordinateUnit \<Rightarrow> CoordinateUnit" where
  "clamp_axis lo hi v h m =
    (let l = fsub (fadd v m) h; u = fadd (fadd v m) h;
         m1 = (if lo > l then fadd m (fsub lo l) else m)
     in if hi < u then fsub m1 (fsub u hi) else m1)"

lemma clamp_axis_bounds:
  assumes "\<bar>v\<bar> \<le> 32768" "\<bar>m\<bar> \<le> 32768" "1 \<le> h" "h \<le> 10000"
  shows "- 10000 + h - 1 / 32 \<le> fadd v (clamp_axis (- 10000) 15000 v h m)"
    and "fadd v (clamp_axis (- 10000) 15000 v h m) \<le> 15000 - h + 1 / 32"
proof -
  define p where "p = fadd v m"
  define l where "l = fsub p h"
  define u where "u = fadd p h"
  have p: "\<bar>p - (v + m)\<bar> \<le> 1 / 256"
    unfolding p_def fadd_def using assms by (intro fl32_error_17) linarith
  have l: "\<bar>l - (p - h)\<bar> \<le> 1 / 256"
    unfolding l_def fsub_def using assms p by (intro fl32_error_17) linarith
  have u: "\<bar>u - (p + h)\<bar> \<le> 1 / 256"
    unfolding u_def fadd_def using assms p by (intro fl32_error_17) linarith
  have c: "clamp_axis (- 10000) 15000 v h m =
      (if - 10000 > l then fadd m (fsub (- 10000) l) else if 15000 < u then fsub m (fsub u 15000) else m)"
  proof -
    have "\<not> (- 10000 > l \<and> 15000 < u)" using assms l u by linarith
    then show ?thesis
      by (auto simp: clamp_axis_def p_def [symmetric] l_def [symmetric] u_def [symmetric] Let_def)
  qed
  have "- 10000 + h - 1 / 32 \<le> fadd v (clamp_axis (- 10000) 15000 v h m) \<and>
    fadd v (clamp_axis (- 10000) 15000 v h m) \<le> 15000 - h + 1 / 32"
  proof (cases "- 10000 > l")
    case True
    define a where "a = fsub (- 10000) l"
    define b where "b = fadd m a"
    have a: "\<bar>a - (- 10000 - l)\<bar> \<le> 1 / 256"
      unfolding a_def fsub_def using assms p l by (intro fl32_error_17) linarith
    have b: "\<bar>b - (m + a)\<bar> \<le> 1 / 256"
      unfolding b_def fadd_def using assms p l a by (intro fl32_error_17) linarith
    have r: "\<bar>fadd v b - (v + b)\<bar> \<le> 1 / 256"
      unfolding fadd_def using assms p l a b by (intro fl32_error_17) linarith
    have eq: "clamp_axis (- 10000) 15000 v h m = b" using True by (simp add: c a_def b_def)
    show ?thesis unfolding eq using p l a b r True assms by (intro conjI; linarith)
  next
    case F: False
    show ?thesis
    proof (cases "15000 < u")
      case True
      define a where "a = fsub u 15000"
      define b where "b = fsub m a"
      have a: "\<bar>a - (u - 15000)\<bar> \<le> 1 / 256"
        unfolding a_def fsub_def using assms p u by (intro fl32_error_17) linarith
      have b: "\<bar>b - (m - a)\<bar> \<le> 1 / 256"
        unfolding b_def fsub_def using assms p u a by (intro fl32_error_17) linarith
      have r: "\<bar>fadd v b - (v + b)\<bar> \<le> 1 / 256"
        unfolding fadd_def using assms p u a b by (intro fl32_error_17) linarith
      have eq: "clamp_axis (- 10000) 15000 v h m = b" using True F by (simp add: c a_def b_def)
      show ?thesis unfolding eq using p u a b r True assms by (intro conjI; linarith)
    next
      case False
      have eq: "clamp_axis (- 10000) 15000 v h m = m" using False F by (simp add: c)
      show ?thesis unfolding eq p_def [symmetric] using p l u False F assms by (intro conjI; linarith)
    qed
  qed
  then show "- 10000 + h - 1 / 32 \<le> fadd v (clamp_axis (- 10000) 15000 v h m)"
    and "fadd v (clamp_axis (- 10000) 15000 v h m) \<le> 15000 - h + 1 / 32" by blast+
qed

abbreviation half :: "CoordinateUnit \<Rightarrow> CoordinateUnit" where
  "half v \<equiv> fmul v (1 / 2)"

text \<open>The step length of a move, before the direction is applied.\<close>

definition stride :: "int \<Rightarrow> Fixture \<Rightarrow> CoordinateUnit" where
  "stride dt f = fmul (fx_force f) (fdiv (fl32 (of_nat (unat (of_int dt + fx_personal_delta_time f)))) 1000)"

lemma Move_eq:
  fixes dt :: int
  assumes "fx_direction f \<noteq> DirMax"
  defines "mx \<equiv> clamp_axis (- 10000) 15000 (vec_x (fx_position f)) (half (vec_x (fx_size f)))
                   (fmul (stride dt f) (of_int (dcol (fx_direction f))))"
    and "my \<equiv> clamp_axis (- 10000) 15000 (vec_y (fx_position f)) (half (vec_y (fx_size f)))
                   (fmul (stride dt f) (of_int (drow (fx_direction f))))"
  shows "Move dt f = (vec2 mx my, f\<lparr>fx_position := vec2 (fadd (vec_x (fx_position f)) mx)
    (fadd (vec_y (fx_position f)) my), fx_personal_delta_time := 0\<rparr>)"
proof -
  have h: "fsub 1 (1 / 2) = 1 / 2" by (simp add: fsub_def)
  show ?thesis
    using assms(1)
    by (simp add: Move_def mx_def my_def clamp_axis_def stride_def ToFixtureRectangle_def make_rectangle_def
        WorldRect_eq vec_plus_def h drow_def dcol_def Let_def)
qed

text \<open>The sizes and forces the game uses: half sizes from 1 to 10000, forces up to 500.\<close>

definition sized :: "Fixture \<Rightarrow> bool" where
  "sized f \<longleftrightarrow> 1 \<le> half (vec_x (fx_size f)) \<and> half (vec_x (fx_size f)) \<le> 10000 \<and>
     1 \<le> half (vec_y (fx_size f)) \<and> half (vec_y (fx_size f)) \<le> 10000 \<and> 0 \<le> fx_force f \<and> fx_force f \<le> 500"

lemma stride_bounds:
  assumes "sized f" "unat (of_int dt + fx_personal_delta_time f) \<le> 60000"
  shows "0 \<le> stride dt f" "stride dt f \<le> 30000"
proof -
  let ?n = "of_nat (unat (of_int dt + fx_personal_delta_time f)) :: rat"
  have "?n \<le> of_nat 60000" using assms(2) by (simp only: of_nat_le_iff)
  moreover have "0 \<le> ?n" by (rule of_nat_0_le_iff)
  ultimately have n: "0 \<le> fl32 ?n" "fl32 ?n \<le> 60000" by (auto intro: fl32_nonneg fl32_le)
  then have d: "0 \<le> fdiv (fl32 ?n) 1000" "fdiv (fl32 ?n) 1000 \<le> 60"
    unfolding fdiv_def by (auto intro: fl32_nonneg fl32_le)
  have "fx_force f * fdiv (fl32 ?n) 1000 \<le> 500 * 60"
    using assms(1) d by (intro mult_mono) (auto simp: sized_def)
  then show "0 \<le> stride dt f" "stride dt f \<le> 30000"
    using assms(1) d unfolding stride_def fmul_def [of "fx_force f"]
    by (auto intro!: fl32_nonneg fl32_le mult_nonneg_nonneg simp: sized_def)
qed

lemma stride_axis:
  assumes "0 \<le> a" "a \<le> 30000" "k \<in> {- 1, 0, 1}"
  shows "\<bar>fmul a (of_int k)\<bar> \<le> 30000"
  using assms fl32_nonneg [of a] fl32_le [of a 30000] by (auto simp: fmul_def)

lemma force_range: "drow d \<in> {- 1, 0, 1}" "dcol d \<in> {- 1, 0, 1}"
  by (cases d; simp)+

text \<open>C25. Whatever direction an object moves in, after \<open>Move\<close> its rectangle is inside the world
  up to the rounding of five float operations (less than 1/32 of a unit).\<close>

theorem Move_stays_in_world:
  assumes "sized f" "unat (of_int dt + fx_personal_delta_time f) \<le> 60000" "fx_direction f \<noteq> DirMax"
    and "\<bar>vec_x (fx_position f)\<bar> \<le> 32768" "\<bar>vec_y (fx_position f)\<bar> \<le> 32768"
  shows "let g = snd (Move dt f) in
    left WorldRect + half (vec_x (fx_size f)) - 1 / 32 \<le> vec_x (fx_position g) \<and>
    vec_x (fx_position g) \<le> right WorldRect - half (vec_x (fx_size f)) + 1 / 32 \<and>
    down WorldRect + half (vec_y (fx_size f)) - 1 / 32 \<le> vec_y (fx_position g) \<and>
    vec_y (fx_position g) \<le> up WorldRect - half (vec_y (fx_size f)) + 1 / 32 \<and>
    fx_size g = fx_size f \<and> in_world (fx_position g)"
proof -
  note st = stride_bounds [OF assms(1,2)]
  have m: "\<bar>fmul (stride dt f) (of_int (dcol (fx_direction f)))\<bar> \<le> 32768"
    "\<bar>fmul (stride dt f) (of_int (drow (fx_direction f)))\<bar> \<le> 32768"
    using stride_axis [OF st force_range(2)] stride_axis [OF st force_range(1)] by (force intro: order_trans)+
  show ?thesis
    using clamp_axis_bounds [OF assms(4) m(1), of "half (vec_x (fx_size f))"]
      clamp_axis_bounds [OF assms(5) m(2), of "half (vec_y (fx_size f))"] assms(1)
    unfolding Move_eq [OF assms(3)] by (simp add: sized_def WorldRect_eq Let_def in_world_def)
qed

theorem Move_stays_in_world_witness:
  "let f = new_Fixture\<lparr>fx_size := vec2 200 200, fx_position := vec2 14990 0, fx_direction := DirRight\<rparr>;
       g = snd (Move 1000 f)
   in sized f \<and> vec_x (fx_position g) \<le> 15000 - 100 + 1 / 32 \<and> in_world (fx_position g)"
proof -
  define f where "f = new_Fixture\<lparr>fx_size := vec2 200 200, fx_position := vec2 14990 0, fx_direction := DirRight\<rparr>"
  have f: "sized f" "fx_direction f \<noteq> DirMax" "\<bar>vec_x (fx_position f)\<bar> \<le> 32768" "\<bar>vec_y (fx_position f)\<bar> \<le> 32768"
    "unat (of_int 1000 + fx_personal_delta_time f) \<le> 60000" "half (vec_x (fx_size f)) = 100"
    by (simp_all add: f_def sized_def new_Fixture_def ForceConstant_def float_ops)
  show ?thesis
    using Move_stays_in_world [OF f(1) f(5) f(2-4)] f(1,6)
    by (simp add: f_def [symmetric] WorldRect_eq Let_def)
qed

lemma sized_solid:
  assumes "sized f" "\<bar>vec_x (fx_position f)\<bar> \<le> 32768" "\<bar>vec_y (fx_position f)\<bar> \<le> 32768"
  shows "solid f"
proof -
  have h: "fsub 1 (1 / 2) = 1 / 2" by (simp add: fsub_def)
  have err: "p - q < fadd p q + 1 / 64 \<and> fsub p q < fadd p q"
    if "1 \<le> q" "q \<le> 10000" "\<bar>p\<bar> \<le> 32768" for p q :: rat
  proof -
    have "\<bar>fadd p q - (p + q)\<bar> \<le> 1 / 256" "\<bar>fsub p q - (p - q)\<bar> \<le> 1 / 256"
      unfolding fadd_def fsub_def using that by (intro fl32_error_17; linarith)+
    then show ?thesis using that by (intro conjI; linarith)
  qed
  show ?thesis
    using assms err by (simp add: solid_def sized_def ToFixtureRectangle_def make_rectangle_def h)
qed


theorem gray_or_leave_has_phase_witness:
  "let ss = sector_system 1 12 (grid_rect 2 2);
       f = new_Fixture\<lparr>fx_size := vec2 20 20, fx_position := vec2 4500 100\<rparr>
   in CalculateCurrentLocation ss f = LocGray \<and> CalculateCurrentPhase ss f \<noteq> DirMax"
proof -
  define f where "f = new_Fixture\<lparr>fx_size := vec2 20 20, fx_position := vec2 4500 100\<rparr>"
  have s: "srow 12 = 2" "scol 12 = 2" "unat (12 :: u64) < 25" by (simp_all add: srow_def scol_def)
  have sh: "shaped 12 (sector_system 1 12 (grid_rect 2 2))" using sector_system_shaped [OF s(3), of 1] s by simp
  have f: "solid f"
    by (intro sized_solid) (simp_all add: f_def sized_def new_Fixture_def ForceConstant_def float_ops)
  have l: "CalculateCurrentLocation (sector_system 1 12 (grid_rect 2 2)) f = LocGray"
    using shaped_rectangles [OF sh] s
    by (simp add: CalculateCurrentLocation_def f_def new_Fixture_def ToFixtureRectangle_def make_rectangle_def
        FixtureRectangleOverlap_def grid_rect_def float_ops)
  show ?thesis using gray_or_leave_has_phase [OF sh f] l by (simp add: f_def Let_def)
qed

theorem destination_is_near_witness:
  "let ss = sector_system 1 12 (grid_rect 2 2);
       f = new_Fixture\<lparr>fx_size := vec2 20 20, fx_position := vec2 5100 100\<rparr>
   in \<exists>ns. GetNearSectors 12 (CalculateCurrentPhase ss f) = Inr ns \<and> 13 \<in> set ns"
proof -
  define f where "f = new_Fixture\<lparr>fx_size := vec2 20 20, fx_position := vec2 5100 100\<rparr>"
  have s: "srow 12 = 2" "scol 12 = 2" "unat (12 :: u64) < 25" by (simp_all add: srow_def scol_def)
  have sh: "shaped 12 (sector_system 1 12 (grid_rect 2 2))" using sector_system_shaped [OF s(3), of 1] s by simp
  have n: "GetNextSector 12 DirRight = Inr 13" using s by (simp add: GetNextSector_eq sid_at_def)
  have i: "(13 :: u64) \<noteq> INVALID_SECTOR" by (simp add: INVALID_SECTOR_def)
  have w: "in_world (fx_position f)" by (simp add: f_def in_world_def WorldRect_eq)
  have "strip 5100 = 3" "strip 100 = 2" by (rule strip_inside; simp)+
  then have g: "GetSectorByPosition (fx_position f) = 13"
    by (simp add: f_def GetSectorByPosition_eq sid_at_def)
  show ?thesis
    using destination_is_near [OF sh w n _ i g] by (simp add: f_def Let_def)
qed

section \<open>Identifiers\<close>

text \<open>Successive spawns in one sector system.\<close>

fun spawn_many :: "(Vector2 \<times> Size) list \<Rightarrow> SectorSystem \<Rightarrow> (u64 list \<times> SectorSystem) res" where
  "spawn_many [] ss = Inr ([], ss)"
| "spawn_many ((p, z) # rest) ss =
     rbind (CreateFixture p z ss) (\<lambda>(f, ss'). rbind (spawn_many rest ss') (\<lambda>(ids, ss''). Inr (fx_id f # ids, ss'')))"

definition fixture_id_of :: "nat \<Rightarrow> nat \<Rightarrow> nat \<Rightarrow> nat" where
  "fixture_id_of srv sec n = srv * 1000000000000000 + 200000000000000 + 100000000000 * sec + 1 + n"

lemma fixture_id_of_less:
  assumes "srv \<le> 18446" "sec < 25" "n < 100000000000"
  shows "fixture_id_of srv sec n < 2 ^ 64"
  using assms by (simp add: fixture_id_of_def)

lemma fixture_id_of_inj:
  assumes "sec < 25" "sec' < 25" "n < 100000000000" "n' < 100000000000"
    and "fixture_id_of srv sec n = fixture_id_of srv' sec' n'"
  shows "srv = srv' \<and> sec = sec' \<and> n = n'"
proof -
  have e: "srv * 1000000000000000 + 100000000000 * sec + n = srv' * 1000000000000000 + 100000000000 * sec' + n'"
    using assms(5) by (simp add: fixture_id_of_def)
  then have 1: "srv = srv'" using assms(1-4) by arith
  with e have 2: "sec = sec'" using assms(3,4) by simp
  show ?thesis using e 1 2 by simp
qed

lemma unat_less_mod: "unat (of_nat n :: u64) = n" if "n < 2 ^ 64"
  using that by (simp add: unat_of_nat take_bit_eq_mod)

lemma new_fixture_id:
  "ss_current_fixture_id (new_SectorSystem (of_nat srv) (of_nat sec) p z c g) = of_nat (fixture_id_of srv sec 0)"
  by (simp add: new_SectorSystem_def fixture_id_of_def)

text \<open>A counter at \<open>m\<close> above every key of the map keeps creating fresh identifiers.\<close>

lemma spawn_many_fresh:
  assumes "ss_current_fixture_id ss = of_nat m" "m + length xs \<le> 2 ^ 64"
    and "\<forall>k \<in> fst ` set (ss_fixtures ss). unat k < m"
  shows "\<exists>ss'. spawn_many xs ss = Inr (map of_nat [m ..< m + length xs], ss')"
  using assms
proof (induction xs arbitrary: ss m)
  case (Cons x xs)
  obtain p z where x: "x = (p, z)" by (cases x)
  have m: "unat (of_nat m :: u64) = m" using Cons.prems(2) by (intro unat_less_mod) simp
  have "um_find (ss_fixtures ss) (of_nat m) = None"
    using Cons.prems(3) m by (force simp: um_find_None_iff)
  then obtain f ss1 where c: "CreateFixture p z ss = Inr (f, ss1)" "fx_id f = of_nat m"
      "ss_current_fixture_id ss1 = of_nat (Suc m)"
      "fst ` set (ss_fixtures ss1) = insert (of_nat m) (fst ` set (ss_fixtures ss))"
    using Cons.prems(1) by (simp add: CreateFixture_def CreateFixture_id_def Let_def)
  have "\<exists>ss'. spawn_many xs ss1 = Inr (map of_nat [Suc m ..< Suc m + length xs], ss')"
    using c(3,4) Cons.prems(2,3) m by (intro Cons.IH) auto
  moreover have "[m ..< m + length (x # xs)] = m # [Suc m ..< Suc m + length xs]"
    by (simp add: upt_conv_Cons del: upt_Suc)
  ultimately show ?case using c(1,2) by (auto simp del: upt_Suc simp: x)
qed simp

text \<open>Identifiers are unique across the cluster: as long as no sector has spawned
  \<open>10^11\<close> objects, spawning never throws \<^verbatim>\<open>duplicate fixture id\<close>, gives pairwise different
  identifiers within a sector, and two sectors, of one server or of two, never give the same one.\<close>

theorem fixture_ids_unique:
  assumes "srv \<le> 18446" "srv' \<le> 18446" "sec < 25" "sec' < 25" "(srv, sec) \<noteq> (srv', sec')"
    and "length xs \<le> 100000000000" "length ys \<le> 100000000000"
  shows "\<exists>ids ids' ss ss'.
    spawn_many xs (new_SectorSystem (of_nat srv) (of_nat sec) p z c g) = Inr (ids, ss) \<and>
    spawn_many ys (new_SectorSystem (of_nat srv') (of_nat sec') p' z' c' g') = Inr (ids', ss') \<and>
    length ids = length xs \<and> distinct ids \<and> set ids \<inter> set ids' = {}"
proof -
  let ?m = "fixture_id_of srv sec 0" and ?m' = "fixture_id_of srv' sec' 0"
  have b: "?m + length xs \<le> 2 ^ 64" "?m' + length ys \<le> 2 ^ 64"
    using assms by (simp_all add: fixture_id_of_def)
  have e: "ss_fixtures (new_SectorSystem s t p z c g) = []" for s t p z c g by (simp add: new_SectorSystem_def)
  obtain ss ss' where r:
    "spawn_many xs (new_SectorSystem (of_nat srv) (of_nat sec) p z c g) = Inr (map of_nat [?m ..< ?m + length xs], ss)"
    "spawn_many ys (new_SectorSystem (of_nat srv') (of_nat sec') p' z' c' g') = Inr (map of_nat [?m' ..< ?m' + length ys], ss')"
    using spawn_many_fresh [OF new_fixture_id b(1), of p z c g]
      spawn_many_fresh [OF new_fixture_id b(2), of p' z' c' g'] by (auto simp: e)
  have inj: "(of_nat i :: u64) = of_nat j \<longleftrightarrow> i = j" if "i < 2 ^ 64" "j < 2 ^ 64" for i j
    using that unat_less_mod by metis
  have d: "distinct (map (of_nat :: nat \<Rightarrow> u64) [?m ..< ?m + length xs])"
    unfolding distinct_map using b(1) inj by (auto intro!: inj_onI)
  have "i \<noteq> j" if "i \<in> {?m ..< ?m + length xs}" "j \<in> {?m' ..< ?m' + length ys}" for i j
  proof
    assume "i = j"
    moreover have "i = fixture_id_of srv sec (i - ?m)" "j = fixture_id_of srv' sec' (j - ?m')"
      using that by (simp_all add: fixture_id_of_def)
    moreover have "i - ?m < 100000000000" "j - ?m' < 100000000000" using that assms(6,7) by auto
    ultimately show False using fixture_id_of_inj [OF assms(3,4), of "i - ?m" "j - ?m'" srv srv'] assms(5) by auto
  qed
  then have "set (map (of_nat :: nat \<Rightarrow> u64) [?m ..< ?m + length xs]) \<inter> set (map of_nat [?m' ..< ?m' + length ys]) = {}"
    using inj b by auto
  then show ?thesis using r d by (metis length_map length_upt diff_add_inverse)
qed

theorem fixture_ids_unique_witness:
  "\<exists>ids ids' ss ss'. spawn_many [(vec2 0 0, vec2 1 1), (vec2 1 1, vec2 1 1)] (new_SectorSystem 3 4 (vec2 0 0) (vec2 1 1) 1 1) = Inr (ids, ss) \<and>
    spawn_many [(vec2 0 0, vec2 1 1)] (new_SectorSystem 3 5 (vec2 0 0) (vec2 1 1) 1 1) = Inr (ids', ss') \<and>
    length ids = 2 \<and> distinct ids \<and> set ids \<inter> set ids' = {}"
  using fixture_ids_unique [of 3 3 4 5 "[(vec2 0 0, vec2 1 1), (vec2 1 1, vec2 1 1)]" "[(vec2 0 0, vec2 1 1)]"
    "vec2 0 0" "vec2 1 1" 1 1 "vec2 0 0" "vec2 1 1" 1 1]
  by (simp del: spawn_many.simps add: numeral_2_eq_2)

section \<open>Simulation keeps owned objects settled\<close>

text \<open>The fixtures the simulation maintains: of a size and force the game uses, near the world, and,
  when this sector owns the object, either in the inner zone with no phase or in the gray zone
  with a proper one. An object that has left its sector is never owned any more.\<close>

definition settled :: "Fixture \<Rightarrow> bool" where
  "settled f \<longleftrightarrow> fx_is_observing_fixture f \<or>
     (fx_location f = LocIn \<and> fx_phase f = DirMax) \<or> (fx_location f = LocGray \<and> fx_phase f \<noteq> DirMax)"

definition tracked :: "Fixture \<Rightarrow> bool" where
  "tracked f \<longleftrightarrow> sized f \<and> \<bar>vec_x (fx_position f)\<bar> \<le> 32768 \<and> \<bar>vec_y (fx_position f)\<bar> \<le> 32768 \<and>
     fx_personal_delta_time f = 0"

definition sector_inv :: "u64 \<Rightarrow> SectorSystem \<Rightarrow> bool" where
  "sector_inv s ss \<longleftrightarrow> shaped s ss \<and> um_ok (ss_fixtures ss) \<and>
     (\<forall>(k, f) \<in> set (ss_fixtures ss). fx_id f = k \<and> settled f \<and> tracked f)"

lemma Move_frame:
  "fx_id (snd (Move dt f)) = fx_id f" "fx_location (snd (Move dt f)) = fx_location f"
  "fx_phase (snd (Move dt f)) = fx_phase f" "fx_is_observing_fixture (snd (Move dt f)) = fx_is_observing_fixture f"
  "fx_last_transform_time (snd (Move dt f)) = fx_last_transform_time f"
  "fx_sector_id (snd (Move dt f)) = fx_sector_id f" "fx_size (snd (Move dt f)) = fx_size f"
  "fx_force (snd (Move dt f)) = fx_force f" "fx_direction (snd (Move dt f)) = fx_direction f"
  by (cases "fx_direction f = DirMax"; simp add: Move_def Let_def)+

lemma Move_tracked:
  assumes "tracked f" "0 \<le> dt" "dt \<le> 60000"
  shows "tracked (snd (Move dt f))"
proof (cases "fx_direction f = DirMax")
  case False
  have "unat (of_int dt + fx_personal_delta_time f) \<le> 60000"
    using assms by (simp add: tracked_def unat_eq_nat_uint uint_word_of_int)
  then have m: "\<bar>fmul (stride dt f) (of_int (dcol (fx_direction f)))\<bar> \<le> 32768"
    "\<bar>fmul (stride dt f) (of_int (drow (fx_direction f)))\<bar> \<le> 32768"
    using stride_axis [OF stride_bounds force_range(2)] stride_axis [OF stride_bounds force_range(1)] assms(1)
    by (force simp: tracked_def intro: order_trans)+
  have "left WorldRect - 1 \<le> vec_x (fx_position (snd (Move dt f)))"
    "vec_x (fx_position (snd (Move dt f))) \<le> right WorldRect + 1"
    "down WorldRect - 1 \<le> vec_y (fx_position (snd (Move dt f)))"
    "vec_y (fx_position (snd (Move dt f))) \<le> up WorldRect + 1"
    using clamp_axis_bounds [OF _ m(1), of "vec_x (fx_position f)" "half (vec_x (fx_size f))"]
      clamp_axis_bounds [OF _ m(2), of "vec_y (fx_position f)" "half (vec_y (fx_size f))"] assms(1)
    unfolding Move_eq [OF False] by (simp_all add: tracked_def sized_def WorldRect_eq)
  moreover have "fx_personal_delta_time (snd (Move dt f)) = 0" by (simp add: Move_eq [OF False])
  ultimately show ?thesis
    using assms(1) by (simp add: tracked_def sized_def Move_frame WorldRect_eq abs_le_iff)
qed (use assms in \<open>simp add: Move_def\<close>)

lemma tracked_solid: "tracked f \<Longrightarrow> solid f"
  by (simp add: tracked_def sized_solid)

text \<open>What a sector system needs of the object behind \<^verbatim>\<open>SectorSystem::Callback\<close>: a phase change leaves
  the fixture as it is, a location change stamps it and gives it up exactly when it leaves.\<close>

locale sector_callback =
  fixes cb :: "'w callback" and good :: "u64 \<Rightarrow> 'w \<Rightarrow> bool"
  assumes phase_frame:
    "OnChangeFixturePhase cb s f p w = Inr (f', w') \<Longrightarrow> good s w \<Longrightarrow> f' = f \<and> good s w'"
  and location_frame:
    "OnChangeFixtureLocation cb s f l p w = Inr (f', w') \<Longrightarrow> good s w \<Longrightarrow>
       good s w' \<and> (\<exists>t. f' = f\<lparr>fx_last_transform_time := t,
                              fx_is_observing_fixture := fx_is_observing_fixture f \<or> l = LocLeave\<rparr>)"
begin

lemma update_fixture_ok:
  assumes "shaped s ss" "settled f" "tracked f" "good s w" "0 \<le> dt" "dt \<le> 60000"
    and "update_fixture cb ss now dt f w = Inr (f', w')"
  shows "settled f' \<and> tracked f' \<and> fx_id f' = fx_id f \<and> good s w'"
proof -
  define g where "g = snd (Move dt f)"
  have g: "tracked g" "settled g" "fx_id g = fx_id f"
    using Move_tracked [OF assms(3,5,6)] assms(2) by (simp_all add: g_def settled_def Move_frame)
  have i: "ss_sector_id ss = s" using assms(1) by (simp add: shaped_def)
  have p: "CalculateCurrentLocation ss g \<noteq> LocIn \<Longrightarrow> CalculateCurrentPhase ss g \<noteq> DirMax"
    using gray_phase [OF assms(1) tracked_solid [OF g(1)]] .
  have t: "tracked (h\<lparr>fx_phase := q, fx_location := l\<rparr>) = tracked h"
    "tracked (h\<lparr>fx_location := l\<rparr>) = tracked h" "tracked (h\<lparr>fx_phase := q\<rparr>) = tracked h"
    "tracked (h\<lparr>fx_last_transform_time := x, fx_is_observing_fixture := b\<rparr>) = tracked h" for h q l x b
    by (simp_all add: tracked_def sized_def)
  have l: "CalculateCurrentLocation ss g \<noteq> LocMax" by (simp add: CalculateCurrentLocation_def)
  show ?thesis
    using assms(7) g i p l assms(4)
    unfolding update_fixture_def Let_def g_def [symmetric]
    by (cases "CalculateCurrentLocation ss g")
      (auto simp: res_iff t settled_def split: if_splits FixtureLocation.splits
        dest!: phase_frame location_frame)
qed

lemma update_fixtures_ok:
  assumes "shaped s ss" "good s w" "0 \<le> dt" "dt \<le> 60000"
    and "\<forall>(k, f) \<in> set fs. fx_id f = k \<and> settled f \<and> tracked f"
    and "update_fixtures cb ss now dt fs w = Inr (fs', w')"
  shows "um_keys fs' = um_keys fs \<and> good s w' \<and> (\<forall>(k, f) \<in> set fs'. fx_id f = k \<and> settled f \<and> tracked f)"
  using assms(2,5,6)
proof (induction fs arbitrary: w fs' w')
  case (Cons x fs)
  obtain k f where x: "x = (k, f)" by (cases x)
  with Cons.prems obtain f1 w1 fs1 where r: "update_fixture cb ss now dt f w = Inr (f1, w1)"
    "update_fixtures cb ss now dt fs w1 = Inr (fs1, w')" "fs' = (k, f1) # fs1"
    by (auto simp: res_iff)
  have "settled f1 \<and> tracked f1 \<and> fx_id f1 = fx_id f \<and> good s w1"
    using update_fixture_ok [OF assms(1) _ _ Cons.prems(1) assms(3,4) r(1)] Cons.prems(2) by (simp add: x)
  then show ?case using Cons.IH [OF _ _ r(2)] Cons.prems(2) by (simp add: x r(3))
qed simp

lemma SectorSystem_Update_inv:
  assumes "sector_inv s ss" "good s w" "0 \<le> dt" "dt \<le> 60000"
    and "SectorSystem_Update cb now dt ss w = Inr (ss', w')"
  shows "sector_inv s ss' \<and> good s w' \<and> um_keys (ss_fixtures ss') = um_keys (ss_fixtures ss)"
proof -
  from assms(5) obtain fs where u: "update_fixtures cb ss now dt (ss_fixtures ss) w = Inr (fs, w')"
    "ss' = ss\<lparr>ss_fixtures := fs\<rparr>" by (auto simp: SectorSystem_Update_def res_iff)
  have sh: "shaped s ss" using assms(1) by (simp add: sector_inv_def)
  have k: "\<forall>(k, f) \<in> set (ss_fixtures ss). fx_id f = k \<and> settled f \<and> tracked f"
    using assms(1) by (simp add: sector_inv_def)
  note r = update_fixtures_ok [OF sh assms(2-4) k u(1)]
  have "shaped s ss'" using sh by (simp add: shaped_def u(2))
  then show ?thesis using r assms(1) unfolding sector_inv_def u(2) by simp
qed

end

end
