(* ===== verification/Packets.thy ===== *)
theory Packets
  imports SectorSystem
begin

text \<open>
  The messages of the cluster and their encoding: \<^verbatim>\<open>protocol/PacketEnum.h\<close>,
  \<^verbatim>\<open>PacketStruct.h\<close>, \<^verbatim>\<open>Packet.h\<close> and \<^verbatim>\<open>Protocol.h\<close>.

  Every packet struct with more than one member is a record of its name; a struct whose only
  member is the placeholder \<^verbatim>\<open>uint8_t _1\<close> is a constructor of \<open>Packet\<close> with that byte. The
  body of a packet is written and read by the library \<^verbatim>\<open>struct_pack\<close>, which is not part of the
  repository: \<open>pack\<close> and \<open>unpack\<close> are parameters of the functions that use it.

  A local \<^verbatim>\<open>packet_x response;\<close> leaves its scalar members uninitialised. The values they happen
  to have are the parameter \<open>garbage\<close> of the functions that declare such a variable.
\<close>

section \<open>PacketEnum.h, define.h, Vital.h\<close>

datatype ErrorCode =
  None' | UnknownServerId | SectorNotFound | ObjectNotFound | RecoveryFailed | SessionAuthFailed |
  SessionIsNotReady | SessionIsFull

fun error_code_value :: "ErrorCode \<Rightarrow> u16" where
  "error_code_value None' = 0"
| "error_code_value UnknownServerId = 1"
| "error_code_value SectorNotFound = 2"
| "error_code_value ObjectNotFound = 3"
| "error_code_value RecoveryFailed = 4"
| "error_code_value SessionAuthFailed = 5"
| "error_code_value SessionIsNotReady = 6"
| "error_code_value SessionIsFull = 7"

datatype ServerType = SupervisorServer | AgencyServer | PlayServer

datatype ObjectType = Monster | Character | Prop | Wall

record Vital =
  hp :: u32
  speed :: u32
  damage :: u32

section \<open>PacketStruct.h\<close>

record SocketAddress =
  sa_ip :: string
  sa_port :: u16

record NetworkEngineOption =
  socket_idle_timeout_ms :: u32
  session_idle_timeout_ms :: u32
  session_heartbeat_interval_ms :: u32
  max_session_count :: u32
  use_session_reconnect :: bool
  session_reconnect_timeout_ms :: u32
  worker_update_tick_ms :: u32

record GameConfig =
  game_update_tick_ms :: u16
  packet_batch_process_time_ms :: u16
  fixture_transform_cooltime_ms :: u16

record SocketServerConfig =
  parallel_acceptor_count :: u32
  max_connectable_socket_count :: u32
  max_acceptable_socket_count :: u32
  worker_count :: u32
  read_buffer_pool_size :: u32
  read_buffer_capacity :: u32
  write_buffer_pool_size :: u32
  write_buffer_capacity :: u32
  update_tick :: u32

record ServerConfig =
  intra_server_listen_port :: u16
  intra_socket_server_config :: SocketServerConfig
  intra_network_engine_option :: NetworkEngineOption
  user_listen_port :: u16
  user_socket_server_config :: SocketServerConfig
  user_network_engine_option :: NetworkEngineOption
  game_config :: GameConfig

record ServerInfo =
  si_server_type :: ServerType
  si_server_id :: u64
  si_address :: SocketAddress

record SectorAllocationInfo =
  al_server_info :: ServerInfo
  al_sector_id :: u64

record PacketObjectInfo =
  oi_object_id :: u64
  oi_sector_id :: u64
  oi_type :: ObjectType
  oi_fixture :: Fixture
  oi_vital :: Vital

section \<open>Packet.h\<close>

datatype PacketType =
  T_heartbeat_rq | T_heartbeat_rs | T_session_create_rq | T_session_create_rs | T_session_auth_rq |
  T_session_auth_rs | T_session_close_rq | T_bandwith_overflow_ps | T_server_is_busy_ps |
  T_game_enter_request_rq | T_game_enter_request_rs | T_enter_new_character_ps | T_object_list_ps |
  T_object_move_ps | T_create_object_ps | T_remove_object_ps | T_object_start_skill_ps |
  T_character_move_rq | T_character_move_rs | T_start_skill_rq | T_start_skill_rs |
  T_load_server_config_rq | T_load_server_config_rs | T_register_minion_server_rq |
  T_register_minion_server_rs | T_authorize_server_rq | T_authorize_server_rs |
  T_update_intra_server_info_ps | T_sector_allocation_ps | T_recovery_minion_server_rq |
  T_recovery_minion_server_rs | T_spawn_character_rq | T_spawn_character_rs | T_remove_character_rq |
  T_remove_character_rs | T_create_observing_object_rq | T_remove_observing_object_rq | T_promote_object_rq

definition packet_types :: "PacketType list" where
  "packet_types =
  [T_heartbeat_rq, T_heartbeat_rs, T_session_create_rq, T_session_create_rs, T_session_auth_rq,
  T_session_auth_rs, T_session_close_rq, T_bandwith_overflow_ps, T_server_is_busy_ps,
  T_game_enter_request_rq, T_game_enter_request_rs, T_enter_new_character_ps, T_object_list_ps,
  T_object_move_ps, T_create_object_ps, T_remove_object_ps, T_object_start_skill_ps,
  T_character_move_rq, T_character_move_rs, T_start_skill_rq, T_start_skill_rs,
  T_load_server_config_rq, T_load_server_config_rs, T_register_minion_server_rq,
  T_register_minion_server_rs, T_authorize_server_rq, T_authorize_server_rs,
  T_update_intra_server_info_ps, T_sector_allocation_ps, T_recovery_minion_server_rq,
  T_recovery_minion_server_rs, T_spawn_character_rq, T_spawn_character_rs, T_remove_character_rq,
  T_remove_character_rs, T_create_observing_object_rq, T_remove_observing_object_rq, T_promote_object_rq]"

record packet_session_create_rs =
  scr_session_id :: u64
  scr_session_key :: "u8 list"

record packet_session_auth_rq =
  sar_session_id :: u64
  sar_session_key :: "u8 list"

record packet_game_enter_request_rs =
  ger_nickname :: string
  ger_object_info :: PacketObjectInfo

record packet_object_list_ps =
  ol_sector_id :: u64
  ol_object_list :: "PacketObjectInfo list"

record packet_remove_object_ps =
  ro_sector_id :: u64
  ro_object_id :: u64
  ro_reason :: u8

record packet_enter_new_character_ps =
  enc_nickname :: string
  enc_object_info :: PacketObjectInfo

record packet_object_move_ps =
  om_sector_id :: u64
  om_object_id :: u64
  om_starting_position :: Vector2
  om_direction :: Direction

record packet_object_start_skill_ps =
  oss_object_id :: u64
  oss_start :: Vector2
  oss_direction :: Direction
  oss_skill_id :: u64

record packet_character_move_rq =
  cm_sector_id :: u64
  cm_object_id :: u64
  cm_starting_position :: Vector2
  cm_direction :: Direction
  cm_to_owner :: bool

record packet_character_move_rs =
  cms_sector_id :: u64
  cms_object_id :: u64
  cms_starting_position :: Vector2
  cms_direction :: Direction

record packet_register_minion_server_rq =
  rm_server_type :: ServerType
  rm_address :: SocketAddress

record packet_register_minion_server_rs =
  rms_server_info :: ServerInfo
  rms_auth_key :: "u8 list"

record packet_recovery_minion_server_rq =
  rec_auth_key :: "u8 list"
  rec_server_info :: ServerInfo
  rec_sectors :: "u64 list"
  rec_intra_servers :: "ServerInfo list"

record packet_update_intra_server_info_ps =
  ui_joined_server_info :: "ServerInfo list"
  ui_leaved_server_info :: "ServerInfo list"

record packet_sector_allocation_ps =
  sal_allocation_info :: "SectorAllocationInfo list"
  sal_deallocation_info :: "SectorAllocationInfo list"

record packet_authorize_server_rq =
  as_server_type :: ServerType
  as_server_id :: u64

record packet_create_observing_object_rq =
  co_origin_sector_id :: u64
  co_object_info :: PacketObjectInfo

record packet_remove_observing_object_rq =
  rob_sector_id :: u64
  rob_object_id :: u64
  rob_reason :: u8

record packet_spawn_character_rq =
  sp_user_id :: u64
  sp_nickname :: string
  sp_object_info :: PacketObjectInfo

record packet_spawn_character_rs =
  sps_user_id :: u64
  sps_nickname :: string
  sps_object_info :: PacketObjectInfo

record packet_remove_character_rq =
  rc_user_id :: u64
  rc_sector_id :: u64
  rc_object_id :: u64
  rc_to_owner :: bool

record packet_remove_character_rs =
  rcs_user_id :: u64
  rcs_sector_id :: u64
  rcs_object_id :: u64

record packet_promote_object_rq =
  po_origin_sector_id :: u64
  po_object_info :: PacketObjectInfo

datatype Packet =
    P_heartbeat_rq u32 | P_heartbeat_rs u8 | P_session_create_rq u8
  | P_session_create_rs packet_session_create_rs | P_session_auth_rq packet_session_auth_rq
  | P_session_auth_rs u8 | P_session_close_rq u8 | P_bandwith_overflow_ps u8 | P_server_is_busy_ps u8
  | P_game_enter_request_rq string | P_game_enter_request_rs packet_game_enter_request_rs
  | P_enter_new_character_ps packet_enter_new_character_ps | P_object_list_ps packet_object_list_ps
  | P_object_move_ps packet_object_move_ps | P_create_object_ps PacketObjectInfo
  | P_remove_object_ps packet_remove_object_ps | P_object_start_skill_ps packet_object_start_skill_ps
  | P_character_move_rq packet_character_move_rq | P_character_move_rs packet_character_move_rs
  | P_start_skill_rq u8 | P_start_skill_rs u8
  | P_load_server_config_rq ServerType | P_load_server_config_rs ServerConfig
  | P_register_minion_server_rq packet_register_minion_server_rq
  | P_register_minion_server_rs packet_register_minion_server_rs
  | P_authorize_server_rq packet_authorize_server_rq | P_authorize_server_rs u64
  | P_update_intra_server_info_ps packet_update_intra_server_info_ps
  | P_sector_allocation_ps packet_sector_allocation_ps
  | P_recovery_minion_server_rq packet_recovery_minion_server_rq | P_recovery_minion_server_rs u8
  | P_spawn_character_rq packet_spawn_character_rq | P_spawn_character_rs packet_spawn_character_rs
  | P_remove_character_rq packet_remove_character_rq | P_remove_character_rs packet_remove_character_rs
  | P_create_observing_object_rq packet_create_observing_object_rq
  | P_remove_observing_object_rq packet_remove_observing_object_rq
  | P_promote_object_rq packet_promote_object_rq

fun PACKET_TYPE :: "Packet \<Rightarrow> PacketType" where
  "PACKET_TYPE (P_heartbeat_rq _) = T_heartbeat_rq"
| "PACKET_TYPE (P_heartbeat_rs _) = T_heartbeat_rs"
| "PACKET_TYPE (P_session_create_rq _) = T_session_create_rq"
| "PACKET_TYPE (P_session_create_rs _) = T_session_create_rs"
| "PACKET_TYPE (P_session_auth_rq _) = T_session_auth_rq"
| "PACKET_TYPE (P_session_auth_rs _) = T_session_auth_rs"
| "PACKET_TYPE (P_session_close_rq _) = T_session_close_rq"
| "PACKET_TYPE (P_bandwith_overflow_ps _) = T_bandwith_overflow_ps"
| "PACKET_TYPE (P_server_is_busy_ps _) = T_server_is_busy_ps"
| "PACKET_TYPE (P_game_enter_request_rq _) = T_game_enter_request_rq"
| "PACKET_TYPE (P_game_enter_request_rs _) = T_game_enter_request_rs"
| "PACKET_TYPE (P_enter_new_character_ps _) = T_enter_new_character_ps"
| "PACKET_TYPE (P_object_list_ps _) = T_object_list_ps"
| "PACKET_TYPE (P_object_move_ps _) = T_object_move_ps"
| "PACKET_TYPE (P_create_object_ps _) = T_create_object_ps"
| "PACKET_TYPE (P_remove_object_ps _) = T_remove_object_ps"
| "PACKET_TYPE (P_object_start_skill_ps _) = T_object_start_skill_ps"
| "PACKET_TYPE (P_character_move_rq _) = T_character_move_rq"
| "PACKET_TYPE (P_character_move_rs _) = T_character_move_rs"
| "PACKET_TYPE (P_start_skill_rq _) = T_start_skill_rq"
| "PACKET_TYPE (P_start_skill_rs _) = T_start_skill_rs"
| "PACKET_TYPE (P_load_server_config_rq _) = T_load_server_config_rq"
| "PACKET_TYPE (P_load_server_config_rs _) = T_load_server_config_rs"
| "PACKET_TYPE (P_register_minion_server_rq _) = T_register_minion_server_rq"
| "PACKET_TYPE (P_register_minion_server_rs _) = T_register_minion_server_rs"
| "PACKET_TYPE (P_authorize_server_rq _) = T_authorize_server_rq"
| "PACKET_TYPE (P_authorize_server_rs _) = T_authorize_server_rs"
| "PACKET_TYPE (P_update_intra_server_info_ps _) = T_update_intra_server_info_ps"
| "PACKET_TYPE (P_sector_allocation_ps _) = T_sector_allocation_ps"
| "PACKET_TYPE (P_recovery_minion_server_rq _) = T_recovery_minion_server_rq"
| "PACKET_TYPE (P_recovery_minion_server_rs _) = T_recovery_minion_server_rs"
| "PACKET_TYPE (P_spawn_character_rq _) = T_spawn_character_rq"
| "PACKET_TYPE (P_spawn_character_rs _) = T_spawn_character_rs"
| "PACKET_TYPE (P_remove_character_rq _) = T_remove_character_rq"
| "PACKET_TYPE (P_remove_character_rs _) = T_remove_character_rs"
| "PACKET_TYPE (P_create_observing_object_rq _) = T_create_observing_object_rq"
| "PACKET_TYPE (P_remove_observing_object_rq _) = T_remove_observing_object_rq"
| "PACKET_TYPE (P_promote_object_rq _) = T_promote_object_rq"

end
