(* ===== verification/Protocol.thy ===== *)
theory Protocol
  imports Packets
begin

text \<open>
  The encoding of packets on the wire: \<^verbatim>\<open>PacketHeader\<close> of \<^verbatim>\<open>protocol/Packet.h\<close>, the functions of
  \<^verbatim>\<open>protocol/Protocol.h\<close>, and the cursor of \<^verbatim>\<open>memory/Buffer.h\<close> that readers walk a buffer with.

  \<^verbatim>\<open>memcpy\<close> of an integer writes its bytes in the little-endian order of the platform.
  \<^verbatim>\<open>PacketHeader\<close> has no padding: two 16-bit and one 32-bit member, 8 bytes. \<open>pack\<close> stands for
  \<^verbatim>\<open>struct_pack::serialize_to\<close> (its length is \<^verbatim>\<open>get_needed_size\<close>), \<open>unpack\<close> for
  \<^verbatim>\<open>struct_pack::deserialize_to\<close> into a variable of the given packet type.
\<close>

section \<open>Integers in memory\<close>

definition bytes_of :: "nat \<Rightarrow> nat \<Rightarrow> u8 list" where
  "bytes_of k n = map (\<lambda>i. of_nat (n div 256 ^ i)) [0 ..< k]"

fun nat_of_bytes :: "u8 list \<Rightarrow> nat" where
  "nat_of_bytes [] = 0"
| "nat_of_bytes (b # bs) = unat b + 256 * nat_of_bytes bs"

lemma length_bytes_of [simp]: "length (bytes_of k n) = k"
  by (simp add: bytes_of_def)

lemma bytes_of_Suc: "bytes_of (Suc k) n = of_nat n # bytes_of k (n div 256)"
proof -
  have "map (\<lambda>i. of_nat (n div 256 ^ i) :: u8) [1 ..< Suc k] = map (\<lambda>i. of_nat (n div 256 div 256 ^ i)) [0 ..< k]"
    unfolding One_nat_def map_Suc_upt [symmetric, of 0 k] by (simp add: div_mult2_eq)
  then show ?thesis by (simp add: bytes_of_def upt_conv_Cons del: upt_Suc)
qed

lemma nat_of_bytes_of: "nat_of_bytes (bytes_of k n) = n mod 256 ^ k"
proof (induction k arbitrary: n)
  case (Suc k)
  have "unat (of_nat n :: u8) = n mod 256" by (simp add: unat_of_nat)
  then show ?case
    using Suc mod_mult2_eq [of n 256 "256 ^ k"] by (simp add: bytes_of_Suc)
qed (simp add: bytes_of_def)

section \<open>PacketHeader\<close>

definition PACKET_LENGTH_SIZE :: nat where "PACKET_LENGTH_SIZE = 4"

definition PACKET_HEADER_SIZE :: nat where "PACKET_HEADER_SIZE = 8"

record PacketHeader =
  ph_packet_type :: u16
  ph_error_code :: u16
  ph_body_size :: u32

fun index_of :: "'a list \<Rightarrow> 'a \<Rightarrow> nat" where
  "index_of [] y = 0"
| "index_of (x # xs) y = (if x = y then 0 else Suc (index_of xs y))"

definition type_value :: "PacketType \<Rightarrow> u16" where
  "type_value t = of_nat (index_of packet_types t)"

text \<open>The enumerator with a given value; values beyond the last enumerator match no case label.\<close>

definition type_of_value :: "u16 \<Rightarrow> PacketType option" where
  "type_of_value v = (if unat v < length packet_types then Some (packet_types ! unat v) else None)"

lemma type_value_inverse [simp]: "type_of_value (type_value t) = Some t"
  by (cases t; simp add: type_of_value_def type_value_def packet_types_def)

lemma type_value_inj: "type_value t = type_value u \<longleftrightarrow> t = u"
  by (metis type_value_inverse option.inject)

definition header_bytes :: "PacketHeader \<Rightarrow> u8 list" where
  "header_bytes h = bytes_of 2 (unat (ph_packet_type h)) @ bytes_of 2 (unat (ph_error_code h)) @
     bytes_of 4 (unat (ph_body_size h))"

definition DeserializePacketHeader :: "u8 list \<Rightarrow> nat \<Rightarrow> PacketHeader res" where
  "DeserializePacketHeader packet_buffer buffer_size =
    assert_that (buffer_size \<ge> PACKET_HEADER_SIZE)
      (if length packet_buffer < PACKET_HEADER_SIZE then Inl OutOfRange
       else Inr \<lparr>ph_packet_type = of_nat (nat_of_bytes (take 2 packet_buffer)),
                 ph_error_code = of_nat (nat_of_bytes (take 2 (drop 2 packet_buffer))),
                 ph_body_size = of_nat (nat_of_bytes (take 4 (drop 4 packet_buffer)))\<rparr>)"

lemma length_header_bytes [simp]: "length (header_bytes h) = 8"
  by (simp add: header_bytes_def)

lemma unat_word_mod: "unat (w :: 'a :: len word) mod 2 ^ LENGTH('a) = unat w"
  by (simp add: unsigned_less)

lemma header_round_trip: "DeserializePacketHeader (header_bytes h @ rest) (8 + n) = Inr h"
proof -
  have "unat (w :: u16) mod 65536 = unat w" "unat (v :: u32) mod 4294967296 = unat v" for w v
    using unat_word_mod [of w] unat_word_mod [of v] by simp_all
  then show ?thesis
    by (simp add: DeserializePacketHeader_def header_bytes_def PACKET_HEADER_SIZE_def nat_of_bytes_of)
qed

section \<open>Packets\<close>

definition DeserializePacketBody ::
  "(PacketType \<Rightarrow> u8 list \<Rightarrow> Packet option) \<Rightarrow> PacketType \<Rightarrow> u8 list \<Rightarrow> nat \<Rightarrow> Packet option" where
  "DeserializePacketBody unpack t packet_buffer buffer_size = unpack t (take buffer_size packet_buffer)"

text \<open>\<^verbatim>\<open>SerializePacket\<close>: the value of \<^verbatim>\<open>packet_size\<close> afterwards and, on success, the bytes
  written to \<^verbatim>\<open>dest_buffer\<close>. \<^verbatim>\<open>packet_size\<close> is 32 bits wide and wraps.\<close>

definition SerializePacket ::
  "(Packet \<Rightarrow> u8 list) \<Rightarrow> Packet \<Rightarrow> ErrorCode \<Rightarrow> u32 \<Rightarrow> u32 \<times> u8 list option" where
  "SerializePacket pack packet error_code buffer_size =
    (let needed_size = length (pack packet);
         packet_size = of_nat PACKET_LENGTH_SIZE + of_nat PACKET_HEADER_SIZE + (of_nat needed_size :: u32) in
     if packet_size > buffer_size then (packet_size, None)
     else
       let packet_length = packet_size - of_nat PACKET_LENGTH_SIZE;
           header = \<lparr>ph_packet_type = type_value (PACKET_TYPE packet),
                     ph_error_code = error_code_value error_code, ph_body_size = of_nat needed_size\<rparr>
       in (packet_size, Some (bytes_of 4 (unat packet_length) @ header_bytes header @ pack packet)))"

lemma SerializePacket_eq:
  assumes "length (pack p) < 4294967284"
  shows "SerializePacket pack p e cap =
    (of_nat (12 + length (pack p)),
     if 12 + length (pack p) > unat cap then None
     else Some (bytes_of 4 (8 + length (pack p)) @
       header_bytes \<lparr>ph_packet_type = type_value (PACKET_TYPE p), ph_error_code = error_code_value e,
                     ph_body_size = of_nat (length (pack p))\<rparr> @ pack p))"
proof -
  have s: "of_nat PACKET_LENGTH_SIZE + of_nat PACKET_HEADER_SIZE + (of_nat (length (pack p)) :: u32) =
      of_nat (12 + length (pack p))"
    by (simp add: PACKET_LENGTH_SIZE_def PACKET_HEADER_SIZE_def)
  have l: "(of_nat (12 + length (pack p)) :: u32) - of_nat PACKET_LENGTH_SIZE = of_nat (8 + length (pack p))"
    by (simp add: PACKET_LENGTH_SIZE_def)
  have u: "unat (of_nat (12 + length (pack p)) :: u32) = 12 + length (pack p)"
    "unat (of_nat (8 + length (pack p)) :: u32) = 8 + length (pack p)"
    using assms by (intro u32_of_nat; simp)+
  show ?thesis
    unfolding SerializePacket_def Let_def s l by (simp only: word_less_nat_alt u if_distrib split: if_splits) simp
qed

section \<open>Buffers and cursors\<close>

text \<open>A \<^verbatim>\<open>DynamicBuffer\<close>: the \<open>length\<close> bytes written so far, and its capacity.\<close>

record DynamicBuffer =
  db_bytes :: "u8 list"
  db_capacity :: u32

record DynamicBufferCursor =
  cur_buffer :: DynamicBuffer
  cur_cursor :: int

definition new_cursor :: "DynamicBuffer \<Rightarrow> DynamicBufferCursor" where
  "new_cursor b = \<lparr>cur_buffer = b, cur_cursor = 0\<rparr>"

definition Data :: "DynamicBufferCursor \<Rightarrow> u8 list" where
  "Data c = drop (nat (cur_cursor c)) (db_bytes (cur_buffer c))"

text \<open>\<^verbatim>\<open>Seek\<close> takes an \<^verbatim>\<open>int32_t\<close>: a 32-bit size of 2147483648 or more moves backwards.\<close>

definition Seek :: "u32 \<Rightarrow> DynamicBufferCursor \<Rightarrow> DynamicBufferCursor res" where
  "Seek byte_movement c =
    (let c' = c\<lparr>cur_cursor := cur_cursor c + sint byte_movement\<rparr>
     in assert_that (cur_cursor c' \<ge> 0 \<and> int (length (db_bytes (cur_buffer c'))) \<ge> cur_cursor c') (Inr c'))"

definition RemainBytes :: "DynamicBufferCursor \<Rightarrow> nat" where
  "RemainBytes c = nat (int (length (db_bytes (cur_buffer c))) - cur_cursor c)"

text \<open>The cursors that \<^verbatim>\<open>Seek\<close> leaves behind.\<close>

definition cursor_ok :: "DynamicBufferCursor \<Rightarrow> bool" where
  "cursor_ok c \<longleftrightarrow> 0 \<le> cur_cursor c \<and> cur_cursor c \<le> int (length (db_bytes (cur_buffer c)))"

lemma new_cursor_ok [simp]: "cursor_ok (new_cursor b)" "Data (new_cursor b) = db_bytes b"
  by (simp_all add: cursor_ok_def new_cursor_def Data_def)

lemma RemainBytes_Data: "cursor_ok c \<Longrightarrow> RemainBytes c = length (Data c)"
  by (simp add: RemainBytes_def Data_def cursor_ok_def nat_diff_distrib')

lemma sint_small: "unat (w :: u32) < 2147483648 \<Longrightarrow> sint w = int (unat w)"
proof -
  assume "unat w < 2147483648"
  then have "int (unat w) < 2147483648" by (simp only: of_nat_less_numeral_iff)
  then have "signed_take_bit 31 (uint w) = uint w" 
    by (intro signed_take_bit_int_eq_self order_trans [OF _ uint_ge_0]) simp_all
  then show ?thesis by (simp add: sint_uint)
qed

lemma Seek_forward:
  assumes "cursor_ok c" "unat n \<le> length (Data c)" "unat n < 2147483648"
  shows "\<exists>c'. Seek n c = Inr c' \<and> cursor_ok c' \<and> Data c' = drop (unat n) (Data c) \<and>
    cur_buffer c' = cur_buffer c \<and> cur_cursor c' = cur_cursor c + int (unat n)"
proof -
  have "cur_cursor c + int (unat n) \<le> int (length (db_bytes (cur_buffer c)))"
  proof -
    have "int (unat n) \<le> int (length (Data c))" using assms(2) by (simp only: of_nat_le_iff)
    also have "\<dots> = int (length (db_bytes (cur_buffer c))) - cur_cursor c"
      using assms(1) by (simp add: Data_def cursor_ok_def of_nat_diff nat_le_iff)
    finally show ?thesis by linarith
  qed
  then show ?thesis
    using assms by (simp add: Seek_def sint_small cursor_ok_def Data_def nat_add_distrib add.commute)
qed

lemma Seek_ok: "Seek n c = Inr c' \<Longrightarrow> cursor_ok c' \<and> cur_buffer c' = cur_buffer c"
  by (auto simp: Seek_def cursor_ok_def assert_that_def Let_def split: if_splits)

section \<open>Reading a buffer of packets\<close>

text \<open>What a handler makes of a header and the data behind it: the packet, when the type is known and the
  body can be deserialised (\<^verbatim>\<open>PACKET_CASE\<close> of \<^verbatim>\<open>GameServer.h\<close>).\<close>

definition packet_of ::
  "(PacketType \<Rightarrow> u8 list \<Rightarrow> Packet option) \<Rightarrow> PacketHeader \<Rightarrow> u8 list \<Rightarrow> Packet option" where
  "packet_of unpack header data =
    (case type_of_value (ph_packet_type header) of
       None \<Rightarrow> None
     | Some t \<Rightarrow> DeserializePacketBody unpack t data (unat (ph_body_size header)))"

text \<open>\<^verbatim>\<open>GameServerWorker::ProcessLoopbackData\<close>: the handler gets every header and the cursor behind it.
  Every round moves the cursor; the bound on the rounds is the number of bytes left, which is enough
  unless a negative \<^verbatim>\<open>Seek\<close> moves it back, and running out of it is the fault \<open>Undefined\<close>.\<close>

fun ProcessLoopback_loop ::
  "(PacketHeader \<Rightarrow> DynamicBufferCursor \<Rightarrow> 's \<Rightarrow> 's res) \<Rightarrow> nat \<Rightarrow> DynamicBufferCursor \<Rightarrow> 's \<Rightarrow> 's res" where
  "ProcessLoopback_loop handler fuel cursor s =
    (if RemainBytes cursor \<ge> PACKET_HEADER_SIZE then
       case fuel of
         0 \<Rightarrow> Inl Undefined
       | Suc n \<Rightarrow>
         rbind (Seek (of_nat PACKET_LENGTH_SIZE) cursor) (\<lambda>c1.
         rbind (DeserializePacketHeader (Data c1) (unat (db_capacity (cur_buffer c1)) - nat (cur_cursor c1))) (\<lambda>header.
         rbind (Seek (of_nat PACKET_HEADER_SIZE) c1) (\<lambda>c2.
         rbind (handler header c2 s) (\<lambda>s'.
         rbind (Seek (ph_body_size header) c2) (\<lambda>c3.
         ProcessLoopback_loop handler n c3 s')))))
     else assert_that (RemainBytes cursor = 0) (Inr s))"

definition ProcessLoopbackData ::
  "(PacketHeader \<Rightarrow> DynamicBufferCursor \<Rightarrow> 's \<Rightarrow> 's res) \<Rightarrow> DynamicBuffer \<Rightarrow> 's \<Rightarrow> 's res" where
  "ProcessLoopbackData handler buffer s = ProcessLoopback_loop handler (length (db_bytes buffer)) (new_cursor buffer) s"

declare ProcessLoopback_loop.simps [simp del]

text \<open>The frame of a packet, as \<open>SerializePacket\<close> writes it.\<close>

definition packet_header :: "(Packet \<Rightarrow> u8 list) \<Rightarrow> Packet \<Rightarrow> ErrorCode \<Rightarrow> PacketHeader" where
  "packet_header pack p e = \<lparr>ph_packet_type = type_value (PACKET_TYPE p), ph_error_code = error_code_value e,
     ph_body_size = of_nat (length (pack p))\<rparr>"

definition frame :: "(Packet \<Rightarrow> u8 list) \<Rightarrow> Packet \<times> ErrorCode \<Rightarrow> u8 list" where
  "frame pack pe = bytes_of 4 (8 + length (pack (fst pe))) @ header_bytes (packet_header pack (fst pe) (snd pe)) @
     pack (fst pe)"

lemma SerializePacket_frame:
  assumes "length (pack p) < 4294967284" "12 + length (pack p) \<le> unat cap"
  shows "SerializePacket pack p e cap = (of_nat (12 + length (pack p)), Some (frame pack (p, e)))"
  using assms by (simp add: SerializePacket_eq frame_def packet_header_def)

lemma length_frame: "length (frame pack pe) = 12 + length (pack (fst pe))"
  by (simp add: frame_def)

lemma ProcessLoopback_frames:
  assumes "\<forall>(p, e) \<in> set ps. unpack (PACKET_TYPE p) (pack p) = Some p"
    and "cursor_ok c" "Data c = concat (map (frame pack) ps)" "length (Data c) \<le> fuel"
    and "length (db_bytes (cur_buffer c)) \<le> unat (db_capacity (cur_buffer c))"
    and "length (db_bytes (cur_buffer c)) < 2147483648"
  shows "ProcessLoopback_loop (\<lambda>h c s. H h (packet_of unpack h (Data c)) s) fuel c s =
    foldr_res (\<lambda>(p, e). H (packet_header pack p e) (Some p)) ps s"
  using assms
proof (induction ps arbitrary: c fuel s)
  case Nil
  then have "RemainBytes c = 0" by (simp add: RemainBytes_Data)
  then show ?case by (subst ProcessLoopback_loop.simps) (simp add: PACKET_HEADER_SIZE_def)
next
  case (Cons x ps)
  obtain p e where x: "x = (p, e)" by (cases x)
  define rest where "rest = concat (map (frame pack) ps)"
  have d: "Data c = bytes_of 4 (8 + length (pack p)) @ header_bytes (packet_header pack p e) @ pack p @ rest"
    using Cons.prems(3) by (simp add: x frame_def [of pack "(p, e)"] rest_def)
  have "length (Data c) < 2147483648" using Cons.prems(6) by (simp add: Data_def)
  then have small: "length (pack p) < 2147483648" unfolding d by simp
  obtain c1 where c1: "Seek 4 c = Inr c1" "cursor_ok c1" "Data c1 = header_bytes (packet_header pack p e) @ pack p @ rest"
      "cur_buffer c1 = cur_buffer c" "cur_cursor c1 = cur_cursor c + 4"
    using Seek_forward [OF Cons.prems(2), of 4] d by auto
  obtain c2 where c2: "Seek 8 c1 = Inr c2" "cursor_ok c2" "Data c2 = pack p @ rest" "cur_buffer c2 = cur_buffer c"
    using Seek_forward [OF c1(2), of 8] c1 by auto
  have b: "unat (ph_body_size (packet_header pack p e)) = length (pack p)"
    using small by (simp add: packet_header_def u32_of_nat)
  obtain c3 where c3: "Seek (ph_body_size (packet_header pack p e)) c2 = Inr c3" "cursor_ok c3" "Data c3 = rest"
      "cur_buffer c3 = cur_buffer c"
    using Seek_forward [OF c2(2), of "ph_body_size (packet_header pack p e)"] small c2 b by auto
  obtain n where n: "fuel = Suc n" "length rest \<le> n" using Cons.prems(4) d by (cases fuel) auto
  have "8 \<le> unat (db_capacity (cur_buffer c)) - nat (cur_cursor c1)"
    using Cons.prems(5) c1 by (auto simp: Data_def cursor_ok_def dest!: arg_cong [where f = length])
  then obtain k where k: "unat (db_capacity (cur_buffer c1)) - nat (cur_cursor c1) = 8 + k"
    using c1(4) le_Suc_ex by metis
  have h: "DeserializePacketHeader (Data c1) (8 + k) = Inr (packet_header pack p e)"
    unfolding c1(3) by (rule header_round_trip)
  have "unpack (PACKET_TYPE p) (pack p) = Some p" using Cons.prems(1) by (simp add: x)
  then have pk: "packet_of unpack (packet_header pack p e) (Data c2) = Some p"
    using b c2(3) by (simp add: packet_of_def packet_header_def DeserializePacketBody_def)
  have ih: "ProcessLoopback_loop (\<lambda>h c s. H h (packet_of unpack h (Data c)) s) n c3 s' =
      foldr_res (\<lambda>(p, e). H (packet_header pack p e) (Some p)) ps s'" for s'
    using Cons.prems(1,5,6) c3 n by (intro Cons.IH) (auto simp: rest_def)
  have "8 \<le> RemainBytes c" using Cons.prems(2) d by (simp add: RemainBytes_Data)
  then show ?case
    using c1(1) c2(1) c3(1) h pk k ih
    by (subst ProcessLoopback_loop.simps) (simp add: n(1) PACKET_HEADER_SIZE_def PACKET_LENGTH_SIZE_def x rbind_def
        split: sum.splits)
qed

text \<open>C22. A buffer that holds serialised packets back to back is read back packet by packet: the handler
  sees the packets in the order they were written, with their types and error codes, nothing is
  skipped, and the loop ends at the end of the buffer.\<close>

theorem loopback_round_trip:
  assumes "\<forall>(p, e) \<in> set ps. unpack (PACKET_TYPE p) (pack p) = Some p"
    and "db_bytes buf = concat (map (\<lambda>(p, e). the (snd (SerializePacket pack p e (db_capacity buf)))) ps)"
    and "\<forall>(p, e) \<in> set ps. snd (SerializePacket pack p e (db_capacity buf)) \<noteq> None \<and> length (pack p) < 4294967284"
    and "length (db_bytes buf) \<le> unat (db_capacity buf)" "length (db_bytes buf) < 2147483648"
  shows "ProcessLoopbackData (\<lambda>h c s. H h (packet_of unpack h (Data c)) s) buf s =
    foldr_res (\<lambda>(p, e). H (packet_header pack p e) (Some p)) ps s"
proof -
  have "the (snd (SerializePacket pack p e (db_capacity buf))) = frame pack (p, e)" if "(p, e) \<in> set ps" for p e
    using assms(3) that by (auto simp: SerializePacket_eq frame_def packet_header_def split: if_splits)
  then have "map (\<lambda>(p, e). the (snd (SerializePacket pack p e (db_capacity buf)))) ps = map (frame pack) ps" by auto
  then have "Data (new_cursor buf) = concat (map (frame pack) ps)" using assms(2) by (simp only: new_cursor_ok)
  then show ?thesis
    unfolding ProcessLoopbackData_def
    using assms(1,4,5) by (intro ProcessLoopback_frames) (simp_all add: new_cursor_def Data_def cursor_ok_def)
qed

theorem loopback_round_trip_witness:
  "let pack = (\<lambda>_. [9]); unpack = (\<lambda>_ _. Some (P_heartbeat_rq 3));
       b = the (snd (SerializePacket pack (P_heartbeat_rq 3) None' 1000)) in
   ProcessLoopbackData (\<lambda>h c s. Inr (s @ [(ph_error_code h, packet_of unpack h (Data c))]))
     \<lparr>db_bytes = b @ b, db_capacity = 1000\<rparr> [] = Inr [(0, Some (P_heartbeat_rq 3)), (0, Some (P_heartbeat_rq 3))]"
proof -
  let ?pack = "\<lambda>_. [9 :: u8]" and ?unpack = "\<lambda>_ _. Some (P_heartbeat_rq 3)"
  let ?b = "the (snd (SerializePacket ?pack (P_heartbeat_rq 3) None' 1000))"
  have s: "SerializePacket ?pack (P_heartbeat_rq 3) None' 1000 = (13, Some (frame ?pack (P_heartbeat_rq 3, None')))"
    by (subst SerializePacket_frame) simp_all
  show ?thesis
    using loopback_round_trip [of "[(P_heartbeat_rq 3, None'), (P_heartbeat_rq 3, None')]" ?unpack ?pack
        "\<lparr>db_bytes = ?b @ ?b, db_capacity = 1000\<rparr>" "\<lambda>h p s. Inr (s @ [(ph_error_code h, p)])" "[]"]
    by (simp add: s length_frame packet_header_def Let_def)
qed

end
