(* ===== verification/Sessions.thy ===== *)
theory Sessions
  imports Protocol
begin

text \<open>
  Sessions and the write side of a stream: \<^verbatim>\<open>engine/Session.h\<close>, \<^verbatim>\<open>engine/SocketSession.h\<close>,
  \<^verbatim>\<open>network/SocketStreamBase.h\<close> and \<^verbatim>\<open>network/iocp/IocpTransferStream.cpp\<close>.

  A stream records the operations it starts in \<open>st_ops\<close>; the calls of the operating system behind them
  and their completions are not modelled. \<open>st_write_free\<close> counts the buffers in the write pool, a buffer
  allocated beyond it (\<^verbatim>\<open>must_allocation\<close>) is \<open>wb_heap\<close> and does not return to the pool. A null pointer is
  \<open>None\<close>. The sessions a component shares with others live in a \<open>session_heap\<close>, where a session pointer is an
  address, not the identifier \<open>ss_session_id\<close>: each engine numbers its own sessions; calling a virtual function of \<^verbatim>\<open>SocketSession\<close> on it dispatches on the class of the object.
\<close>

section \<open>IocpTransferStream\<close>

record WriteBuffer =
  wb_bytes :: "u8 list"
  wb_capacity :: u32
  wb_heap :: bool

datatype stream_op = WriteOp "u8 list" u64 | FailedOp u64 | DisconnectOp u64

record Stream =
  st_connected :: bool
  st_write_free :: nat
  st_write_capacity :: u32
  st_read_free :: nat
  st_ops :: "stream_op list"

definition AllocateWriteBuffer :: "bool \<Rightarrow> Stream \<Rightarrow> WriteBuffer option \<times> Stream" where
  "AllocateWriteBuffer must st =
    (if st_write_free st > 0 then
       (Some \<lparr>wb_bytes = [], wb_capacity = st_write_capacity st, wb_heap = False\<rparr>, st\<lparr>st_write_free := st_write_free st - 1\<rparr>)
     else if must then (Some \<lparr>wb_bytes = [], wb_capacity = st_write_capacity st, wb_heap = True\<rparr>, st)
     else (None, st))"

definition ReleaseWriteBuffer :: "WriteBuffer \<Rightarrow> Stream \<Rightarrow> Stream" where
  "ReleaseWriteBuffer b st = (if wb_heap b then st else st\<lparr>st_write_free := st_write_free st + 1\<rparr>)"

text \<open>A write on a stream that is not connected completes at once with 0 bytes.\<close>

definition TransmitWrite :: "WriteBuffer option \<Rightarrow> u64 \<Rightarrow> Stream \<Rightarrow> Stream res" where
  "TransmitWrite buffer attachment st =
    (case buffer of
       None \<Rightarrow> Inl NullDeref
     | Some b \<Rightarrow> Inr (st\<lparr>st_ops := st_ops st @ [if st_connected st then WriteOp (wb_bytes b) attachment else FailedOp attachment]\<rparr>))"

definition SetConnectionStatus :: "bool \<Rightarrow> Stream \<Rightarrow> bool \<times> Stream" where
  "SetConnectionStatus c st = (if st_connected st = (\<not> c) then (True, st\<lparr>st_connected := c\<rparr>) else (False, st))"

definition TransmitDisconnect :: "u64 \<Rightarrow> Stream \<Rightarrow> Stream" where
  "TransmitDisconnect attachment st =
    (let (changed, st1) = SetConnectionStatus False st in
     if changed then
       let (_, st2) = AllocateWriteBuffer True st1 in st2\<lparr>st_ops := st_ops st2 @ [DisconnectOp attachment]\<rparr>
     else st1)"

section \<open>Session\<close>

datatype SessionState = Opened | Abandoned | Wait | Closed

record Session =
  ss_state :: SessionState
  ss_initialized :: bool
  ss_ping :: u16
  ss_heartbeat_receiving :: int
  ss_heartbeat_sending :: int
  ss_abandoned :: int
  ss_key :: "u8 list"
  ss_user_data :: "(u64, u64) umap"
  ss_session_id :: u64

definition Session_Initialize :: "u64 \<Rightarrow> ('a) Session_scheme \<Rightarrow> ('a) Session_scheme res" where
  "Session_Initialize k s =
    (if ss_initialized s then Inl (Throw ''double initialized'')
     else Inr (s\<lparr>ss_initialized := True, ss_session_id := k\<rparr>))"

definition ChangeSessionState :: "SessionState \<Rightarrow> SessionState \<Rightarrow> ('a) Session_scheme \<Rightarrow> bool \<times> ('a) Session_scheme" where
  "ChangeSessionState expected desired s =
    (if ss_state s = expected then (True, s\<lparr>ss_state := desired\<rparr>) else (False, s))"

text \<open>Division of a duration truncates towards zero; the ping keeps its low 16 bits.\<close>

definition trunc_half :: "int \<Rightarrow> int" where
  "trunc_half x = (if x < 0 then - ((- x) div 2) else x div 2)"

definition UpdateHeartbeatSendingTime :: "int \<Rightarrow> ('a) Session_scheme \<Rightarrow> ('a) Session_scheme" where
  "UpdateHeartbeatSendingTime t s = s\<lparr>ss_heartbeat_sending := t\<rparr>"

definition UpdateHeartbeatReceivingTime :: "int \<Rightarrow> ('a) Session_scheme \<Rightarrow> ('a) Session_scheme" where
  "UpdateHeartbeatReceivingTime t s =
     s\<lparr>ss_heartbeat_receiving := t, ss_ping := of_int (trunc_half (t - ss_heartbeat_sending s))\<rparr>"

definition UpdateAbandonedTime :: "int \<Rightarrow> ('a) Session_scheme \<Rightarrow> ('a) Session_scheme" where
  "UpdateAbandonedTime t s = s\<lparr>ss_abandoned := t\<rparr>"

definition Session_GetUserData :: "u64 \<Rightarrow> ('a) Session_scheme \<Rightarrow> u64 \<times> ('a) Session_scheme" where
  "Session_GetUserData k s = (let (v, m) = um_at 0 k (ss_user_data s) in (v, s\<lparr>ss_user_data := m\<rparr>))"

definition Session_SetUserData :: "u64 \<Rightarrow> u64 \<Rightarrow> ('a) Session_scheme \<Rightarrow> ('a) Session_scheme" where
  "Session_SetUserData k v s = s\<lparr>ss_user_data := um_set k v (ss_user_data s)\<rparr>"

definition ResetUserData :: "('a) Session_scheme \<Rightarrow> ('a) Session_scheme" where
  "ResetUserData s = s\<lparr>ss_user_data := []\<rparr>"

section \<open>SocketSession\<close>

definition GRACEFUL_SHUTDOWN_CODE :: u64 where "GRACEFUL_SHUTDOWN_CODE = 1"

record SocketSession = Session +
  so_stream :: "Stream option"

definition with_stream :: "(Stream \<Rightarrow> ('r \<times> Stream) res) \<Rightarrow> SocketSession \<Rightarrow> ('r \<times> SocketSession) res" where
  "with_stream f s =
    (case so_stream s of
       None \<Rightarrow> Inl NullDeref
     | Some st \<Rightarrow> rbind (f st) (\<lambda>(r, st'). Inr (r, s\<lparr>so_stream := Some st'\<rparr>)))"

text \<open>\<^verbatim>\<open>GetSocketStream()->f(...)\<close>: the state is checked first.\<close>

definition GetSocketStream :: "(Stream \<Rightarrow> ('r \<times> Stream) res) \<Rightarrow> SocketSession \<Rightarrow> ('r \<times> SocketSession) res" where
  "GetSocketStream f s = assert_that (ss_state s = Opened \<or> ss_state s = Abandoned) (with_stream f s)"

definition Session_Send_buffer :: "WriteBuffer option \<Rightarrow> SocketSession \<Rightarrow> SocketSession res" where
  "Session_Send_buffer buffer s =
    rbind (GetSocketStream (\<lambda>st. rbind (TransmitWrite buffer 0 st) (\<lambda>st'. Inr ((), st'))) s) (\<lambda>(_, s'). Inr s')"

text \<open>The end of \<^verbatim>\<open>Send(packet, error, must_send)\<close>, with its buffer.\<close>

definition send_serialized :: "(Packet \<Rightarrow> u8 list) \<Rightarrow> Packet \<Rightarrow> ErrorCode \<Rightarrow> WriteBuffer \<Rightarrow> SocketSession \<Rightarrow> SocketSession res" where
  "send_serialized pack packet error buffer s =
    (case SerializePacket pack packet error (wb_capacity buffer) of
       (_, None) \<Rightarrow> Inl AssertFail
     | (_, Some bytes) \<Rightarrow> Session_Send_buffer (Some (buffer\<lparr>wb_bytes := bytes\<rparr>)) s)"

definition Session_Send_must :: "(Packet \<Rightarrow> u8 list) \<Rightarrow> Packet \<Rightarrow> ErrorCode \<Rightarrow> SocketSession \<Rightarrow> SocketSession res" where
  "Session_Send_must pack packet error s =
    rbind (with_stream (\<lambda>st. Inr (AllocateWriteBuffer True st)) s) (\<lambda>(b, s').
      case b of None \<Rightarrow> Inl NullDeref | Some buffer \<Rightarrow> send_serialized pack packet error buffer s')"

definition Session_Disconnect :: "SocketSession \<Rightarrow> SocketSession res" where
  "Session_Disconnect s = rbind (GetSocketStream (\<lambda>st. Inr ((), TransmitDisconnect 0 st)) s) (\<lambda>(_, s'). Inr s')"

definition CloseSession :: "(Packet \<Rightarrow> u8 list) \<Rightarrow> SocketSession \<Rightarrow> SocketSession res" where
  "CloseSession pack s =
    rbind (Session_Send_must pack (P_session_close_rq 0) None' s) (\<lambda>s1.
      rbind (GetSocketStream (\<lambda>st. Inr ((), TransmitDisconnect GRACEFUL_SHUTDOWN_CODE st)) s1) (\<lambda>(_, s2). Inr s2))"

definition Session_Send :: "(Packet \<Rightarrow> u8 list) \<Rightarrow> Packet \<Rightarrow> ErrorCode \<Rightarrow> SocketSession \<Rightarrow> SocketSession res" where
  "Session_Send pack packet error s =
    rbind (with_stream (\<lambda>st. Inr (AllocateWriteBuffer False st)) s) (\<lambda>(b, s').
      case b of None \<Rightarrow> CloseSession pack s' | Some buffer \<Rightarrow> send_serialized pack packet error buffer s')"

definition Session_TryAllocateWriteBuffer ::
  "(Packet \<Rightarrow> u8 list) \<Rightarrow> SocketSession \<Rightarrow> (WriteBuffer option \<times> SocketSession) res" where
  "Session_TryAllocateWriteBuffer pack s =
    rbind (GetSocketStream (\<lambda>st. Inr (AllocateWriteBuffer False st)) s) (\<lambda>(b, s1).
      case b of
        Some buffer \<Rightarrow> Inr (Some buffer, s1)
      | None \<Rightarrow> rbind (Session_Send_must pack (P_bandwith_overflow_ps 0) None' s1) (\<lambda>s2.
                 rbind (CloseSession pack s2) (\<lambda>s3. Inr (None, s3))))"

definition Session_ReleaseWriteBuffer :: "WriteBuffer \<Rightarrow> SocketSession \<Rightarrow> SocketSession res" where
  "Session_ReleaseWriteBuffer b s =
    rbind (GetSocketStream (\<lambda>st. Inr ((), ReleaseWriteBuffer b st)) s) (\<lambda>(_, s'). Inr s')"

section \<open>LoopbackSocketSession\<close>

text \<open>The pool grows on demand (\<^verbatim>\<open>Pop(true)\<close>); \<open>lb_capacity\<close> is the size of its buffers. \<open>lb_session_id\<close> is never initialised.\<close>

record LoopbackSession =
  lb_session_id :: u64
  lb_packet_list :: "WriteBuffer option list"
  lb_free :: nat
  lb_capacity :: u32

definition Loopback_Send :: "WriteBuffer option \<Rightarrow> LoopbackSession \<Rightarrow> LoopbackSession" where
  "Loopback_Send b s = s\<lparr>lb_packet_list := lb_packet_list s @ [b]\<rparr>"

definition Loopback_TryAllocateWriteBuffer :: "LoopbackSession \<Rightarrow> WriteBuffer \<times> LoopbackSession" where
  "Loopback_TryAllocateWriteBuffer s =
    (\<lparr>wb_bytes = [], wb_capacity = lb_capacity s, wb_heap = (lb_free s = 0)\<rparr>, s\<lparr>lb_free := lb_free s - 1\<rparr>)"

definition Loopback_ReleaseWriteBuffer :: "WriteBuffer \<Rightarrow> LoopbackSession \<Rightarrow> LoopbackSession" where
  "Loopback_ReleaseWriteBuffer b s = (if wb_heap b then s else s\<lparr>lb_free := lb_free s + 1\<rparr>)"

text \<open>\<^verbatim>\<open>ProcessLoopbackPacket\<close> hands every buffer to the executor, which runs on the worker's state, and then empties the list.\<close>

definition ProcessLoopbackPacket ::
  "(WriteBuffer option \<Rightarrow> 's \<Rightarrow> 's res) \<Rightarrow> LoopbackSession \<Rightarrow> 's \<Rightarrow> (LoopbackSession \<times> 's) res" where
  "ProcessLoopbackPacket executor s w =
    rbind (foldr_res executor (lb_packet_list s) w) (\<lambda>w'. Inr (s\<lparr>lb_packet_list := []\<rparr>, w'))"

section \<open>Session pointers\<close>

datatype AnySession = NetSession SocketSession | LoopSession LoopbackSession

type_synonym session_heap = "u64 \<Rightarrow> AnySession option"

definition heap_TryAllocateWriteBuffer ::
  "(Packet \<Rightarrow> u8 list) \<Rightarrow> u64 \<Rightarrow> session_heap \<Rightarrow> (WriteBuffer option \<times> session_heap) res" where
  "heap_TryAllocateWriteBuffer pack k h =
    (case h k of
       None \<Rightarrow> Inl NullDeref
     | Some (NetSession s) \<Rightarrow> rbind (Session_TryAllocateWriteBuffer pack s) (\<lambda>(b, s'). Inr (b, h(k \<mapsto> NetSession s')))
     | Some (LoopSession s) \<Rightarrow> (case Loopback_TryAllocateWriteBuffer s of (b, s') \<Rightarrow> Inr (Some b, h(k \<mapsto> LoopSession s'))))"

definition heap_Send :: "u64 \<Rightarrow> WriteBuffer option \<Rightarrow> session_heap \<Rightarrow> session_heap res" where
  "heap_Send k b h =
    (case h k of
       None \<Rightarrow> Inl NullDeref
     | Some (NetSession s) \<Rightarrow> rbind (Session_Send_buffer b s) (\<lambda>s'. Inr (h(k \<mapsto> NetSession s')))
     | Some (LoopSession s) \<Rightarrow> Inr (h(k \<mapsto> LoopSession (Loopback_Send b s))))"

definition heap_ReleaseWriteBuffer :: "u64 \<Rightarrow> WriteBuffer \<Rightarrow> session_heap \<Rightarrow> session_heap res" where
  "heap_ReleaseWriteBuffer k b h =
    (case h k of
       None \<Rightarrow> Inl NullDeref
     | Some (NetSession s) \<Rightarrow> rbind (Session_ReleaseWriteBuffer b s) (\<lambda>s'. Inr (h(k \<mapsto> NetSession s')))
     | Some (LoopSession s) \<Rightarrow> Inr (h(k \<mapsto> LoopSession (Loopback_ReleaseWriteBuffer b s))))"

definition heap_GetSessionId :: "u64 \<Rightarrow> session_heap \<Rightarrow> u64 res" where
  "heap_GetSessionId k h =
    (case h k of
       None \<Rightarrow> Inl NullDeref
     | Some (NetSession s) \<Rightarrow> Inr (ss_session_id s)
     | Some (LoopSession s) \<Rightarrow> Inr (lb_session_id s))"

end
