(* ===== verification/Timing.thy ===== *)
theory Timing
  imports Prelude
begin

text \<open>
  The timers of \<^verbatim>\<open>utility/Sampling.h\<close>. Each reads \<^verbatim>\<open>CurrentTick\<close> when it is made or asked; the reading
  is the parameter \<open>now\<close>. Timers that remember their last firing return their new state.
\<close>

record Timer =
  tm_tick :: int
  tm_last_tick_time :: int

definition new_Timer :: "int \<Rightarrow> int \<Rightarrow> Timer" where
  "new_Timer now tick = \<lparr>tm_tick = tick, tm_last_tick_time = now\<rparr>"

definition Timer_fires :: "int \<Rightarrow> Timer \<Rightarrow> bool \<times> Timer" where
  "Timer_fires now t =
    (if tm_last_tick_time t + tm_tick t < now then (True, t\<lparr>tm_last_tick_time := now\<rparr>) else (False, t))"

record Countdown =
  cd_delay :: int
  cd_start_time :: int

definition new_Countdown :: "int \<Rightarrow> int \<Rightarrow> Countdown" where
  "new_Countdown now delay = \<lparr>cd_delay = delay, cd_start_time = now\<rparr>"

definition countdown_over :: "int \<Rightarrow> Countdown \<Rightarrow> bool" where
  "countdown_over now c \<longleftrightarrow> cd_start_time c + cd_delay c < now"

record Debouncer =
  deb_delay :: int
  deb_is_on :: bool
  deb_last_enabled_time :: int

definition new_Debouncer :: "int \<Rightarrow> Debouncer" where
  "new_Debouncer delay = \<lparr>deb_delay = delay, deb_is_on = False, deb_last_enabled_time = 0\<rparr>"

definition Debouncer_Set :: "int \<Rightarrow> Debouncer \<Rightarrow> Debouncer" where
  "Debouncer_Set now d = d\<lparr>deb_is_on := True, deb_last_enabled_time := now\<rparr>"

definition Debouncer_fires :: "int \<Rightarrow> Debouncer \<Rightarrow> bool \<times> Debouncer" where
  "Debouncer_fires now d =
    (if deb_is_on d \<and> deb_last_enabled_time d + deb_delay d < now then (True, d\<lparr>deb_is_on := False\<rparr>) else (False, d))"

record Throttler =
  th_tick :: int
  th_last_execution_time :: int

definition new_Throttler :: "int \<Rightarrow> int \<Rightarrow> Throttler" where
  "new_Throttler now tick = \<lparr>th_tick = tick, th_last_execution_time = now\<rparr>"

definition Throttler_fires :: "int \<Rightarrow> Throttler \<Rightarrow> bool \<times> Throttler" where
  "Throttler_fires now t =
    (if th_last_execution_time t + th_tick t \<le> now then (True, t\<lparr>th_last_execution_time := now\<rparr>) else (False, t))"

text \<open>The readings at which a throttler fires, asked at the given times.\<close>

fun throttled :: "int list \<Rightarrow> Throttler \<Rightarrow> int list" where
  "throttled [] t = []"
| "throttled (now # ts) t =
    (let (b, t') = Throttler_fires now t in if b then now # throttled ts t' else throttled ts t')"

fun spaced :: "int \<Rightarrow> int list \<Rightarrow> bool" where
  "spaced d (x # y # xs) \<longleftrightarrow> x + d \<le> y \<and> spaced d (y # xs)"
| "spaced d xs \<longleftrightarrow> True"

lemma throttled_spaced: "spaced (th_tick t) (th_last_execution_time t # throttled ts t)"
proof (induction ts arbitrary: t)
  case (Cons now ts)
  show ?case
    using Cons [of t] Cons [of "t\<lparr>th_last_execution_time := now\<rparr>"] by (simp add: Throttler_fires_def)
qed simp

lemma throttled_prompt:
  "now \<in> set ts \<Longrightarrow> sorted ts \<Longrightarrow> th_last_execution_time t \<le> now \<Longrightarrow> 0 < th_tick t \<Longrightarrow>
    \<exists>x \<in> set (th_last_execution_time t # throttled ts t). x \<le> now \<and> now < x + th_tick t"
proof (induction ts arbitrary: t)
  case (Cons a ts)
  have le: "th_last_execution_time t \<le> now" "a \<le> now" using Cons.prems by auto
  show ?case
  proof (cases "th_last_execution_time t + th_tick t \<le> a")
    case True
    show ?thesis
    proof (cases "now \<in> set ts")
      case in_times: True
      have "\<exists>x \<in> set (a # throttled ts (t\<lparr>th_last_execution_time := a\<rparr>)). x \<le> now \<and> now < x + th_tick t"
        using Cons.IH [of "t\<lparr>th_last_execution_time := a\<rparr>"] Cons.prems in_times le by auto
      then show ?thesis using True by (auto simp: Throttler_fires_def)
    next
      case False
      then have "now = a" using Cons.prems(1) by simp
      then show ?thesis using True Cons.prems(4) by (auto simp: Throttler_fires_def)
    qed
  next
    case False
    show ?thesis
    proof (cases "now \<in> set ts")
      case True
      then show ?thesis using Cons.IH [of t] Cons.prems le False by (auto simp: Throttler_fires_def)
    next
      case not_in: False
      then have "now = a" using Cons.prems(1) by simp
      then show ?thesis using False le by auto
    qed
  qed
qed simp

text \<open>A throttler fires at most once per tick and never stays silent for longer than a tick: two firings
  are at least a tick apart, and every time it is asked, the last firing lies less than a tick back.\<close>

theorem throttler_paces:
  assumes "sorted ts" "0 < tick" "start \<le> hd ts" "now \<in> set ts"
  shows "spaced tick (start # throttled ts (new_Throttler start tick)) \<and>
    (\<exists>x \<in> set (start # throttled ts (new_Throttler start tick)). x \<le> now \<and> now < x + tick)"
proof -
  have "start \<le> now" using assms by (cases ts) auto
  then show ?thesis
    using throttled_spaced [of "new_Throttler start tick" ts] throttled_prompt [OF assms(4,1), of "new_Throttler start tick"] assms(2)
    by (simp add: new_Throttler_def)
qed

theorem throttler_paces_witness:
  "spaced 10 (0 # throttled [3, 12, 15, 23] (new_Throttler 0 10)) \<and> throttled [3, 12, 15, 23] (new_Throttler 0 10) = [12, 23]"
  using throttler_paces [of "[3, 12, 15, 23]" 10 0 15] by (simp add: new_Throttler_def Throttler_fires_def)

end
