(* ===== verification/PacketThrottling.thy ===== *)
theory PacketThrottling
  imports Sessions Timing
begin

text \<open>
  \<^verbatim>\<open>engine/PacketThrottler.h\<close>: packets for a session are collected in one of its write buffers and sent together.

  The virtual functions of \<^verbatim>\<open>SocketSession\<close> that the throttler calls are the fields of \<open>session_ops\<close>; \<open>heap_ops\<close>
  are those of the modelled sessions. The locale \<open>write_session\<close> states what the throttler relies on, and shows inside
  that nothing is lost, duplicated or reordered; it is interpreted on \<open>heap_ops\<close>.
\<close>

section \<open>State\<close>

record 'h session_ops =
  op_id :: "u64 \<Rightarrow> 'h \<Rightarrow> u64 res"
  op_alloc :: "u64 \<Rightarrow> 'h \<Rightarrow> (WriteBuffer option \<times> 'h) res"
  op_send :: "u64 \<Rightarrow> WriteBuffer option \<Rightarrow> 'h \<Rightarrow> 'h res"
  op_release :: "u64 \<Rightarrow> WriteBuffer \<Rightarrow> 'h \<Rightarrow> 'h res"

definition heap_ops :: "(Packet \<Rightarrow> u8 list) \<Rightarrow> session_heap session_ops" where
  "heap_ops pack = \<lparr>op_id = heap_GetSessionId, op_alloc = heap_TryAllocateWriteBuffer pack, op_send = heap_Send, op_release = heap_ReleaseWriteBuffer\<rparr>"

datatype PacketPostingPolicy = Immediate | Throttle

record ThrottleData =
  td_session :: "u64 option"
  td_buffer :: "WriteBuffer option"

record PacketThrottler =
  pt_throttle_data :: "(u64, ThrottleData) umap"
  pt_throttler :: Throttler

definition new_PacketThrottler :: "int \<Rightarrow> int \<Rightarrow> PacketThrottler" where
  "new_PacketThrottler now tick = \<lparr>pt_throttle_data = [], pt_throttler = new_Throttler now tick\<rparr>"

section \<open>Operations\<close>

definition SendPacket :: "'h session_ops \<Rightarrow> ThrottleData \<Rightarrow> 'h \<Rightarrow> (ThrottleData \<times> 'h) res" where
  "SendPacket ops td h =
    (case td_session td of
       None \<Rightarrow> Inl NullDeref
     | Some k \<Rightarrow> rbind (op_send ops k (td_buffer td) h) (\<lambda>h'. Inr (td\<lparr>td_buffer := None\<rparr>, h')))"

definition StorePacket ::
  "'h session_ops \<Rightarrow> (Packet \<Rightarrow> u8 list) \<Rightarrow> Packet \<Rightarrow> ErrorCode \<Rightarrow> ThrottleData \<Rightarrow> 'h \<Rightarrow> (ThrottleData \<times> 'h) res" where
  "StorePacket ops pack packet error td h =
    (case td_buffer td of
       None \<Rightarrow> Inl NullDeref
     | Some b \<Rightarrow>
       (case SerializePacket pack packet error (wb_capacity b - of_nat (length (wb_bytes b))) of
          (_, Some bytes) \<Rightarrow> Inr (td\<lparr>td_buffer := Some (b\<lparr>wb_bytes := wb_bytes b @ bytes\<rparr>)\<rparr>, h)
        | (_, None) \<Rightarrow>
            rbind (SendPacket ops td h) (\<lambda>(td1, h1).
            case td_session td1 of
              None \<Rightarrow> Inl NullDeref
            | Some k \<Rightarrow>
              rbind (op_alloc ops k h1) (\<lambda>(buffer, h2).
              case buffer of
                None \<Rightarrow> Inr (td1\<lparr>td_buffer := None\<rparr>, h2)
              | Some b' \<Rightarrow>
                (case SerializePacket pack packet error (wb_capacity b' - of_nat (length (wb_bytes b'))) of
                   (_, None) \<Rightarrow> Inl (Throw ''packet size overflow'')
                 | (_, Some bytes) \<Rightarrow> Inr (td1\<lparr>td_buffer := Some (b'\<lparr>wb_bytes := wb_bytes b' @ bytes\<rparr>)\<rparr>, h2))))))"

definition PostPacket ::
  "'h session_ops \<Rightarrow> (Packet \<Rightarrow> u8 list) \<Rightarrow> u64 \<Rightarrow> Packet \<Rightarrow> PacketPostingPolicy \<Rightarrow> PacketThrottler \<Rightarrow> 'h \<Rightarrow> (PacketThrottler \<times> 'h) res" where
  "PostPacket ops pack session packet policy pt h =
    rbind (op_id ops session h) (\<lambda>session_id.
    let td = um_get \<lparr>td_session = None, td_buffer = None\<rparr> session_id (pt_throttle_data pt);
        put = (\<lambda>td. pt\<lparr>pt_throttle_data := um_set session_id td (pt_throttle_data pt)\<rparr>);
        drop = pt\<lparr>pt_throttle_data := um_erase session_id (pt_throttle_data pt)\<rparr> in
    rbind (case td_buffer td of None \<Rightarrow> op_alloc ops session h | Some b \<Rightarrow> Inr (Some b, h)) (\<lambda>(buffer, h1).
    if buffer = None then Inr (drop, h1)
    else
      rbind (StorePacket ops pack packet None' \<lparr>td_session = Some session, td_buffer = buffer\<rparr> h1) (\<lambda>(td2, h2).
      case policy of
        Throttle \<Rightarrow> Inr (put td2, h2)
      | Immediate \<Rightarrow> rbind (SendPacket ops td2 h2) (\<lambda>(_, h3). Inr (drop, h3)))))"

definition CleanUp :: "'h session_ops \<Rightarrow> u64 \<Rightarrow> PacketThrottler \<Rightarrow> 'h \<Rightarrow> (PacketThrottler \<times> 'h) res" where
  "CleanUp ops session pt h =
    rbind (op_id ops session h) (\<lambda>session_id.
    case um_find (pt_throttle_data pt) session_id of
      None \<Rightarrow> Inr (pt, h)
    | Some td \<Rightarrow>
        let pt' = pt\<lparr>pt_throttle_data := um_erase session_id (pt_throttle_data pt)\<rparr> in
        (case td_buffer td of
           None \<Rightarrow> Inr (pt', h)
         | Some b \<Rightarrow>
           (case td_session td of
              None \<Rightarrow> Inl NullDeref
            | Some k \<Rightarrow> rbind (op_release ops k b h) (\<lambda>h'. Inr (pt', h')))))"

definition ForceFlushPacket :: "'h session_ops \<Rightarrow> PacketThrottler \<Rightarrow> 'h \<Rightarrow> (PacketThrottler \<times> 'h) res" where
  "ForceFlushPacket ops pt h =
    rbind (foldr_res (\<lambda>(k, td) h. rbind (SendPacket ops td h) (\<lambda>(_, h'). Inr h')) (pt_throttle_data pt) h)
      (\<lambda>h'. Inr (pt\<lparr>pt_throttle_data := []\<rparr>, h'))"

definition TryFlushPacket :: "'h session_ops \<Rightarrow> int \<Rightarrow> PacketThrottler \<Rightarrow> 'h \<Rightarrow> (PacketThrottler \<times> 'h) res" where
  "TryFlushPacket ops now pt h =
    (let (b, t) = Throttler_fires now (pt_throttler pt); pt' = pt\<lparr>pt_throttler := t\<rparr> in
     if b then ForceFlushPacket ops pt' h else Inr (pt', h))"

section \<open>What the throttler relies on\<close>

declare length_frame [simp]

lemma unat_minus_of_nat: "n \<le> unat c \<Longrightarrow> unat (c - of_nat n :: u32) = unat c - n"
  using unsigned_less [of c, where ?'a = nat] by (simp add: unat_sub word_le_nat_alt u32_of_nat)

lemma SerializePacket_snd:
  "length (pack p) < 4294967284 \<Longrightarrow>
     snd (SerializePacket pack p e c) = (if length (frame pack (p, e)) > unat c then None else Some (frame pack (p, e)))"
  unfolding SerializePacket_eq frame_def packet_header_def by simp

text \<open>\<open>ready n k h\<close>: the next \<open>n\<close> allocations of session \<open>k\<close> succeed and \<open>k\<close> is its identifier, so that no two sessions share one; \<open>sent h k\<close>: the contents of the buffers sent on it.\<close>

locale write_session =
  fixes ops :: "'h session_ops" and capacity :: u32
    and ready :: "nat \<Rightarrow> u64 \<Rightarrow> 'h \<Rightarrow> bool" and sent :: "'h \<Rightarrow> u64 \<Rightarrow> u8 list"
  assumes ident: "ready n k h \<Longrightarrow> op_id ops k h = Inr k"
    and alloc: "ready (Suc n) k h \<Longrightarrow> \<exists>b h'. op_alloc ops k h = Inr (Some b, h') \<and> wb_bytes b = [] \<and> wb_capacity b = capacity \<and>
        sent h' = sent h \<and> ready n k h' \<and> (\<forall>j m. j \<noteq> k \<longrightarrow> ready m j h' = ready m j h)"
    and send: "ready n k h \<Longrightarrow> \<exists>h'. op_send ops k (Some b) h = Inr h' \<and> sent h' = (sent h)(k := sent h k @ wb_bytes b) \<and>
        (\<forall>j m. ready m j h' = ready m j h)"
    and ready_mono: "ready (Suc n) k h \<Longrightarrow> ready n k h"
begin

definition fits :: "WriteBuffer \<Rightarrow> bool" where
  "fits b \<longleftrightarrow> wb_capacity b = capacity \<and> length (wb_bytes b) \<le> unat capacity"

definition pending :: "PacketThrottler \<Rightarrow> u64 \<Rightarrow> u8 list" where
  "pending pt k = (case um_find (pt_throttle_data pt) k of
     Some td \<Rightarrow> (case td_buffer td of Some b \<Rightarrow> wb_bytes b | None \<Rightarrow> []) | None \<Rightarrow> [])"

definition tidy :: "PacketThrottler \<Rightarrow> bool" where
  "tidy pt \<longleftrightarrow> um_ok (pt_throttle_data pt) \<and>
     (\<forall>k td. um_find (pt_throttle_data pt) k = Some td \<longrightarrow> td_session td = Some k \<and> (\<exists>b. td_buffer td = Some b \<and> fits b))"

lemma ready_add: "ready (m + n) k h \<Longrightarrow> ready n k h"
  by (induction m) (auto dest: ready_mono)

lemma StorePacket_ok:
  assumes r: "ready n k h" "length (wb_bytes b) + length (frame pack (p, e)) > unat capacity \<Longrightarrow> ready (Suc n) k h" and b: "fits b" and len: "length (frame pack (p, e)) \<le> unat capacity"
  shows "\<exists>b' h'. StorePacket ops pack p e \<lparr>td_session = Some k, td_buffer = Some b\<rparr> h =
      Inr (\<lparr>td_session = Some k, td_buffer = Some b'\<rparr>, h') \<and> fits b' \<and>
      sent h' k @ wb_bytes b' = sent h k @ wb_bytes b @ frame pack (p, e) \<and> ready n k h' \<and>
      (\<forall>j m. j \<noteq> k \<longrightarrow> ready m j h' = ready m j h \<and> sent h' j = sent h j)"
proof -
  have small: "length (pack p) < 4294967284"
    using len unsigned_less [of capacity, where ?'a = nat] by simp
  have room: "unat (wb_capacity b - of_nat (length (wb_bytes b))) = unat capacity - length (wb_bytes b)"
    using b by (simp add: fits_def unat_minus_of_nat)
  show ?thesis
  proof (cases "length (wb_bytes b) + length (frame pack (p, e)) \<le> unat capacity")
    case True
    then have "snd (SerializePacket pack p e (wb_capacity b - of_nat (length (wb_bytes b)))) = Some (frame pack (p, e))"
      using SerializePacket_snd [where pack = pack, OF small] room by simp
    then have "StorePacket ops pack p e \<lparr>td_session = Some k, td_buffer = Some b\<rparr> h =
      Inr (\<lparr>td_session = Some k, td_buffer = Some (b\<lparr>wb_bytes := wb_bytes b @ frame pack (p, e)\<rparr>)\<rparr>, h)"
      by (auto simp: StorePacket_def split: prod.splits)
    then show ?thesis using True b r(1) by (intro exI conjI) (auto simp: fits_def)
  next
    case False
    then have full: "snd (SerializePacket pack p e (wb_capacity b - of_nat (length (wb_bytes b)))) = None"
      using SerializePacket_snd [where pack = pack, OF small] room by simp
    obtain h1 where h1: "op_send ops k (Some b) h = Inr h1" "sent h1 = (sent h)(k := sent h k @ wb_bytes b)"
      "\<forall>j m. ready m j h1 = ready m j h" using send [OF r(1)] by blast
    obtain b' h2 where h2: "op_alloc ops k h1 = Inr (Some b', h2)" "wb_bytes b' = []" "wb_capacity b' = capacity"
      "sent h2 = sent h1" "ready n k h2" "\<forall>j m. j \<noteq> k \<longrightarrow> ready m j h2 = ready m j h1"
      using alloc [of n k h1] r(2) False h1(3) by auto
    have fit: "snd (SerializePacket pack p e (wb_capacity b' - of_nat (length (wb_bytes b')))) = Some (frame pack (p, e))"
      using SerializePacket_snd [where pack = pack, OF small] h2(2,3) len by simp
    have "StorePacket ops pack p e \<lparr>td_session = Some k, td_buffer = Some b\<rparr> h =
      Inr (\<lparr>td_session = Some k, td_buffer = Some (b'\<lparr>wb_bytes := frame pack (p, e)\<rparr>)\<rparr>, h2)"
      using full fit h1(1) h2(1,2) by (auto simp: StorePacket_def SendPacket_def split: prod.splits)
    then show ?thesis using h1 h2 len by (intro exI conjI) (auto simp: fits_def)
  qed
qed

lemma PostPacket_ok:
  assumes t: "tidy pt" and r: "ready (Suc n) k h" and len: "length (frame pack (p, None')) \<le> unat capacity"
  shows "\<exists>pt' h'. PostPacket ops pack k p Throttle pt h = Inr (pt', h') \<and> tidy pt' \<and>
      fst ` set (pt_throttle_data pt') = insert k (fst ` set (pt_throttle_data pt)) \<and>
      sent h' k @ pending pt' k = sent h k @ pending pt k @ frame pack (p, None') \<and> ready n k h' \<and>
      (\<forall>j m. j \<noteq> k \<longrightarrow> ready m j h' = ready m j h \<and> sent h' j = sent h j \<and> pending pt' j = pending pt j)"
proof -
  obtain b h1 where h1: "(case td_buffer (um_get \<lparr>td_session = None, td_buffer = None\<rparr> k (pt_throttle_data pt)) of
      None \<Rightarrow> op_alloc ops k h | Some b \<Rightarrow> Inr (Some b, h)) = Inr (Some b, h1)" "fits b" "wb_bytes b = pending pt k"
    "sent h1 = sent h" "ready n k h1" "wb_bytes b \<noteq> [] \<Longrightarrow> ready (Suc n) k h1" "\<forall>j m. j \<noteq> k \<longrightarrow> ready m j h1 = ready m j h"
  proof (cases "um_find (pt_throttle_data pt) k")
    case None
    then show thesis using that alloc [OF r] by (auto simp: pending_def fits_def)
  next
    case (Some td)
    then obtain b where "td_buffer td = Some b" "fits b" using t unfolding tidy_def by blast
    then show thesis using that [of b h] Some ready_mono [OF r] r by (simp add: pending_def)
  qed
  obtain b' h2 where h2: "StorePacket ops pack p None' \<lparr>td_session = Some k, td_buffer = Some b\<rparr> h1 =
      Inr (\<lparr>td_session = Some k, td_buffer = Some b'\<rparr>, h2)" "fits b'"
    "sent h2 k @ wb_bytes b' = sent h1 k @ wb_bytes b @ frame pack (p, None')" "ready n k h2"
    "\<forall>j m. j \<noteq> k \<longrightarrow> ready m j h2 = ready m j h1 \<and> sent h2 j = sent h1 j"
    using StorePacket_ok [OF h1(5) _ h1(2) len] h1(6) len by fastforce
  let ?pt = "pt\<lparr>pt_throttle_data := um_set k \<lparr>td_session = Some k, td_buffer = Some b'\<rparr> (pt_throttle_data pt)\<rparr>"
  have "PostPacket ops pack k p Throttle pt h = Inr (?pt, h2)"
    unfolding PostPacket_def Let_def ident [OF r] rbind_simps h1(1) by (simp add: h2(1))
  moreover have "tidy ?pt" using t h2(2) by (auto simp: tidy_def)
  moreover have "pending ?pt k = wb_bytes b'" "\<forall>j. j \<noteq> k \<longrightarrow> pending ?pt j = pending pt j" by (auto simp: pending_def)
  ultimately show ?thesis using h1 h2 by (intro exI [of _ ?pt] exI [of _ h2]) (simp add: set_um_keys_set)
qed

lemma PostPackets_ok:
  assumes "tidy pt" "\<forall>k \<in> fst ` set posts. ready (length (filter (\<lambda>x. fst x = k) posts) + n) k h"
    "\<forall>x \<in> set posts. length (frame pack (snd x, None')) \<le> unat capacity"
  shows "\<exists>pt' h'. foldr_res (\<lambda>(k, p) (pt, h). PostPacket ops pack k p Throttle pt h) posts (pt, h) = Inr (pt', h') \<and> tidy pt' \<and>
    fst ` set (pt_throttle_data pt') = fst ` set posts \<union> fst ` set (pt_throttle_data pt) \<and>
    (\<forall>k. sent h' k @ pending pt' k = sent h k @ pending pt k @ concat (map (\<lambda>x. frame pack (snd x, None')) (filter (\<lambda>x. fst x = k) posts))) \<and>
    (\<forall>k. k \<in> fst ` set posts \<longrightarrow> ready n k h') \<and> (\<forall>k m. k \<notin> fst ` set posts \<longrightarrow> ready m k h' = ready m k h)"
  using assms
proof (induction posts arbitrary: pt h n)
  case (Cons x posts)
  obtain k p where x: "x = (k, p)" by (cases x)
  let ?c = "\<lambda>j. length (filter (\<lambda>x. fst x = j) posts)"
  have "ready (Suc (?c k + n)) k h" "length (frame pack (p, None')) \<le> unat capacity" using Cons.prems(2,3) x by auto
  from PostPacket_ok [OF Cons.prems(1) this] obtain pt1 h1 where h1:
    "PostPacket ops pack k p Throttle pt h = Inr (pt1, h1)" "tidy pt1"
    "fst ` set (pt_throttle_data pt1) = insert k (fst ` set (pt_throttle_data pt))"
    "sent h1 k @ pending pt1 k = sent h k @ pending pt k @ frame pack (p, None')" "ready (?c k + n) k h1"
    "\<forall>j m. j \<noteq> k \<longrightarrow> ready m j h1 = ready m j h \<and> sent h1 j = sent h j \<and> pending pt1 j = pending pt j" by blast
  have "\<forall>j \<in> fst ` set posts. ready (?c j + n) j h1"
  proof
    fix j assume "j \<in> fst ` set posts"
    then show "ready (?c j + n) j h1" using Cons.prems(2) h1(5,6) x by (cases "j = k") auto
  qed
  from Cons.IH [OF h1(2) this] Cons.prems(3) obtain pt2 h2 where h2:
    "foldr_res (\<lambda>(k, p) (pt, h). PostPacket ops pack k p Throttle pt h) posts (pt1, h1) = Inr (pt2, h2)" "tidy pt2"
    "fst ` set (pt_throttle_data pt2) = fst ` set posts \<union> fst ` set (pt_throttle_data pt1)"
    "\<forall>k. sent h2 k @ pending pt2 k = sent h1 k @ pending pt1 k @ concat (map (\<lambda>x. frame pack (snd x, None')) (filter (\<lambda>x. fst x = k) posts))"
    "\<forall>k. k \<in> fst ` set posts \<longrightarrow> ready n k h2" "\<forall>k m. k \<notin> fst ` set posts \<longrightarrow> ready m k h2 = ready m k h1" by auto
  have "ready n k h2" using h2(5,6) ready_add [OF h1(5)] by (cases "k \<in> fst ` set posts") auto
  moreover have "sent h2 j @ pending pt2 j = sent h j @ pending pt j @
      concat (map (\<lambda>x. frame pack (snd x, None')) (filter (\<lambda>x. fst x = j) (x # posts)))" for j
    using h2(4) [rule_format, of j] h1(4,6) x by (cases "j = k") auto
  ultimately show ?case using h1 h2 x by (intro exI [of _ pt2] exI [of _ h2]) auto
qed auto

lemma flush_data_ok:
  assumes "um_ok d" "\<forall>k td. um_find d k = Some td \<longrightarrow> td_session td = Some k \<and> (\<exists>b. td_buffer td = Some b \<and> fits b) \<and> ready 0 k h"
  shows "\<exists>h'. foldr_res (\<lambda>(k, td) h. rbind (SendPacket ops td h) (\<lambda>(_, h'). Inr h')) d h = Inr h' \<and>
    (\<forall>k. sent h' k = sent h k @ (case um_find d k of
       Some td \<Rightarrow> (case td_buffer td of Some b \<Rightarrow> wb_bytes b | None \<Rightarrow> []) | None \<Rightarrow> []))"
  using assms
proof (induction d arbitrary: h)
  case (Cons x d)
  obtain k td where x: "x = (k, td)" by (cases x)
  obtain b where td: "td_session td = Some k" "td_buffer td = Some b" "ready 0 k h"
    using Cons.prems(2) [rule_format, of k td] x by auto
  obtain h1 where h1: "op_send ops k (Some b) h = Inr h1" "sent h1 = (sent h)(k := sent h k @ wb_bytes b)" "\<forall>j m. ready m j h1 = ready m j h"
    using send [OF td(3)] by blast
  have "k \<notin> fst ` set d" using Cons.prems(1) x by simp
  then have k: "um_find d k = None" by (simp add: um_find_None_iff)
  have "\<forall>j td. um_find d j = Some td \<longrightarrow> td_session td = Some j \<and> (\<exists>b. td_buffer td = Some b \<and> fits b) \<and> ready 0 j h1"
  proof (intro allI impI)
    fix j td' assume j: "um_find d j = Some td'"
    then have "um_find (x # d) j = Some td'" using k x by auto
    then show "td_session td' = Some j \<and> (\<exists>b. td_buffer td' = Some b \<and> fits b) \<and> ready 0 j h1" using Cons.prems(2) h1(3) by blast
  qed
  from Cons.IH [OF _ this] Cons.prems(1) x obtain h2 where
    "foldr_res (\<lambda>(k, td) h. rbind (SendPacket ops td h) (\<lambda>(_, h'). Inr h')) d h1 = Inr h2"
    "\<forall>k. sent h2 k = sent h1 k @ (case um_find d k of
       Some td \<Rightarrow> (case td_buffer td of Some b \<Rightarrow> wb_bytes b | None \<Rightarrow> []) | None \<Rightarrow> [])" by auto
  then show ?case using h1 td x k by (auto simp: SendPacket_def)
qed simp

lemma ForceFlushPacket_ok:
  assumes "tidy pt" "\<forall>k. um_find (pt_throttle_data pt) k \<noteq> None \<longrightarrow> ready 0 k h"
  shows "\<exists>pt' h'. ForceFlushPacket ops pt h = Inr (pt', h') \<and> pt_throttle_data pt' = [] \<and> (\<forall>k. sent h' k = sent h k @ pending pt k)"
proof -
  have "\<forall>k td. um_find (pt_throttle_data pt) k = Some td \<longrightarrow> td_session td = Some k \<and> (\<exists>b. td_buffer td = Some b \<and> fits b) \<and> ready 0 k h"
    using assms unfolding tidy_def by (metis option.distinct(1))
  from flush_data_ok [OF _ this] assms(1) show ?thesis
    by (auto simp: ForceFlushPacket_def tidy_def pending_def)
qed

lemma posts_then_flush:
  assumes "pt_throttle_data pt = []" "\<forall>k \<in> fst ` set posts. ready (length (filter (\<lambda>x. fst x = k) posts)) k h"
    "\<forall>x \<in> set posts. length (frame pack (snd x, None')) \<le> unat capacity"
  shows "\<exists>pt1 h1 pt2 h2. foldr_res (\<lambda>(k, p) (pt, h). PostPacket ops pack k p Throttle pt h) posts (pt, h) = Inr (pt1, h1) \<and>
    ForceFlushPacket ops pt1 h1 = Inr (pt2, h2) \<and> pt_throttle_data pt2 = [] \<and>
    (\<forall>k. sent h2 k = sent h k @ concat (map (\<lambda>x. frame pack (snd x, None')) (filter (\<lambda>x. fst x = k) posts)))"
proof -
  have "tidy pt" "pending pt k = []" for k using assms(1) by (simp_all add: tidy_def pending_def)
  with PostPackets_ok [of pt posts 0 h pack] assms obtain pt1 h1 where h1:
    "foldr_res (\<lambda>(k, p) (pt, h). PostPacket ops pack k p Throttle pt h) posts (pt, h) = Inr (pt1, h1)" "tidy pt1"
    "fst ` set (pt_throttle_data pt1) = fst ` set posts"
    "\<forall>k. sent h1 k @ pending pt1 k = sent h k @ concat (map (\<lambda>x. frame pack (snd x, None')) (filter (\<lambda>x. fst x = k) posts))"
    "\<forall>k. k \<in> fst ` set posts \<longrightarrow> ready 0 k h1" by auto
  have "um_find (pt_throttle_data pt1) k \<noteq> None \<longrightarrow> k \<in> fst ` set posts" for k
    using h1(3) by (auto simp: um_find_None_iff)
  then have "\<forall>k. um_find (pt_throttle_data pt1) k \<noteq> None \<longrightarrow> ready 0 k h1" using h1(5) by blast
  from ForceFlushPacket_ok [OF h1(2) this] h1 show ?thesis by auto
qed

end

section \<open>The sessions of the engine\<close>

definition heap_ready :: "u32 \<Rightarrow> nat \<Rightarrow> u64 \<Rightarrow> session_heap \<Rightarrow> bool" where
  "heap_ready capacity n k h =
    (case h k of
       None \<Rightarrow> False
     | Some (LoopSession s) \<Rightarrow> lb_session_id s = k \<and> lb_capacity s = capacity
     | Some (NetSession s) \<Rightarrow> ss_session_id s = k \<and> (ss_state s = Opened \<or> ss_state s = Abandoned) \<and>
         (case so_stream s of None \<Rightarrow> False
          | Some st \<Rightarrow> st_connected st \<and> n \<le> st_write_free st \<and> st_write_capacity st = capacity))"

definition written :: "stream_op list \<Rightarrow> u8 list" where
  "written os = concat (map (\<lambda>x. case x of WriteOp bs a \<Rightarrow> bs | _ \<Rightarrow> []) os)"

definition heap_sent :: "session_heap \<Rightarrow> u64 \<Rightarrow> u8 list" where
  "heap_sent h k =
    (case h k of
       None \<Rightarrow> []
     | Some (LoopSession s) \<Rightarrow> concat (map (\<lambda>b. case b of Some w \<Rightarrow> wb_bytes w | None \<Rightarrow> []) (lb_packet_list s))
     | Some (NetSession s) \<Rightarrow> (case so_stream s of None \<Rightarrow> [] | Some st \<Rightarrow> written (st_ops st)))"

lemmas session_unfold = heap_TryAllocateWriteBuffer_def Session_TryAllocateWriteBuffer_def GetSocketStream_def with_stream_def
  AllocateWriteBuffer_def Loopback_TryAllocateWriteBuffer_def heap_Send_def Session_Send_buffer_def TransmitWrite_def Loopback_Send_def

lemma heap_ready_cases:
  assumes "heap_ready capacity n k h"
  obtains (net) s st where "h k = Some (NetSession s)" "ss_state s = Opened \<or> ss_state s = Abandoned" "so_stream s = Some st"
      "st_connected st" "n \<le> st_write_free st" "st_write_capacity st = capacity" "ss_session_id s = k"
  | (loop) s where "h k = Some (LoopSession s)" "lb_capacity s = capacity" "lb_session_id s = k"
proof (cases "h k")
  case None
  then show thesis using assms by (simp add: heap_ready_def)
next
  case (Some x)
  then show thesis using assms net loop by (cases x) (auto simp: heap_ready_def split: option.splits)
qed

lemma heap_alloc:
  assumes r: "heap_ready capacity (Suc n) k h"
  shows "\<exists>b h'. op_alloc (heap_ops pack) k h = Inr (Some b, h') \<and> wb_bytes b = [] \<and> wb_capacity b = capacity \<and>
    heap_sent h' = heap_sent h \<and> heap_ready capacity n k h' \<and> (\<forall>j m. j \<noteq> k \<longrightarrow> heap_ready capacity m j h' = heap_ready capacity m j h)"
  using r
proof (cases rule: heap_ready_cases)
  case (net s st)
  have eq: "op_alloc (heap_ops pack) k h = Inr (Some \<lparr>wb_bytes = [], wb_capacity = capacity, wb_heap = False\<rparr>,
      h(k \<mapsto> NetSession (s\<lparr>so_stream := Some (st\<lparr>st_write_free := st_write_free st - 1\<rparr>)\<rparr>)))"
    using net by (auto simp: heap_ops_def session_unfold)
  show ?thesis by (rule exI, rule exI, rule conjI, rule eq) (use net in \<open>auto simp: heap_sent_def heap_ready_def fun_eq_iff\<close>)
next
  case (loop s)
  have eq: "op_alloc (heap_ops pack) k h = Inr (Some \<lparr>wb_bytes = [], wb_capacity = capacity, wb_heap = (lb_free s = 0)\<rparr>,
      h(k \<mapsto> LoopSession (s\<lparr>lb_free := lb_free s - 1\<rparr>)))"
    using loop by (auto simp: heap_ops_def session_unfold)
  show ?thesis by (rule exI, rule exI, rule conjI, rule eq) (use loop in \<open>auto simp: heap_sent_def heap_ready_def fun_eq_iff\<close>)
qed

lemma heap_send:
  assumes r: "heap_ready capacity n k h"
  shows "\<exists>h'. op_send (heap_ops pack) k (Some b) h = Inr h' \<and> heap_sent h' = (heap_sent h)(k := heap_sent h k @ wb_bytes b) \<and>
    (\<forall>j m. heap_ready capacity m j h' = heap_ready capacity m j h)"
  using r
proof (cases rule: heap_ready_cases)
  case (net s st)
  have eq: "op_send (heap_ops pack) k (Some b) h =
      Inr (h(k \<mapsto> NetSession (s\<lparr>so_stream := Some (st\<lparr>st_ops := st_ops st @ [WriteOp (wb_bytes b) 0]\<rparr>)\<rparr>)))"
    using net by (auto simp: heap_ops_def session_unfold)
  show ?thesis by (rule exI, rule conjI, rule eq) (use net in \<open>auto simp: heap_sent_def heap_ready_def fun_eq_iff written_def\<close>)
next
  case (loop s)
  have eq: "op_send (heap_ops pack) k (Some b) h = Inr (h(k \<mapsto> LoopSession (s\<lparr>lb_packet_list := lb_packet_list s @ [Some b]\<rparr>)))"
    using loop by (auto simp: heap_ops_def session_unfold)
  show ?thesis by (rule exI, rule conjI, rule eq) (use loop in \<open>auto simp: heap_sent_def heap_ready_def fun_eq_iff\<close>)
qed

lemma heap_ready_Suc: "heap_ready capacity (Suc n) k h \<Longrightarrow> heap_ready capacity n k h"
  by (auto simp: heap_ready_def split: option.splits AnySession.splits)

lemma heap_ident: "heap_ready capacity n k h \<Longrightarrow> op_id (heap_ops pack) k h = Inr k"
  by (elim heap_ready_cases) (simp_all add: heap_ops_def heap_GetSessionId_def)

interpretation heap: write_session "heap_ops pack" capacity "heap_ready capacity" heap_sent
  by unfold_locales (rule heap_ident heap_alloc heap_send heap_ready_Suc; assumption)+

text \<open>C14. Packets posted through the throttler, interleaved over any sessions (connected or loopback), followed by a flush: nothing
  fails, and what each session has sent afterwards is what it had sent before followed by exactly its packets, framed, in the
  order they were posted. Enough that every session has as many free write buffers as packets, that each packet fits a buffer, and
  that no two sessions have the same identifier.\<close>

theorem throttled_posts_are_fifo:
  assumes "pt_throttle_data pt = []"
    and "\<forall>k \<in> fst ` set posts. heap_ready capacity (length (filter (\<lambda>x. fst x = k) posts)) k h"
    and "\<forall>x \<in> set posts. 12 + length (pack (snd x)) \<le> unat capacity"
  shows "\<exists>pt1 h1 pt2 h2.
    foldr_res (\<lambda>(k, p) (pt, h). PostPacket (heap_ops pack) pack k p Throttle pt h) posts (pt, h) = Inr (pt1, h1) \<and>
    ForceFlushPacket (heap_ops pack) pt1 h1 = Inr (pt2, h2) \<and> pt_throttle_data pt2 = [] \<and>
    (\<forall>k. heap_sent h2 k = heap_sent h k @ concat (map (\<lambda>x. frame pack (snd x, None')) (filter (\<lambda>x. fst x = k) posts)))"
  using heap.posts_then_flush [of pt posts capacity h pack pack] assms by simp

definition sample_net :: "nat \<Rightarrow> u32 \<Rightarrow> AnySession" where
  "sample_net n capacity = NetSession \<lparr>ss_state = Opened, ss_initialized = True, ss_ping = 0, ss_heartbeat_receiving = 0,
     ss_heartbeat_sending = 0, ss_abandoned = 0, ss_key = [], ss_user_data = [], ss_session_id = 1,
     so_stream = Some \<lparr>st_connected = True, st_write_free = n, st_write_capacity = capacity, st_read_free = 0, st_ops = []\<rparr>\<rparr>"

definition sample_heap :: session_heap where
  "sample_heap = [1 \<mapsto> sample_net 2 20, 2 \<mapsto> LoopSession \<lparr>lb_session_id = 2, lb_packet_list = [], lb_free = 0, lb_capacity = 20\<rparr>]"

theorem throttled_posts_are_fifo_witness:
  "\<exists>pt1 h1 pt2 h2. ForceFlushPacket (heap_ops (\<lambda>p. [7])) pt1 h1 = Inr (pt2, h2) \<and>
     heap_sent h2 1 = frame (\<lambda>p. [7]) (P_session_close_rq 0, None') @ frame (\<lambda>p. [7]) (P_bandwith_overflow_ps 0, None') \<and>
     heap_sent h2 2 = frame (\<lambda>p. [7]) (P_session_close_rq 0, None')"
proof -
  let ?posts = "[(1, P_session_close_rq 0), (2, P_session_close_rq 0), (1, P_bandwith_overflow_ps 0)] :: (u64 \<times> Packet) list"
  have a: "pt_throttle_data (new_PacketThrottler 0 10) = []" by (simp add: new_PacketThrottler_def)
  have b: "\<forall>k \<in> fst ` set ?posts. heap_ready 20 (length (filter (\<lambda>x. fst x = k) ?posts)) k sample_heap"
    by (simp add: heap_ready_def sample_heap_def sample_net_def)
  have c: "\<forall>x \<in> set ?posts. 12 + length ((\<lambda>p :: Packet. [7 :: u8]) (snd x)) \<le> unat (20 :: u32)" by simp
  obtain pt1 h1 pt2 h2 where f: "ForceFlushPacket (heap_ops (\<lambda>p. [7])) pt1 h1 = Inr (pt2, h2)"
    "\<forall>k. heap_sent h2 k = heap_sent sample_heap k @ concat (map (\<lambda>x. frame (\<lambda>p. [7]) (snd x, None')) (filter (\<lambda>x. fst x = k) ?posts))"
    using throttled_posts_are_fifo [where pack = "\<lambda>p. [7]", OF a b c] by (elim exE conjE) (rule that)
  have "heap_sent sample_heap 1 = []" "heap_sent sample_heap 2 = []"
    by (simp_all add: heap_sent_def sample_heap_def sample_net_def written_def)
  with f(2) [rule_format, of 1] f(2) [rule_format, of 2] f(1) show ?thesis
    by (intro exI [of _ pt1] exI [of _ h1] exI [of _ pt2] exI [of _ h2]) simp
qed

section \<open>A session without write buffers\<close>

lemma SerializePacket_fits:
  assumes "12 + length (pack p) \<le> unat capacity"
  shows "\<exists>n. SerializePacket pack p e capacity = (n, Some (frame pack (p, e)))"
proof -
  have "length (pack p) < 4294967284" using assms unsigned_less [of capacity, where ?'a = nat] by simp
  from SerializePacket_snd [where pack = pack, OF this, of e capacity] assms show ?thesis by (cases "SerializePacket pack p e capacity") simp
qed

lemma Send_must_ok:
  assumes "ss_state s = Opened" "so_stream s = Some st" "st_connected st" "st_write_free st = 0"
    "12 + length (pack p) \<le> unat (st_write_capacity st)"
  shows "Session_Send_must pack p e s = Inr (s\<lparr>so_stream := Some (st\<lparr>st_ops := st_ops st @ [WriteOp (frame pack (p, e)) 0]\<rparr>)\<rparr>)"
  using assms SerializePacket_fits [where pack = pack, OF assms(5), of e]
  by (auto simp: Session_Send_must_def send_serialized_def session_unfold)

text \<open>\<open>TryAllocateWriteBuffer\<close> on a session that has none left: it reports the overflow, closes the session and returns null.\<close>

lemma exhausted_alloc:
  assumes s: "h k = Some (NetSession s)" "ss_state s = Opened" "so_stream s = Some st" "st_connected st" "st_write_free st = 0"
    and fit: "12 + length (pack (P_bandwith_overflow_ps 0)) \<le> unat (st_write_capacity st)"
      "12 + length (pack (P_session_close_rq 0)) \<le> unat (st_write_capacity st)"
  shows "\<exists>s' st'. heap_TryAllocateWriteBuffer pack k h = Inr (None, h(k \<mapsto> NetSession s')) \<and> ss_state s' = Opened \<and> so_stream s' = Some st' \<and>
    st_ops st' = st_ops st @ [WriteOp (frame pack (P_bandwith_overflow_ps 0, None')) 0, WriteOp (frame pack (P_session_close_rq 0, None')) 0,
      DisconnectOp GRACEFUL_SHUTDOWN_CODE] \<and> \<not> st_connected st'"
proof -
  let ?s1 = "s\<lparr>so_stream := Some (st\<lparr>st_ops := st_ops st @ [WriteOp (frame pack (P_bandwith_overflow_ps 0, None')) 0]\<rparr>)\<rparr>"
  let ?st2 = "st\<lparr>st_ops := st_ops st @ [WriteOp (frame pack (P_bandwith_overflow_ps 0, None')) 0,
    WriteOp (frame pack (P_session_close_rq 0, None')) 0]\<rparr>"
  have s1: "Session_Send_must pack (P_bandwith_overflow_ps 0) None' s = Inr ?s1" using Send_must_ok [where pack = pack, OF s(2-5) fit(1)] .
  have s2: "Session_Send_must pack (P_session_close_rq 0) None' ?s1 = Inr (s\<lparr>so_stream := Some ?st2\<rparr>)"
    by (subst Send_must_ok [where st = "st\<lparr>st_ops := st_ops st @ [WriteOp (frame pack (P_bandwith_overflow_ps 0, None')) 0]\<rparr>"])
      (use s fit in auto)
  have s0: "s\<lparr>so_stream := Some st\<rparr> = s" using s(3) by simp
  have "Session_TryAllocateWriteBuffer pack s = Inr (None, s\<lparr>so_stream := Some (TransmitDisconnect GRACEFUL_SHUTDOWN_CODE ?st2)\<rparr>)"
    using s by (simp add: Session_TryAllocateWriteBuffer_def GetSocketStream_def with_stream_def AllocateWriteBuffer_def s0 s1 CloseSession_def s2)
  then show ?thesis using s
    by (auto simp: heap_TryAllocateWriteBuffer_def TransmitDisconnect_def SetConnectionStatus_def AllocateWriteBuffer_def)
qed

text \<open>A session runs out of write buffers while a packet is stored: the overflow is reported and the session is closed, but its
  entry stays in the throttler with a null buffer, and the next flush dereferences it.\<close>

theorem exhausted_session_breaks_flush:
  assumes "h k = Some (NetSession s)" "ss_state s = Opened" "so_stream s = Some st" "st_connected st" "st_write_free st = 0"
    and "12 + length (pack (P_bandwith_overflow_ps 0)) \<le> unat (st_write_capacity st)"
      "12 + length (pack (P_session_close_rq 0)) \<le> unat (st_write_capacity st)"
    and "pt_throttle_data pt = [(k, \<lparr>td_session = Some k, td_buffer = Some b\<rparr>)]"
    and "length (pack p) < 4294967284" "12 + length (pack p) > unat (wb_capacity b - of_nat (length (wb_bytes b)))"
    and "ss_session_id s = k"
  shows "\<exists>pt' h'. PostPacket (heap_ops pack) pack k p Throttle pt h = Inr (pt', h') \<and>
    ForceFlushPacket (heap_ops pack) pt' h' = Inl NullDeref"
proof -
  let ?st = "st\<lparr>st_ops := st_ops st @ [WriteOp (wb_bytes b) 0]\<rparr>"
  let ?h = "h(k \<mapsto> NetSession (s\<lparr>so_stream := Some ?st\<rparr>))"
  have send: "heap_Send k (Some b) h = Inr ?h" using assms(1-4) by (auto simp: session_unfold)
  obtain s' st' where alloc: "heap_TryAllocateWriteBuffer pack k ?h = Inr (None, ?h(k \<mapsto> NetSession s'))" "ss_state s' = Opened"
    "so_stream s' = Some st'"
    using exhausted_alloc [of ?h k "s\<lparr>so_stream := Some ?st\<rparr>" ?st pack] assms(2,4-7) by auto
  obtain n where full: "SerializePacket pack p None' (wb_capacity b - of_nat (length (wb_bytes b))) = (n, None)"
    using SerializePacket_snd [where pack = pack, OF assms(9), of None' "wb_capacity b - of_nat (length (wb_bytes b))"] assms(10)
    by (cases "SerializePacket pack p None' (wb_capacity b - of_nat (length (wb_bytes b)))") simp
  let ?pt = "pt\<lparr>pt_throttle_data := [(k, \<lparr>td_session = Some k, td_buffer = None\<rparr>)]\<rparr>"
  have "PostPacket (heap_ops pack) pack k p Throttle pt h = Inr (?pt, ?h(k \<mapsto> NetSession s'))"
    using send alloc(1) full assms(1,8,11) by (simp add: PostPacket_def StorePacket_def SendPacket_def heap_ops_def heap_GetSessionId_def)
  moreover have "ForceFlushPacket (heap_ops pack) ?pt (?h(k \<mapsto> NetSession s')) = Inl NullDeref"
    using alloc(2,3) by (simp add: ForceFlushPacket_def SendPacket_def heap_ops_def session_unfold)
  ultimately show ?thesis by blast
qed

theorem exhausted_session_breaks_flush_witness:
  "\<exists>pt' h'. PostPacket (heap_ops (\<lambda>p. [7])) (\<lambda>p. [7]) 1 (P_session_close_rq 0) Throttle
      ((new_PacketThrottler 0 10)\<lparr>pt_throttle_data := [(1, \<lparr>td_session = Some 1,
         td_buffer = Some \<lparr>wb_bytes = [1, 2, 3, 4, 5, 6, 7, 8], wb_capacity = 20, wb_heap = False\<rparr>\<rparr>)]\<rparr>)
      [1 \<mapsto> sample_net 0 20] = Inr (pt', h') \<and>
    ForceFlushPacket (heap_ops (\<lambda>p. [7])) pt' h' = Inl NullDeref"
  using exhausted_session_breaks_flush [where h = "[1 \<mapsto> sample_net 0 20]" and k = 1 and pack = "\<lambda>p. [7]" and p = "P_session_close_rq 0"
    and st = "\<lparr>st_connected = True, st_write_free = 0, st_write_capacity = 20, st_read_free = 0, st_ops = []\<rparr>"
    and s = "case sample_net 0 20 of NetSession s \<Rightarrow> s"
    and b = "\<lparr>wb_bytes = [1, 2, 3, 4, 5, 6, 7, 8], wb_capacity = 20, wb_heap = False\<rparr>"
    and pt = "(new_PacketThrottler 0 10)\<lparr>pt_throttle_data := [(1, \<lparr>td_session = Some 1,
         td_buffer = Some \<lparr>wb_bytes = [1, 2, 3, 4, 5, 6, 7, 8], wb_capacity = 20, wb_heap = False\<rparr>\<rparr>)]\<rparr>"]
  by (simp add: sample_net_def)

section \<open>Sessions of two engines\<close>

text \<open>The throttler files packets under the identifier of a session, and every engine numbers its sessions from 1, while an agency
  has one throttler for the sessions of two engines. When a client session and a server session have the same identifier, a packet
  for the first followed by one for the second sends both to the second, and the first receives nothing.\<close>

theorem colliding_identifiers_misdeliver:
  assumes "h client = Some (NetSession sc)" "h server = Some (NetSession sr)" "client \<noteq> server"
    and "ss_session_id sc = n" "ss_session_id sr = n" "ss_state sc = Opened" "ss_state sr = Opened"
    and "so_stream sc = Some tc" "so_stream sr = Some tr" "st_connected tr" "st_write_free tc > 0"
    and "pt_throttle_data pt = []"
    and "24 + length (pack pc) + length (pack pr) \<le> unat (st_write_capacity tc)"
  shows "\<exists>pt1 h1 pt2 h2 pt3 h3. PostPacket (heap_ops pack) pack client pc Throttle pt h = Inr (pt1, h1) \<and>
    PostPacket (heap_ops pack) pack server pr Throttle pt1 h1 = Inr (pt2, h2) \<and> ForceFlushPacket (heap_ops pack) pt2 h2 = Inr (pt3, h3) \<and>
    heap_sent h3 client = heap_sent h client \<and>
    heap_sent h3 server = heap_sent h server @ frame pack (pc, None') @ frame pack (pr, None')"
proof -
  let ?c = "st_write_capacity tc"
  let ?b0 = "\<lparr>wb_bytes = [], wb_capacity = ?c, wb_heap = False\<rparr>"
  let ?b1 = "?b0\<lparr>wb_bytes := frame pack (pc, None')\<rparr>" and ?b2 = "?b0\<lparr>wb_bytes := frame pack (pc, None') @ frame pack (pr, None')\<rparr>"
  let ?h1 = "h(client \<mapsto> NetSession (sc\<lparr>so_stream := Some (tc\<lparr>st_write_free := st_write_free tc - 1\<rparr>)\<rparr>))"
  let ?pt1 = "pt\<lparr>pt_throttle_data := [(n, \<lparr>td_session = Some client, td_buffer = Some ?b1\<rparr>)]\<rparr>"
  let ?pt2 = "pt\<lparr>pt_throttle_data := [(n, \<lparr>td_session = Some server, td_buffer = Some ?b2\<rparr>)]\<rparr>"
  obtain m where f1: "SerializePacket pack pc None' ?c = (m, Some (frame pack (pc, None')))"
    using SerializePacket_fits [where pack = pack and p = pc and capacity = ?c] assms(13) by force
  have "unat (?c - of_nat (length (frame pack (pc, None')))) = unat ?c - length (frame pack (pc, None'))"
    by (rule unat_minus_of_nat) (use assms(13) in simp)
  then obtain m' where f2: "SerializePacket pack pr None' (?c - of_nat (length (frame pack (pc, None')))) = (m', Some (frame pack (pr, None')))"
    using SerializePacket_fits [where pack = pack and p = pr and capacity = "?c - of_nat (length (frame pack (pc, None')))"] assms(13) by force
  have 1: "PostPacket (heap_ops pack) pack client pc Throttle pt h = Inr (?pt1, ?h1)"
    using assms f1 by (simp add: PostPacket_def StorePacket_def heap_ops_def heap_GetSessionId_def session_unfold)
  have 2: "PostPacket (heap_ops pack) pack server pr Throttle ?pt1 ?h1 = Inr (?pt2, ?h1)"
    using assms f2 by (simp add: PostPacket_def StorePacket_def heap_ops_def heap_GetSessionId_def)
  have 3: "ForceFlushPacket (heap_ops pack) ?pt2 ?h1 = Inr (?pt2\<lparr>pt_throttle_data := []\<rparr>,
      ?h1(server \<mapsto> NetSession (sr\<lparr>so_stream := Some (tr\<lparr>st_ops := st_ops tr @ [WriteOp (wb_bytes ?b2) 0]\<rparr>)\<rparr>)))"
    using assms by (simp add: ForceFlushPacket_def SendPacket_def heap_ops_def session_unfold)
  show ?thesis
    by (rule exI, rule exI, rule exI, rule exI, rule exI, rule exI, rule conjI, rule 1, rule conjI, rule 2, rule conjI, rule 3)
      (use assms in \<open>simp add: heap_sent_def written_def\<close>)
qed

theorem colliding_identifiers_misdeliver_witness:
  "\<exists>pt1 h1 pt2 h2 pt3 h3. PostPacket (heap_ops (\<lambda>p. [7])) (\<lambda>p. [7]) 10 (P_session_close_rq 0) Throttle (new_PacketThrottler 0 10)
      [10 \<mapsto> sample_net 3 100, 20 \<mapsto> sample_net 3 100] = Inr (pt1, h1) \<and>
    PostPacket (heap_ops (\<lambda>p. [7])) (\<lambda>p. [7]) 20 (P_bandwith_overflow_ps 0) Throttle pt1 h1 = Inr (pt2, h2) \<and>
    ForceFlushPacket (heap_ops (\<lambda>p. [7])) pt2 h2 = Inr (pt3, h3) \<and> heap_sent h3 10 = [] \<and>
    heap_sent h3 20 = frame (\<lambda>p. [7]) (P_session_close_rq 0, None') @ frame (\<lambda>p. [7]) (P_bandwith_overflow_ps 0, None')"
proof -
  let ?h = "[10 \<mapsto> sample_net 3 100, 20 \<mapsto> sample_net 3 100] :: session_heap"
  have "heap_sent ?h 10 = []" "heap_sent ?h 20 = []" by (simp_all add: heap_sent_def sample_net_def written_def)
  then show ?thesis
    using colliding_identifiers_misdeliver [where h = ?h and client = 10 and server = 20 and n = 1 and pack = "\<lambda>p. [7]"
      and sc = "case sample_net 3 100 of NetSession s \<Rightarrow> s" and sr = "case sample_net 3 100 of NetSession s \<Rightarrow> s"
      and tc = "\<lparr>st_connected = True, st_write_free = 3, st_write_capacity = 100, st_read_free = 0, st_ops = []\<rparr>"
      and tr = "\<lparr>st_connected = True, st_write_free = 3, st_write_capacity = 100, st_read_free = 0, st_ops = []\<rparr>"
      and pt = "new_PacketThrottler 0 10" and pc = "P_session_close_rq 0" and pr = "P_bandwith_overflow_ps 0"]
    by (simp add: sample_net_def new_PacketThrottler_def)
qed

end
