(* ===== verification/World.thy ===== *)
theory World
  imports Packets Timing
begin

text \<open>
  The simulated world of a play server: \<^verbatim>\<open>game/World.h\<close> and \<^verbatim>\<open>World.cpp\<close>.

  \<open>w_outbox\<close> is the sequence of calls the world makes on its \<^verbatim>\<open>SectorPostingManager\<close> and on the
  session of a request; the posting manager itself is modelled in its own theory. A sector is read
  through \<^verbatim>\<open>_sectors[sector_id]\<close>, which inserts a null pointer when there is none, so the map holds
  optional sector systems. \<open>tick\<close> is the reading of \<^verbatim>\<open>CurrentTick\<close> during a call, \<open>gb\<close> what
  uninitialised members of local packets hold. \<^verbatim>\<open>CreateTracingHistory\<close> and \<^verbatim>\<open>OnCollisionFixture\<close>
  are empty in the sources.
\<close>

section \<open>State\<close>

datatype post =
    SendTo u64 Packet
  | SendToSector Packet u64
  | SendToSectorWithout u64 Packet u64
  | SendToSectorOwner Packet u64
  | Reply Packet ErrorCode
  | CloseRequestSession

record garbage =
  gb_object_info :: PacketObjectInfo
  gb_u8 :: u8
  gb_bool :: bool

record PromotedObjectInfo =
  pi_object_id :: u64
  pi_promoted_sector_id :: u64
  pi_tracking_timer :: Countdown

record World =
  w_sectors :: "(u64, SectorSystem option) umap"
  w_promoted_object_list :: "(u64, PromotedObjectInfo) umap"
  w_removing_fixtures :: "u64 list"
  w_remove_count :: u32
  w_outbox :: "post list"

definition new_World :: World where
  "new_World = \<lparr>w_sectors = [], w_promoted_object_list = [], w_removing_fixtures = [], w_remove_count = 0,
     w_outbox = []\<rparr>"

definition post :: "post \<Rightarrow> World \<Rightarrow> World" where
  "post p w = w\<lparr>w_outbox := w_outbox w @ [p]\<rparr>"

text \<open>\<^verbatim>\<open>SectorSystem*& sector = _sectors[sector_id]\<close>, and a write through that reference.\<close>

definition sector_ref :: "u64 \<Rightarrow> World \<Rightarrow> SectorSystem option \<times> World" where
  "sector_ref sector_id w =
    (let (s, m) = um_at None sector_id (w_sectors w) in (s, w\<lparr>w_sectors := m\<rparr>))"

definition put_sector :: "u64 \<Rightarrow> SectorSystem \<Rightarrow> World \<Rightarrow> World" where
  "put_sector sector_id ss w = w\<lparr>w_sectors := um_set sector_id (Some ss) (w_sectors w)\<rparr>"

section \<open>Sectors\<close>

definition AddSector :: "u64 \<Rightarrow> u64 \<Rightarrow> World \<Rightarrow> World res" where
  "AddSector server_id sector_id w =
    (let (sector, w1) = sector_ref sector_id w in
     if sector \<noteq> None then Inl (Throw ''duplicate sector'')
     else rbind (GetSectorFixtureRectangle sector_id) (\<lambda>rect.
       Inr (put_sector sector_id (sector_system server_id sector_id rect) w1)))"

definition RemoveSector :: "u64 \<Rightarrow> World \<Rightarrow> World" where
  "RemoveSector sector_id w =
    (let (sector, w1) = sector_ref sector_id w in
     if sector = None then w1 else w1\<lparr>w_sectors := um_erase sector_id (w_sectors w1)\<rparr>)"

definition ClearSector :: "World \<Rightarrow> World" where
  "ClearSector w = w\<lparr>w_sectors := map (\<lambda>(k, s). (k, None)) (w_sectors w)\<rparr>"

section \<open>Requests of the agencies\<close>

definition SpawnCharacter :: "garbage \<Rightarrow> int \<Rightarrow> u64 \<Rightarrow> packet_spawn_character_rq \<Rightarrow> World \<Rightarrow> World res" where
  "SpawnCharacter gb tick request_server_id packet w =
    (let response = \<lparr>sps_user_id = sp_user_id packet, sps_nickname = [], sps_object_info = gb_object_info gb\<rparr>;
         sector_id = oi_sector_id (sp_object_info packet);
         (sector, w1) = sector_ref sector_id w in
     case sector of
       None \<Rightarrow> Inr (post (Reply (P_spawn_character_rs response) SectorNotFound) w1)
     | Some ss \<Rightarrow>
         rbind (CreateFixture (fx_position (oi_fixture (sp_object_info packet))) (fx_size (oi_fixture (sp_object_info packet))) ss)
           (\<lambda>(f, ss1).
            let fixture = f\<lparr>fx_last_transform_time := tick\<rparr>;
                object_info = (gb_object_info gb)\<lparr>oi_fixture := fixture, oi_object_id := fx_id fixture,
                                 oi_sector_id := fx_sector_id fixture\<rparr>;
                w2 = put_sector sector_id (write_fixture (fx_id f) fixture ss1) w1
            in Inr (post (SendToSectorWithout request_server_id (P_create_object_ps object_info) sector_id)
                     (post (SendTo request_server_id
                        (P_spawn_character_rs (response\<lparr>sps_object_info := object_info\<rparr>))) w2))))"

text \<open>The loop over the near sectors of an object in the gray zone.\<close>

fun remove_in_near :: "packet_remove_object_ps \<Rightarrow> packet_remove_character_rq \<Rightarrow> u64 list \<Rightarrow> World \<Rightarrow> World" where
  "remove_in_near broadcast packet [] w = w"
| "remove_in_near broadcast packet (sector_id # rest) w =
    (if sector_id = INVALID_SECTOR then remove_in_near broadcast packet rest w
     else
       let packet' = packet\<lparr>rc_sector_id := sector_id\<rparr>; broadcast' = broadcast\<lparr>ro_sector_id := sector_id\<rparr>
       in remove_in_near broadcast' packet' rest
            (post (SendToSectorOwner (P_remove_character_rq packet') sector_id)
              (post (SendToSector (P_remove_object_ps broadcast') sector_id) w)))"

definition RemoveCharacter :: "garbage \<Rightarrow> u64 \<Rightarrow> packet_remove_character_rq \<Rightarrow> World \<Rightarrow> World res" where
  "RemoveCharacter gb request_server_id packet w =
    (let response = \<lparr>rcs_user_id = rc_user_id packet, rcs_sector_id = rc_sector_id packet,
                     rcs_object_id = rc_object_id packet\<rparr>;
         sid = rc_sector_id packet;
         (sector, w1) = sector_ref sid w in
     case sector of
       None \<Rightarrow> Inr (post (Reply (P_remove_character_rs response) SectorNotFound) w1)
     | Some ss \<Rightarrow>
       (case GetFixture (rc_object_id packet) ss of
          Some fixture \<Rightarrow>
            if fx_is_observing_fixture fixture then
              if rc_to_owner packet then
                (case um_find (w_promoted_object_list w1) (rc_object_id packet) of
                   Some info \<Rightarrow>
                     let packet' = packet\<lparr>rc_sector_id := pi_promoted_sector_id info\<rparr>
                     in Inr (post (SendToSectorOwner (P_remove_character_rq packet') (rc_sector_id packet')) w1)
                 | None \<Rightarrow> Inl (Throw ''error''))
              else Inr (put_sector sid (RemoveFixture (fx_id fixture) ss) w1)
            else
              let w2 = w1\<lparr>w_remove_count := w_remove_count w1 + 1\<rparr>;
                  broadcast = \<lparr>ro_sector_id = sid, ro_object_id = rc_object_id packet, ro_reason = gb_u8 gb\<rparr>;
                  w3 = post (SendToSectorWithout request_server_id (P_remove_object_ps broadcast) sid)
                        (post (SendTo request_server_id (P_remove_character_rs response)) w2)
              in rbind (if fx_location fixture = LocGray then
                          rbind (GetNearSectors sid (fx_phase fixture)) (\<lambda>near_sectors.
                            Inr (remove_in_near broadcast (packet\<lparr>rc_to_owner := False\<rparr>) near_sectors w3))
                        else Inr w3)
                   (\<lambda>w4. Inr (put_sector sid (RemoveFixture (fx_id fixture) ss) w4))
        | None \<Rightarrow>
            if rc_to_owner packet then
              (case um_find (w_promoted_object_list w1) (rc_object_id packet) of
                 Some info \<Rightarrow>
                   let packet' = packet\<lparr>rc_sector_id := pi_promoted_sector_id info\<rparr>
                   in Inr (post (SendToSectorOwner (P_remove_character_rq packet') (rc_sector_id packet')) w1)
               | None \<Rightarrow> Inl (Throw ''error''))
            else Inr (post (Reply (P_remove_character_rs response) ObjectNotFound) w1)))"

fun move_in_near :: "packet_object_move_ps \<Rightarrow> packet_character_move_rq \<Rightarrow> u64 list \<Rightarrow> World \<Rightarrow> World" where
  "move_in_near broadcast packet [] w = w"
| "move_in_near broadcast packet (sector_id # rest) w =
    (if sector_id = INVALID_SECTOR then move_in_near broadcast packet rest w
     else
       let packet' = packet\<lparr>cm_sector_id := sector_id\<rparr>; broadcast' = broadcast\<lparr>om_sector_id := sector_id\<rparr>
       in move_in_near broadcast' packet' rest
            (post (SendToSectorOwner (P_character_move_rq packet') sector_id)
              (post (SendToSector (P_object_move_ps broadcast') sector_id) w)))"

definition MoveObject :: "u64 \<Rightarrow> packet_character_move_rq \<Rightarrow> World \<Rightarrow> World res" where
  "MoveObject request_server_id packet w =
    (let response = \<lparr>cms_sector_id = cm_sector_id packet, cms_object_id = cm_object_id packet,
                     cms_starting_position = cm_starting_position packet, cms_direction = cm_direction packet\<rparr>;
         sid = cm_sector_id packet;
         (sector, w1) = sector_ref sid w;
         forward = (case um_find (w_promoted_object_list w1) (cm_object_id packet) of
                      Some info \<Rightarrow>
                        let packet' = packet\<lparr>cm_sector_id := pi_promoted_sector_id info\<rparr>
                        in (\<lambda>v. Inr (post (SendToSectorOwner (P_character_move_rq packet') (cm_sector_id packet')) v))
                    | None \<Rightarrow> (\<lambda>v. Inl (Throw ''error''))) in
     case sector of
       None \<Rightarrow> Inr w1
     | Some ss \<Rightarrow>
       (case GetFixture (cm_object_id packet) ss of
          None \<Rightarrow> if cm_to_owner packet then forward w1 else Inl (Throw ''error'')
        | Some f0 \<Rightarrow>
            let fixture = f0\<lparr>fx_position := cm_starting_position packet, fx_direction := cm_direction packet\<rparr>;
                w2 = put_sector sid (write_fixture (cm_object_id packet) fixture ss) w1 in
            if fx_is_observing_fixture fixture then
              if cm_to_owner packet then forward w2 else Inr w2
            else
              let broadcast = \<lparr>om_sector_id = sid, om_object_id = cm_object_id packet,
                     om_starting_position = cm_starting_position packet, om_direction = cm_direction packet\<rparr>;
                  w3 = post (SendTo request_server_id (P_character_move_rs response))
                        (post (SendToSectorWithout request_server_id (P_object_move_ps broadcast) (cms_sector_id response)) w2)
              in if fx_location fixture = LocGray then
                   rbind (GetNearSectors sid (fx_phase fixture)) (\<lambda>near_sectors.
                     Inr (move_in_near broadcast (packet\<lparr>cm_to_owner := False\<rparr>) near_sectors w3))
                 else Inr w3))"

section \<open>Observing copies in neighbouring sectors\<close>

definition CreateObservingObject :: "packet_create_observing_object_rq \<Rightarrow> World \<Rightarrow> World res" where
  "CreateObservingObject packet w =
    (let info = co_object_info packet; (sector, w1) = sector_ref (oi_sector_id info) w in
     case sector of
       None \<Rightarrow> Inr w1
     | Some ss \<Rightarrow>
         if GetFixture (oi_object_id info) ss = None then
           rbind (CreateFixture_copy (oi_fixture info) ss) (\<lambda>ss1.
             let f1 = (oi_fixture info)\<lparr>fx_is_observing_fixture := True\<rparr>;
                 f2 = f1\<lparr>fx_phase := CalculateCurrentPhase ss1 f1\<rparr>
             in Inr (put_sector (oi_sector_id info) (write_fixture (fx_id (oi_fixture info)) f2 ss1) w1))
         else Inl (Throw ''error''))"

definition RemoveObservingObject :: "packet_remove_observing_object_rq \<Rightarrow> World \<Rightarrow> World res" where
  "RemoveObservingObject packet w =
    (let (sector, w1) = sector_ref (rob_sector_id packet) w in
     case sector of
       None \<Rightarrow> Inr w1
     | Some ss \<Rightarrow>
         (case GetFixture (rob_object_id packet) ss of
            None \<Rightarrow> Inl AssertFail
          | Some fixture \<Rightarrow>
              assert_that (fx_is_observing_fixture fixture)
                (Inr (put_sector (rob_sector_id packet) (RemoveFixture (rob_object_id packet) ss) w1))))"

definition GetAllObjects :: "u64 \<Rightarrow> World \<Rightarrow> ((u64, Fixture) umap \<times> World) res" where
  "GetAllObjects sector_id w =
    (let (sector, w1) = sector_ref sector_id w in
     case sector of None \<Rightarrow> Inl AssertFail | Some ss \<Rightarrow> Inr (ss_fixtures ss, w1))"

fun SendRemoveObservingObject :: "u64 list \<Rightarrow> u64 \<Rightarrow> World \<Rightarrow> World" where
  "SendRemoveObservingObject [] object_id w = w"
| "SendRemoveObservingObject (sector_id # rest) object_id w =
    (if sector_id = INVALID_SECTOR then SendRemoveObservingObject rest object_id w
     else SendRemoveObservingObject rest object_id
       (post (SendToSectorOwner (P_remove_observing_object_rq
                \<lparr>rob_sector_id = sector_id, rob_object_id = object_id, rob_reason = 0\<rparr>) sector_id)
         (post (SendToSector (P_remove_object_ps
                \<lparr>ro_sector_id = sector_id, ro_object_id = object_id, ro_reason = 0\<rparr>) sector_id) w)))"

fun SendCreateObservingObject :: "u64 list \<Rightarrow> u64 \<Rightarrow> PacketObjectInfo \<Rightarrow> World \<Rightarrow> World" where
  "SendCreateObservingObject [] origin_sector_id object_info w = w"
| "SendCreateObservingObject (sector_id # rest) origin_sector_id object_info w =
    (if sector_id = INVALID_SECTOR then SendCreateObservingObject rest origin_sector_id object_info w
     else SendCreateObservingObject rest origin_sector_id object_info
       (post (SendToSectorOwner (P_create_observing_object_rq
                \<lparr>co_origin_sector_id = origin_sector_id,
                 co_object_info = object_info\<lparr>oi_sector_id := sector_id,
                   oi_fixture := (oi_fixture object_info)\<lparr>fx_sector_id := sector_id\<rparr>\<rparr>\<rparr>) sector_id)
         (post (SendToSector (P_create_object_ps (object_info\<lparr>oi_sector_id := sector_id\<rparr>)) sector_id) w)))"

text \<open>The loops of \<^verbatim>\<open>ExchangeObservingObject\<close> that cancel a sector out of both arrays. Both stop at the first
  invalid entry, also at one that an earlier round left behind.\<close>

fun cancel_new :: "u64 \<Rightarrow> u64 list \<Rightarrow> bool \<times> u64 list" where
  "cancel_new prev [] = (False, [])"
| "cancel_new prev (n # ns) =
    (if n = INVALID_SECTOR then (False, n # ns)
     else if prev = n then (True, INVALID_SECTOR # ns)
     else let (hit, ns') = cancel_new prev ns in (hit, n # ns'))"

fun cancel_common :: "u64 list \<Rightarrow> u64 list \<Rightarrow> u64 list \<times> u64 list" where
  "cancel_common [] ns = ([], ns)"
| "cancel_common (p # ps) ns =
    (if p = INVALID_SECTOR then (p # ps, ns)
     else
       let (hit, ns1) = cancel_new p ns; (ps', ns2) = cancel_common ps ns1
       in ((if hit then INVALID_SECTOR else p) # ps', ns2))"

definition invalidate :: "u64 \<Rightarrow> u64 list \<Rightarrow> u64 list" where
  "invalidate s = map (\<lambda>x. if x = s then INVALID_SECTOR else x)"

definition ExchangeObservingObject ::
  "PacketObjectInfo \<Rightarrow> Direction \<Rightarrow> u64 \<Rightarrow> FixtureLocation \<Rightarrow> Direction \<Rightarrow> u64 \<Rightarrow> World \<Rightarrow> World res" where
  "ExchangeObservingObject object_info phase sector_id new_location new_phase dest_sector_id w =
    (if sector_id = dest_sector_id \<and> phase = new_phase \<and> new_location = LocLeave then Inr w
     else
       rbind (GetNearSectors sector_id phase) (\<lambda>prev3.
       rbind (GetNearSectors dest_sector_id new_phase) (\<lambda>new3.
       let (prev1, new1) = (if phase \<noteq> DirMax \<and> new_phase \<noteq> DirMax
                            then cancel_common (prev3 @ [sector_id]) new3 else (prev3 @ [sector_id], new3));
           prev2 = invalidate dest_sector_id prev1;
           new2 = invalidate sector_id new1;
           w1 = (if phase \<noteq> DirMax then SendRemoveObservingObject prev2 (oi_object_id object_info) w else w)
       in Inr (if new_phase \<noteq> DirMax then SendCreateObservingObject new2 sector_id object_info w1 else w1))))"

definition PromoteObservingObject :: "int \<Rightarrow> packet_promote_object_rq \<Rightarrow> World \<Rightarrow> World res" where
  "PromoteObservingObject tick packet w =
    (let info = po_object_info packet; sid = oi_sector_id info; (sector, w1) = sector_ref sid w in
     case sector of
       None \<Rightarrow> Inr w1
     | Some ss \<Rightarrow>
       (case GetFixture (oi_object_id info) ss of
          None \<Rightarrow> Inl (Throw ''error'')
        | Some _ \<Rightarrow>
            let f1 = (oi_fixture info)\<lparr>fx_is_observing_fixture := False, fx_last_transform_time := tick mod 2 ^ 32\<rparr>;
                dest_location = CalculateCurrentLocation ss f1;
                origin_phase = fx_phase f1;
                dest_phase = (if dest_location = LocIn then DirMax else CalculateCurrentPhase ss f1);
                f2 = f1\<lparr>fx_phase := dest_phase, fx_location := dest_location\<rparr>;
                w2 = put_sector sid (write_fixture (oi_object_id info) f2 ss) w1;
                w3 = post (SendToSector (P_promote_object_rq packet) (po_origin_sector_id packet)) w2
            in if dest_location = LocLeave then Inl (Throw ''error'')
               else rbind (IsNearPhase (po_origin_sector_id packet) origin_phase (fx_sector_id f2) dest_phase) (\<lambda>is_near.
                 if \<not> is_near then
                   ExchangeObservingObject info origin_phase (po_origin_sector_id packet) dest_location dest_phase
                     (fx_sector_id f2) w3
                 else Inr w3)))"

section \<open>Callbacks of the sector systems\<close>

definition World_OnChangeFixturePhase ::
  "garbage \<Rightarrow> u64 \<Rightarrow> Fixture \<Rightarrow> Direction \<Rightarrow> World \<Rightarrow> (Fixture \<times> World) res" where
  "World_OnChangeFixturePhase gb sector_id fixture phase w =
    assert_that (fx_location fixture = LocGray)
      (let object_info = (gb_object_info gb)\<lparr>oi_object_id := fx_id fixture, oi_sector_id := sector_id,
                             oi_fixture := fixture\<rparr>
       in rbind (ExchangeObservingObject object_info (fx_phase fixture) (fx_sector_id fixture)
                   (fx_location fixture) phase sector_id w) (\<lambda>w'. Inr (fixture, w')))"

definition World_OnChangeFixtureLocation ::
  "garbage \<Rightarrow> int \<Rightarrow> u64 \<Rightarrow> Fixture \<Rightarrow> FixtureLocation \<Rightarrow> Direction \<Rightarrow> World \<Rightarrow> (Fixture \<times> World) res" where
  "World_OnChangeFixtureLocation gb tick sector_id fixture0 location phase w =
    (if um_find (w_sectors w) sector_id = None then Inr (fixture0, w)
     else
       let fixture = fixture0\<lparr>fx_last_transform_time := tick\<rparr>;
           object_info = (gb_object_info gb)\<lparr>oi_object_id := fx_id fixture, oi_sector_id := sector_id,
                            oi_fixture := fixture\<rparr> in
       rbind (ExchangeObservingObject object_info (fx_phase fixture) sector_id location phase sector_id w) (\<lambda>w1.
       if location \<noteq> LocLeave then Inr (fixture, w1)
       else
         rbind (GetNearSectors sector_id phase) (\<lambda>near_sectors.
         let dest_sector_id = GetSectorByPosition (fx_position fixture);
             w2 = (if dest_sector_id \<in> set near_sectors then w1
                   else SendCreateObservingObject [dest_sector_id, INVALID_SECTOR, INVALID_SECTOR] sector_id object_info w1);
             sent = object_info\<lparr>oi_fixture := (oi_fixture object_info)\<lparr>fx_location := location, fx_phase := phase\<rparr>\<rparr>;
             fixture' = fixture\<lparr>fx_is_observing_fixture := True\<rparr>
         in assert_that (dest_sector_id \<noteq> INVALID_SECTOR)
              (let packet = \<lparr>po_origin_sector_id = sector_id,
                     po_object_info = sent\<lparr>oi_sector_id := dest_sector_id,
                       oi_fixture := (oi_fixture sent)\<lparr>fx_sector_id := dest_sector_id\<rparr>\<rparr>\<rparr>;
                   promoted = \<lparr>pi_object_id = fx_id fixture, pi_promoted_sector_id = dest_sector_id,
                     pi_tracking_timer = \<lparr>cd_delay = TransformCooltime * 4, cd_start_time = tick\<rparr>\<rparr>;
                   w3 = w2\<lparr>w_promoted_object_list := um_set (fx_id fixture) promoted (w_promoted_object_list w2)\<rparr>
               in Inr (fixture', post (SendToSectorOwner (P_promote_object_rq packet) dest_sector_id) w3)))))"

definition world_callback :: "garbage \<Rightarrow> int \<Rightarrow> World callback" where
  "world_callback gb tick = \<lparr>OnChangeFixturePhase = World_OnChangeFixturePhase gb,
     OnChangeFixtureLocation = World_OnChangeFixtureLocation gb tick\<rparr>"

section \<open>Update\<close>

text \<open>The sectors are visited in the order of the map; the callbacks of one sector's update see the world with
  that sector as it was, and only look whether the sector exists.\<close>

fun update_sectors :: "garbage \<Rightarrow> int \<Rightarrow> int \<Rightarrow> int \<Rightarrow> u64 list \<Rightarrow> World \<Rightarrow> World res" where
  "update_sectors gb tick now dt [] w = Inr w"
| "update_sectors gb tick now dt (k # ks) w =
    (case um_find (w_sectors w) k of
       Some (Some ss) \<Rightarrow>
         rbind (SectorSystem_Update (world_callback gb tick) now dt ss w) (\<lambda>(ss1, w1).
           let ss2 = fold RemoveFixture (w_removing_fixtures w1) ss1
           in update_sectors gb tick now dt ks ((put_sector k ss2 w1)\<lparr>w_removing_fixtures := []\<rparr>))
     | _ \<Rightarrow> Inl AssertFail)"

definition World_Update :: "garbage \<Rightarrow> int \<Rightarrow> int \<Rightarrow> int \<Rightarrow> World \<Rightarrow> World res" where
  "World_Update gb tick current_time delta_time w =
    (let w1 = w\<lparr>w_promoted_object_list :=
               filter (\<lambda>(k, p). \<not> countdown_over tick (pi_tracking_timer p)) (w_promoted_object_list w)\<rparr>
     in update_sectors gb tick current_time delta_time (um_keys (w_sectors w1)) w1)"

section \<open>Frame properties\<close>

lemma post_frame [simp]:
  "w_sectors (post p w) = w_sectors w" "w_promoted_object_list (post p w) = w_promoted_object_list w"
  "w_removing_fixtures (post p w) = w_removing_fixtures w" "w_outbox (post p w) = w_outbox w @ [p]"
  by (simp_all add: post_def)

lemma SendRemove_frame [simp]:
  "w_sectors (SendRemoveObservingObject ss k w) = w_sectors w"
  "w_promoted_object_list (SendRemoveObservingObject ss k w) = w_promoted_object_list w"
  "w_removing_fixtures (SendRemoveObservingObject ss k w) = w_removing_fixtures w"
  by (induction ss k w rule: SendRemoveObservingObject.induct) auto

lemma SendCreate_frame [simp]:
  "w_sectors (SendCreateObservingObject ss k i w) = w_sectors w"
  "w_promoted_object_list (SendCreateObservingObject ss k i w) = w_promoted_object_list w"
  "w_removing_fixtures (SendCreateObservingObject ss k i w) = w_removing_fixtures w"
  by (induction ss k i w rule: SendCreateObservingObject.induct) auto

lemma near_frame [simp]:
  "w_sectors (remove_in_near b p ss w) = w_sectors w"
  "w_sectors (move_in_near c q ss w) = w_sectors w"
  "w_removing_fixtures (remove_in_near b p ss w) = w_removing_fixtures w"
  "w_removing_fixtures (move_in_near c q ss w) = w_removing_fixtures w"
  by (induction ss arbitrary: b p c q w) (auto simp: Let_def)

lemma Exchange_frame:
  assumes "ExchangeObservingObject info ph s l np d w = Inr w'"
  shows "w_sectors w' = w_sectors w \<and> w_promoted_object_list w' = w_promoted_object_list w \<and>
    w_removing_fixtures w' = w_removing_fixtures w"
  using assms by (auto simp: ExchangeObservingObject_def res_iff Let_def split: if_splits prod.splits)

lemma put_sector_frame [simp]:
  "w_outbox (put_sector k ss w) = w_outbox w" "w_removing_fixtures (put_sector k ss w) = w_removing_fixtures w"
  "w_promoted_object_list (put_sector k ss w) = w_promoted_object_list w"
  "um_find (w_sectors (put_sector k ss w)) k' = (if k' = k then Some (Some ss) else um_find (w_sectors w) k')"
  "um_keys (w_sectors w) = um_keys m \<Longrightarrow> um_find m k \<noteq> None \<Longrightarrow> um_keys (w_sectors (put_sector k ss w)) = um_keys m"
  by (simp_all add: put_sector_def update_keys map_of_eq_None_iff)

lemma OnChangeFixtureLocation_result:
  assumes "World_OnChangeFixtureLocation gb tick s f l p w = Inr (f', w')" "um_find (w_sectors w) s \<noteq> None"
  shows "w_sectors w' = w_sectors w \<and> w_removing_fixtures w' = w_removing_fixtures w \<and>
    f' = f\<lparr>fx_last_transform_time := tick, fx_is_observing_fixture := fx_is_observing_fixture f \<or> l = LocLeave\<rparr>"
proof (cases "l = LocLeave")
  case True
  from assms show ?thesis
    by (clarsimp simp: World_OnChangeFixtureLocation_def res_iff Let_def True dest!: Exchange_frame
        simp del: SendCreateObservingObject.simps split: if_splits) auto
next
  case False
  with assms show ?thesis
    by (clarsimp simp: World_OnChangeFixtureLocation_def res_iff Let_def dest!: Exchange_frame)
qed

text \<open>The world is a callback a sector system can rely on: it changes nothing of a fixture but its time
  stamp, and gives it up exactly when it leaves.\<close>

interpretation wcb: sector_callback "world_callback gb tick" "\<lambda>s w. um_find (w_sectors w) s \<noteq> None" for gb tick
proof
  fix gb tick s f p w f' w'
  assume "OnChangeFixturePhase (world_callback gb tick) s f p w = Inr (f', w')" "um_find (w_sectors w) s \<noteq> None"
  then show "f' = f \<and> um_find (w_sectors w') s \<noteq> None"
    by (auto simp: world_callback_def World_OnChangeFixturePhase_def res_iff Let_def dest: Exchange_frame)
next
  fix gb tick s f l p w f' w'
  assume "OnChangeFixtureLocation (world_callback gb tick) s f l p w = Inr (f', w')" "um_find (w_sectors w) s \<noteq> None"
  then show "um_find (w_sectors w') s \<noteq> None \<and> (\<exists>t. f' = f\<lparr>fx_last_transform_time := t,
      fx_is_observing_fixture := fx_is_observing_fixture f \<or> l = LocLeave\<rparr>)"
    using OnChangeFixtureLocation_result [of gb tick s f l p w f' w'] by (auto simp: world_callback_def)
qed

section \<open>Invariant\<close>

text \<open>Every sector of the world is a real one, keyed by its number, and satisfies the invariant of its own
  theory. No null pointer is left in the map.\<close>

definition world_inv :: "World \<Rightarrow> bool" where
  "world_inv w \<longleftrightarrow> um_ok (w_sectors w) \<and> w_removing_fixtures w = [] \<and>
     (\<forall>k s. um_find (w_sectors w) k = Some s \<longrightarrow> (\<exists>ss. s = Some ss \<and> sector_inv k ss))"

lemma callback_frame:
  "OnChangeFixturePhase (world_callback gb tick) s f p w = Inr (f', w') \<Longrightarrow>
     w_sectors w' = w_sectors w \<and> w_removing_fixtures w' = w_removing_fixtures w"
  "OnChangeFixtureLocation (world_callback gb tick) s f l p w = Inr (f', w') \<Longrightarrow>
     w_sectors w' = w_sectors w \<and> w_removing_fixtures w' = w_removing_fixtures w"
proof -
  assume "OnChangeFixturePhase (world_callback gb tick) s f p w = Inr (f', w')"
  then show "w_sectors w' = w_sectors w \<and> w_removing_fixtures w' = w_removing_fixtures w"
    by (auto simp: world_callback_def World_OnChangeFixturePhase_def res_iff Let_def dest: Exchange_frame)
next
  assume a: "OnChangeFixtureLocation (world_callback gb tick) s f l p w = Inr (f', w')"
  show "w_sectors w' = w_sectors w \<and> w_removing_fixtures w' = w_removing_fixtures w"
  proof (cases "um_find (w_sectors w) s")
    case None
    then show ?thesis using a by (simp add: world_callback_def World_OnChangeFixtureLocation_def)
  next
    case (Some x)
    then show ?thesis using a OnChangeFixtureLocation_result [of gb tick s f l p w f' w'] by (simp add: world_callback_def)
  qed
qed

lemma update_fixture_frame:
  assumes "update_fixture (world_callback gb tick) ss now dt f w = Inr (f', w')"
  shows "w_sectors w' = w_sectors w \<and> w_removing_fixtures w' = w_removing_fixtures w"
  using assms unfolding update_fixture_def Let_def
  by (auto simp: res_iff split: if_splits FixtureLocation.splits dest: callback_frame)

lemma update_fixtures_frame:
  "update_fixtures (world_callback gb tick) ss now dt fs w = Inr (fs', w') \<Longrightarrow>
     w_sectors w' = w_sectors w \<and> w_removing_fixtures w' = w_removing_fixtures w"
proof (induction fs arbitrary: w fs')
  case (Cons x fs)
  then show ?case by (cases x) (auto simp: res_iff dest!: update_fixture_frame)
qed simp

lemma SectorSystem_Update_frame:
  "SectorSystem_Update (world_callback gb tick) now dt ss w = Inr (ss', w') \<Longrightarrow>
     w_sectors w' = w_sectors w \<and> w_removing_fixtures w' = w_removing_fixtures w"
  by (auto simp: SectorSystem_Update_def res_iff dest: update_fixtures_frame)

lemma update_sectors_inv:
  assumes "0 \<le> dt" "dt \<le> 60000"
  shows "world_inv w \<Longrightarrow> set ks \<subseteq> fst ` set (w_sectors w) \<Longrightarrow> update_sectors gb tick now dt ks w = Inr w' \<Longrightarrow>
    world_inv w' \<and> um_keys (w_sectors w') = um_keys (w_sectors w)"
proof (induction ks arbitrary: w)
  case (Cons k ks)
  have "um_find (w_sectors w) k \<noteq> None" using Cons.prems(2) by (simp add: um_find_None_iff)
  then obtain ss where ss: "um_find (w_sectors w) k = Some (Some ss)" "sector_inv k ss"
    using Cons.prems(1) unfolding world_inv_def by blast
  from Cons.prems(3) ss(1) obtain ss1 w1 where u:
      "SectorSystem_Update (world_callback gb tick) now dt ss w = Inr (ss1, w1)"
      "update_sectors gb tick now dt ks ((put_sector k (fold RemoveFixture (w_removing_fixtures w1) ss1) w1)\<lparr>w_removing_fixtures := []\<rparr>) = Inr w'"
    by (auto simp: res_iff Let_def)
  note fr = SectorSystem_Update_frame [OF u(1)]
  have inv1: "sector_inv k ss1"
    using wcb.SectorSystem_Update_inv [OF ss(2) _ assms u(1)] ss(1) by simp
  have rm: "w_removing_fixtures w1 = []" using fr Cons.prems(1) by (simp add: world_inv_def)
  let ?w2 = "(put_sector k ss1 w1)\<lparr>w_removing_fixtures := []\<rparr>"
  have keys: "um_keys (w_sectors ?w2) = um_keys (w_sectors w)"
    using put_sector_frame(5) [of w1 "w_sectors w" k ss1] fr ss(1) by simp
  have "world_inv ?w2"
    using Cons.prems(1) inv1 fr keys by (auto simp: world_inv_def put_sector_def)
  moreover have "set ks \<subseteq> fst ` set (w_sectors ?w2)"
    using Cons.prems(2) keys by (metis list.set_map order_trans set_subset_Cons)
  ultimately show ?case using Cons.IH [of ?w2] u(2) rm keys by simp
qed simp

lemma sector_ref_hit: "um_find (w_sectors w) k = Some s \<Longrightarrow> sector_ref k w = (s, w)"
  by (simp add: sector_ref_def um_at_def)

lemma sector_ref_miss: "um_find (w_sectors w) k = None \<Longrightarrow> sector_ref k w = (None, w\<lparr>w_sectors := um_set k None (w_sectors w)\<rparr>)"
  by (simp add: sector_ref_def um_at_def)

lemma sector_inv_write:
  assumes "sector_inv s ss" "fx_id f = k" "settled f" "tracked f"
  shows "sector_inv s (write_fixture k f ss)"
  using assms by (auto simp: sector_inv_def write_fixture_def shaped_def dest!: um_set_subset)

lemma sector_inv_remove: "sector_inv s ss \<Longrightarrow> sector_inv s (RemoveFixture k ss)"
  by (auto simp: sector_inv_def RemoveFixture_def shaped_def AList.delete_eq split: option.splits)

lemma sector_inv_find: "sector_inv s ss \<Longrightarrow> um_find (ss_fixtures ss) k = Some f \<Longrightarrow> fx_id f = k \<and> settled f \<and> tracked f"
  by (auto simp: sector_inv_def dest!: map_of_SomeD)

lemma sector_inv_create_copy:
  assumes "sector_inv s ss" "CreateFixture_copy f ss = Inr ss1" "settled g" "tracked g" "fx_id g = fx_id f"
  shows "sector_inv s (write_fixture (fx_id f) g ss1)"
proof -
  have "ss1 = write_fixture (fx_id f) f ss"
    using assms(2) by (simp add: CreateFixture_copy_def write_fixture_def split: if_splits)
  then have "write_fixture (fx_id f) g ss1 = write_fixture (fx_id f) g ss"
    by (simp add: write_fixture_def)
  then show ?thesis using sector_inv_write [OF assms(1,5,3,4)] by simp
qed

lemma sector_inv_counter: "sector_inv s ss \<Longrightarrow> sector_inv s (ss\<lparr>ss_current_fixture_id := n\<rparr>)"
  by (simp add: sector_inv_def shaped_def)

lemma CreateFixture_result:
  assumes "CreateFixture p z ss = Inr (f, ss1)"
  shows "f = new_Fixture\<lparr>fx_direction := DirMax, fx_position := p, fx_size := z, fx_id := ss_current_fixture_id ss,
      fx_sector_id := ss_sector_id ss\<rparr>"
    and "write_fixture (fx_id f) g ss1 =
      write_fixture (fx_id f) g (ss\<lparr>ss_current_fixture_id := ss_current_fixture_id ss + 1\<rparr>)"
  using assms by (auto simp: CreateFixture_def CreateFixture_id_def write_fixture_def Let_def split: if_splits)

text \<open>A size the game uses for its characters, and positions a client may send.\<close>

definition spawnable :: "Fixture \<Rightarrow> bool" where
  "spawnable f \<longleftrightarrow> tracked (new_Fixture\<lparr>fx_position := fx_position f, fx_size := fx_size f\<rparr>)"

definition near_world :: "Vector2 \<Rightarrow> bool" where
  "near_world p \<longleftrightarrow> \<bar>vec_x p\<bar> \<le> 32768 \<and> \<bar>vec_y p\<bar> \<le> 32768"

lemma sector_inv_spawn:
  assumes "sector_inv s ss" "CreateFixture p z ss = Inr (f, ss1)" "tracked (new_Fixture\<lparr>fx_position := p, fx_size := z\<rparr>)"
  shows "sector_inv s (write_fixture (fx_id f) (f\<lparr>fx_last_transform_time := t\<rparr>) ss1)"
  using sector_inv_write [OF sector_inv_counter [OF assms(1)], of "f\<lparr>fx_last_transform_time := t\<rparr>" "fx_id f"
      "ss_current_fixture_id ss + 1"] assms(3)
  unfolding CreateFixture_result(2) [OF assms(2)]
  by (simp add: CreateFixture_result(1) [OF assms(2)] settled_def tracked_def sized_def new_Fixture_def)

lemma world_inv_put:
  assumes "world_inv w" "sector_inv k ss"
  shows "world_inv (put_sector k ss w)"
  using assms by (simp add: world_inv_def put_sector_def)

lemma world_inv_frame:
  "world_inv w \<Longrightarrow> w_sectors w' = w_sectors w \<Longrightarrow> w_removing_fixtures w' = w_removing_fixtures w \<Longrightarrow> world_inv w'"
  by (simp add: world_inv_def)

lemma world_inv_post [simp]: "world_inv (post p w) = world_inv w"
  by (simp add: world_inv_def)

lemma world_inv_near [simp]:
  "world_inv (remove_in_near b p ss w) = world_inv w" "world_inv (move_in_near c q ss w) = world_inv w"
  by (simp_all add: world_inv_def)

lemma world_inv_count [simp]: "world_inv (w\<lparr>w_remove_count := n\<rparr>) = world_inv w"
  by (simp add: world_inv_def)

text \<open>What reaches a play server: sector management, the requests of agencies and of other play servers about
  sectors it holds, and the update of its worker.\<close>

inductive world_step :: "World \<Rightarrow> World \<Rightarrow> bool" where
  add: "unat s < 25 \<Longrightarrow> AddSector srv s w = Inr w' \<Longrightarrow> world_step w w'"
| spawn: "um_find (w_sectors w) (oi_sector_id (sp_object_info p)) \<noteq> None \<Longrightarrow> spawnable (oi_fixture (sp_object_info p)) \<Longrightarrow>
    SpawnCharacter gb t r p w = Inr w' \<Longrightarrow> world_step w w'"
| remove: "um_find (w_sectors w) (rc_sector_id q) \<noteq> None \<Longrightarrow> RemoveCharacter gb r q w = Inr w' \<Longrightarrow> world_step w w'"
| move: "um_find (w_sectors w) (cm_sector_id m) \<noteq> None \<Longrightarrow> near_world (cm_starting_position m) \<Longrightarrow>
    MoveObject r m w = Inr w' \<Longrightarrow> world_step w w'"
| create_observing: "um_find (w_sectors w) (oi_sector_id (co_object_info c)) \<noteq> None \<Longrightarrow>
    tracked (oi_fixture (co_object_info c)) \<Longrightarrow> CreateObservingObject c w = Inr w' \<Longrightarrow> world_step w w'"
| remove_observing: "um_find (w_sectors w) (rob_sector_id o1) \<noteq> None \<Longrightarrow>
    RemoveObservingObject o1 w = Inr w' \<Longrightarrow> world_step w w'"
| promote: "um_find (w_sectors w) (oi_sector_id (po_object_info pr)) \<noteq> None \<Longrightarrow>
    tracked (oi_fixture (po_object_info pr)) \<Longrightarrow> fx_id (oi_fixture (po_object_info pr)) = oi_object_id (po_object_info pr) \<Longrightarrow>
    PromoteObservingObject t pr w = Inr w' \<Longrightarrow> world_step w w'"
| update: "0 \<le> dt \<Longrightarrow> dt \<le> 60000 \<Longrightarrow> World_Update gb t now dt w = Inr w' \<Longrightarrow> world_step w w'"

lemma world_sector:
  assumes "world_inv w" "um_find (w_sectors w) k \<noteq> None"
  obtains ss where "um_find (w_sectors w) k = Some (Some ss)" "sector_inv k ss" "sector_ref k w = (Some ss, w)"
  using assms sector_ref_hit [of w k] unfolding world_inv_def by blast

lemma AddSector_inv:
  assumes "world_inv w" "unat s < 25" "AddSector srv s w = Inr w'"
  shows "world_inv w'"
proof -
  have n: "um_find (w_sectors w) s = None"
  proof (rule ccontr)
    assume "um_find (w_sectors w) s \<noteq> None"
    then obtain ss where "sector_ref s w = (Some ss, w)" using world_sector [OF assms(1)] by metis
    then show False using assms(3) by (simp add: AddSector_def)
  qed
  have "shaped s (sector_system srv s (grid_rect (srow s) (scol s)))" by (rule sector_system_shaped [OF assms(2)])
  then have i: "sector_inv s (sector_system srv s (grid_rect (srow s) (scol s)))"
    by (simp add: sector_inv_def sector_system_def new_SectorSystem_def)
  have "w' = put_sector s (sector_system srv s (grid_rect (srow s) (scol s))) (w\<lparr>w_sectors := um_set s None (w_sectors w)\<rparr>)"
    using assms(3) n GetSectorFixtureRectangle_eq [OF assms(2)] by (simp add: AddSector_def sector_ref_miss Let_def)
  then show ?thesis using assms(1) i by (simp add: world_inv_def put_sector_def)
qed

lemma SpawnCharacter_inv:
  assumes "world_inv w" "um_find (w_sectors w) (oi_sector_id (sp_object_info p)) \<noteq> None"
    and "spawnable (oi_fixture (sp_object_info p))" "SpawnCharacter gb t r p w = Inr w'"
  shows "world_inv w'"
proof -
  obtain ss where ss: "sector_inv (oi_sector_id (sp_object_info p)) ss" "sector_ref (oi_sector_id (sp_object_info p)) w = (Some ss, w)"
    using world_sector [OF assms(1,2)] by metis
  from assms(4) ss(2) obtain f ss1 where c: "CreateFixture (fx_position (oi_fixture (sp_object_info p)))
        (fx_size (oi_fixture (sp_object_info p))) ss = Inr (f, ss1)"
    and s: "w_sectors w' = w_sectors (put_sector (oi_sector_id (sp_object_info p))
        (write_fixture (fx_id f) (f\<lparr>fx_last_transform_time := t\<rparr>) ss1) w)"
      "w_removing_fixtures w' = w_removing_fixtures w"
    by (auto simp: SpawnCharacter_def res_iff Let_def)
  from sector_inv_spawn [OF ss(1) c] assms(3)
  show ?thesis using world_inv_frame [OF world_inv_put [OF assms(1)] s(1)] s(2) by (simp add: spawnable_def)
qed

lemma RemoveCharacter_inv:
  assumes "world_inv w" "um_find (w_sectors w) (rc_sector_id q) \<noteq> None" "RemoveCharacter gb r q w = Inr w'"
  shows "world_inv w'"
proof -
  obtain ss where ss: "sector_inv (rc_sector_id q) ss" "sector_ref (rc_sector_id q) w = (Some ss, w)"
    using world_sector [OF assms(1,2)] by metis
  note put = world_inv_put [OF _ sector_inv_remove [OF ss(1)]]
  from assms(3) show ?thesis
    unfolding RemoveCharacter_def Let_def ss(2) split_conv option.case
    using assms(1) by (auto simp: res_iff put split: option.splits if_splits)
qed

lemma MoveObject_inv:
  assumes "world_inv w" "um_find (w_sectors w) (cm_sector_id m) \<noteq> None" "near_world (cm_starting_position m)"
    and "MoveObject r m w = Inr w'"
  shows "world_inv w'"
proof -
  obtain ss where ss: "sector_inv (cm_sector_id m) ss" "sector_ref (cm_sector_id m) w = (Some ss, w)"
    using world_sector [OF assms(1,2)] by metis
  have put: "world_inv (put_sector (cm_sector_id m) (write_fixture (cm_object_id m)
      (f\<lparr>fx_position := cm_starting_position m, fx_direction := cm_direction m\<rparr>) ss) w)"
    if "GetFixture (cm_object_id m) ss = Some f" for f
  proof -
    have f: "fx_id f = cm_object_id m" "settled f" "tracked f"
      using that sector_inv_find [OF ss(1)] by (auto simp: GetFixture_def)
    then have "settled (f\<lparr>fx_position := cm_starting_position m, fx_direction := cm_direction m\<rparr>)"
      "tracked (f\<lparr>fx_position := cm_starting_position m, fx_direction := cm_direction m\<rparr>)"
      using assms(3) by (simp_all add: settled_def tracked_def sized_def near_world_def)
    then show ?thesis using f by (intro world_inv_put [OF assms(1)] sector_inv_write [OF ss(1)]) simp_all
  qed
  from assms(4) show ?thesis
    unfolding MoveObject_def Let_def ss(2) split_conv option.case
    using assms(1) put by (auto simp: res_iff split: option.splits if_splits)
qed

lemma observing_inv:
  assumes "world_inv w"
  shows "um_find (w_sectors w) (oi_sector_id (co_object_info c)) \<noteq> None \<Longrightarrow> tracked (oi_fixture (co_object_info c)) \<Longrightarrow>
      CreateObservingObject c w = Inr w' \<Longrightarrow> world_inv w'"
    and "um_find (w_sectors w) (rob_sector_id o1) \<noteq> None \<Longrightarrow> RemoveObservingObject o1 w = Inr w' \<Longrightarrow> world_inv w'"
proof -
  assume a: "um_find (w_sectors w) (oi_sector_id (co_object_info c)) \<noteq> None" "tracked (oi_fixture (co_object_info c))"
    "CreateObservingObject c w = Inr w'"
  obtain ss where ss: "sector_inv (oi_sector_id (co_object_info c)) ss" "sector_ref (oi_sector_id (co_object_info c)) w = (Some ss, w)"
    using world_sector [OF assms a(1)] by metis
  from a(3) ss(2) obtain ss1 where c: "CreateFixture_copy (oi_fixture (co_object_info c)) ss = Inr ss1"
    and w': "w' = put_sector (oi_sector_id (co_object_info c)) (write_fixture (fx_id (oi_fixture (co_object_info c)))
       ((oi_fixture (co_object_info c))\<lparr>fx_is_observing_fixture := True,
          fx_phase := CalculateCurrentPhase ss1 ((oi_fixture (co_object_info c))\<lparr>fx_is_observing_fixture := True\<rparr>)\<rparr>) ss1) w"
    by (auto simp: CreateObservingObject_def res_iff Let_def split: if_splits)
  show "world_inv w'" unfolding w'
    using a(2) by (intro world_inv_put [OF assms] sector_inv_create_copy [OF ss(1) c])
      (simp_all add: settled_def tracked_def sized_def)
next
  assume a: "um_find (w_sectors w) (rob_sector_id o1) \<noteq> None" "RemoveObservingObject o1 w = Inr w'"
  obtain ss where ss: "sector_inv (rob_sector_id o1) ss" "sector_ref (rob_sector_id o1) w = (Some ss, w)"
    using world_sector [OF assms a(1)] by metis
  from a(2) ss(2) show "world_inv w'"
    using world_inv_put [OF assms sector_inv_remove [OF ss(1)]]
    by (auto simp: RemoveObservingObject_def res_iff Let_def split: option.splits)
qed

lemma PromoteObservingObject_inv:
  assumes "world_inv w" "um_find (w_sectors w) (oi_sector_id (po_object_info pr)) \<noteq> None"
    and "tracked (oi_fixture (po_object_info pr))" "fx_id (oi_fixture (po_object_info pr)) = oi_object_id (po_object_info pr)"
    and "PromoteObservingObject t pr w = Inr w'"
  shows "world_inv w'"
proof -
  let ?s = "oi_sector_id (po_object_info pr)"
  obtain ss where ss: "sector_inv ?s ss" "sector_ref ?s w = (Some ss, w)"
    using world_sector [OF assms(1,2)] by metis
  define f where "f = (oi_fixture (po_object_info pr))\<lparr>fx_is_observing_fixture := False, fx_last_transform_time := t mod 2 ^ 32\<rparr>"
  define l where "l = CalculateCurrentLocation ss f"
  define ph where "ph = (if l = LocIn then DirMax else CalculateCurrentPhase ss f)"
  define g where "g = f\<lparr>fx_phase := ph, fx_location := l\<rparr>"
  have tr: "tracked f" using assms(3) by (simp add: f_def tracked_def sized_def)
  have sh: "shaped ?s ss" using ss(1) by (simp add: sector_inv_def)
  have p: "l \<noteq> LocIn \<Longrightarrow> ph \<noteq> DirMax"
    using gray_phase [OF sh tracked_solid [OF tr]] by (simp add: ph_def l_def)
  from assms(5) have l: "l \<noteq> LocLeave" and w': "w_sectors w' = w_sectors (put_sector ?s (write_fixture (oi_object_id (po_object_info pr)) g ss) w)"
      "w_removing_fixtures w' = w_removing_fixtures w"
    unfolding PromoteObservingObject_def Let_def ss(2) split_conv option.case f_def [symmetric] l_def [symmetric]
      ph_def [symmetric] g_def [symmetric]
    by (auto simp: res_iff split: option.splits if_splits dest!: Exchange_frame)
  have "l \<noteq> LocMax" by (simp add: l_def CalculateCurrentLocation_def)
  then have "settled g" using l p by (cases l) (auto simp: g_def settled_def ph_def)
  moreover have "tracked g" "fx_id g = oi_object_id (po_object_info pr)"
    using tr assms(4) by (simp_all add: g_def f_def tracked_def sized_def)
  ultimately show ?thesis
    using world_inv_frame [OF world_inv_put [OF assms(1) sector_inv_write [OF ss(1)]] w'(1)] w'(2) by simp
qed

lemma World_Update_inv:
  assumes "world_inv w" "0 \<le> dt" "dt \<le> 60000" "World_Update gb t now dt w = Inr w'"
  shows "world_inv w' \<and> um_keys (w_sectors w') = um_keys (w_sectors w)"
proof -
  let ?w1 = "w\<lparr>w_promoted_object_list := filter (\<lambda>(k, p). \<not> countdown_over t (pi_tracking_timer p)) (w_promoted_object_list w)\<rparr>"
  have "world_inv ?w1" using assms(1) by (simp add: world_inv_def)
  then show ?thesis
    using update_sectors_inv [OF assms(2,3), of ?w1 "um_keys (w_sectors w)" gb t now w'] assms(4)
    by (simp add: World_Update_def Let_def)
qed

lemma world_step_inv: "world_step w w' \<Longrightarrow> world_inv w \<Longrightarrow> world_inv w'"
  by (induction rule: world_step.induct)
    (blast intro: AddSector_inv SpawnCharacter_inv RemoveCharacter_inv MoveObject_inv observing_inv
      PromoteObservingObject_inv dest: World_Update_inv)+



section \<open>Who observes an object\<close>

text \<open>What a sequence of posts does to the set of sectors that hold an observing copy of object \<open>k\<close>: a remove
  request takes a sector out, a create request puts one in. \<open>None\<close> when a sector is asked to
  remove a copy it does not have (\<^verbatim>\<open>RemoveObservingObject\<close> asserts) or to create one it has already
  (\<^verbatim>\<open>CreateObservingObject\<close> throws).\<close>

fun observe :: "u64 \<Rightarrow> post list \<Rightarrow> u64 set \<Rightarrow> u64 set option" where
  "observe k [] S = Some S"
| "observe k (SendToSectorOwner (P_remove_observing_object_rq r) s # ps) S =
    (if rob_object_id r \<noteq> k then observe k ps S
     else if s \<in> S \<and> rob_sector_id r = s then observe k ps (S - {s}) else None)"
| "observe k (SendToSectorOwner (P_create_observing_object_rq c) s # ps) S =
    (if oi_object_id (co_object_info c) \<noteq> k then observe k ps S
     else if s \<notin> S \<and> oi_sector_id (co_object_info c) = s then observe k ps (insert s S) else None)"
| "observe k (_ # ps) S = observe k ps S"

definition valid_sectors :: "u64 list \<Rightarrow> u64 list" where
  "valid_sectors = filter (\<lambda>s. s \<noteq> INVALID_SECTOR)"

definition remove_posts :: "u64 list \<Rightarrow> u64 \<Rightarrow> post list" where
  "remove_posts ss k = concat (map (\<lambda>s.
     [SendToSector (P_remove_object_ps \<lparr>ro_sector_id = s, ro_object_id = k, ro_reason = 0\<rparr>) s,
      SendToSectorOwner (P_remove_observing_object_rq \<lparr>rob_sector_id = s, rob_object_id = k, rob_reason = 0\<rparr>) s])
     (valid_sectors ss))"

definition create_posts :: "u64 list \<Rightarrow> u64 \<Rightarrow> PacketObjectInfo \<Rightarrow> post list" where
  "create_posts ss origin info = concat (map (\<lambda>s.
     [SendToSector (P_create_object_ps (info\<lparr>oi_sector_id := s\<rparr>)) s,
      SendToSectorOwner (P_create_observing_object_rq \<lparr>co_origin_sector_id = origin,
        co_object_info = info\<lparr>oi_sector_id := s, oi_fixture := (oi_fixture info)\<lparr>fx_sector_id := s\<rparr>\<rparr>\<rparr>) s])
     (valid_sectors ss))"

lemma SendRemove_outbox: "w_outbox (SendRemoveObservingObject ss k w) = w_outbox w @ remove_posts ss k"
  by (induction ss k w rule: SendRemoveObservingObject.induct) (auto simp: remove_posts_def valid_sectors_def)

lemma SendCreate_outbox: "w_outbox (SendCreateObservingObject ss s i w) = w_outbox w @ create_posts ss s i"
  by (induction ss s i w rule: SendCreateObservingObject.induct) (auto simp: create_posts_def valid_sectors_def)

lemma observe_append: "observe k (ps @ qs) S = (case observe k ps S of None \<Rightarrow> None | Some S' \<Rightarrow> observe k qs S')"
  by (induction k ps S rule: observe.induct) auto

lemma observe_remove_list:
  "distinct ss \<Longrightarrow> set ss \<subseteq> S \<Longrightarrow> observe k (concat (map (\<lambda>s. [SendToSector (P_remove_object_ps (f s)) s,
      SendToSectorOwner (P_remove_observing_object_rq \<lparr>rob_sector_id = s, rob_object_id = k, rob_reason = 0\<rparr>) s]) ss)) S =
    Some (S - set ss)"
proof (induction ss arbitrary: S)
  case (Cons s ss)
  have "observe k (concat (map (\<lambda>s. [SendToSector (P_remove_object_ps (f s)) s,
      SendToSectorOwner (P_remove_observing_object_rq \<lparr>rob_sector_id = s, rob_object_id = k, rob_reason = 0\<rparr>) s]) ss)) (S - {s}) =
      Some (S - {s} - set ss)"
    using Cons.prems by (intro Cons.IH) auto
  then show ?case using Cons.prems by (simp add: insert_Diff_if Diff_insert2 [symmetric] Diff_insert [symmetric])
qed simp

lemma observe_remove:
  "distinct (valid_sectors ss) \<Longrightarrow> set (valid_sectors ss) \<subseteq> S \<Longrightarrow>
     observe k (remove_posts ss k) S = Some (S - set (valid_sectors ss))"
  unfolding remove_posts_def by (rule observe_remove_list)

lemma observe_create_list:
  "oi_object_id info = k \<Longrightarrow> distinct ss \<Longrightarrow> set ss \<inter> S = {} \<Longrightarrow>
    observe k (concat (map (\<lambda>s. [SendToSector (P_create_object_ps (f s)) s,
      SendToSectorOwner (P_create_observing_object_rq \<lparr>co_origin_sector_id = origin,
        co_object_info = info\<lparr>oi_sector_id := s, oi_fixture := (oi_fixture info)\<lparr>fx_sector_id := s\<rparr>\<rparr>\<rparr>) s]) ss)) S =
    Some (S \<union> set ss)"
  by (induction ss arbitrary: S) auto

lemma observe_create:
  "oi_object_id info = k \<Longrightarrow> distinct (valid_sectors ss) \<Longrightarrow> set (valid_sectors ss) \<inter> S = {} \<Longrightarrow>
     observe k (create_posts ss origin info) S = Some (S \<union> set (valid_sectors ss))"
  unfolding create_posts_def by (rule observe_create_list)

text \<open>The cancelling loops take the same sectors out of both arrays, if not all they could.\<close>

lemma cancel_new_spec:
  assumes "cancel_new p ns = (hit, ns')" "distinct (valid_sectors ns)" "p \<noteq> INVALID_SECTOR"
  shows "if hit then p \<in> set ns \<and> set (valid_sectors ns') = set (valid_sectors ns) - {p} \<and> distinct (valid_sectors ns')
    else ns' = ns"
  using assms
proof (induction ns arbitrary: ns' hit)
  case (Cons n ns)
  show ?case
  proof (cases "n = INVALID_SECTOR \<or> p = n")
    case True
    then show ?thesis using Cons.prems by (auto simp: valid_sectors_def)
  next
    case False
    obtain ns1 where r: "cancel_new p ns = (hit, ns1)" "ns' = n # ns1"
      using Cons.prems(1) False by (auto split: prod.splits)
    have "distinct (valid_sectors ns)" using Cons.prems(2) False by (simp add: valid_sectors_def)
    from Cons.IH [OF r(1) this Cons.prems(3)] show ?thesis
      using False Cons.prems(2) r(2) by (auto simp: valid_sectors_def)
  qed
qed simp

lemma cancel_common_spec:
  assumes "cancel_common ps ns = (ps', ns')" "distinct (valid_sectors ps)" "distinct (valid_sectors ns)"
  shows "\<exists>M. M \<subseteq> set (valid_sectors ps) \<inter> set (valid_sectors ns) \<and>
    set (valid_sectors ps') = set (valid_sectors ps) - M \<and> set (valid_sectors ns') = set (valid_sectors ns) - M \<and>
    distinct (valid_sectors ps') \<and> distinct (valid_sectors ns')"
  using assms
proof (induction ps arbitrary: ns ps' ns')
  case (Cons p ps)
  show ?case
  proof (cases "p = INVALID_SECTOR")
    case True
    then show ?thesis using Cons.prems by (intro exI [of _ "{}"]) auto
  next
    case p: False
    obtain hit ns1 where c: "cancel_new p ns = (hit, ns1)" by (cases "cancel_new p ns")
    obtain ps1 where r: "cancel_common ps ns1 = (ps1, ns')" "ps' = (if hit then INVALID_SECTOR else p) # ps1"
      using Cons.prems(1) p c by (auto split: prod.splits)
    note s = cancel_new_spec [OF c Cons.prems(3) p]
    have d: "distinct (valid_sectors ps)" "p \<notin> set (valid_sectors ps)"
      using Cons.prems(2) p by (simp_all add: valid_sectors_def)
    have d1: "distinct (valid_sectors ns1)" using s Cons.prems(3) by (auto split: if_splits)
    obtain M where M: "M \<subseteq> set (valid_sectors ps) \<inter> set (valid_sectors ns1)"
        "set (valid_sectors ps1) = set (valid_sectors ps) - M" "set (valid_sectors ns') = set (valid_sectors ns1) - M"
        "distinct (valid_sectors ps1)" "distinct (valid_sectors ns')"
      using Cons.IH [OF r(1) d(1) d1] by blast
    have v: "set (valid_sectors (p # ps)) = insert p (set (valid_sectors ps))"
      "set (valid_sectors ps') = (if hit then set (valid_sectors ps1) else insert p (set (valid_sectors ps1)))"
      "distinct (valid_sectors ps')"
      using p r(2) M(2,4) d(2) by (auto simp: valid_sectors_def)
    show ?thesis
    proof (cases hit)
      case True
      then have "p \<in> set (valid_sectors ns)" "set (valid_sectors ns1) = set (valid_sectors ns) - {p}"
        using s p by (auto simp: valid_sectors_def)
      then show ?thesis using M v d True by (intro exI [of _ "insert p M"]) auto
    next
      case False
      then show ?thesis using s M v d by (intro exI [of _ M]) auto
    qed
  qed
qed (auto simp: valid_sectors_def)

lemma near_list_not_self:
  assumes "unat s < 25"
  shows "s \<notin> set (near_list s d)" "INVALID_SECTOR \<notin> set (near_list s d)" "near_list s DirMax = []"
proof -
  show "s \<notin> set (near_list s d)"
  proof
    assume "s \<in> set (near_list s d)"
    then obtain e where e: "e \<in> set (near_directions d)" "GetNextSector s e = Inr s" "s \<noteq> INVALID_SECTOR"
      using set_near_list [OF assms] by blast
    have "drow e = 0" "dcol e = 0" using GetNextSector_valid(4,5) [OF assms e(2,3)] by simp_all
    then show False using e(1) by (cases e) (auto simp: near_directions_def)
  qed
  show "INVALID_SECTOR \<notin> set (near_list s d)" using set_near_list [OF assms] by blast
  show "near_list s DirMax = []" by (simp add: near_list_def near_directions_def SectorNearDirectionGrid_def)
qed

lemma valid_near:
  assumes "unat s < 25"
  shows "valid_sectors (near_list s d @ replicate n INVALID_SECTOR) = near_list s d"
    "valid_sectors (near_list s d @ replicate n INVALID_SECTOR @ [s]) = near_list s d @ [s]"
proof -
  have "s \<noteq> INVALID_SECTOR" using assms sector_row_col(2) [OF assms] sid_at_simps(4) [OF sector_row_col(1) [OF assms]] by metis
  moreover have "filter (\<lambda>t. t \<noteq> INVALID_SECTOR) (near_list s d) = near_list s d"
    using near_list_not_self(2) [OF assms, of d] by (intro filter_True) auto
  ultimately show "valid_sectors (near_list s d @ replicate n INVALID_SECTOR) = near_list s d"
    "valid_sectors (near_list s d @ replicate n INVALID_SECTOR @ [s]) = near_list s d @ [s]"
    by (simp_all add: valid_sectors_def)
qed

lemma valid_invalidate: "valid_sectors (invalidate s xs) = filter (\<lambda>x. x \<noteq> s) (valid_sectors xs)"
  by (induction xs) (auto simp: valid_sectors_def invalidate_def)

text \<open>The arrays that \<^verbatim>\<open>ExchangeObservingObject\<close> ends up sending to when an object stays in its sector.\<close>

lemma exchange_arrays:
  assumes "unat s < 25" "prev = near_list s p @ replicate n INVALID_SECTOR @ [s]"
    and "new = near_list s p' @ replicate m INVALID_SECTOR"
    and "(prev1, new1) = (if p \<noteq> DirMax \<and> p' \<noteq> DirMax then cancel_common prev new else (prev, new))"
  shows "\<exists>M. M \<subseteq> set (near_list s p) \<inter> set (near_list s p') \<and>
    set (valid_sectors (invalidate s prev1)) = set (near_list s p) - M \<and> distinct (valid_sectors (invalidate s prev1)) \<and>
    set (valid_sectors (invalidate s new1)) = set (near_list s p') - M \<and> distinct (valid_sectors (invalidate s new1))"
proof -
  have v: "set (valid_sectors prev) = insert s (set (near_list s p))" "distinct (valid_sectors prev)"
    "set (valid_sectors new) = set (near_list s p')" "distinct (valid_sectors new)"
    using assms(2,3) valid_near [OF assms(1)] distinct_near_list [OF assms(1)] near_list_not_self(1) [OF assms(1)] by auto
  obtain M where M: "M \<subseteq> set (valid_sectors prev) \<inter> set (valid_sectors new)"
    "set (valid_sectors prev1) = set (valid_sectors prev) - M" "set (valid_sectors new1) = set (valid_sectors new) - M"
    "distinct (valid_sectors prev1)" "distinct (valid_sectors new1)"
  proof (cases "p \<noteq> DirMax \<and> p' \<noteq> DirMax")
    case True
    then show ?thesis using that cancel_common_spec [of prev new prev1 new1] assms(4) v by auto
  next
    case False
    then show ?thesis using that [of "{}"] assms(4) v by auto
  qed
  have "s \<notin> M" using M(1) v(3) near_list_not_self(1) [OF assms(1)] by auto
  then show ?thesis
    unfolding valid_invalidate using M v near_list_not_self(1) [OF assms(1)]
    by (intro exI [of _ M]) (auto simp: distinct_filter)
qed

lemma exchange_result:
  assumes "unat s < 25" "p \<noteq> p'"
  shows "\<exists>prev2 new2 w' M. ExchangeObservingObject info p s l p' s w = Inr w' \<and>
    w_outbox w' = w_outbox w @ (if p \<noteq> DirMax then remove_posts prev2 (oi_object_id info) else []) @
      (if p' \<noteq> DirMax then create_posts new2 s info else []) \<and>
    M \<subseteq> set (near_list s p) \<inter> set (near_list s p') \<and>
    set (valid_sectors prev2) = set (near_list s p) - M \<and> distinct (valid_sectors prev2) \<and>
    set (valid_sectors new2) = set (near_list s p') - M \<and> distinct (valid_sectors new2)"
proof -
  define prev where "prev = near_list s p @ replicate (3 - length (near_list s p)) INVALID_SECTOR @ [s]"
  define new where "new = near_list s p' @ replicate (3 - length (near_list s p')) INVALID_SECTOR"
  obtain prev1 new1 where c: "(prev1, new1) = (if p \<noteq> DirMax \<and> p' \<noteq> DirMax then cancel_common prev new else (prev, new))"
    by (metis prod.collapse)
  have e: "ExchangeObservingObject info p s l p' s w =
      Inr (let w1 = (if p \<noteq> DirMax then SendRemoveObservingObject (invalidate s prev1) (oi_object_id info) w else w)
           in if p' \<noteq> DirMax then SendCreateObservingObject (invalidate s new1) s info w1 else w1)"
    using assms c GetNearSectors_eq [OF assms(1)]
    by (auto simp: ExchangeObservingObject_def prev_def new_def Let_def split: prod.splits)
  define w' where "w' = (let w1 = (if p \<noteq> DirMax then SendRemoveObservingObject (invalidate s prev1) (oi_object_id info) w else w)
           in if p' \<noteq> DirMax then SendCreateObservingObject (invalidate s new1) s info w1 else w1)"
  have o: "w_outbox w' = w_outbox w @ (if p \<noteq> DirMax then remove_posts (invalidate s prev1) (oi_object_id info) else []) @
      (if p' \<noteq> DirMax then create_posts (invalidate s new1) s info else [])"
    by (simp add: w'_def Let_def SendRemove_outbox SendCreate_outbox)
  obtain M where "M \<subseteq> set (near_list s p) \<inter> set (near_list s p')"
    "set (valid_sectors (invalidate s prev1)) = set (near_list s p) - M" "distinct (valid_sectors (invalidate s prev1))"
    "set (valid_sectors (invalidate s new1)) = set (near_list s p') - M" "distinct (valid_sectors (invalidate s new1))"
    using exchange_arrays [OF assms(1) prev_def new_def c] by blast
  then show ?thesis
    using e [folded w'_def] o by (intro exI [of _ "invalidate s prev1"] exI [of _ "invalidate s new1"] exI [of _ w'] exI [of _ M]) simp
qed

lemma exchange_effect:
  assumes "unat s < 25"
  shows "\<exists>w' posts. ExchangeObservingObject info p s l p' s w = Inr w' \<and> w_sectors w' = w_sectors w \<and>
    w_outbox w' = w_outbox w @ posts \<and>
    (p \<noteq> p' \<or> l = LocLeave \<longrightarrow>
       observe (oi_object_id info) posts (set (near_list s p)) = Some (set (near_list s p')))"
proof (cases "p = p'")
  case False
  obtain prev2 new2 w' M where x: "ExchangeObservingObject info p s l p' s w = Inr w'"
    "w_outbox w' = w_outbox w @ (if p \<noteq> DirMax then remove_posts prev2 (oi_object_id info) else []) @
      (if p' \<noteq> DirMax then create_posts new2 s info else [])"
    "M \<subseteq> set (near_list s p) \<inter> set (near_list s p')"
    "set (valid_sectors prev2) = set (near_list s p) - M" "distinct (valid_sectors prev2)"
    "set (valid_sectors new2) = set (near_list s p') - M" "distinct (valid_sectors new2)"
    using exchange_result [OF assms False] by blast
  have r: "observe (oi_object_id info) (if p \<noteq> DirMax then remove_posts prev2 (oi_object_id info) else []) (set (near_list s p)) = Some M"
    using observe_remove [of prev2 "set (near_list s p)" "oi_object_id info"] x(3-5) near_list_not_self(3) [OF assms]
    by (auto simp: double_diff)
  have "observe (oi_object_id info) (if p' \<noteq> DirMax then create_posts new2 s info else []) M = Some (set (near_list s p'))"
    using observe_create [OF refl x(7), where S = M and origin = s] x(3,6) near_list_not_self(3) [OF assms]
    by (auto simp: Un_absorb1)
  with r show ?thesis using x(1,2) Exchange_frame [OF x(1)] by (auto simp: observe_append)
next
  case True
  show ?thesis
  proof (cases "l = LocLeave")
    case leave: True
    then show ?thesis using True by (simp add: ExchangeObservingObject_def)
  next
    case False
    obtain w' where x: "ExchangeObservingObject info p s l p' s w = Inr w'"
      using True False GetNearSectors_eq [OF assms]
      by (cases "ExchangeObservingObject info p s l p' s w") (auto simp: ExchangeObservingObject_def Let_def split: prod.splits)
    have "\<exists>posts. w_outbox w' = w_outbox w @ posts"
      using x GetNearSectors_eq [OF assms]
      by (auto simp: ExchangeObservingObject_def Let_def SendRemove_outbox SendCreate_outbox split: prod.splits if_splits)
    then show ?thesis using x Exchange_frame [OF x] True False by auto
  qed
qed

text \<open>C9. When an object changes its zone or phase within a sector, the requests sent to the neighbours turn the
  set of sectors that observed it into exactly the near sectors of its new phase. No neighbour is
  asked to remove a copy it does not have or to create one it has, even though the array loops
  may remove and create the same copy again.\<close>

theorem exchange_net_effect:
  assumes "unat s < 25"
  shows "\<exists>w' posts. ExchangeObservingObject info p s l p' s w = Inr w' \<and> w_sectors w' = w_sectors w \<and>
    w_outbox w' = w_outbox w @ posts \<and>
    (p \<noteq> p' \<or> l = LocLeave \<longrightarrow>
       observe (oi_object_id info) posts (set (near_list s p)) = Some (set (near_list s p')))"
  using assms by (rule exchange_effect)

theorem exchange_net_effect_witness:
  "let info = \<lparr>oi_object_id = 5, oi_sector_id = 12, oi_type = Character, oi_fixture = new_Fixture,
        oi_vital = \<lparr>hp = 1, speed = 1, damage = 1\<rparr>\<rparr> in
   \<exists>w' posts. ExchangeObservingObject info DirUpRight 12 LocGray DirRight 12 new_World = Inr w' \<and> w_outbox w' = posts \<and>
    observe 5 posts (set (near_list 12 DirUpRight)) = Some (set (near_list 12 DirRight))"
  using exchange_net_effect [of 12 "\<lparr>oi_object_id = 5, oi_sector_id = 12, oi_type = Character, oi_fixture = new_Fixture,
        oi_vital = \<lparr>hp = 1, speed = 1, damage = 1\<rparr>\<rparr>" DirUpRight LocGray DirRight new_World]
  by (auto simp: new_World_def Let_def)

section \<open>Handing an object over\<close>

text \<open>C15. When an object leaves its sector, the play server gives it up and asks the owner of the sector under it
  to take over, and at that point that sector holds an observing copy of the object, whether it was a
  near sector of the phase or not: the promotion never meets a sector that does not know the
  object. The request is remembered for forwarding late packets.\<close>

theorem handover_finds_copy:
  assumes "shaped s ss" "solid f" "CalculateCurrentLocation ss f = LocLeave" "in_world (fx_position f)"
    and "um_find (w_sectors w) s \<noteq> None" "GetSectorByPosition (fx_position f) \<noteq> INVALID_SECTOR"
  shows "let dest = GetSectorByPosition (fx_position f) in
    \<exists>f' w' posts S packet. World_OnChangeFixtureLocation gb tick s f LocLeave (CalculateCurrentPhase ss f) w = Inr (f', w') \<and>
      fx_is_observing_fixture f' \<and> dest \<noteq> s \<and>
      w_outbox w' = w_outbox w @ posts @ [SendToSectorOwner (P_promote_object_rq packet) dest] \<and>
      po_origin_sector_id packet = s \<and> oi_object_id (po_object_info packet) = fx_id f \<and>
      oi_sector_id (po_object_info packet) = dest \<and>
      observe (fx_id f) posts (set (near_list s (fx_phase f))) = Some S \<and> dest \<in> S \<and>
      map_option pi_promoted_sector_id (um_find (w_promoted_object_list w') (fx_id f)) = Some dest"
proof -
  define dest where "dest = GetSectorByPosition (fx_position f)"
  define ph where "ph = CalculateCurrentPhase ss f"
  define info where "info = (gb_object_info gb)\<lparr>oi_object_id := fx_id f, oi_sector_id := s, oi_fixture := f\<lparr>fx_last_transform_time := tick\<rparr>\<rparr>"
  obtain y where y: "um_find (w_sectors w) s = Some y" using assms(5) by blast
  have s: "unat s < 25" using assms(1) by (simp add: shaped_def)
  have d: "dest \<noteq> s" unfolding dest_def by (rule leave_destination [OF assms(1,2,4,3)])
  have i: "oi_object_id info = fx_id f" by (simp add: info_def)
  obtain w1 posts where x: "ExchangeObservingObject info (fx_phase f) s LocLeave ph s w = Inr w1"
    "w_sectors w1 = w_sectors w" "w_outbox w1 = w_outbox w @ posts"
    "observe (fx_id f) posts (set (near_list s (fx_phase f))) = Some (set (near_list s ph))"
    using exchange_effect [OF s, of info "fx_phase f" LocLeave ph w] i by auto
  define near where "near = near_list s ph @ replicate (3 - length (near_list s ph)) INVALID_SECTOR"
  have n: "GetNearSectors s ph = Inr near" unfolding near_def by (rule GetNearSectors_eq [OF s])
  have m: "dest \<in> set near \<longleftrightarrow> dest \<in> set (near_list s ph)" using assms(6) by (auto simp: near_def dest_def)
  define extra where "extra = (if dest \<in> set near then [] else create_posts [dest, INVALID_SECTOR, INVALID_SECTOR] s info)"
  define w2 where "w2 = (if dest \<in> set near then w1 else SendCreateObservingObject [dest, INVALID_SECTOR, INVALID_SECTOR] s info w1)"
  have o: "w_outbox w2 = w_outbox w @ posts @ extra"
    using x(3) by (simp add: w2_def extra_def SendCreate_outbox del: SendCreateObservingObject.simps)
  have "observe (fx_id f) extra (set (near_list s ph)) = Some (insert dest (set (near_list s ph)))"
    using m assms(6) observe_create [OF i, of "[dest, INVALID_SECTOR, INVALID_SECTOR]" "set (near_list s ph)" s]
    by (auto simp: extra_def valid_sectors_def dest_def)
  then have "observe (fx_id f) (posts @ extra) (set (near_list s (fx_phase f))) = Some (insert dest (set (near_list s ph)))"
    using x(4) by (simp add: observe_append)
  moreover define packet where "packet = \<lparr>po_origin_sector_id = s, po_object_info = info\<lparr>oi_sector_id := dest,
      oi_fixture := f\<lparr>fx_last_transform_time := tick, fx_location := LocLeave, fx_phase := ph, fx_sector_id := dest\<rparr>\<rparr>\<rparr>"
  define w3 where "w3 = w2\<lparr>w_promoted_object_list := um_set (fx_id f) \<lparr>pi_object_id = fx_id f, pi_promoted_sector_id = dest,
      pi_tracking_timer = \<lparr>cd_delay = TransformCooltime * 4, cd_start_time = tick\<rparr>\<rparr> (w_promoted_object_list w2)\<rparr>"
  have r: "World_OnChangeFixtureLocation gb tick s f LocLeave ph w =
      Inr (f\<lparr>fx_last_transform_time := tick, fx_is_observing_fixture := True\<rparr>,
           post (SendToSectorOwner (P_promote_object_rq packet) dest) w3)"
    using y assms(6) x(1) n
    by (simp add: World_OnChangeFixtureLocation_def Let_def info_def w2_def w3_def packet_def dest_def
        del: SendCreateObservingObject.simps)
  have "w_outbox (post (SendToSectorOwner (P_promote_object_rq packet) dest) w3) =
      w_outbox w @ (posts @ extra) @ [SendToSectorOwner (P_promote_object_rq packet) dest]"
    "po_origin_sector_id packet = s" "oi_object_id (po_object_info packet) = fx_id f" "oi_sector_id (po_object_info packet) = dest"
    "map_option pi_promoted_sector_id (um_find (w_promoted_object_list (post (SendToSectorOwner (P_promote_object_rq packet) dest) w3)) (fx_id f)) = Some dest"
    using o by (simp_all add: w3_def packet_def i)
  ultimately show ?thesis
    using d r unfolding Let_def dest_def [symmetric] ph_def [symmetric]
    by (intro exI conjI) (assumption | rule r insertI1 | simp)+
qed

section \<open>Sectors that are not there\<close>

lemma update_sectors_null:
  "k \<in> set ks \<Longrightarrow> um_find (w_sectors w) k = Some None \<Longrightarrow> \<exists>e. update_sectors gb tick now dt ks w = Inl e"
proof (induction ks arbitrary: w)
  case (Cons j ks)
  show ?case
  proof (cases "j = k")
    case False
    show ?thesis
    proof (cases "update_sectors gb tick now dt (j # ks) w")
      case (Inr w')
      then obtain ss ss1 w1 where u: "SectorSystem_Update (world_callback gb tick) now dt ss w = Inr (ss1, w1)"
        "update_sectors gb tick now dt ks ((put_sector j (fold RemoveFixture (w_removing_fixtures w1) ss1) w1)\<lparr>w_removing_fixtures := []\<rparr>) = Inr w'"
        by (auto simp: res_iff Let_def split: option.splits)
      have "um_find (w_sectors w1) k = Some None" using SectorSystem_Update_frame [OF u(1)] Cons.prems(2) by simp
      then have "um_find (w_sectors ((put_sector j (fold RemoveFixture (w_removing_fixtures w1) ss1) w1)\<lparr>w_removing_fixtures := []\<rparr>)) k = Some None"
        using False by (simp add: put_sector_def)
      from Cons.IH [OF _ this] show ?thesis using u(2) Cons.prems(1) False by auto
    qed auto
  qed (use Cons.prems(2) in simp)
qed simp

lemma World_Update_null:
  assumes "um_find (w_sectors w) k = Some None"
  shows "\<exists>e. World_Update gb tick now dt w = Inl e"
proof -
  have "k \<in> set (um_keys (w_sectors w))" using assms by (metis um_find_None_iff list.set_map option.distinct(1))
  then show ?thesis
    using assms unfolding World_Update_def Let_def by (intro update_sectors_null [of k]) simp_all
qed

text \<open>A request for a sector this server does not hold is answered or dropped, but looking the sector up
  through \<^verbatim>\<open>operator[]\<close> leaves a null pointer in the map, and the next \<^verbatim>\<open>Update\<close> of the world fails
  on it: one misrouted packet stops the server.\<close>

theorem missing_sector_poisons_world:
  assumes "um_find (w_sectors w) (cm_sector_id m) = None" "um_find (w_sectors w) (oi_sector_id (sp_object_info p)) = None"
  shows "\<exists>w1 w2. MoveObject r m w = Inr w1 \<and> SpawnCharacter gb t r p w = Inr w2 \<and>
    (\<exists>e. World_Update gb t now dt w1 = Inl e) \<and> (\<exists>e. World_Update gb t now dt w2 = Inl e)"
  using assms World_Update_null [of _ "cm_sector_id m"] World_Update_null [of _ "oi_sector_id (sp_object_info p)"]
  by (simp add: MoveObject_def SpawnCharacter_def sector_ref_miss Let_def)

text \<open>\<^verbatim>\<open>ClearSector\<close> deletes the sectors but keeps their keys, so after it a world that had sectors cannot be
  updated any more.\<close>

theorem cleared_world_cannot_update:
  assumes "w_sectors w \<noteq> []"
  shows "\<exists>e. World_Update gb t now dt (ClearSector w) = Inl e"
proof -
  obtain k s rest where "w_sectors w = (k, s) # rest" using assms by (metis list.exhaust surj_pair)
  then show ?thesis using World_Update_null [of "ClearSector w" k] by (simp add: ClearSector_def)
qed

text \<open>A promotion stamps the object with the tick cut to 32 bits. Once the tick has reached \<open>2^32\<close> plus the
  cool time (49.7 days of uptime), the stamp lies in the past and the promoted object may change
  its sector again at once, although every other transfer is held back for the cool time.\<close>

theorem promotion_cooldown_lost:
  assumes "2 ^ 32 + TransformCooltime \<le> tick" "sector_ref (oi_sector_id (po_object_info pr)) w = (Some ss, w)"
    and "PromoteObservingObject tick pr w = Inr w'"
  shows "\<exists>ss' f. um_find (w_sectors w') (oi_sector_id (po_object_info pr)) = Some (Some ss') \<and>
    GetFixture (oi_object_id (po_object_info pr)) ss' = Some f \<and> \<not> fx_is_observing_fixture f \<and>
    \<not> fx_last_transform_time f + TransformCooltime > tick"
proof -
  have t: "tick mod 2 ^ 32 + TransformCooltime \<le> tick"
    using assms(1) pos_mod_bound [of "2 ^ 32" tick] by simp
  show ?thesis
    using assms(3) t unfolding PromoteObservingObject_def Let_def assms(2) split_conv option.case
    by (auto simp: res_iff GetFixture_def write_fixture_def put_sector_def split: option.splits if_splits dest!: Exchange_frame)
qed

section \<open>Concrete runs\<close>

definition sample_info :: PacketObjectInfo where
  "sample_info = \<lparr>oi_object_id = 7, oi_sector_id = 12, oi_type = Character,
     oi_fixture = new_Fixture\<lparr>fx_id := 7, fx_size := vec2 20 20, fx_position := vec2 2500 2500, fx_sector_id := 12\<rparr>,
     oi_vital = \<lparr>hp = 1, speed = 1, damage = 1\<rparr>\<rparr>"

definition sample_gb :: garbage where
  "sample_gb = \<lparr>gb_object_info = sample_info, gb_u8 = 0, gb_bool = False\<rparr>"

definition sample_sector :: SectorSystem where
  "sample_sector = sector_system 1 12 (grid_rect 2 2)"

definition sample_world :: World where
  "sample_world = new_World\<lparr>w_sectors := [(12, Some (write_fixture 7 (oi_fixture sample_info) sample_sector))]\<rparr>"

lemma sample_12: "srow 12 = 2" "scol 12 = 2" "unat (12 :: u64) < 25" "(12 :: u64) \<noteq> INVALID_SECTOR"
  by (simp_all add: srow_def scol_def INVALID_SECTOR_def)

lemma sample_shaped: "shaped 12 sample_sector" "shaped 12 (write_fixture k f sample_sector)"
proof -
  show s: "shaped 12 sample_sector"
    unfolding sample_sector_def using sector_system_shaped [OF sample_12(3), of 1] by (simp add: sample_12)
  then show "shaped 12 (write_fixture k f sample_sector)" by (simp add: shaped_def write_fixture_def)
qed

theorem handover_finds_copy_witness:
  "let f = new_Fixture\<lparr>fx_id := 7, fx_size := vec2 20 20, fx_position := vec2 5100 100\<rparr>;
       r = World_OnChangeFixtureLocation sample_gb 5 12 f LocLeave (CalculateCurrentPhase sample_sector f) sample_world
   in \<exists>f' w'. r = Inr (f', w') \<and> fx_is_observing_fixture f' \<and>
        map_option pi_promoted_sector_id (um_find (w_promoted_object_list w') 7) = Some 13"
proof -
  define f where "f = new_Fixture\<lparr>fx_id := 7, fx_size := vec2 20 20, fx_position := vec2 5100 100\<rparr>"
  have f: "solid f"
    by (intro sized_solid) (simp_all add: f_def sized_def new_Fixture_def ForceConstant_def float_ops)
  have l: "CalculateCurrentLocation sample_sector f = LocLeave"
    using shaped_rectangles [OF sample_shaped(1)] sample_12
    by (simp add: CalculateCurrentLocation_def f_def new_Fixture_def ToFixtureRectangle_def make_rectangle_def
        FixtureRectangleOverlap_def grid_rect_def float_ops)
  have w: "in_world (fx_position f)" by (simp add: f_def in_world_def WorldRect_eq)
  have "strip 5100 = 3" "strip 100 = 2" by (rule strip_inside; simp)+
  then have g: "GetSectorByPosition (fx_position f) = 13"
    by (simp add: f_def GetSectorByPosition_eq sid_at_def)
  have k: "um_find (w_sectors sample_world) 12 \<noteq> None" by (simp add: sample_world_def)
  have i: "GetSectorByPosition (fx_position f) \<noteq> INVALID_SECTOR" by (simp add: g INVALID_SECTOR_def)
  show ?thesis
    using handover_finds_copy [OF sample_shaped(1) f l w k i, of sample_gb 5]
    unfolding Let_def g f_def [symmetric] by (auto simp: f_def)
qed

theorem missing_sector_poisons_world_witness:
  "\<exists>w1 w2 e. MoveObject 3 \<lparr>cm_sector_id = 4, cm_object_id = 7, cm_starting_position = vec2 0 0, cm_direction = DirUp, cm_to_owner = True\<rparr> sample_world = Inr w1 \<and>
     SpawnCharacter sample_gb 5 3 \<lparr>sp_user_id = 1, sp_nickname = ''n'', sp_object_info = sample_info\<lparr>oi_sector_id := 4\<rparr>\<rparr> sample_world = Inr w2 \<and>
     World_Update sample_gb 5 5 10 w1 = Inl e"
  using missing_sector_poisons_world [of sample_world
      "\<lparr>cm_sector_id = 4, cm_object_id = 7, cm_starting_position = vec2 0 0, cm_direction = DirUp, cm_to_owner = True\<rparr>"
      "\<lparr>sp_user_id = 1, sp_nickname = ''n'', sp_object_info = sample_info\<lparr>oi_sector_id := 4\<rparr>\<rparr>" 3 sample_gb 5 5 10]
  by (simp add: sample_world_def) blast

theorem cleared_world_cannot_update_witness: "\<exists>e. World_Update sample_gb 5 5 10 (ClearSector sample_world) = Inl e"
  using cleared_world_cannot_update [of sample_world sample_gb 5 5 10] by (simp add: sample_world_def)

theorem promotion_cooldown_lost_witness:
  "\<exists>w' ss' f. PromoteObservingObject 4294968300 \<lparr>po_origin_sector_id = 13, po_object_info = sample_info\<rparr> sample_world = Inr w' \<and>
     um_find (w_sectors w') 12 = Some (Some ss') \<and> GetFixture 7 ss' = Some f \<and>
     \<not> fx_last_transform_time f + TransformCooltime > 4294968300"
proof -
  define ss where "ss = write_fixture 7 (oi_fixture sample_info) sample_sector"
  let ?f = "(oi_fixture sample_info)\<lparr>fx_is_observing_fixture := False, fx_last_transform_time := 4294968300 mod 2 ^ 32\<rparr>"
  have r: "sector_ref 12 sample_world = (Some ss, sample_world)"
    by (simp add: sector_ref_hit sample_world_def ss_def)
  have l: "CalculateCurrentLocation ss ?f = LocIn"
    using shaped_rectangles [OF sample_shaped(2)] sample_12
    by (simp add: ss_def CalculateCurrentLocation_def sample_info_def new_Fixture_def ToFixtureRectangle_def make_rectangle_def
        FixtureRectangleOverlap_def grid_rect_def float_ops)
  have g: "GetFixture 7 ss \<noteq> None" by (simp add: GetFixture_def ss_def write_fixture_def)
  have s: "unat (13 :: u64) < 25" "GetNextSector 13 DirMax = Inr 13" "GetNextSector 12 DirMax = Inr 12"
    by (simp_all add: GetNextSector_eq srow_def scol_def sid_at_def)
  have n: "IsNearPhase 13 DirMax 12 DirMax = Inr False"
    by (simp add: IsNearPhase_def SectorNearDirectionGrid_def s)
  have x: "ExchangeObservingObject info DirMax 13 LocIn DirMax 12 w = Inr w" for info w
    using GetNearSectors_eq [OF s(1)] GetNearSectors_eq [OF sample_12(3)] by (simp add: ExchangeObservingObject_def)
  obtain w' where p: "PromoteObservingObject 4294968300 \<lparr>po_origin_sector_id = 13, po_object_info = sample_info\<rparr> sample_world = Inr w'"
    using r l g n x unfolding PromoteObservingObject_def Let_def
    by (auto simp: sample_info_def new_Fixture_def)
  show ?thesis
    using promotion_cooldown_lost [of 4294968300 "\<lparr>po_origin_sector_id = 13, po_object_info = sample_info\<rparr>" sample_world ss w'] p r
    by (auto simp: sample_info_def TransformCooltime_def)
qed

end
