(* ===== verification/Posting.thy ===== *)
theory Posting
  imports PacketThrottling World
begin

text \<open>
  \<^verbatim>\<open>game/SectorPostingManager.h\<close> and \<^verbatim>\<open>.cpp\<close>: which server owns a sector, who listens to it, and the sending of
  packets to them through the throttler.

  Elements of \<^verbatim>\<open>_sectors\<close> and \<^verbatim>\<open>_sessions\<close> are never erased and do not move, so a \<^verbatim>\<open>NetworkSectorInfo*\<close> is the identifier
  of its sector and a \<^verbatim>\<open>NetworkSessionInfo*\<close> the identifier of its target; the maps of such pointers are lists of
  keys without repetitions. A session pointer is the address of the session, null is \<open>None\<close>.
\<close>

section \<open>State\<close>

record NetworkSectorInfo =
  ns_owner_id :: u64
  ns_listening_sessions :: "u64 list"

record NetworkSessionInfo =
  nn_session :: "u64 option"
  nn_related_sectors :: "u64 list"

record 'h SectorPosting =
  sp_sectors :: "(u64, NetworkSectorInfo) umap"
  sp_sessions :: "(u64, NetworkSessionInfo) umap"
  sp_throttler :: PacketThrottler
  sp_heap :: 'h

definition no_sector :: NetworkSectorInfo where "no_sector = \<lparr>ns_owner_id = 0, ns_listening_sessions = []\<rparr>"

definition no_session :: NetworkSessionInfo where "no_session = \<lparr>nn_session = None, nn_related_sectors = []\<rparr>"

definition key_insert :: "u64 \<Rightarrow> u64 list \<Rightarrow> u64 list" where
  "key_insert x xs = (if x \<in> set xs then xs else xs @ [x])"

definition sector_at :: "u64 \<Rightarrow> 'h SectorPosting \<Rightarrow> NetworkSectorInfo" where
  "sector_at s sp = um_get no_sector s (sp_sectors sp)"

definition session_at :: "u64 \<Rightarrow> 'h SectorPosting \<Rightarrow> NetworkSessionInfo" where
  "session_at t sp = um_get no_session t (sp_sessions sp)"

definition put_sector :: "u64 \<Rightarrow> NetworkSectorInfo \<Rightarrow> 'h SectorPosting \<Rightarrow> 'h SectorPosting" where
  "put_sector s i sp = sp\<lparr>sp_sectors := um_set s i (sp_sectors sp)\<rparr>"

definition put_session :: "u64 \<Rightarrow> NetworkSessionInfo \<Rightarrow> 'h SectorPosting \<Rightarrow> 'h SectorPosting" where
  "put_session t i sp = sp\<lparr>sp_sessions := um_set t i (sp_sessions sp)\<rparr>"

section \<open>Sending\<close>

definition post_to :: "'h session_ops \<Rightarrow> (Packet \<Rightarrow> u8 list) \<Rightarrow> u64 \<Rightarrow> Packet \<Rightarrow> 'h SectorPosting \<Rightarrow> 'h SectorPosting res" where
  "post_to ops pack session packet sp =
    rbind (PostPacket ops pack session packet Throttle (sp_throttler sp) (sp_heap sp))
      (\<lambda>(pt, h). Inr (sp\<lparr>sp_throttler := pt, sp_heap := h\<rparr>))"

text \<open>A packet to a target whose session is linked.\<close>

definition Posting_SendTo :: "'h session_ops \<Rightarrow> (Packet \<Rightarrow> u8 list) \<Rightarrow> u64 \<Rightarrow> Packet \<Rightarrow> 'h SectorPosting \<Rightarrow> 'h SectorPosting res" where
  "Posting_SendTo ops pack target packet sp =
    (case um_find (sp_sessions sp) target of
       None \<Rightarrow> Inr sp
     | Some info \<Rightarrow> (case nn_session info of None \<Rightarrow> Inr sp | Some k \<Rightarrow> post_to ops pack k packet sp))"

definition Posting_SendToSectorOwner :: "'h session_ops \<Rightarrow> (Packet \<Rightarrow> u8 list) \<Rightarrow> Packet \<Rightarrow> u64 \<Rightarrow> 'h SectorPosting \<Rightarrow> 'h SectorPosting res" where
  "Posting_SendToSectorOwner ops pack packet sector sp =
    (case um_find (sp_sectors sp) sector of
       None \<Rightarrow> Inr sp
     | Some info \<Rightarrow>
       (case um_find (sp_sessions sp) (ns_owner_id info) of
          None \<Rightarrow> Inr sp
        | Some owner \<Rightarrow> (case nn_session owner of None \<Rightarrow> Inr sp | Some k \<Rightarrow> post_to ops pack k packet sp)))"

text \<open>The pointers of \<^verbatim>\<open>listening_sessions\<close> are never null; a target without an element would be one that dangles.\<close>

definition post_listener :: "'h session_ops \<Rightarrow> (Packet \<Rightarrow> u8 list) \<Rightarrow> Packet \<Rightarrow> u64 \<Rightarrow> 'h SectorPosting \<Rightarrow> 'h SectorPosting res" where
  "post_listener ops pack packet target sp =
    (case um_find (sp_sessions sp) target of
       None \<Rightarrow> Inl NullDeref
     | Some info \<Rightarrow> (case nn_session info of None \<Rightarrow> Inr sp | Some k \<Rightarrow> post_to ops pack k packet sp))"

definition Posting_SendToSector :: "'h session_ops \<Rightarrow> (Packet \<Rightarrow> u8 list) \<Rightarrow> Packet \<Rightarrow> u64 \<Rightarrow> bool \<Rightarrow> 'h SectorPosting \<Rightarrow> 'h SectorPosting res" where
  "Posting_SendToSector ops pack packet sector with_owner sp =
    (case um_find (sp_sectors sp) sector of
       None \<Rightarrow> Inr sp
     | Some info \<Rightarrow>
         rbind (foldr_res (post_listener ops pack packet) (ns_listening_sessions info) sp) (\<lambda>sp'.
         if with_owner then Posting_SendToSectorOwner ops pack packet sector sp' else Inr sp'))"

definition Posting_SendToSectorWithout ::
  "'h session_ops \<Rightarrow> (Packet \<Rightarrow> u8 list) \<Rightarrow> u64 \<Rightarrow> Packet \<Rightarrow> u64 \<Rightarrow> bool \<Rightarrow> 'h SectorPosting \<Rightarrow> 'h SectorPosting res" where
  "Posting_SendToSectorWithout ops pack ignored packet sector with_owner sp =
    (case um_find (sp_sectors sp) sector of
       None \<Rightarrow> Inr sp
     | Some info \<Rightarrow>
         rbind (foldr_res (\<lambda>t sp. if t = ignored then Inr sp else post_listener ops pack packet t sp) (ns_listening_sessions info) sp) (\<lambda>sp'.
         if with_owner then Posting_SendToSectorOwner ops pack packet sector sp' else Inr sp'))"

fun send_near_loop ::
  "'h session_ops \<Rightarrow> (Packet \<Rightarrow> u8 list) \<Rightarrow> Packet \<Rightarrow> bool \<Rightarrow> u64 list \<Rightarrow> 'h SectorPosting \<Rightarrow> 'h SectorPosting res" where
  "send_near_loop ops pack packet with_owner [] sp = Inr sp"
| "send_near_loop ops pack packet with_owner (s # ss) sp =
    (if s = INVALID_SECTOR then Inr sp
     else rbind (Posting_SendToSector ops pack packet s with_owner sp) (send_near_loop ops pack packet with_owner ss))"

definition SendToNearSector ::
  "'h session_ops \<Rightarrow> (Packet \<Rightarrow> u8 list) \<Rightarrow> Packet \<Rightarrow> u64 \<Rightarrow> Direction \<Rightarrow> bool \<Rightarrow> 'h SectorPosting \<Rightarrow> 'h SectorPosting res" where
  "SendToNearSector ops pack packet sector direction with_owner sp =
    rbind (GetNearSectors sector direction) (\<lambda>ss. send_near_loop ops pack packet with_owner ss sp)"

section \<open>Sectors, sessions and listeners\<close>

definition AllocateSector :: "u64 \<Rightarrow> u64 \<Rightarrow> 'h SectorPosting \<Rightarrow> 'h SectorPosting" where
  "AllocateSector sector target sp =
    (let owner = ns_owner_id (sector_at sector sp);
         old = session_at owner sp;
         sp1 = (if owner \<noteq> 0 then put_session owner (old\<lparr>nn_related_sectors := removeAll sector (nn_related_sectors old)\<rparr>) sp else sp);
         info = session_at target sp1;
         sp2 = put_session target (info\<lparr>nn_related_sectors := key_insert sector (nn_related_sectors info)\<rparr>) sp1
     in put_sector sector ((sector_at sector sp)\<lparr>ns_owner_id := target\<rparr>) sp2)"

definition LinkSession :: "u64 \<Rightarrow> u64 option \<Rightarrow> 'h SectorPosting \<Rightarrow> 'h SectorPosting" where
  "LinkSession target session sp = put_session target ((session_at target sp)\<lparr>nn_session := session\<rparr>) sp"

definition UnlinkSession :: "'h session_ops \<Rightarrow> u64 \<Rightarrow> 'h SectorPosting \<Rightarrow> 'h SectorPosting res" where
  "UnlinkSession ops target sp =
    (let info = session_at target sp in
     case nn_session info of
       None \<Rightarrow> Inr (put_session target info sp)
     | Some k \<Rightarrow>
         rbind (CleanUp ops k (sp_throttler sp) (sp_heap sp)) (\<lambda>(pt, h).
         Inr (put_session target (info\<lparr>nn_session := None\<rparr>) (sp\<lparr>sp_throttler := pt, sp_heap := h\<rparr>))))"

definition AddSectorListener :: "u64 \<Rightarrow> u64 \<Rightarrow> 'h SectorPosting \<Rightarrow> 'h SectorPosting" where
  "AddSectorListener sector target sp =
    (let s = sector_at sector sp; info = session_at target sp in
     put_sector sector (s\<lparr>ns_listening_sessions := key_insert target (ns_listening_sessions s)\<rparr>)
       (put_session target (info\<lparr>nn_related_sectors := key_insert sector (nn_related_sectors info)\<rparr>) sp))"

definition drop_listener :: "u64 \<Rightarrow> NetworkSectorInfo \<Rightarrow> NetworkSectorInfo" where
  "drop_listener target s = s\<lparr>ns_listening_sessions := removeAll target (ns_listening_sessions s)\<rparr>"

definition RemoveSectorListener :: "u64 \<Rightarrow> u64 \<Rightarrow> 'h SectorPosting \<Rightarrow> 'h SectorPosting" where
  "RemoveSectorListener sector target sp =
    (let info = session_at target sp in
     fold (\<lambda>s sp. put_sector s (drop_listener target (sector_at s sp)) sp) (nn_related_sectors info) (put_session target info sp))"

definition UnsetAll :: "'h session_ops \<Rightarrow> u64 \<Rightarrow> 'h SectorPosting \<Rightarrow> 'h SectorPosting res" where
  "UnsetAll ops target sp =
    (let info = session_at target sp;
         sp1 = fold (\<lambda>s sp. let i = drop_listener target (sector_at s sp) in
                 put_sector s (if ns_owner_id i = target then i\<lparr>ns_owner_id := 0\<rparr> else i) sp) (nn_related_sectors info) sp
     in UnlinkSession ops target (put_session target (info\<lparr>nn_related_sectors := []\<rparr>) sp1))"

definition GetSectorOwnerSession :: "u64 \<Rightarrow> 'h SectorPosting \<Rightarrow> u64 option \<times> 'h SectorPosting" where
  "GetSectorOwnerSession sector sp =
    (let s = sector_at sector sp; sp1 = put_sector sector s sp; info = session_at (ns_owner_id s) sp1
     in (nn_session info, put_session (ns_owner_id s) info sp1))"

definition GetOwnershipSectors :: "u64 \<Rightarrow> 'h SectorPosting \<Rightarrow> u64 list \<times> 'h SectorPosting" where
  "GetOwnershipSectors target sp =
    (let info = session_at target sp in (nn_related_sectors info, put_session target info sp))"

text \<open>What the world asks of the posting manager; a direct reply goes to, or closes, the session of the request.\<close>

definition perform :: "'h session_ops \<Rightarrow> (Packet \<Rightarrow> u8 list) \<Rightarrow> post \<Rightarrow> 'h SectorPosting \<Rightarrow> 'h SectorPosting res" where
  "perform ops pack p sp =
    (case p of
       SendTo target packet \<Rightarrow> Posting_SendTo ops pack target packet sp
     | SendToSector packet sector \<Rightarrow> Posting_SendToSector ops pack packet sector False sp
     | SendToSectorWithout ignored packet sector \<Rightarrow> Posting_SendToSectorWithout ops pack ignored packet sector False sp
     | SendToSectorOwner packet sector \<Rightarrow> Posting_SendToSectorOwner ops pack packet sector sp
     | Reply packet error \<Rightarrow> Inr sp
     | CloseRequestSession \<Rightarrow> Inr sp)"

section \<open>Listeners and owners are found again\<close>

text \<open>Whoever listens to a sector or owns it has that sector among its related sectors, and listeners have an element of their own.\<close>

definition posting_inv :: "'h SectorPosting \<Rightarrow> bool" where
  "posting_inv sp \<longleftrightarrow> (\<forall>s t. t \<in> set (ns_listening_sessions (sector_at s sp)) \<longrightarrow>
       s \<in> set (nn_related_sectors (session_at t sp)) \<and> um_find (sp_sessions sp) t \<noteq> None) \<and>
     (\<forall>s. ns_owner_id (sector_at s sp) \<noteq> 0 \<longrightarrow> s \<in> set (nn_related_sectors (session_at (ns_owner_id (sector_at s sp)) sp)))"

lemma at_put [simp]:
  "sector_at s' (put_sector s i sp) = (if s' = s then i else sector_at s' sp)"
  "session_at t' (put_session t j sp) = (if t' = t then j else session_at t' sp)"
  "sector_at s' (put_session t j sp) = sector_at s' sp" "session_at t' (put_sector s i sp) = session_at t' sp"
  "sp_sessions (put_session t j sp) = um_set t j (sp_sessions sp)" "sp_sessions (put_sector s i sp) = sp_sessions sp"
  "sp_throttler (put_sector s i sp) = sp_throttler sp" "sp_throttler (put_session t j sp) = sp_throttler sp"
  "sp_heap (put_sector s i sp) = sp_heap sp" "sp_heap (put_session t j sp) = sp_heap sp"
  "sector_at s' (sp\<lparr>sp_throttler := pt, sp_heap := h\<rparr>) = sector_at s' sp"
  "session_at t' (sp\<lparr>sp_throttler := pt, sp_heap := h\<rparr>) = session_at t' sp"
  by (simp_all add: sector_at_def session_at_def put_sector_def put_session_def)

lemma set_key_insert [simp]: "set (key_insert x xs) = insert x (set xs)"
  by (auto simp: key_insert_def)

lemma UnlinkSession_result:
  "UnlinkSession ops target sp = Inr sp' \<Longrightarrow>
     (\<forall>s. sector_at s sp' = sector_at s sp) \<and>
     (\<forall>t. session_at t sp' = (if t = target then (session_at target sp)\<lparr>nn_session := None\<rparr> else session_at t sp)) \<and>
     (\<forall>t. um_find (sp_sessions sp) t \<noteq> None \<longrightarrow> um_find (sp_sessions sp') t \<noteq> None)"
  by (auto simp: UnlinkSession_def Let_def res_iff split: option.splits)

lemma AddSectorListener_inv: "posting_inv sp \<Longrightarrow> posting_inv (AddSectorListener s t sp)"
  by (auto simp: posting_inv_def AddSectorListener_def Let_def)

lemma LinkSession_inv: "posting_inv sp \<Longrightarrow> posting_inv (LinkSession t k sp)"
  by (auto simp: posting_inv_def LinkSession_def)

lemma UnlinkSession_inv: "posting_inv sp \<Longrightarrow> UnlinkSession ops t sp = Inr sp' \<Longrightarrow> posting_inv sp'"
  by (drule UnlinkSession_result) (auto simp: posting_inv_def)

lemma AllocateSector_inv:
  assumes "posting_inv sp" "ns_owner_id (sector_at s sp) \<notin> set (ns_listening_sessions (sector_at s sp)) \<or> ns_owner_id (sector_at s sp) = 0"
  shows "posting_inv (AllocateSector s t sp)"
  using assms unfolding posting_inv_def AllocateSector_def Let_def by auto metis+

lemma drop_sectors:
  "sector_at s (fold (\<lambda>s sp. put_sector s (f (sector_at s sp)) sp) ss sp) =
     (if s \<in> set ss then (f ^^ count_list ss s) (sector_at s sp) else sector_at s sp)"
  "session_at t (fold (\<lambda>s sp. put_sector s (f (sector_at s sp)) sp) ss sp) = session_at t sp"
  "sp_sessions (fold (\<lambda>s sp. put_sector s (f (sector_at s sp)) sp) ss sp) = sp_sessions sp"
  "sp_throttler (fold (\<lambda>s sp. put_sector s (f (sector_at s sp)) sp) ss sp) = sp_throttler sp"
  "sp_heap (fold (\<lambda>s sp. put_sector s (f (sector_at s sp)) sp) ss sp) = sp_heap sp"
  by (induction ss arbitrary: sp) (auto simp: funpow_swap1)

lemma drop_listener_funpow [simp]:
  "ns_listening_sessions ((drop_listener t ^^ n) i) = (if n = 0 then ns_listening_sessions i else removeAll t (ns_listening_sessions i))"
  "ns_owner_id ((drop_listener t ^^ n) i) = ns_owner_id i"
  by (induction n) (auto simp: drop_listener_def)

lemma RemoveSectorListener_at:
  "ns_listening_sessions (sector_at s' (RemoveSectorListener s t sp)) =
     (if s' \<in> set (nn_related_sectors (session_at t sp)) then removeAll t (ns_listening_sessions (sector_at s' sp))
      else ns_listening_sessions (sector_at s' sp))"
  "ns_owner_id (sector_at s' (RemoveSectorListener s t sp)) = ns_owner_id (sector_at s' sp)"
  "session_at t' (RemoveSectorListener s t sp) = session_at t' sp"
  "um_find (sp_sessions (RemoveSectorListener s t sp)) t' = (if t' = t then Some (session_at t sp) else um_find (sp_sessions sp) t')"
  by (simp_all add: RemoveSectorListener_def Let_def drop_sectors count_list_0_iff)

lemma RemoveSectorListener_inv: "posting_inv sp \<Longrightarrow> posting_inv (RemoveSectorListener s t sp)"
  unfolding posting_inv_def RemoveSectorListener_at by (auto split: if_splits)

text \<open>\<^verbatim>\<open>RemoveSectorListener\<close> ignores its sector: a target that listens to two sectors and leaves one no longer receives
  anything of the other either.\<close>

theorem remove_listener_ignores_sector:
  assumes "posting_inv sp"
  shows "t \<notin> set (ns_listening_sessions (sector_at other (RemoveSectorListener s t sp)))"
  using assms by (auto simp: RemoveSectorListener_at posting_inv_def)

definition sample_posting :: "session_heap SectorPosting" where
  "sample_posting = AddSectorListener 8 5 (AddSectorListener 7 5 (LinkSession 5 (Some 1)
     \<lparr>sp_sectors = [], sp_sessions = [], sp_throttler = new_PacketThrottler 0 10, sp_heap = sample_heap\<rparr>))"

lemma empty_posting_inv: "posting_inv \<lparr>sp_sectors = [], sp_sessions = [], sp_throttler = pt, sp_heap = h\<rparr>"
  by (simp add: posting_inv_def sector_at_def session_at_def no_sector_def no_session_def)

lemma sample_posting_inv: "posting_inv sample_posting"
  unfolding sample_posting_def by (intro AddSectorListener_inv LinkSession_inv empty_posting_inv)

theorem remove_listener_ignores_sector_witness:
  "ns_listening_sessions (sector_at 8 sample_posting) = [5] \<and>
   5 \<notin> set (ns_listening_sessions (sector_at 8 (RemoveSectorListener 7 5 sample_posting)))"
  using remove_listener_ignores_sector [OF sample_posting_inv, of 5 8 7]
  by (simp add: sample_posting_def AddSectorListener_def LinkSession_def Let_def sector_at_def session_at_def
      put_sector_def put_session_def no_sector_def key_insert_def)

definition unset_sector :: "u64 \<Rightarrow> NetworkSectorInfo \<Rightarrow> NetworkSectorInfo" where
  "unset_sector t s = (let i = drop_listener t s in if ns_owner_id i = t then i\<lparr>ns_owner_id := 0\<rparr> else i)"

lemma unset_sector_funpow [simp]:
  "ns_listening_sessions ((unset_sector t ^^ n) i) = (if n = 0 then ns_listening_sessions i else removeAll t (ns_listening_sessions i))"
  "ns_owner_id ((unset_sector t ^^ n) i) = (if n > 0 \<and> ns_owner_id i = t then 0 else ns_owner_id i)"
  by (induction n) (auto simp: unset_sector_def drop_listener_def Let_def)

lemma UnsetAll_at:
  assumes "UnsetAll ops t sp = Inr sp'"
  shows "ns_listening_sessions (sector_at s sp') =
      (if s \<in> set (nn_related_sectors (session_at t sp)) then removeAll t (ns_listening_sessions (sector_at s sp))
       else ns_listening_sessions (sector_at s sp))"
    "ns_owner_id (sector_at s sp') =
      (if s \<in> set (nn_related_sectors (session_at t sp)) \<and> ns_owner_id (sector_at s sp) = t then 0 else ns_owner_id (sector_at s sp))"
    "session_at t' sp' = (if t' = t then no_session else session_at t' sp)"
    "um_find (sp_sessions sp) t' \<noteq> None \<Longrightarrow> um_find (sp_sessions sp') t' \<noteq> None"
proof -
  let ?sp = "fold (\<lambda>s sp. put_sector s (unset_sector t (sector_at s sp)) sp) (nn_related_sectors (session_at t sp)) sp"
  have "UnlinkSession ops t (put_session t ((session_at t sp)\<lparr>nn_related_sectors := []\<rparr>) ?sp) = Inr sp'"
    using assms by (simp add: UnsetAll_def Let_def unset_sector_def)
  note r = UnlinkSession_result [OF this]
  show "ns_listening_sessions (sector_at s sp') =
      (if s \<in> set (nn_related_sectors (session_at t sp)) then removeAll t (ns_listening_sessions (sector_at s sp))
       else ns_listening_sessions (sector_at s sp))"
    "ns_owner_id (sector_at s sp') =
      (if s \<in> set (nn_related_sectors (session_at t sp)) \<and> ns_owner_id (sector_at s sp) = t then 0 else ns_owner_id (sector_at s sp))"
    "session_at t' sp' = (if t' = t then no_session else session_at t' sp)"
    "um_find (sp_sessions sp) t' \<noteq> None \<Longrightarrow> um_find (sp_sessions sp') t' \<noteq> None"
    using r by (auto simp: drop_sectors count_list_0_iff no_session_def)
qed

lemma UnsetAll_inv: "posting_inv sp \<Longrightarrow> UnsetAll ops t sp = Inr sp' \<Longrightarrow> posting_inv sp'"
  unfolding posting_inv_def using UnsetAll_at [of ops t sp sp'] by (auto split: if_splits)

section \<open>The life of a posting manager\<close>

inductive posting_step :: "'h session_ops \<Rightarrow> (Packet \<Rightarrow> u8 list) \<Rightarrow> 'h SectorPosting \<Rightarrow> 'h SectorPosting \<Rightarrow> bool"
  for ops pack where
  ps_allocate: "ns_owner_id (sector_at s sp) \<notin> set (ns_listening_sessions (sector_at s sp)) \<or> ns_owner_id (sector_at s sp) = 0 \<Longrightarrow>
     posting_step ops pack sp (AllocateSector s t sp)"
| ps_link: "posting_step ops pack sp (LinkSession t k sp)"
| ps_unlink: "UnlinkSession ops t sp = Inr sp' \<Longrightarrow> posting_step ops pack sp sp'"
| ps_listen: "posting_step ops pack sp (AddSectorListener s t sp)"
| ps_unlisten: "posting_step ops pack sp (RemoveSectorListener s t sp)"
| ps_unset: "UnsetAll ops t sp = Inr sp' \<Longrightarrow> posting_step ops pack sp sp'"
| ps_perform: "perform ops pack p sp = Inr sp' \<Longrightarrow> posting_step ops pack sp sp'"

lemma posting_inv_frame:
  "posting_inv sp \<Longrightarrow> sp_sectors sp' = sp_sectors sp \<Longrightarrow> sp_sessions sp' = sp_sessions sp \<Longrightarrow> posting_inv sp'"
  by (simp add: posting_inv_def sector_at_def session_at_def)

definition same_tables :: "'h SectorPosting \<Rightarrow> 'h SectorPosting \<Rightarrow> bool" where
  "same_tables sp sp' \<longleftrightarrow> sp_sectors sp' = sp_sectors sp \<and> sp_sessions sp' = sp_sessions sp"

lemma post_to_tables: "post_to ops pack k p sp = Inr sp' \<Longrightarrow> same_tables sp sp'"
  by (auto simp: post_to_def res_iff same_tables_def)

lemma listener_tables:
  "foldr_res (\<lambda>t sp. if P t then Inr sp else post_listener ops pack p t sp) ts sp = Inr sp' \<Longrightarrow> same_tables sp sp'"
  by (erule foldr_res_invariant)
    (auto simp: post_listener_def same_tables_def split: option.splits if_splits dest!: post_to_tables)

lemma all_listener_tables: "foldr_res (post_listener ops pack p) ts sp = Inr sp' \<Longrightarrow> same_tables sp sp'"
  using listener_tables [of "\<lambda>t. False" ops pack p ts sp sp'] by simp

lemma owner_tables: "Posting_SendToSectorOwner ops pack p s sp = Inr sp' \<Longrightarrow> same_tables sp sp'"
  by (auto simp: Posting_SendToSectorOwner_def same_tables_def split: option.splits dest!: post_to_tables)

lemma perform_tables: "perform ops pack p sp = Inr sp' \<Longrightarrow> same_tables sp sp'"
proof (cases p)
  case (SendTo t q)
  then show "perform ops pack p sp = Inr sp' \<Longrightarrow> same_tables sp sp'"
    by (auto simp: perform_def Posting_SendTo_def same_tables_def split: option.splits dest!: post_to_tables)
next
  case (SendToSector q s)
  then show "perform ops pack p sp = Inr sp' \<Longrightarrow> same_tables sp sp'"
    by (auto simp: perform_def Posting_SendToSector_def same_tables_def res_iff split: option.splits dest!: all_listener_tables)
next
  case (SendToSectorWithout i q s)
  then show "perform ops pack p sp = Inr sp' \<Longrightarrow> same_tables sp sp'"
    by (auto simp: perform_def Posting_SendToSectorWithout_def same_tables_def res_iff split: option.splits dest!: listener_tables)
qed (auto simp: perform_def same_tables_def dest: owner_tables)

lemma posting_step_inv: "posting_step ops pack sp sp' \<Longrightarrow> posting_inv sp \<Longrightarrow> posting_inv sp'"
proof (induction rule: posting_step.induct)
  case (ps_perform p sp sp')
  then show ?case using perform_tables [of ops pack p sp sp'] posting_inv_frame by (auto simp: same_tables_def)
qed (auto intro: AllocateSector_inv LinkSession_inv UnlinkSession_inv AddSectorListener_inv RemoveSectorListener_inv UnsetAll_inv)

lemma posting_steps_inv: "(posting_step ops pack)\<^sup>*\<^sup>* sp sp' \<Longrightarrow> posting_inv sp \<Longrightarrow> posting_inv sp'"
  by (induction rule: rtranclp_induct) (auto intro: posting_step_inv)

text \<open>Whatever was done before, \<^verbatim>\<open>UnsetAll\<close> leaves no trace of a target that has gone: it listens to no sector, owns no sector
  and has no session, while all other targets keep their session, their ownership and their place as listeners.\<close>

theorem unset_all_complete:
  assumes "(posting_step ops pack)\<^sup>*\<^sup>* \<lparr>sp_sectors = [], sp_sessions = [], sp_throttler = pt, sp_heap = h\<rparr> sp"
    and "UnsetAll ops t sp = Inr sp'" "t \<noteq> 0"
  shows "t \<notin> set (ns_listening_sessions (sector_at s sp')) \<and> ns_owner_id (sector_at s sp') \<noteq> t \<and> session_at t sp' = no_session \<and>
    (t' \<noteq> t \<longrightarrow> session_at t' sp' = session_at t' sp \<and>
       (t' \<in> set (ns_listening_sessions (sector_at s sp')) \<longleftrightarrow> t' \<in> set (ns_listening_sessions (sector_at s sp))) \<and>
       (t' \<noteq> 0 \<longrightarrow> (ns_owner_id (sector_at s sp') = t' \<longleftrightarrow> ns_owner_id (sector_at s sp) = t')))"
proof -
  have "posting_inv sp" by (rule posting_steps_inv [OF assms(1) empty_posting_inv])
  then have "t \<in> set (ns_listening_sessions (sector_at s sp)) \<Longrightarrow> s \<in> set (nn_related_sectors (session_at t sp))"
    "ns_owner_id (sector_at s sp) = t \<Longrightarrow> s \<in> set (nn_related_sectors (session_at t sp))"
    using assms(3) unfolding posting_inv_def by blast+
  then show ?thesis using UnsetAll_at [OF assms(2), of s] UnsetAll_at(3) [OF assms(2)] assms(3) by auto
qed

lemma sample_posting_steps:
  "(posting_step (heap_ops pack) pack)\<^sup>*\<^sup>* \<lparr>sp_sectors = [], sp_sessions = [], sp_throttler = new_PacketThrottler 0 10, sp_heap = sample_heap\<rparr>
     sample_posting"
  unfolding sample_posting_def
  by (rule rtranclp.rtrancl_into_rtrancl, rule rtranclp.rtrancl_into_rtrancl, rule rtranclp.rtrancl_into_rtrancl)
    (rule rtranclp.rtrancl_refl ps_link ps_listen)+

lemma sample_posting_unset: "\<exists>sp'. UnsetAll (heap_ops pack) 5 sample_posting = Inr sp'"
  by (simp add: UnsetAll_def UnlinkSession_def CleanUp_def Let_def sample_posting_def AddSectorListener_def LinkSession_def
      sector_at_def session_at_def put_sector_def put_session_def no_session_def key_insert_def new_PacketThrottler_def
      heap_ops_def heap_GetSessionId_def sample_heap_def sample_net_def)

theorem unset_all_complete_witness:
  "\<exists>sp'. UnsetAll (heap_ops (\<lambda>p. [7])) 5 sample_posting = Inr sp' \<and> 5 \<notin> set (ns_listening_sessions (sector_at 8 sp')) \<and>
     session_at 5 sp' = no_session"
proof -
  obtain sp' where sp': "UnsetAll (heap_ops (\<lambda>p. [7])) 5 sample_posting = Inr sp'" using sample_posting_unset by blast
  from unset_all_complete [OF sample_posting_steps this] sp' show ?thesis by auto
qed

section \<open>Who receives a broadcast\<close>

definition linked_session :: "'h SectorPosting \<Rightarrow> u64 \<Rightarrow> u64 list" where
  "linked_session sp t = (case nn_session (session_at t sp) of Some k \<Rightarrow> [k] | None \<Rightarrow> [])"

definition recipients :: "'h SectorPosting \<Rightarrow> u64 \<Rightarrow> u64 list" where
  "recipients sp s = concat (map (linked_session sp) (ns_listening_sessions (sector_at s sp)))"

lemma listener_posts:
  assumes "\<forall>t \<in> set ts. um_find (sp_sessions sp) t \<noteq> None"
  shows "foldr_res (post_listener ops pack p) ts sp =
    rbind (foldr_res (\<lambda>(k, p) (pt, h). PostPacket ops pack k p Throttle pt h) (map (\<lambda>k. (k, p)) (concat (map (linked_session sp) ts)))
             (sp_throttler sp, sp_heap sp)) (\<lambda>(pt, h). Inr (sp\<lparr>sp_throttler := pt, sp_heap := h\<rparr>))"
  using assms
proof (induction ts arbitrary: sp)
  case (Cons t ts)
  obtain i where i: "um_find (sp_sessions sp) t = Some i" using Cons.prems by auto
  then have at: "session_at t sp = i" by (simp add: session_at_def)
  show ?case
  proof (cases "nn_session i")
    case None
    then show ?thesis using Cons i at by (simp add: post_listener_def linked_session_def)
  next
    case (Some k)
    let ?r = "PostPacket ops pack k p Throttle (sp_throttler sp) (sp_heap sp)"
    show ?thesis
    proof (cases ?r)
      case (Inl e)
      then show ?thesis using i at Some by (simp add: post_listener_def linked_session_def post_to_def)
    next
      case (Inr x)
      obtain pt h where x: "x = (pt, h)" by (cases x)
      let ?sp = "sp\<lparr>sp_throttler := pt, sp_heap := h\<rparr>"
      have "linked_session ?sp = linked_session sp" by (simp add: linked_session_def fun_eq_iff)
      then show ?thesis using Cons.IH [of ?sp] Cons.prems i at Some Inr x
        by (simp add: post_listener_def linked_session_def [of sp t] post_to_def)
    qed
  qed
qed simp

lemma filter_same: "filter (\<lambda>x. fst x = k) (map (\<lambda>k. (k, p)) ks) = replicate (count_list ks k) (k, p)"
  by (induction ks) auto

text \<open>C6. A packet broadcast to a sector, followed by a flush, reaches every listener whose session is linked, exactly once and
  framed, and no other session. The sector, its listeners and their sessions may be any that the manager's operations can set up;
  each recipient needs a free write buffer that the packet fits.\<close>

theorem broadcast_reaches_listeners:
  assumes "(posting_step (heap_ops pack) pack)\<^sup>*\<^sup>* \<lparr>sp_sectors = [], sp_sessions = [], sp_throttler = pt0, sp_heap = h0\<rparr> sp"
    and "pt_throttle_data (sp_throttler sp) = []" "12 + length (pack packet) \<le> unat capacity"
    and "\<forall>k \<in> set (recipients sp s). heap_ready capacity (count_list (recipients sp s) k) k (sp_heap sp)"
  shows "\<exists>sp' pt h. Posting_SendToSector (heap_ops pack) pack packet s False sp = Inr sp' \<and>
    ForceFlushPacket (heap_ops pack) (sp_throttler sp') (sp_heap sp') = Inr (pt, h) \<and>
    (\<forall>k. heap_sent h k = heap_sent (sp_heap sp) k @ concat (replicate (count_list (recipients sp s) k) (frame pack (packet, None'))))"
proof -
  let ?posts = "map (\<lambda>k. (k, packet)) (recipients sp s)"
  have inv: "posting_inv sp" by (rule posting_steps_inv [OF assms(1) empty_posting_inv])
  have only: "filter (\<lambda>x. fst x = k) ?posts = replicate (count_list (recipients sp s) k) (k, packet)" for k
    by (rule filter_same)
  have "\<exists>pt1 h1 pt2 h2. foldr_res (\<lambda>(k, p) (pt, h). PostPacket (heap_ops pack) pack k p Throttle pt h) ?posts (sp_throttler sp, sp_heap sp) =
      Inr (pt1, h1) \<and> ForceFlushPacket (heap_ops pack) pt1 h1 = Inr (pt2, h2) \<and> pt_throttle_data pt2 = [] \<and>
      (\<forall>k. heap_sent h2 k = heap_sent (sp_heap sp) k @ concat (map (\<lambda>x. frame pack (snd x, None')) (filter (\<lambda>x. fst x = k) ?posts)))"
    by (rule heap.posts_then_flush) (use assms(2-4) in \<open>auto simp: only image_image\<close>)
  then obtain pt1 h1 pt2 h2 where r: "foldr_res (\<lambda>(k, p) (pt, h). PostPacket (heap_ops pack) pack k p Throttle pt h) ?posts
      (sp_throttler sp, sp_heap sp) = Inr (pt1, h1)" "ForceFlushPacket (heap_ops pack) pt1 h1 = Inr (pt2, h2)"
      "\<forall>k. heap_sent h2 k = heap_sent (sp_heap sp) k @ concat (map (\<lambda>x. frame pack (snd x, None')) (filter (\<lambda>x. fst x = k) ?posts))"
    by (elim exE conjE) (rule that)
  show ?thesis
  proof (cases "um_find (sp_sectors sp) s")
    case None
    then have none: "recipients sp s = []" by (simp add: recipients_def sector_at_def no_sector_def)
    then show ?thesis using None r assms(2) by (auto simp: Posting_SendToSector_def ForceFlushPacket_def)
  next
    case (Some i)
    then have i: "sector_at s sp = i" by (simp add: sector_at_def)
    have "\<forall>t \<in> set (ns_listening_sessions i). um_find (sp_sessions sp) t \<noteq> None" using inv i unfolding posting_inv_def by blast
    from listener_posts [OF this, of "heap_ops pack" pack packet] r(1) i
    have "Posting_SendToSector (heap_ops pack) pack packet s False sp = Inr (sp\<lparr>sp_throttler := pt1, sp_heap := h1\<rparr>)"
      using Some by (simp add: Posting_SendToSector_def recipients_def)
    then show ?thesis using r(2,3) by (auto simp: only)
  qed
qed

theorem broadcast_reaches_listeners_witness:
  "recipients sample_posting 7 = [1] \<and>
   (\<exists>sp' pt h. Posting_SendToSector (heap_ops (\<lambda>p. [7])) (\<lambda>p. [7]) (P_session_close_rq 0) 7 False sample_posting = Inr sp' \<and>
      ForceFlushPacket (heap_ops (\<lambda>p. [7])) (sp_throttler sp') (sp_heap sp') = Inr (pt, h) \<and>
      heap_sent h 1 = heap_sent sample_heap 1 @ frame (\<lambda>p. [7]) (P_session_close_rq 0, None'))"
proof -
  have r: "recipients sample_posting 7 = [1]" "pt_throttle_data (sp_throttler sample_posting) = []" "sp_heap sample_posting = sample_heap"
    by (simp_all add: recipients_def linked_session_def sample_posting_def AddSectorListener_def LinkSession_def Let_def
        sector_at_def session_at_def put_sector_def put_session_def no_sector_def no_session_def key_insert_def new_PacketThrottler_def)
  have ready: "\<forall>k \<in> set (recipients sample_posting 7). heap_ready 20 (count_list (recipients sample_posting 7) k) k (sp_heap sample_posting)"
    by (simp add: r heap_ready_def sample_heap_def sample_net_def)
  obtain sp' pt h where "Posting_SendToSector (heap_ops (\<lambda>p. [7])) (\<lambda>p. [7]) (P_session_close_rq 0) 7 False sample_posting = Inr sp'"
    "ForceFlushPacket (heap_ops (\<lambda>p. [7])) (sp_throttler sp') (sp_heap sp') = Inr (pt, h)"
    "\<forall>k. heap_sent h k = heap_sent (sp_heap sample_posting) k @
       concat (replicate (count_list (recipients sample_posting 7) k) (frame (\<lambda>p. [7]) (P_session_close_rq 0, None')))"
    using broadcast_reaches_listeners [where pack = "\<lambda>p. [7]" and packet = "P_session_close_rq 0" and s = 7, OF sample_posting_steps r(2) _ ready]
    by (auto intro: that)
  then show ?thesis using r by (intro conjI exI) auto
qed

end
