(* ===== verification/Supervisor.thy ===== *)
theory Supervisor
  imports Protocol Timing
begin

text \<open>
  The supervisor process: \<^verbatim>\<open>supervisor/SupervisorWorker.h\<close>, \<^verbatim>\<open>SupervisorWorker.cpp\<close> and the
  configurations of \<^verbatim>\<open>Config.h\<close>.

  A session is named by its identifier; \<open>sv_user_data\<close> is the \<^verbatim>\<open>SessionDataKey::ServerId\<close> entry of
  the sessions' user data (0 when unset, as \<^verbatim>\<open>GetUserData\<close> reads through \<^verbatim>\<open>operator[]\<close>). What is sent
  on sessions is recorded in \<open>sv_out\<close>. \<open>now\<close> is the reading of the clock. The member \<^verbatim>\<open>key\<close> of
  \<^verbatim>\<open>ManagedServerInfo\<close> is never read and left out. An \<^verbatim>\<open>unordered_set\<close> of sectors is a list
  without repetitions.
\<close>

section \<open>Config.h\<close>

definition MaxSectorPerPlayServer :: nat where "MaxSectorPerPlayServer = 50"

definition AgencyServerConfig :: ServerConfig where
  "AgencyServerConfig = \<lparr>
     intra_server_listen_port = 9998,
     intra_socket_server_config = \<lparr>parallel_acceptor_count = 1, max_connectable_socket_count = 32,
       max_acceptable_socket_count = 1, worker_count = 2, read_buffer_pool_size = 256, read_buffer_capacity = 65536,
       write_buffer_pool_size = 256, write_buffer_capacity = 131072, update_tick = 250\<rparr>,
     intra_network_engine_option = \<lparr>socket_idle_timeout_ms = 180000, session_idle_timeout_ms = 180000,
       session_heartbeat_interval_ms = 1000, max_session_count = 256, use_session_reconnect = False,
       session_reconnect_timeout_ms = 0, worker_update_tick_ms = 33\<rparr>,
     user_listen_port = 9997,
     user_socket_server_config = \<lparr>parallel_acceptor_count = 4, max_connectable_socket_count = 32,
       max_acceptable_socket_count = 1024, worker_count = 2, read_buffer_pool_size = 32, read_buffer_capacity = 8192,
       write_buffer_pool_size = 16, write_buffer_capacity = 131072, update_tick = 250\<rparr>,
     user_network_engine_option = \<lparr>socket_idle_timeout_ms = 180000, session_idle_timeout_ms = 180000,
       session_heartbeat_interval_ms = 1000, max_session_count = 1024, use_session_reconnect = False,
       session_reconnect_timeout_ms = 0, worker_update_tick_ms = 33\<rparr>,
     game_config = \<lparr>game_update_tick_ms = 33, packet_batch_process_time_ms = 10, fixture_transform_cooltime_ms = 1000\<rparr>\<rparr>"

definition PlayServerConfig :: ServerConfig where
  "PlayServerConfig = \<lparr>
     intra_server_listen_port = 9999,
     intra_socket_server_config = \<lparr>parallel_acceptor_count = 2, max_connectable_socket_count = 32,
       max_acceptable_socket_count = 32, worker_count = 2, read_buffer_pool_size = 512, read_buffer_capacity = 131072,
       write_buffer_pool_size = 512, write_buffer_capacity = 131072, update_tick = 250\<rparr>,
     intra_network_engine_option = \<lparr>socket_idle_timeout_ms = 180000, session_idle_timeout_ms = 180000,
       session_heartbeat_interval_ms = 1000, max_session_count = 256, use_session_reconnect = False,
       session_reconnect_timeout_ms = 0, worker_update_tick_ms = 33\<rparr>,
     user_listen_port = 0,
     user_socket_server_config = \<lparr>parallel_acceptor_count = 1, max_connectable_socket_count = 256,
       max_acceptable_socket_count = 1024, worker_count = 2, read_buffer_pool_size = 8, read_buffer_capacity = 65536,
       write_buffer_pool_size = 8, write_buffer_capacity = 65536, update_tick = 0\<rparr>,
     user_network_engine_option = \<lparr>socket_idle_timeout_ms = 5000, session_idle_timeout_ms = 5000,
       session_heartbeat_interval_ms = 2000, max_session_count = 64, use_session_reconnect = False,
       session_reconnect_timeout_ms = 30000, worker_update_tick_ms = 500\<rparr>,
     game_config = \<lparr>game_update_tick_ms = 33, packet_batch_process_time_ms = 10, fixture_transform_cooltime_ms = 1000\<rparr>\<rparr>"

section \<open>State\<close>

definition SUPERVISOR_SERVER_ID :: u64 where "SUPERVISOR_SERVER_ID = 1"

record ManagedSectorInfo =
  ms_sector_id :: u64
  ms_grid_index :: Indexer2
  ms_owner_server_id :: u64

record ManagedServerInfo =
  mg_session :: u64
  mg_server_info :: ServerInfo
  mg_sector_list :: "u64 list"

datatype sv_event = SvSend u64 Packet ErrorCode | SvDisconnect u64

record Supervisor =
  sv_current_server_id :: u64
  sv_server_port :: u16
  sv_sector_info :: "(u64, ManagedSectorInfo) umap"
  sv_managed_server_list :: "(u64, ManagedServerInfo) umap"
  sv_blocked_server_list :: "(u64, ServerInfo) umap"
  sv_recoverying_server_list :: "(u64, ServerInfo) umap"
  sv_recovery_countdown :: Countdown
  sv_initial_delay :: "Countdown option"
  sv_user_data :: "(u64, u64) umap"
  sv_out :: "sv_event list"

definition new_Supervisor :: "int \<Rightarrow> Supervisor" where
  "new_Supervisor now = \<lparr>
     sv_current_server_id = SUPERVISOR_SERVER_ID + 1, sv_server_port = 11001,
     sv_sector_info = map (\<lambda>s. (si_sector_id s, \<lparr>ms_sector_id = si_sector_id s, ms_grid_index = si_grid_index s,
                                 ms_owner_server_id = 0\<rparr>)) (concat SectorGrid),
     sv_managed_server_list = [], sv_blocked_server_list = [], sv_recoverying_server_list = [],
     sv_recovery_countdown = new_Countdown now 9999999999999, sv_initial_delay = None,
     sv_user_data = [], sv_out = []\<rparr>"

section \<open>Operations\<close>

definition sv_emit :: "sv_event \<Rightarrow> Supervisor \<Rightarrow> Supervisor" where
  "sv_emit e sv = sv\<lparr>sv_out := sv_out sv @ [e]\<rparr>"

definition Session_ServerId :: "u64 \<Rightarrow> Supervisor \<Rightarrow> u64" where
  "Session_ServerId session sv = um_get 0 session (sv_user_data sv)"

text \<open>\<^verbatim>\<open>BroadcastPacket(packets...)\<close>: every packet, in order, to every managed server.\<close>

definition BroadcastPacket :: "Packet list \<Rightarrow> Supervisor \<Rightarrow> Supervisor" where
  "BroadcastPacket packets sv = sv\<lparr>sv_out := sv_out sv @
     concat (map (\<lambda>(k, server). map (\<lambda>p. SvSend (mg_session server) p None') packets) (sv_managed_server_list sv))\<rparr>"

definition MakeUpdateIntraServerPacket :: "Supervisor \<Rightarrow> packet_update_intra_server_info_ps" where
  "MakeUpdateIntraServerPacket sv =
    \<lparr>ui_joined_server_info = map (\<lambda>(k, server). mg_server_info server) (sv_managed_server_list sv),
     ui_leaved_server_info = []\<rparr>"

definition MakeSectorAllocationPacket :: "Supervisor \<Rightarrow> packet_sector_allocation_ps" where
  "MakeSectorAllocationPacket sv =
    \<lparr>sal_allocation_info = concat (map (\<lambda>(k, server).
        map (\<lambda>s. \<lparr>al_server_info = mg_server_info server, al_sector_id = s\<rparr>) (mg_sector_list server)) (sv_managed_server_list sv)),
     sal_deallocation_info = []\<rparr>"

definition server_id_used :: "u64 \<Rightarrow> Supervisor \<Rightarrow> bool" where
  "server_id_used k sv \<longleftrightarrow> um_find (sv_managed_server_list sv) k \<noteq> None \<or> um_find (sv_blocked_server_list sv) k \<noteq> None \<or>
     um_find (sv_recoverying_server_list sv) k \<noteq> None"

partial_function (option) GetNextServerId :: "Supervisor \<Rightarrow> (u64 \<times> Supervisor) option" where
  "GetNextServerId sv =
    (let server_id = sv_current_server_id sv; sv' = sv\<lparr>sv_current_server_id := server_id + 1\<rparr> in
     if \<not> server_id_used server_id sv' then Some (server_id, sv') else GetNextServerId sv')"

declare GetNextServerId.simps [code]

text \<open>The search of \<^verbatim>\<open>Update\<close> for the server with the fewest sectors; agencies are passed over.\<close>

fun least_loaded :: "(u64, ManagedServerInfo) umap \<Rightarrow> nat \<Rightarrow> u64 option \<Rightarrow> u64 option" where
  "least_loaded [] current_sector_count server = server"
| "least_loaded ((k, d) # rest) current_sector_count server =
    (if si_server_type (mg_server_info d) = AgencyServer then least_loaded rest current_sector_count server
     else if current_sector_count > length (mg_sector_list d) then least_loaded rest (length (mg_sector_list d)) (Some k)
     else least_loaded rest current_sector_count server)"

definition set_insert :: "u64 \<Rightarrow> u64 list \<Rightarrow> u64 list" where
  "set_insert x xs = (if x \<in> set xs then xs else xs @ [x])"

text \<open>The loop over the sectors; \<open>None\<close> when there is no play server and \<^verbatim>\<open>Update\<close> returns from it.\<close>

fun assign_sectors ::
  "u64 list \<Rightarrow> Supervisor \<Rightarrow> SectorAllocationInfo list \<Rightarrow> Supervisor \<times> SectorAllocationInfo list option" where
  "assign_sectors [] sv acc = (sv, Some acc)"
| "assign_sectors (k # ks) sv acc =
    (case um_find (sv_sector_info sv) k of
       None \<Rightarrow> assign_sectors ks sv acc
     | Some info \<Rightarrow>
       if ms_owner_server_id info \<noteq> 0 then assign_sectors ks sv acc
       else
         case least_loaded (sv_managed_server_list sv) 4294967295 None of
           None \<Rightarrow> (sv, None)
         | Some srv \<Rightarrow>
           (case um_find (sv_managed_server_list sv) srv of
              None \<Rightarrow> (sv, None)
            | Some server \<Rightarrow>
              if length (mg_sector_list server) \<ge> MaxSectorPerPlayServer then assign_sectors ks sv acc
              else
                let server' = server\<lparr>mg_sector_list := set_insert k (mg_sector_list server)\<rparr>;
                    sv' = sv\<lparr>sv_managed_server_list := um_set srv server' (sv_managed_server_list sv),
                             sv_sector_info := um_set k (info\<lparr>ms_owner_server_id := si_server_id (mg_server_info server)\<rparr>)
                                                 (sv_sector_info sv)\<rparr>
                in assign_sectors ks sv' (acc @ [\<lparr>al_server_info = mg_server_info server, al_sector_id = k\<rparr>])))"

definition expire_recovery :: "int \<Rightarrow> Supervisor \<Rightarrow> Supervisor" where
  "expire_recovery now sv =
    (if countdown_over now (sv_recovery_countdown sv) then
       let packet = \<lparr>ui_joined_server_info = [], ui_leaved_server_info = map snd (sv_recoverying_server_list sv)\<rparr>;
           sv1 = sv\<lparr>sv_blocked_server_list := fold (\<lambda>(k, i) m. um_set k i m) (sv_recoverying_server_list sv) (sv_blocked_server_list sv),
                    sv_recoverying_server_list := []\<rparr>;
           sv2 = BroadcastPacket [P_update_intra_server_info_ps packet] sv1
       in sv2\<lparr>sv_recovery_countdown := new_Countdown now 999999999999\<rparr>
     else sv)"

definition Supervisor_Update :: "int \<Rightarrow> Supervisor \<Rightarrow> Supervisor" where
  "Supervisor_Update now sv =
    (case sv_initial_delay sv of
       None \<Rightarrow> sv
     | Some c \<Rightarrow>
       if \<not> countdown_over now c then sv
       else
         (case assign_sectors (um_keys (sv_sector_info sv)) (expire_recovery now sv) [] of
            (sv2, None) \<Rightarrow> sv2
          | (sv2, Some allocation) \<Rightarrow>
              if allocation \<noteq> [] then
                BroadcastPacket [P_sector_allocation_ps \<lparr>sal_allocation_info = allocation, sal_deallocation_info = []\<rparr>] sv2
              else sv2))"

definition Supervisor_OnSocketSessionClosed :: "u64 \<Rightarrow> Supervisor \<Rightarrow> Supervisor res" where
  "Supervisor_OnSocketSessionClosed session sv =
    (let server_id = Session_ServerId session sv in
     if server_id = 0 then Inr sv
     else
       case um_find (sv_managed_server_list sv) server_id of
         None \<Rightarrow> Inl AssertFail
       | Some server \<Rightarrow>
         let intra = \<lparr>ui_joined_server_info = [], ui_leaved_server_info = [mg_server_info server]\<rparr>;
             alloc = \<lparr>sal_allocation_info = [],
                      sal_deallocation_info = map (\<lambda>s. \<lparr>al_server_info = mg_server_info server, al_sector_id = s\<rparr>) (mg_sector_list server)\<rparr>;
             default = \<lparr>ms_sector_id = INVALID_SECTOR, ms_grid_index = indexer 0 0, ms_owner_server_id = 0\<rparr>;
             sectors = fold (\<lambda>s m. um_set s ((um_get default s m)\<lparr>ms_owner_server_id := 0\<rparr>) m) (mg_sector_list server) (sv_sector_info sv);
             sv1 = sv\<lparr>sv_sector_info := sectors, sv_managed_server_list := um_erase server_id (sv_managed_server_list sv)\<rparr>
         in Inr (BroadcastPacket [P_sector_allocation_ps alloc, P_update_intra_server_info_ps intra] sv1))"

definition OnServerLoadServerConfig :: "ServerConfig \<Rightarrow> u64 \<Rightarrow> ServerType \<Rightarrow> Supervisor \<Rightarrow> Supervisor" where
  "OnServerLoadServerConfig garbage_config session server_type sv =
    (case server_type of
       AgencyServer \<Rightarrow> sv_emit (SvSend session (P_load_server_config_rs AgencyServerConfig) None') sv
     | PlayServer \<Rightarrow>
         sv_emit (SvSend session (P_load_server_config_rs (PlayServerConfig\<lparr>intra_server_listen_port := sv_server_port sv\<rparr>)) None')
           (sv\<lparr>sv_server_port := sv_server_port sv + 1\<rparr>)
     | SupervisorServer \<Rightarrow> sv_emit (SvSend session (P_load_server_config_rs garbage_config) None') sv)"

text \<open>\<open>garbage_key\<close> is the uninitialised \<^verbatim>\<open>auth_key\<close> of the response.\<close>

definition OnServerRegisterMinionServerReq ::
  "u8 list \<Rightarrow> int \<Rightarrow> u64 \<Rightarrow> packet_register_minion_server_rq \<Rightarrow> Supervisor \<Rightarrow> Supervisor option" where
  "OnServerRegisterMinionServerReq garbage_key now session packet sv =
    (if Session_ServerId session sv \<noteq> 0 then Some (sv_emit (SvDisconnect session) sv)
     else
       map_option (\<lambda>(server_id, sv1).
         let info = \<lparr>si_server_type = rm_server_type packet, si_server_id = server_id, si_address = rm_address packet\<rparr>;
             sv2 = sv1\<lparr>sv_user_data := um_set session server_id (sv_user_data sv1)\<rparr>;
             sv3 = sv_emit (SvSend session (P_sector_allocation_ps (MakeSectorAllocationPacket sv2)) None')
                    (sv_emit (SvSend session (P_update_intra_server_info_ps (MakeUpdateIntraServerPacket sv2)) None')
                      (sv_emit (SvSend session (P_register_minion_server_rs
                         \<lparr>rms_server_info = info, rms_auth_key = garbage_key\<rparr>) None') sv2));
             sv4 = BroadcastPacket [P_update_intra_server_info_ps
                     \<lparr>ui_joined_server_info = [info], ui_leaved_server_info = []\<rparr>] sv3;
             sv5 = sv4\<lparr>sv_managed_server_list := um_set server_id
                     \<lparr>mg_session = session, mg_server_info = info, mg_sector_list = []\<rparr> (sv_managed_server_list sv4)\<rparr>
         in if sv_initial_delay sv5 = None then sv5\<lparr>sv_initial_delay := Some (new_Countdown now 2000)\<rparr> else sv5)
       (GetNextServerId sv))"

definition OnServerRecoveryMinionServerReq ::
  "u8 \<Rightarrow> int \<Rightarrow> u64 \<Rightarrow> packet_recovery_minion_server_rq \<Rightarrow> Supervisor \<Rightarrow> Supervisor" where
  "OnServerRecoveryMinionServerReq garbage now session packet sv =
    (let info = rec_server_info packet; srv = si_server_id info;
         failed = sv_emit (SvSend session (P_recovery_minion_server_rs garbage) RecoveryFailed) sv in
     if srv \<le> SUPERVISOR_SERVER_ID then failed
     else if um_find (sv_managed_server_list sv) srv \<noteq> None then failed
     else if si_server_type info \<noteq> PlayServer \<and> rec_sectors packet \<noteq> [] then failed
     else if \<exists>s \<in> set (rec_sectors packet). case um_find (sv_sector_info sv) s of None \<Rightarrow> True | Some i \<Rightarrow> ms_owner_server_id i \<noteq> 0 then failed
     else if um_find (sv_blocked_server_list sv) srv \<noteq> None then failed
     else
       let sv1 = sv\<lparr>sv_recoverying_server_list := um_erase srv (sv_recoverying_server_list sv)\<rparr>;
           missing = filter (\<lambda>i. um_find (sv_managed_server_list sv) (si_server_id i) = None) (rec_intra_servers packet);
           sv2 = sv1\<lparr>sv_recoverying_server_list := fold (\<lambda>i m. um_set (si_server_id i) i m) missing (sv_recoverying_server_list sv1),
                     sv_recovery_countdown := (if missing = [] then sv_recovery_countdown sv1 else new_Countdown now 30000)\<rparr>;
           default = \<lparr>ms_sector_id = INVALID_SECTOR, ms_grid_index = indexer 0 0, ms_owner_server_id = 0\<rparr>;
           sv3 = sv2\<lparr>sv_sector_info := fold (\<lambda>s m. um_set s ((um_get default s m)\<lparr>ms_owner_server_id := srv\<rparr>) m)
                                         (rec_sectors packet) (sv_sector_info sv2),
                     sv_user_data := um_set session srv (sv_user_data sv2),
                     sv_managed_server_list := um_set srv \<lparr>mg_session = session, mg_server_info = info, mg_sector_list = []\<rparr>
                                                 (sv_managed_server_list sv2)\<rparr>;
           alloc = map (\<lambda>s. \<lparr>al_server_info = info, al_sector_id = s\<rparr>) (rec_sectors packet);
           sv4 = BroadcastPacket
                   [P_update_intra_server_info_ps \<lparr>ui_joined_server_info = [info], ui_leaved_server_info = []\<rparr>,
                    P_sector_allocation_ps \<lparr>sal_allocation_info = alloc, sal_deallocation_info = []\<rparr>]
                   (sv_emit (SvSend session (P_recovery_minion_server_rs 0) None') sv3)
       in if sv_initial_delay sv4 = None then sv4\<lparr>sv_initial_delay := Some (new_Countdown now 5000)\<rparr> else sv4)"

text \<open>\<^verbatim>\<open>OnSocketSessionData\<close>: the type of the header and what its body deserialises to; other types are ignored.\<close>

definition Supervisor_OnSocketSessionData ::
  "ServerConfig \<Rightarrow> u8 list \<Rightarrow> u8 \<Rightarrow> int \<Rightarrow> u64 \<Rightarrow> PacketType option \<Rightarrow> Packet option \<Rightarrow> Supervisor \<Rightarrow> Supervisor option" where
  "Supervisor_OnSocketSessionData gcfg gkey g now session t p sv =
    (if Session_ServerId session sv \<noteq> 0 then Some (sv_emit (SvDisconnect session) sv)
     else if t = Some T_load_server_config_rq then
       (case p of Some (P_load_server_config_rq ty) \<Rightarrow> Some (OnServerLoadServerConfig gcfg session ty sv)
        | _ \<Rightarrow> Some (sv_emit (SvDisconnect session) sv))
     else if t = Some T_register_minion_server_rq then
       (case p of Some (P_register_minion_server_rq r) \<Rightarrow> OnServerRegisterMinionServerReq gkey now session r sv
        | _ \<Rightarrow> Some (sv_emit (SvDisconnect session) sv))
     else if t = Some T_recovery_minion_server_rq then
       (case p of Some (P_recovery_minion_server_rq r) \<Rightarrow> Some (OnServerRecoveryMinionServerReq g now session r sv)
        | _ \<Rightarrow> Some (sv_emit (SvDisconnect session) sv))
     else Some sv)"

section \<open>Server identifiers\<close>

lemma GetNextServerId_after:
  assumes "\<forall>i < n. server_id_used (sv_current_server_id sv + of_nat i) sv" "\<not> server_id_used (sv_current_server_id sv + of_nat n) sv"
  shows "GetNextServerId sv = Some (sv_current_server_id sv + of_nat n,
    sv\<lparr>sv_current_server_id := sv_current_server_id sv + of_nat n + 1\<rparr>)"
  using assms
proof (induction n arbitrary: sv)
  case 0
  then show ?case by (subst GetNextServerId.simps) (simp add: server_id_used_def Let_def)
next
  case (Suc n)
  let ?sv = "sv\<lparr>sv_current_server_id := sv_current_server_id sv + 1\<rparr>"
  have used: "server_id_used k ?sv = server_id_used k sv" for k by (simp add: server_id_used_def)
  have shift: "sv_current_server_id ?sv + of_nat i = sv_current_server_id sv + of_nat (Suc i)" for i by simp
  have "\<forall>i < n. server_id_used (sv_current_server_id ?sv + of_nat i) ?sv"
    "\<not> server_id_used (sv_current_server_id ?sv + of_nat n) ?sv"
    using Suc.prems unfolding used shift by auto
  note next_id = Suc.IH [OF this, unfolded shift]
  have "server_id_used (sv_current_server_id sv) sv" using Suc.prems(1) by (auto dest: spec [of _ 0])
  then have "GetNextServerId sv = GetNextServerId ?sv" by (subst GetNextServerId.simps) (simp add: used Let_def)
  then show ?case unfolding next_id by simp
qed

lemma used_ids_finite: "{k. server_id_used k sv} \<subseteq>
  fst ` set (sv_managed_server_list sv) \<union> fst ` set (sv_blocked_server_list sv) \<union> fst ` set (sv_recoverying_server_list sv)"
  by (auto simp: server_id_used_def um_find_None_iff)

text \<open>C27. \<^verbatim>\<open>GetNextServerId\<close> returns as long as not all 64-bit identifiers are taken, and what it returns is neither a
  managed nor a blocked nor a recovering server.\<close>

theorem next_server_id_fresh:
  assumes "length (sv_managed_server_list sv) + length (sv_blocked_server_list sv) + length (sv_recoverying_server_list sv) < 2 ^ 64"
  shows "\<exists>k sv'. GetNextServerId sv = Some (k, sv') \<and> \<not> server_id_used k sv \<and>
    sv_managed_server_list sv' = sv_managed_server_list sv"
proof -
  let ?id = "\<lambda>i. sv_current_server_id sv + of_nat i"
  have "\<exists>n. \<not> server_id_used (?id n) sv"
  proof (rule ccontr)
    assume "\<nexists>n. \<not> server_id_used (?id n) sv"
    then have "server_id_used (sv_current_server_id sv + of_nat (unat (k - sv_current_server_id sv))) sv" for k by blast
    then have "server_id_used k sv" for k by simp
    then have "{k. server_id_used k sv} = (UNIV :: u64 set)" by blast
    then have "card (UNIV :: u64 set) \<le> card (fst ` set (sv_managed_server_list sv) \<union> fst ` set (sv_blocked_server_list sv) \<union>
        fst ` set (sv_recoverying_server_list sv))"
      using used_ids_finite [of sv] by (intro card_mono) auto
    also have "\<dots> \<le> card (fst ` set (sv_managed_server_list sv)) + card (fst ` set (sv_blocked_server_list sv)) +
        card (fst ` set (sv_recoverying_server_list sv))"
      by (meson add_le_mono1 card_Un_le order_trans)
    also have "\<dots> \<le> length (sv_managed_server_list sv) + length (sv_blocked_server_list sv) + length (sv_recoverying_server_list sv)"
      by (intro add_mono) (metis card_length length_map list.set_map)+
    finally show False using assms by (simp add: card_word)
  qed
  then obtain n where n: "\<not> server_id_used (?id n) sv" "\<forall>i < n. server_id_used (?id i) sv"
    using exists_least_iff [of "\<lambda>n. \<not> server_id_used (?id n) sv"] by auto
  show ?thesis using GetNextServerId_after [OF n(2,1)] n(1) by auto
qed

theorem next_server_id_fresh_witness:
  "\<exists>k sv'. GetNextServerId (new_Supervisor 0) = Some (k, sv') \<and> \<not> server_id_used k (new_Supervisor 0)"
  using next_server_id_fresh [of "new_Supervisor 0"] by (auto simp: new_Supervisor_def)

section \<open>Ownership\<close>

abbreviation managed :: "Supervisor \<Rightarrow> u64 \<Rightarrow> ManagedServerInfo option" where
  "managed sv \<equiv> um_find (sv_managed_server_list sv)"

definition sector_owner :: "Supervisor \<Rightarrow> u64 \<Rightarrow> u64 option" where
  "sector_owner sv s = map_option ms_owner_server_id (um_find (sv_sector_info sv) s)"

definition all_sector_ids :: "u64 list" where
  "all_sector_ids = map si_sector_id (concat SectorGrid)"

text \<open>The sectors of a server are exactly those recorded as owned by it, owners exist, and a session carries the
  identifier of the server it belongs to.\<close>

definition ownership :: "(u64 \<Rightarrow> ManagedServerInfo option) \<Rightarrow> (u64 \<Rightarrow> u64 option) \<Rightarrow> (u64 \<Rightarrow> u64) \<Rightarrow> bool" where
  "ownership M O' U \<longleftrightarrow>
     (\<forall>k m. M k = Some m \<longrightarrow> k \<noteq> 0 \<and> si_server_id (mg_server_info m) = k \<and> distinct (mg_sector_list m) \<and>
        (\<forall>s. s \<in> set (mg_sector_list m) \<longleftrightarrow> O' s = Some k) \<and> U (mg_session m) = k) \<and>
     (\<forall>s k. O' s = Some k \<longrightarrow> k \<noteq> 0 \<longrightarrow> M k \<noteq> None) \<and>
     (\<forall>session. U session \<noteq> 0 \<longrightarrow> (\<exists>m. M (U session) = Some m \<and> mg_session m = session))"

definition sv_inv :: "Supervisor \<Rightarrow> bool" where
  "sv_inv sv \<longleftrightarrow> um_ok (sv_managed_server_list sv) \<and> um_keys (sv_sector_info sv) = all_sector_ids \<and>
     ownership (managed sv) (sector_owner sv) (\<lambda>session. Session_ServerId session sv)"

lemma ownership_server:
  assumes "ownership M O' U" "M k = Some m"
  shows "k \<noteq> 0" "si_server_id (mg_server_info m) = k" "distinct (mg_sector_list m)"
    "s \<in> set (mg_sector_list m) \<longleftrightarrow> O' s = Some k" "U (mg_session m) = k"
  using assms unfolding ownership_def by blast+

lemma ownership_give:
  assumes own: "ownership M O' U" and m: "M k = Some m" and free: "O' s = Some 0"
  shows "ownership (M(k \<mapsto> m\<lparr>mg_sector_list := set_insert s (mg_sector_list m)\<rparr>)) (O'(s \<mapsto> k)) U"
    (is "ownership ?M ?O U")
  unfolding ownership_def
proof (intro conjI allI impI)
  fix k' m' assume k': "?M k' = Some m'"
  then obtain n where n: "M k' = Some n" "m' = (if k' = k then n\<lparr>mg_sector_list := set_insert s (mg_sector_list n)\<rparr> else n)"
    using m by (auto split: if_splits)
  note srv = ownership_server [OF own n(1)]
  have "s \<notin> set (mg_sector_list n)" using srv(1) srv(4) [of s] free by simp
  then show "k' \<noteq> 0" "si_server_id (mg_server_info m') = k'" "distinct (mg_sector_list m')" "U (mg_session m') = k'"
    using srv n(2) by (auto simp: set_insert_def)
  fix s' show "s' \<in> set (mg_sector_list m') \<longleftrightarrow> ?O s' = Some k'"
    using srv(1) srv(4) [of s'] n(2) free by (auto simp: set_insert_def)
next
  fix s' k' assume "?O s' = Some k'" "k' \<noteq> 0"
  then show "?M k' \<noteq> None" using own unfolding ownership_def by (auto split: if_splits)
next
  fix session assume "U session \<noteq> 0"
  then obtain n where "M (U session) = Some n" "mg_session n = session" using own unfolding ownership_def by blast
  then show "\<exists>m. ?M (U session) = Some m \<and> mg_session m = session" using m by auto
qed

lemma ownership_join:
  assumes own: "ownership M O' U" and new: "M k = None" "k \<noteq> 0" "U session = 0" "si_server_id info = k"
  shows "ownership (M(k \<mapsto> \<lparr>mg_session = session, mg_server_info = info, mg_sector_list = []\<rparr>)) O' (U(session := k))"
proof -
  have "O' s \<noteq> Some k" for s using own new unfolding ownership_def by metis
  moreover have "mg_session m \<noteq> session" if "M k' = Some m" for k' m using own that new(3) unfolding ownership_def by metis
  moreover have "U session' \<noteq> k" for session' using own new(1,2) unfolding ownership_def by (metis option.distinct(1))
  ultimately show ?thesis using own new unfolding ownership_def by auto
qed

lemma ownership_leave:
  assumes own: "ownership M O' U" and m: "M k = Some m"
  shows "ownership (M(k := None)) (\<lambda>s. if s \<in> set (mg_sector_list m) then Some 0 else O' s) (U(mg_session m := 0))"
proof -
  have "s \<in> set (mg_sector_list m) \<longleftrightarrow> O' s = Some k" for s using own m unfolding ownership_def by metis
  moreover have "U (mg_session m) = k" "k \<noteq> 0" using own m unfolding ownership_def by metis+
  moreover have "mg_session m' \<noteq> mg_session m" if "M k' = Some m'" "k' \<noteq> k" for k' m'
    using own m that unfolding ownership_def by metis
  moreover have "U session \<noteq> k" if "session \<noteq> mg_session m" for session
    using own m that \<open>k \<noteq> 0\<close> unfolding ownership_def by (metis option.inject)
  ultimately show ?thesis using own m unfolding ownership_def by auto
qed

lemma emit_frame [simp]:
  "sv_managed_server_list (sv_emit e sv) = sv_managed_server_list sv" "sv_sector_info (sv_emit e sv) = sv_sector_info sv"
  "sv_user_data (sv_emit e sv) = sv_user_data sv" "sv_initial_delay (sv_emit e sv) = sv_initial_delay sv"
  "sv_managed_server_list (BroadcastPacket ps sv) = sv_managed_server_list sv"
  "sv_sector_info (BroadcastPacket ps sv) = sv_sector_info sv" "sv_user_data (BroadcastPacket ps sv) = sv_user_data sv"
  "sv_initial_delay (BroadcastPacket ps sv) = sv_initial_delay sv"
  by (simp_all add: sv_emit_def BroadcastPacket_def)

lemma sv_inv_frame:
  assumes inv: "sv_inv sv"
    and same: "sv_managed_server_list sv' = sv_managed_server_list sv" "sv_sector_info sv' = sv_sector_info sv"
      "sv_user_data sv' = sv_user_data sv"
  shows "sv_inv sv'"
  using inv unfolding sv_inv_def Session_ServerId_def sector_owner_def same .

lemma expire_recovery_frame [simp]:
  "sv_managed_server_list (expire_recovery now sv) = sv_managed_server_list sv"
  "sv_sector_info (expire_recovery now sv) = sv_sector_info sv" "sv_user_data (expire_recovery now sv) = sv_user_data sv"
  by (simp_all add: expire_recovery_def Let_def)

text \<open>One sector with no owner is given to a server.\<close>

definition give_sector :: "u64 \<Rightarrow> u64 \<Rightarrow> Supervisor \<Rightarrow> Supervisor" where
  "give_sector s k sv = sv\<lparr>
     sv_managed_server_list := um_set k ((the (managed sv k))\<lparr>mg_sector_list := set_insert s (mg_sector_list (the (managed sv k)))\<rparr>)
       (sv_managed_server_list sv),
     sv_sector_info := um_set s ((the (um_find (sv_sector_info sv) s))\<lparr>ms_owner_server_id := k\<rparr>) (sv_sector_info sv)\<rparr>"

lemma um_keys_set: "um_find m k = Some v \<Longrightarrow> um_keys (um_set k v' m) = um_keys m"
  by (metis option.distinct(1) update_keys um_find_None_iff list.set_map)

lemma give_sector_maps:
  assumes "managed sv k = Some m" "sector_owner sv s \<noteq> None"
  shows "managed (give_sector s k sv) = (managed sv)(k \<mapsto> m\<lparr>mg_sector_list := set_insert s (mg_sector_list m)\<rparr>)"
    "sector_owner (give_sector s k sv) = (sector_owner sv)(s \<mapsto> k)"
    "sv_user_data (give_sector s k sv) = sv_user_data sv"
    "um_keys (sv_sector_info (give_sector s k sv)) = um_keys (sv_sector_info sv)"
    "um_ok (sv_managed_server_list sv) \<Longrightarrow> um_ok (sv_managed_server_list (give_sector s k sv))"
  using assms by (auto simp: give_sector_def fun_eq_iff um_keys_set sector_owner_def)

lemma give_sector_inv:
  assumes "sv_inv sv" "managed sv k = Some m" "sector_owner sv s = Some 0"
  shows "sv_inv (give_sector s k sv)"
  using assms ownership_give [of "managed sv" "sector_owner sv" _ k m s] give_sector_maps [OF assms(2), of s]
  unfolding sv_inv_def Session_ServerId_def by auto


lemma least_loaded_mem:
  "least_loaded l c r = Some k \<Longrightarrow> r = Some k \<or> (\<exists>d. (k, d) \<in> set l \<and> si_server_type (mg_server_info d) \<noteq> AgencyServer)"
  by (induction l c r rule: least_loaded.induct) (auto split: if_splits)

lemma least_loaded_exists:
  "(k, d) \<in> set l \<Longrightarrow> si_server_type (mg_server_info d) \<noteq> AgencyServer \<Longrightarrow> length (mg_sector_list d) < c \<Longrightarrow> least_loaded l c r \<noteq> None"
proof (induction l c r rule: least_loaded.induct)
  case (2 k' d' rest c r)
  have "least_loaded rest c' (Some x) \<noteq> None" for c' x
    by (induction rest c' "Some x" arbitrary: x rule: least_loaded.induct) auto
  with 2 show ?case by (auto split: if_splits)
qed simp

abbreviation hosts_sectors :: "ManagedServerInfo \<Rightarrow> bool" where
  "hosts_sectors d \<equiv> si_server_type (mg_server_info d) \<noteq> AgencyServer"

abbreviation load :: "ManagedServerInfo \<Rightarrow> nat" where
  "load d \<equiv> length (mg_sector_list d)"

lemma least_loaded_min:
  "least_loaded l c r = Some k \<Longrightarrow>
     (\<exists>d. (k, d) \<in> set l \<and> hosts_sectors d \<and> load d < c \<and> (\<forall>x \<in> set l. hosts_sectors (snd x) \<longrightarrow> load d \<le> load (snd x)))
     \<or> (r = Some k \<and> (\<forall>x \<in> set l. hosts_sectors (snd x) \<longrightarrow> c \<le> load (snd x)))"
proof (induction l c r rule: least_loaded.induct)
  case (2 k' d' rest c r)
  consider "\<not> hosts_sectors d'" | "hosts_sectors d'" "c > load d'" | "hosts_sectors d'" "c \<le> load d'" by linarith
  then show ?case
  proof cases
    case 2
    then have "least_loaded rest (load d') (Some k') = Some k" using "2.prems" by simp
    from "2.IH"(2) [OF _ _ this] 2 show ?thesis by auto
  qed (use "2.IH" "2.prems" in auto)
qed auto


lemma all_sector_ids_length: "length all_sector_ids = 25"
  by (simp add: all_sector_ids_def SectorGrid_def)

lemma assign_sectors_Cons:
  assumes inv: "sv_inv sv"
  shows "assign_sectors (k # ks) sv acc =
    (if sector_owner sv k \<noteq> Some 0 then assign_sectors ks sv acc
     else case least_loaded (sv_managed_server_list sv) 4294967295 None of
       None \<Rightarrow> (sv, None)
     | Some srv \<Rightarrow>
         if load (the (managed sv srv)) \<ge> MaxSectorPerPlayServer then assign_sectors ks sv acc
         else assign_sectors ks (give_sector k srv sv)
                (acc @ [\<lparr>al_server_info = mg_server_info (the (managed sv srv)), al_sector_id = k\<rparr>]))"
proof (cases "sector_owner sv k = Some 0")
  case True
  then obtain i where i: "um_find (sv_sector_info sv) k = Some i" "ms_owner_server_id i = 0" by (auto simp: sector_owner_def)
  show ?thesis
  proof (cases "least_loaded (sv_managed_server_list sv) 4294967295 None")
    case None
    then show ?thesis using i True by simp
  next
    case (Some srv)
    obtain d where d: "managed sv srv = Some d"
      using least_loaded_min [OF Some] inv by (auto simp: sv_inv_def)
    have "si_server_id (mg_server_info d) = srv"
      using inv d ownership_server(2) unfolding sv_inv_def by blast
    then show ?thesis using i Some d True by (auto simp: give_sector_def Let_def)
  qed
qed (auto simp: sector_owner_def split: option.splits)

definition balanced :: "Supervisor \<Rightarrow> bool" where
  "balanced sv \<longleftrightarrow> (\<forall>k m k' m'. managed sv k = Some m \<longrightarrow> managed sv k' = Some m' \<longrightarrow> hosts_sectors m \<longrightarrow> hosts_sectors m' \<longrightarrow>
     load m \<le> load m' + 1)"

lemma load_bound:
  assumes "sv_inv sv" "managed sv k = Some m"
  shows "load m \<le> 25"
proof -
  note own = assms(1)[unfolded sv_inv_def]
  have "set (mg_sector_list m) \<subseteq> set all_sector_ids"
  proof
    fix s assume "s \<in> set (mg_sector_list m)"
    then have "sector_owner sv s = Some k" using ownership_server(4) own assms(2) by blast
    then have "s \<in> set (um_keys (sv_sector_info sv))" by (metis list.set_map map_option_is_None option.distinct(1) um_find_None_iff sector_owner_def)
    then show "s \<in> set all_sector_ids" using own by simp
  qed
  then have "card (set (mg_sector_list m)) \<le> card (set all_sector_ids)" by (rule card_mono [rotated]) simp
  also have "\<dots> \<le> length all_sector_ids" by (rule card_length)
  also have "\<dots> = 25" by (simp add: all_sector_ids_length)
  finally show ?thesis using ownership_server(3) own assms(2) by (metis distinct_card)
qed

lemma give_sector_balanced:
  assumes inv: "sv_inv sv" and bal: "balanced sv" and free: "sector_owner sv s = Some 0"
    and least: "least_loaded (sv_managed_server_list sv) c None = Some k"
  shows "balanced (give_sector s k sv)"
proof -
  obtain d where d: "managed sv k = Some d" "\<forall>x \<in> set (sv_managed_server_list sv). hosts_sectors (snd x) \<longrightarrow> load d \<le> load (snd x)"
    using least_loaded_min [OF least] inv by (auto simp: sv_inv_def)
  have min: "load d \<le> load m" if "managed sv k' = Some m" "hosts_sectors m" for k' m
    using d(2) map_of_SomeD [OF that(1)] that(2) by fastforce
  have maps: "managed (give_sector s k sv) = (managed sv)(k \<mapsto> d\<lparr>mg_sector_list := set_insert s (mg_sector_list d)\<rparr>)"
    using give_sector_maps(1) [OF d(1), of s] free by auto
  have "length (set_insert s (mg_sector_list d)) \<le> load d + 1" "load d \<le> length (set_insert s (mg_sector_list d))"
    by (auto simp: set_insert_def)
  then show ?thesis unfolding balanced_def maps
    using bal min d(1) unfolding balanced_def by (fastforce split: if_splits)
qed


definition has_host :: "Supervisor \<Rightarrow> bool" where
  "has_host sv \<longleftrightarrow> (\<exists>k m. managed sv k = Some m \<and> hosts_sectors m)"

lemma has_host_least:
  assumes "sv_inv sv" "has_host sv"
  obtains k m where "least_loaded (sv_managed_server_list sv) 4294967295 None = Some k" "managed sv k = Some m"
    "load m < MaxSectorPerPlayServer"
proof -
  obtain k m where km: "managed sv k = Some m" "hosts_sectors m" using assms(2) by (auto simp: has_host_def)
  have "load m < 4294967295" using load_bound [OF assms(1) km(1)] by simp
  from least_loaded_exists [OF map_of_SomeD [OF km(1)] km(2) this, of None]
  obtain k' where k': "least_loaded (sv_managed_server_list sv) 4294967295 None = Some k'" by blast
  obtain m' where m': "managed sv k' = Some m'" using least_loaded_min [OF k'] assms(1) by (auto simp: sv_inv_def)
  have "load m' < MaxSectorPerPlayServer" using load_bound [OF assms(1) m'] by (simp add: MaxSectorPerPlayServer_def)
  then show thesis using that k' m' by blast
qed

lemma give_sector_host:
  "managed sv k = Some m \<Longrightarrow> sector_owner sv s = Some 0 \<Longrightarrow> has_host (give_sector s k sv) = has_host sv"
proof -
  assume "managed sv k = Some m" "sector_owner sv s = Some 0"
  then have eq: "managed (give_sector s k sv) = (managed sv)(k \<mapsto> m\<lparr>mg_sector_list := set_insert s (mg_sector_list m)\<rparr>)"
    and m: "managed sv k = Some m"
    using give_sector_maps(1) [of sv k m s] by auto
  have "has_host sv" if "(managed (give_sector s k sv)) k' = Some m'" "hosts_sectors m'" for k' m'
    using that m unfolding eq has_host_def by (cases "k' = k") (auto intro: exI [of _ m] exI [of _ k'])
  moreover have "has_host (give_sector s k sv)" if "managed sv k' = Some m'" "hosts_sectors m'" for k' m'
    using that m unfolding has_host_def eq by (cases "k' = k") (auto intro: exI [of _ k'])
  ultimately show ?thesis by (metis has_host_def)
qed

lemma assign_sectors_none:
  "sv_inv sv \<Longrightarrow> \<not> has_host sv \<Longrightarrow> fst (assign_sectors ks sv acc) = sv"
proof (induction ks arbitrary: acc)
  case (Cons k ks)
  have "least_loaded (sv_managed_server_list sv) 4294967295 None = None"
    using Cons.prems least_loaded_mem [of "sv_managed_server_list sv" 4294967295 None]
    by (cases "least_loaded (sv_managed_server_list sv) 4294967295 None") (auto simp: has_host_def sv_inv_def)
  then show ?case using Cons by (simp only: assign_sectors_Cons) simp
qed simp

lemma assign_sectors_host:
  assumes "sv_inv sv" "has_host sv"
  shows "\<exists>sv' alloc. assign_sectors ks sv acc = (sv', Some alloc) \<and> sv_inv sv' \<and> (balanced sv \<longrightarrow> balanced sv') \<and>
    (\<forall>s. sector_owner sv s \<noteq> Some 0 \<longrightarrow> sector_owner sv' s = sector_owner sv s) \<and>
    (\<forall>s \<in> set ks. sector_owner sv' s \<noteq> Some 0)"
  using assms
proof (induction ks arbitrary: sv acc)
  case (Cons k ks)
  show ?case
  proof (cases "sector_owner sv k = Some 0")
    case False
    then show ?thesis using Cons.IH [OF Cons.prems, of acc] by (simp only: assign_sectors_Cons [OF Cons.prems(1)]) auto
  next
    case True
    obtain srv m where m: "least_loaded (sv_managed_server_list sv) 4294967295 None = Some srv" "managed sv srv = Some m"
      "load m < MaxSectorPerPlayServer" using has_host_least [OF Cons.prems] .
    let ?sv = "give_sector k srv sv"
    have inv: "sv_inv ?sv" using give_sector_inv [OF Cons.prems(1) m(2) True] .
    have host: "has_host ?sv" using give_sector_host [OF m(2) True] Cons.prems(2) by simp
    have bal: "balanced sv \<longrightarrow> balanced ?sv" using give_sector_balanced [OF Cons.prems(1) _ True m(1)] by blast
    have owner: "sector_owner ?sv = (sector_owner sv)(k \<mapsto> srv)" using give_sector_maps(2) [OF m(2), of k] True by auto
    have "srv \<noteq> 0" using Cons.prems(1) m(2) ownership_server(1) unfolding sv_inv_def by blast
    then have k: "sector_owner ?sv k \<noteq> Some 0" using owner by simp
    have eq: "assign_sectors (k # ks) sv acc = assign_sectors ks ?sv (acc @ [\<lparr>al_server_info = mg_server_info m, al_sector_id = k\<rparr>])"
      using m True by (simp only: assign_sectors_Cons [OF Cons.prems(1)]) simp
    from Cons.IH [OF inv host] obtain sv' alloc where
      "assign_sectors (k # ks) sv acc = (sv', Some alloc)" "sv_inv sv'" "balanced ?sv \<longrightarrow> balanced sv'"
      "\<forall>s. sector_owner ?sv s \<noteq> Some 0 \<longrightarrow> sector_owner sv' s = sector_owner ?sv s" "\<forall>s \<in> set ks. sector_owner sv' s \<noteq> Some 0"
      unfolding eq by blast
    then show ?thesis using bal k owner True by (intro exI conjI) (assumption | auto)+
  qed
qed auto

section \<open>The life of the supervisor\<close>

definition set_owner :: "u64 \<Rightarrow> u64 list \<Rightarrow> (u64, ManagedSectorInfo) umap \<Rightarrow> (u64, ManagedSectorInfo) umap" where
  "set_owner v ss m = fold (\<lambda>s m. um_set s ((um_get \<lparr>ms_sector_id = INVALID_SECTOR, ms_grid_index = indexer 0 0,
     ms_owner_server_id = 0\<rparr> s m)\<lparr>ms_owner_server_id := v\<rparr>) m) ss m"

lemma set_owner_find:
  "map_option ms_owner_server_id (um_find (set_owner v ss m) s) =
     (if s \<in> set ss then Some v else map_option ms_owner_server_id (um_find m s))"
proof (induction ss arbitrary: m)
  case (Cons x ss)
  have "set_owner v (x # ss) m = set_owner v ss (set_owner v [x] m)" by (simp add: set_owner_def)
  then show ?case using Cons by (simp add: set_owner_def)
qed (simp add: set_owner_def)

lemma set_owner_keys: "set ss \<subseteq> set (um_keys m) \<Longrightarrow> um_keys (set_owner v ss m) = um_keys m"
proof (induction ss arbitrary: m)
  case (Cons x ss)
  have x: "um_find m x \<noteq> None" using Cons.prems by (simp add: um_find_None_iff)
  have "set_owner v (x # ss) m = set_owner v ss (set_owner v [x] m)" by (simp add: set_owner_def)
  moreover have "um_keys (set_owner v [x] m) = um_keys m" using x by (auto simp: set_owner_def intro: um_keys_set)
  ultimately show ?case using Cons by (metis list.set_intros(2) subset_code(1))
qed (simp add: set_owner_def)

lemma sector_owner_known: "sv_inv sv \<Longrightarrow> sector_owner sv s = Some k \<Longrightarrow> s \<in> set (um_keys (sv_sector_info sv))"
  unfolding sector_owner_def by (metis list.set_map map_option_is_None option.distinct(1) um_find_None_iff)

lemma Session_ServerId_upd:
  "sv_user_data sv' = um_set session k (sv_user_data sv) \<Longrightarrow>
     (\<lambda>x. Session_ServerId x sv') = (\<lambda>x. Session_ServerId x sv)(session := k)"
  "sv_user_data sv' = um_erase session (sv_user_data sv) \<Longrightarrow>
     (\<lambda>x. Session_ServerId x sv') = (\<lambda>x. Session_ServerId x sv)(session := 0)"
  by (auto simp: Session_ServerId_def um_get_def)

text \<open>The session object, and its user data with it, is gone after its close handler.\<close>

definition Supervisor_session_gone :: "u64 \<Rightarrow> Supervisor \<Rightarrow> Supervisor res" where
  "Supervisor_session_gone session sv = rbind (Supervisor_OnSocketSessionClosed session sv)
     (\<lambda>sv'. Inr (sv'\<lparr>sv_user_data := um_erase session (sv_user_data sv')\<rparr>))"

lemma closed_inv:
  assumes inv: "sv_inv sv"
  shows "\<exists>sv'. Supervisor_session_gone session sv = Inr sv' \<and> sv_inv sv' \<and> sv_current_server_id sv' = sv_current_server_id sv"
proof (cases "Session_ServerId session sv = 0")
  case True
  let ?sv = "sv\<lparr>sv_user_data := um_erase session (sv_user_data sv)\<rparr>"
  have user: "(\<lambda>x. Session_ServerId x ?sv) = (\<lambda>x. Session_ServerId x sv)"
    using Session_ServerId_upd(2) [of ?sv session sv] True by auto
  have "sv_inv ?sv" using inv unfolding sv_inv_def user by (simp add: sector_owner_def [abs_def])
  then show ?thesis using True by (simp add: Supervisor_session_gone_def Supervisor_OnSocketSessionClosed_def)
next
  case False
  let ?k = "Session_ServerId session sv"
  note own = inv [unfolded sv_inv_def]
  obtain m where m: "managed sv ?k = Some m" "mg_session m = session"
    using own False unfolding ownership_def by blast
  obtain sv' where sv': "Supervisor_session_gone session sv = Inr sv'"
    "sv_managed_server_list sv' = um_erase ?k (sv_managed_server_list sv)"
    "sv_sector_info sv' = set_owner 0 (mg_sector_list m) (sv_sector_info sv)"
    "sv_user_data sv' = um_erase session (sv_user_data sv)" "sv_current_server_id sv' = sv_current_server_id sv"
    using m False by (simp add: Supervisor_session_gone_def Supervisor_OnSocketSessionClosed_def Let_def set_owner_def)
      (simp add: BroadcastPacket_def)
  have known: "set (mg_sector_list m) \<subseteq> set (um_keys (sv_sector_info sv))"
    using sector_owner_known [OF inv] ownership_server(4) own m(1) by blast
  have "managed sv' = (managed sv)(?k := None)" by (auto simp: sv'(2))
  moreover have "sector_owner sv' = (\<lambda>s. if s \<in> set (mg_sector_list m) then Some 0 else sector_owner sv s)"
    by (simp add: sector_owner_def sv'(3) set_owner_find fun_eq_iff)
  ultimately have "sv_inv sv'"
    using ownership_leave [of "managed sv", OF _ m(1)] own m(2)
    by (auto simp: sv_inv_def Session_ServerId_upd(2) [OF sv'(4)] sv'(2,3) set_owner_keys [OF known])
  then show ?thesis using sv' by blast
qed

lemma GetNextServerId_result:
  assumes "GetNextServerId sv = Some x"
  shows "managed sv (fst x) = None \<and> snd x = sv\<lparr>sv_current_server_id := fst x + 1\<rparr>"
proof (rule GetNextServerId.raw_induct [where P = "\<lambda>sv x. managed sv (fst x) = None \<and> snd x = sv\<lparr>sv_current_server_id := fst x + 1\<rparr>",
      OF _ assms])
  fix f and sv :: Supervisor and x
  let ?sv = "sv\<lparr>sv_current_server_id := sv_current_server_id sv + 1\<rparr>"
  assume IH: "\<And>sv x. f sv = Some x \<Longrightarrow> managed sv (fst x) = None \<and> snd x = sv\<lparr>sv_current_server_id := fst x + 1\<rparr>"
    and eq: "(let server_id = sv_current_server_id sv; sv' = sv\<lparr>sv_current_server_id := server_id + 1\<rparr>
      in if \<not> server_id_used server_id sv' then Some (server_id, sv') else f sv') = Some x"
  show "managed sv (fst x) = None \<and> snd x = sv\<lparr>sv_current_server_id := fst x + 1\<rparr>"
  proof (cases "server_id_used (sv_current_server_id sv) ?sv")
    case True
    then show ?thesis using eq IH [of ?sv x] by (simp add: Let_def)
  next
    case False
    then show ?thesis using eq by (auto simp: Let_def server_id_used_def)
  qed
qed

lemma join_inv:
  assumes inv: "sv_inv sv" and new: "managed sv k = None" "k \<noteq> 0" "Session_ServerId session sv = 0" "si_server_id info = k"
    and maps: "sv_managed_server_list sv' = um_set k \<lparr>mg_session = session, mg_server_info = info, mg_sector_list = []\<rparr> (sv_managed_server_list sv)"
      "sv_sector_info sv' = sv_sector_info sv" "sv_user_data sv' = um_set session k (sv_user_data sv)"
  shows "sv_inv sv'"
proof -
  have m: "managed sv' = (managed sv)(k \<mapsto> \<lparr>mg_session = session, mg_server_info = info, mg_sector_list = []\<rparr>)" by (auto simp: maps)
  have o: "sector_owner sv' = sector_owner sv" by (simp add: sector_owner_def maps fun_eq_iff)
  have ok: "um_ok (sv_managed_server_list sv')" "um_keys (sv_sector_info sv') = all_sector_ids"
    using inv by (auto simp: sv_inv_def maps)
  show ?thesis
    using ownership_join [of "managed sv" "sector_owner sv" "\<lambda>x. Session_ServerId x sv" k session info] inv ok new
    unfolding sv_inv_def m o Session_ServerId_upd(1) [OF maps(3)] by blast
qed

lemma Register_result:
  assumes "OnServerRegisterMinionServerReq gkey now session r sv = Some sv'"
  obtains (refused) "sv' = sv_emit (SvDisconnect session) sv"
  | (joined) k info where "Session_ServerId session sv = 0" "managed sv k = None" "si_server_id info = k"
      "sv_managed_server_list sv' = um_set k \<lparr>mg_session = session, mg_server_info = info, mg_sector_list = []\<rparr> (sv_managed_server_list sv)"
      "sv_sector_info sv' = sv_sector_info sv" "sv_user_data sv' = um_set session k (sv_user_data sv)"
      "sv_current_server_id sv' = k + 1"
proof (cases "Session_ServerId session sv = 0")
  case True
  then obtain k sv1 where next_id: "GetNextServerId sv = Some (k, sv1)"
    using assms by (auto simp: OnServerRegisterMinionServerReq_def)
  have k: "managed sv k = None" "sv1 = sv\<lparr>sv_current_server_id := k + 1\<rparr>" using GetNextServerId_result [OF next_id] by auto
  show thesis
    using joined [of k "\<lparr>si_server_type = rm_server_type r, si_server_id = k, si_address = rm_address r\<rparr>"] assms True next_id k
    by (auto simp: OnServerRegisterMinionServerReq_def Let_def sv_emit_def BroadcastPacket_def)
next
  case False
  then show thesis using assms refused by (simp add: OnServerRegisterMinionServerReq_def)
qed

lemma Recovery_result:
  obtains (refused) "OnServerRecoveryMinionServerReq g now session r sv =
        sv_emit (SvSend session (P_recovery_minion_server_rs g) RecoveryFailed) sv"
  | (joined) "SUPERVISOR_SERVER_ID < si_server_id (rec_server_info r)" "managed sv (si_server_id (rec_server_info r)) = None"
      "sv_managed_server_list (OnServerRecoveryMinionServerReq g now session r sv) = um_set (si_server_id (rec_server_info r))
         \<lparr>mg_session = session, mg_server_info = rec_server_info r, mg_sector_list = []\<rparr> (sv_managed_server_list sv)"
      "sv_sector_info (OnServerRecoveryMinionServerReq g now session r sv) =
         set_owner (si_server_id (rec_server_info r)) (rec_sectors r) (sv_sector_info sv)"
      "sv_user_data (OnServerRecoveryMinionServerReq g now session r sv) =
         um_set session (si_server_id (rec_server_info r)) (sv_user_data sv)"
      "sv_current_server_id (OnServerRecoveryMinionServerReq g now session r sv) = sv_current_server_id sv"
proof (cases "OnServerRecoveryMinionServerReq g now session r sv = sv_emit (SvSend session (P_recovery_minion_server_rs g) RecoveryFailed) sv")
  case False
  then have ok: "\<not> si_server_id (rec_server_info r) \<le> SUPERVISOR_SERVER_ID" "managed sv (si_server_id (rec_server_info r)) = None"
    "\<not> (si_server_type (rec_server_info r) \<noteq> PlayServer \<and> rec_sectors r \<noteq> [])"
    "\<not> (\<exists>s \<in> set (rec_sectors r). case um_find (sv_sector_info sv) s of None \<Rightarrow> True | Some i \<Rightarrow> ms_owner_server_id i \<noteq> 0)"
    "um_find (sv_blocked_server_list sv) (si_server_id (rec_server_info r)) = None"
    unfolding OnServerRecoveryMinionServerReq_def Let_def by (meson, meson, meson, meson, meson)
  show thesis
    by (rule joined) (use ok in \<open>auto simp: OnServerRecoveryMinionServerReq_def Let_def sv_emit_def BroadcastPacket_def set_owner_def\<close>)
qed (rule refused)

text \<open>What happens to the supervisor: a packet, a session that ends, a tick. A recovery that claims sectors is left out
  (\<open>recovered_sectors_orphaned\<close> shows what it breaks), and identifiers are not used up: the counter does not wrap.\<close>

definition claims_sectors :: "Packet option \<Rightarrow> bool" where
  "claims_sectors p \<longleftrightarrow> (case p of Some (P_recovery_minion_server_rq r) \<Rightarrow> rec_sectors r \<noteq> [] | _ \<Rightarrow> False)"

inductive sv_step :: "Supervisor \<Rightarrow> Supervisor \<Rightarrow> bool" where
  sv_data: "Supervisor_OnSocketSessionData gcfg gkey g now session t p sv = Some sv' \<Longrightarrow> \<not> claims_sectors p \<Longrightarrow>
     sv_current_server_id sv \<le> sv_current_server_id sv' \<Longrightarrow> sv_step sv sv'"
| sv_closed: "Supervisor_session_gone session sv = Inr sv' \<Longrightarrow> sv_step sv sv'"
| sv_update: "sv_step sv (Supervisor_Update now sv)"

abbreviation sv_good :: "Supervisor \<Rightarrow> bool" where
  "sv_good sv \<equiv> sv_inv sv \<and> 1 < sv_current_server_id sv"

lemma emit_inv [simp]:
  "sv_inv (sv_emit e sv) = sv_inv sv" "sv_inv (BroadcastPacket ps sv) = sv_inv sv"
  "sv_current_server_id (sv_emit e sv) = sv_current_server_id sv"
  "sv_current_server_id (BroadcastPacket ps sv) = sv_current_server_id sv"
  by (auto intro: sv_inv_frame simp: sv_emit_def BroadcastPacket_def)

lemma Register_good:
  assumes good: "sv_good sv" and eq: "OnServerRegisterMinionServerReq gkey now session r sv = Some sv'"
    and up: "sv_current_server_id sv \<le> sv_current_server_id sv'"
  shows "sv_good sv'"
  using eq
proof (cases rule: Register_result)
  case refused
  then show ?thesis using good by simp
next
  case (joined k info)
  have "1 < sv_current_server_id sv'" using good up by (meson less_le_trans)
  moreover from this have "k \<noteq> 0" using joined(7) by auto
  ultimately show ?thesis using join_inv [of sv k session info sv'] good joined by blast
qed

lemma Recovery_good:
  assumes good: "sv_good sv" and session: "Session_ServerId session sv = 0" and none: "rec_sectors r = []"
  shows "sv_good (OnServerRecoveryMinionServerReq g now session r sv)"
proof (cases rule: Recovery_result [of g now session r sv])
  case refused
  then show ?thesis using good by simp
next
  case joined
  have "si_server_id (rec_server_info r) \<noteq> 0" using joined(1) by (auto simp: SUPERVISOR_SERVER_ID_def)
  moreover have "sv_sector_info (OnServerRecoveryMinionServerReq g now session r sv) = sv_sector_info sv"
    using joined(4) none by (simp add: set_owner_def)
  ultimately show ?thesis
    using join_inv [of sv "si_server_id (rec_server_info r)" session "rec_server_info r"] good joined session by simp
qed

lemma assign_sectors_inv:
  assumes "sv_inv sv"
  shows "sv_inv (fst (assign_sectors ks sv acc))"
proof (cases "has_host sv")
  case True
  then show ?thesis using assign_sectors_host [OF assms True, of ks acc] by auto
qed (use assms assign_sectors_none in auto)

lemma assign_sectors_counter: "sv_current_server_id (fst (assign_sectors ks sv acc)) = sv_current_server_id sv"
  by (induction ks sv acc rule: assign_sectors.induct) (auto simp: Let_def split: option.splits)

lemma Update_good:
  assumes "sv_good sv"
  shows "sv_good (Supervisor_Update now sv)"
proof -
  have exp: "sv_inv (expire_recovery now sv)" using assms sv_inv_frame [of sv "expire_recovery now sv"] by simp
  have "sv_current_server_id (expire_recovery now sv) = sv_current_server_id sv" by (simp add: expire_recovery_def Let_def)
  then show ?thesis
    using assms assign_sectors_inv [OF exp] assign_sectors_counter
    by (auto simp: Supervisor_Update_def split: option.splits prod.splits) (metis fst_conv)+
qed

lemma sv_step_good: "sv_step sv sv' \<Longrightarrow> sv_good sv \<Longrightarrow> sv_good sv'"
proof (induction rule: sv_step.induct)
  case (sv_data gcfg gkey g now session t p sv sv')
  show ?case
  proof (cases "Session_ServerId session sv = 0")
    case False
    then show ?thesis using sv_data by (auto simp: Supervisor_OnSocketSessionData_def)
  next
    case True
    then show ?thesis using sv_data Register_good [of sv gkey now session _ sv'] Recovery_good [OF sv_data.prems True, of _ g now]
      by (auto simp: Supervisor_OnSocketSessionData_def claims_sectors_def OnServerLoadServerConfig_def
          split: if_splits option.splits Packet.splits ServerType.splits intro: sv_inv_frame)
  qed
next
  case (sv_closed session sv sv')
  then show ?case using closed_inv [of sv session] by auto
next
  case (sv_update sv now)
  then show ?case by (rule Update_good)
qed

lemma new_Supervisor_good: "sv_good (new_Supervisor now)"
  by (auto simp: sv_inv_def new_Supervisor_def all_sector_ids_def ownership_def sector_owner_def Session_ServerId_def
      SUPERVISOR_SERVER_ID_def um_get_def dest!: map_of_SomeD)

lemma new_Supervisor_fields [simp]:
  "sv_current_server_id (new_Supervisor now) = 2" "sv_managed_server_list (new_Supervisor now) = []"
  "sv_blocked_server_list (new_Supervisor now) = []" "sv_recoverying_server_list (new_Supervisor now) = []"
  "sv_user_data (new_Supervisor now) = []" "sv_initial_delay (new_Supervisor now) = None"
  by (simp_all add: new_Supervisor_def SUPERVISOR_SERVER_ID_def)


definition sample_register :: "Supervisor" where
  "sample_register = the (Supervisor_OnSocketSessionData AgencyServerConfig [] 0 0 7 (Some T_register_minion_server_rq)
     (Some (P_register_minion_server_rq \<lparr>rm_server_type = PlayServer, rm_address = \<lparr>sa_ip = [], sa_port = 9\<rparr>\<rparr>)) (new_Supervisor 0))"

lemma sample_register_eq:
  "Supervisor_OnSocketSessionData AgencyServerConfig [] 0 0 7 (Some T_register_minion_server_rq)
     (Some (P_register_minion_server_rq \<lparr>rm_server_type = PlayServer, rm_address = \<lparr>sa_ip = [], sa_port = 9\<rparr>\<rparr>)) (new_Supervisor 0) =
   Some sample_register"
  "sv_current_server_id sample_register = 3" "sv_user_data sample_register = [(7, 2)]"
  "sv_initial_delay sample_register = Some (new_Countdown 0 2000)"
  "sv_managed_server_list sample_register = [(2, \<lparr>mg_session = 7,
     mg_server_info = \<lparr>si_server_type = PlayServer, si_server_id = 2, si_address = \<lparr>sa_ip = [], sa_port = 9\<rparr>\<rparr>, mg_sector_list = []\<rparr>)]"
proof -
  have next_id: "GetNextServerId (new_Supervisor 0) = Some (2, (new_Supervisor 0)\<lparr>sv_current_server_id := 3\<rparr>)"
    by (subst GetNextServerId.simps) (simp add: server_id_used_def)
  note unfold = sample_register_def Supervisor_OnSocketSessionData_def OnServerRegisterMinionServerReq_def Session_ServerId_def
    um_get_def next_id Let_def sv_emit_def BroadcastPacket_def
  show "Supervisor_OnSocketSessionData AgencyServerConfig [] 0 0 7 (Some T_register_minion_server_rq)
     (Some (P_register_minion_server_rq \<lparr>rm_server_type = PlayServer, rm_address = \<lparr>sa_ip = [], sa_port = 9\<rparr>\<rparr>)) (new_Supervisor 0) =
     Some sample_register"
    "sv_current_server_id sample_register = 3" "sv_user_data sample_register = [(7, 2)]"
    "sv_initial_delay sample_register = Some (new_Countdown 0 2000)"
    "sv_managed_server_list sample_register = [(2, \<lparr>mg_session = 7,
     mg_server_info = \<lparr>si_server_type = PlayServer, si_server_id = 2, si_address = \<lparr>sa_ip = [], sa_port = 9\<rparr>\<rparr>, mg_sector_list = []\<rparr>)]"
    by (simp_all add: unfold)
qed

lemma sample_register_step: "sv_step (new_Supervisor 0) sample_register"
  by (rule sv_data [OF sample_register_eq(1)]) (simp_all add: claims_sectors_def sample_register_eq(2) word_le_nat_alt)




lemma sector_owner_set:
  "sector_owner (sv\<lparr>sv_managed_server_list := ms, sv_sector_info := um_set k i (sv_sector_info sv)\<rparr>) s =
     (if s = k then Some (ms_owner_server_id i) else sector_owner sv s)"
  by (simp add: sector_owner_def)

lemma assign_sectors_keeps:
  "sector_owner sv s \<noteq> Some 0 \<Longrightarrow> sector_owner (fst (assign_sectors ks sv acc)) s = sector_owner sv s"
proof (induction ks sv acc rule: assign_sectors.induct)
  case (2 k ks sv acc)
  show ?case
  proof (cases "sector_owner sv k = Some 0")
    case False
    then show ?thesis using 2 by (auto simp: sector_owner_def split: option.splits)
  next
    case True
    then have "s \<noteq> k" using 2(5) by auto
    obtain i where i: "um_find (sv_sector_info sv) k = Some i" "ms_owner_server_id i = 0" using True by (auto simp: sector_owner_def)
    show ?thesis using 2(3,4) [OF i(1)] 2(5) i(2) \<open>s \<noteq> k\<close>
      unfolding assign_sectors.simps(2) i(1) by (simp add: sector_owner_set Let_def split: option.splits)
  qed
qed simp

lemma Update_keeps:
  assumes "sector_owner sv s \<noteq> Some 0"
  shows "sector_owner (Supervisor_Update now sv) s = sector_owner sv s"
proof -
  have e: "sector_owner (expire_recovery now sv) s = sector_owner sv s" by (simp add: sector_owner_def)
  have b: "sector_owner (BroadcastPacket ps sv') s = sector_owner sv' s" for ps sv' by (simp add: sector_owner_def)
  show ?thesis
    using assign_sectors_keeps [of "expire_recovery now sv" s "um_keys (sv_sector_info sv)" "[]"] assms e
    by (auto simp: Supervisor_Update_def b split: option.splits prod.splits)
qed

text \<open>A server that recovers with sectors is recorded as their owner but they are not put into its list: when its session
  ends, they stay owned by a server that is not managed, and ticks do not give them to another server.\<close>

theorem recovered_sectors_orphaned:
  assumes "SUPERVISOR_SERVER_ID < si_server_id info" "si_server_type info = PlayServer" "managed sv (si_server_id info) = None"
    and "um_find (sv_blocked_server_list sv) (si_server_id info) = None"
    and "\<forall>s \<in> set sectors. sector_owner sv s = Some 0" "s \<in> set sectors"
  shows "\<exists>sv'. Supervisor_OnSocketSessionClosed session (OnServerRecoveryMinionServerReq g now session
        \<lparr>rec_auth_key = key, rec_server_info = info, rec_sectors = sectors, rec_intra_servers = intra\<rparr> sv) = Inr sv' \<and>
      managed sv' (si_server_id info) = None \<and> sector_owner (Supervisor_Update later sv') s = Some (si_server_id info)"
proof -
  let ?k = "si_server_id info"
  let ?r = "\<lparr>rec_auth_key = key, rec_server_info = info, rec_sectors = sectors, rec_intra_servers = intra\<rparr>"
  let ?sv = "OnServerRecoveryMinionServerReq g now session ?r sv"
  have k: "?k \<noteq> 0" using assms(1) by (auto simp: SUPERVISOR_SERVER_ID_def)
  have free: "\<not> (\<exists>s \<in> set sectors. case um_find (sv_sector_info sv) s of None \<Rightarrow> True | Some i \<Rightarrow> ms_owner_server_id i \<noteq> 0)"
    using assms(5) by (auto simp: sector_owner_def split: option.splits)
  have maps: "sv_managed_server_list ?sv = um_set ?k \<lparr>mg_session = session, mg_server_info = info, mg_sector_list = []\<rparr> (sv_managed_server_list sv)"
    "sv_sector_info ?sv = set_owner ?k sectors (sv_sector_info sv)" "sv_user_data ?sv = um_set session ?k (sv_user_data sv)"
    using assms(1-4) free
    by (auto simp: OnServerRecoveryMinionServerReq_def Let_def sv_emit_def BroadcastPacket_def set_owner_def not_le)
  have owner: "sector_owner ?sv s = Some ?k" using assms(6) by (simp add: sector_owner_def maps(2) set_owner_find)
  obtain sv' where sv': "Supervisor_OnSocketSessionClosed session ?sv = Inr sv'" "managed sv' ?k = None" "sector_owner sv' s = Some ?k"
    using k owner by (simp add: Supervisor_OnSocketSessionClosed_def Session_ServerId_def maps(1,3) Let_def sector_owner_def)
  then show ?thesis using Update_keeps [of sv' s later] k by (intro exI conjI) auto
qed

theorem recovered_sectors_orphaned_witness:
  "\<exists>sv'. Supervisor_OnSocketSessionClosed 7 (OnServerRecoveryMinionServerReq 0 0 7
        \<lparr>rec_auth_key = [], rec_server_info = \<lparr>si_server_type = PlayServer, si_server_id = 2, si_address = \<lparr>sa_ip = [], sa_port = 9\<rparr>\<rparr>,
         rec_sectors = [3], rec_intra_servers = []\<rparr> (new_Supervisor 0)) = Inr sv' \<and>
      managed sv' 2 = None \<and> sector_owner (Supervisor_Update 9000 sv') 3 = Some 2"
  using recovered_sectors_orphaned [where sv = "new_Supervisor 0" and sectors = "[3]" and s = 3 and session = 7 and g = 0 and now = 0
    and intra = "[]" and key = "[]" and later = 9000 and info = "\<lparr>si_server_type = PlayServer, si_server_id = 2, si_address = \<lparr>sa_ip = [], sa_port = 9\<rparr>\<rparr>"]
  by (simp add: SUPERVISOR_SERVER_ID_def word_less_nat_alt sector_owner_def new_Supervisor_def SectorGrid_def)

end
