(* ===== verification/GameServers.thy ===== *)
theory GameServers
  imports Posting Supervisor
begin

text \<open>
  The part that agencies and play servers share: \<^verbatim>\<open>game/GameServer.h\<close> and \<^verbatim>\<open>GameServer.cpp\<close>, with the connector
  table of \<^verbatim>\<open>engine/NetworkEngine.cpp\<close> that it drives.

  The virtual functions that a server overrides are the fields of \<open>game_vtable\<close>; its own state is \<open>gs_game\<close>.
  A \<^verbatim>\<open>UniversalSessionInfo*\<close> points to \<^verbatim>\<open>_supervisor_server_info\<close> or to an element of \<^verbatim>\<open>_active_sessions\<close>; using one whose
  element has been erased is \<open>Undefined\<close>. An \<^verbatim>\<open>IntraServerInfo*\<close> is the loopback entry or a key of
  \<^verbatim>\<open>_server_sessions\<close>. The user data of a session are \<open>gs_info_ptr\<close> (\<^verbatim>\<open>UNIVERSAL_SESSION_INFO_KEY\<close>) and \<open>gs_user_data\<close>
  (numbers, 0 when unset). Direct sends and closes of sessions are recorded in \<open>gs_out\<close>. A handler of data gets the
  header and what the body deserialises to as the type of the header.
\<close>

section \<open>State\<close>

datatype IntraServerConnectionPolicy = ConnectAll | ConnectConditional | ConnectNot

datatype IntraServerSectorListeningPolicy = ListenAll | ListenConditional | ListenNot

record IntraServerConfig =
  ic_server_type :: ServerType
  ic_connection_policy :: IntraServerConnectionPolicy
  ic_sector_listening_policy :: IntraServerSectorListeningPolicy

record UniversalSessionInfo =
  us_universal_session_id :: u64
  us_session :: "u64 option"
  us_is_authorized :: bool
  us_is_client :: bool

record IntraServerInfo = UniversalSessionInfo +
  is_server_info :: ServerInfo
  is_socket_connector_id :: u64
  is_is_connector :: bool

datatype info_ptr = SupervisorPtr | ActivePtr u64

datatype server_ptr = LoopbackPtr | ServerPtr u64

datatype gs_event = GsSend u64 Packet ErrorCode | GsClose u64 | GsConnect SocketAddress u64 | GsStreamDisconnect u64

record ('h, 'g) GameServer =
  gs_loopback :: IntraServerInfo
  gs_current_universal_session_id :: u64
  gs_supervisor :: IntraServerInfo
  gs_my_server_info :: ServerInfo
  gs_connection_config :: "(ServerType, IntraServerConfig) umap"
  gs_server_sessions :: "(u64, IntraServerInfo) umap"
  gs_active_sessions :: "(u64, UniversalSessionInfo) umap"
  gs_posting :: "'h SectorPosting"
  gs_epoch :: int
  gs_service_ready :: bool
  gs_info_ptr :: "(u64, info_ptr) umap"
  gs_user_data :: "(u64 \<times> u64, u64) umap"
  gs_connectors :: "(u64, SocketAddress \<times> u64) umap"
  gs_next_connector :: u64
  gs_out :: "gs_event list"
  gs_game :: 'g

record 's game_vtable =
  vt_OnSupervisorResetMinionServer :: "'s \<Rightarrow> 's res"
  vt_OnSupervisorSectorAllocation :: "packet_sector_allocation_ps \<Rightarrow> 's \<Rightarrow> 's res"
  vt_OnClientAccepted :: "u64 \<Rightarrow> 's \<Rightarrow> 's res"
  vt_OnClientClosed :: "u64 \<Rightarrow> 's \<Rightarrow> 's res"
  vt_OnClientAbandoned :: "u64 \<Rightarrow> 's \<Rightarrow> 's res"
  vt_OnClientAlived :: "u64 \<Rightarrow> 's \<Rightarrow> 's res"
  vt_OnClientData :: "u64 \<Rightarrow> PacketHeader \<Rightarrow> Packet option \<Rightarrow> 's \<Rightarrow> 's res"
  vt_OnIntraServerConnected :: "server_ptr \<Rightarrow> 's \<Rightarrow> 's res"
  vt_OnIntraServerAccepted :: "server_ptr \<Rightarrow> 's \<Rightarrow> 's res"
  vt_OnIntraServerClosed :: "server_ptr \<Rightarrow> 's \<Rightarrow> 's res"
  vt_OnIntraServerData :: "server_ptr \<Rightarrow> PacketHeader \<Rightarrow> Packet option \<Rightarrow> 's \<Rightarrow> 's res"
  vt_CheckIntraServerConnectivity :: "ServerType \<Rightarrow> u64 \<Rightarrow> bool"
  vt_CheckIntraServerSectorListening :: "ServerType \<Rightarrow> u64 \<Rightarrow> u64 \<Rightarrow> bool"

definition SERVER_ID_KEY :: u64 where "SERVER_ID_KEY = - 2"

definition no_info :: UniversalSessionInfo where
  "no_info = \<lparr>us_universal_session_id = 0, us_session = None, us_is_authorized = False, us_is_client = False\<rparr>"

section \<open>Access\<close>

definition gs_emit :: "gs_event \<Rightarrow> ('h, 'g) GameServer \<Rightarrow> ('h, 'g) GameServer" where
  "gs_emit e gs = gs\<lparr>gs_out := gs_out gs @ [e]\<rparr>"

definition user_data :: "u64 \<Rightarrow> u64 \<Rightarrow> ('h, 'g) GameServer \<Rightarrow> u64" where
  "user_data session key gs = um_get 0 (session, key) (gs_user_data gs)"

definition set_user_data :: "u64 \<Rightarrow> u64 \<Rightarrow> u64 \<Rightarrow> ('h, 'g) GameServer \<Rightarrow> ('h, 'g) GameServer" where
  "set_user_data session key v gs = gs\<lparr>gs_user_data := um_set (session, key) v (gs_user_data gs)\<rparr>"

definition set_info_ptr :: "u64 \<Rightarrow> info_ptr \<Rightarrow> ('h, 'g) GameServer \<Rightarrow> ('h, 'g) GameServer" where
  "set_info_ptr session p gs = gs\<lparr>gs_info_ptr := um_set session p (gs_info_ptr gs)\<rparr>"

definition deref_info :: "info_ptr \<Rightarrow> ('h, 'g) GameServer \<Rightarrow> UniversalSessionInfo res" where
  "deref_info p gs =
    (case p of
       SupervisorPtr \<Rightarrow> Inr (UniversalSessionInfo.truncate (gs_supervisor gs))
     | ActivePtr k \<Rightarrow> (case um_find (gs_active_sessions gs) k of None \<Rightarrow> Inl Undefined | Some i \<Rightarrow> Inr i))"

definition authorize_info :: "info_ptr \<Rightarrow> ('h, 'g) GameServer \<Rightarrow> ('h, 'g) GameServer" where
  "authorize_info p gs =
    (case p of
       SupervisorPtr \<Rightarrow> gs\<lparr>gs_supervisor := (gs_supervisor gs)\<lparr>us_is_authorized := True\<rparr>\<rparr>
     | ActivePtr k \<Rightarrow> gs\<lparr>gs_active_sessions := um_set k ((um_get no_info k (gs_active_sessions gs))\<lparr>us_is_authorized := True\<rparr>) (gs_active_sessions gs)\<rparr>)"

definition server_at :: "server_ptr \<Rightarrow> ('h, 'g) GameServer \<Rightarrow> IntraServerInfo option" where
  "server_at p gs = (case p of LoopbackPtr \<Rightarrow> Some (gs_loopback gs) | ServerPtr k \<Rightarrow> um_find (gs_server_sessions gs) k)"

text \<open>\<^verbatim>\<open>GetServerSession\<close>\<close>

definition GetServerSession :: "u64 \<Rightarrow> ('h, 'g) GameServer \<Rightarrow> IntraServerInfo option" where
  "GetServerSession k gs = um_find (gs_server_sessions gs) k"

definition on_posting :: "('h SectorPosting \<Rightarrow> 'h SectorPosting) \<Rightarrow> ('h, 'g) GameServer \<Rightarrow> ('h, 'g) GameServer" where
  "on_posting f gs = gs\<lparr>gs_posting := f (gs_posting gs)\<rparr>"

definition on_posting_res :: "('h SectorPosting \<Rightarrow> 'h SectorPosting res) \<Rightarrow> ('h, 'g) GameServer \<Rightarrow> ('h, 'g) GameServer res" where
  "on_posting_res f gs = rbind (f (gs_posting gs)) (\<lambda>sp. Inr (gs\<lparr>gs_posting := sp\<rparr>))"

text \<open>\<^verbatim>\<open>p->CloseSession()\<close> and \<^verbatim>\<open>p->Send(packet, error)\<close> through a session pointer.\<close>

definition close_ptr :: "u64 option \<Rightarrow> ('h, 'g) GameServer \<Rightarrow> ('h, 'g) GameServer res" where
  "close_ptr s gs = (case s of None \<Rightarrow> Inl NullDeref | Some k \<Rightarrow> Inr (gs_emit (GsClose k) gs))"

definition send_ptr :: "u64 option \<Rightarrow> Packet \<Rightarrow> ErrorCode \<Rightarrow> ('h, 'g) GameServer \<Rightarrow> ('h, 'g) GameServer res" where
  "send_ptr s p e gs = (case s of None \<Rightarrow> Inl NullDeref | Some k \<Rightarrow> Inr (gs_emit (GsSend k p e) gs))"

section \<open>Connectors of the network engine\<close>

definition RegisterConnectorSocket :: "SocketAddress \<Rightarrow> u64 \<Rightarrow> ('h, 'g) GameServer \<Rightarrow> u64 \<times> ('h, 'g) GameServer" where
  "RegisterConnectorSocket address attachment gs =
    (let k = gs_next_connector gs in
     (k, gs_emit (GsConnect address k) (gs\<lparr>gs_next_connector := k + 1, gs_connectors := um_set k (address, attachment) (gs_connectors gs)\<rparr>)))"

definition UnregisterConnectorSocket :: "u64 \<Rightarrow> ('h, 'g) GameServer \<Rightarrow> ('h, 'g) GameServer" where
  "UnregisterConnectorSocket k gs =
    (case um_find (gs_connectors gs) k of
       None \<Rightarrow> gs
     | Some _ \<Rightarrow> gs_emit (GsStreamDisconnect k) (gs\<lparr>gs_connectors := um_erase k (gs_connectors gs)\<rparr>))"

section \<open>Policies\<close>

definition IsConnector :: "'s game_vtable \<Rightarrow> ServerType \<Rightarrow> u64 \<Rightarrow> ('h, 'g) GameServer \<Rightarrow> bool" where
  "IsConnector vt server_type server_id gs =
    (case um_find (gs_connection_config gs) server_type of
       None \<Rightarrow> False
     | Some c \<Rightarrow>
       if ic_connection_policy c = ConnectConditional then vt_CheckIntraServerConnectivity vt server_type server_id
       else if ic_connection_policy c = ConnectNot then False
       else if server_type \<noteq> si_server_type (gs_my_server_info gs) then True
       else si_server_id (gs_my_server_info gs) > server_id)"

definition ListenSector :: "'s game_vtable \<Rightarrow> ServerType \<Rightarrow> u64 \<Rightarrow> ('h, 'g) GameServer \<Rightarrow> ('h, 'g) GameServer" where
  "ListenSector vt server_type server_id gs =
    (case um_find (gs_connection_config gs) server_type of
       None \<Rightarrow> gs
     | Some c \<Rightarrow>
       fold (\<lambda>sector gs.
         if (case ic_sector_listening_policy c of
               ListenConditional \<Rightarrow> vt_CheckIntraServerSectorListening vt server_type server_id (si_sector_id sector)
             | ListenNot \<Rightarrow> False
             | ListenAll \<Rightarrow> True)
         then on_posting (AddSectorListener (si_sector_id sector) server_id) gs else gs) SectorGridList gs)"

section \<open>Sessions come and go\<close>

definition new_active :: "u64 \<Rightarrow> ('h, 'g) GameServer \<Rightarrow> u64 \<times> ('h, 'g) GameServer" where
  "new_active session gs =
    (let k = gs_current_universal_session_id gs;
         info = (um_get no_info k (gs_active_sessions gs))\<lparr>us_session := Some session, us_universal_session_id := k\<rparr>
     in (k, set_info_ptr session (ActivePtr k)
              (gs\<lparr>gs_current_universal_session_id := k + 1, gs_active_sessions := um_set k info (gs_active_sessions gs)\<rparr>)))"

definition OnSupervisorConnected :: "u8 list \<Rightarrow> u64 \<Rightarrow> ('h, 'g) GameServer \<Rightarrow> ('h, 'g) GameServer" where
  "OnSupervisorConnected garbage_key session gs =
    (let sup = (gs_supervisor gs)\<lparr>us_session := Some session\<rparr>;
         gs1 = gs\<lparr>gs_supervisor := sup, gs_server_sessions := um_set SUPERVISOR_SERVER_ID sup (gs_server_sessions gs),
                  gs_active_sessions := um_set (us_universal_session_id sup) (UniversalSessionInfo.truncate sup) (gs_active_sessions gs)\<rparr>;
         gs2 = (if gs_service_ready gs1 then
                  let (sectors, sp) = GetOwnershipSectors (si_server_id (gs_my_server_info gs1)) (gs_posting gs1)
                  in gs_emit (GsSend session (P_recovery_minion_server_rq
                       \<lparr>rec_auth_key = garbage_key, rec_server_info = gs_my_server_info gs1, rec_sectors = sectors,
                        rec_intra_servers = map (\<lambda>(k, i). is_server_info i) (gs_server_sessions gs1)\<rparr>) None') (gs1\<lparr>gs_posting := sp\<rparr>)
                else
                  gs_emit (GsSend session (P_register_minion_server_rq \<lparr>rm_server_type = si_server_type (gs_my_server_info gs1),
                    rm_address = si_address (gs_my_server_info gs1)\<rparr>) None') gs1)
     in set_info_ptr session SupervisorPtr gs2)"

definition GS_OnSocketSessionConnected :: "u8 list \<Rightarrow> bool \<Rightarrow> u64 \<Rightarrow> u64 \<Rightarrow> ('h, 'g) GameServer \<Rightarrow> ('h, 'g) GameServer res" where
  "GS_OnSocketSessionConnected garbage_key from_intra_engine session attachment gs =
    assert_that from_intra_engine
      (case GetServerSession attachment gs of
         None \<Rightarrow> Inr (gs_emit (GsClose session) gs)
       | Some info \<Rightarrow>
         if si_server_type (is_server_info info) = SupervisorServer then Inr (OnSupervisorConnected garbage_key session gs)
         else
           let (_, gs1) = new_active session gs
           in Inr (gs_emit (GsSend session (P_authorize_server_rq \<lparr>as_server_type = si_server_type (gs_my_server_info gs1),
                as_server_id = si_server_id (gs_my_server_info gs1)\<rparr>) None') gs1))"

definition GS_OnSocketSessionAccepted ::
  "('h, 'g) GameServer game_vtable \<Rightarrow> bool \<Rightarrow> u64 \<Rightarrow> ('h, 'g) GameServer \<Rightarrow> ('h, 'g) GameServer res" where
  "GS_OnSocketSessionAccepted vt from_user_engine session gs =
    (let (k, gs1) = new_active session gs in
     if from_user_engine then
       if \<not> gs_service_ready gs1 then Inr (gs_emit (GsClose session) gs1)
       else
         let info = (um_get no_info k (gs_active_sessions gs1))\<lparr>us_is_client := True\<rparr>
         in vt_OnClientAccepted vt k (gs1\<lparr>gs_active_sessions := um_set k info (gs_active_sessions gs1)\<rparr>)
     else Inr gs1)"

text \<open>What \<^verbatim>\<open>OnSocketSessionClosed\<close> does for an intra-server session, before the deferred erase.\<close>

definition close_intra ::
  "'h session_ops \<Rightarrow> ('h, 'g) GameServer game_vtable \<Rightarrow> UniversalSessionInfo \<Rightarrow> ('h, 'g) GameServer \<Rightarrow> ('h, 'g) GameServer res" where
  "close_intra ops vt info gs =
    (case us_session info of
       None \<Rightarrow> Inl NullDeref
     | Some k \<Rightarrow>
       let server_id = user_data k SERVER_ID_KEY gs in
       (case GetServerSession server_id gs of
          None \<Rightarrow> Inr gs
        | Some server \<Rightarrow>
            rbind (on_posting_res (UnsetAll ops (si_server_id (is_server_info server))) gs) (\<lambda>gs1.
            if si_server_type (is_server_info server) = SupervisorServer
            then Inr (gs1\<lparr>gs_supervisor := (gs_supervisor gs1)\<lparr>us_session := None\<rparr>\<rparr>)
            else vt_OnIntraServerClosed vt (ServerPtr server_id) gs1)))"

definition GS_OnSocketSessionClosed ::
  "'h session_ops \<Rightarrow> ('h, 'g) GameServer game_vtable \<Rightarrow> u64 \<Rightarrow> ('h, 'g) GameServer \<Rightarrow> ('h, 'g) GameServer res" where
  "GS_OnSocketSessionClosed ops vt session gs =
    (case um_find (gs_info_ptr gs) session of
       None \<Rightarrow> Inr gs
     | Some p \<Rightarrow>
       rbind (on_posting_res (\<lambda>sp. rbind (CleanUp ops session (sp_throttler sp) (sp_heap sp))
                (\<lambda>(pt, h). Inr (sp\<lparr>sp_throttler := pt, sp_heap := h\<rparr>))) gs) (\<lambda>gs1.
       rbind (deref_info p gs1) (\<lambda>info.
       rbind (on_posting_res (UnsetAll ops (us_universal_session_id info)) gs1) (\<lambda>gs2.
       rbind (if us_is_client info then (case p of ActivePtr k \<Rightarrow> vt_OnClientClosed vt k gs2 | SupervisorPtr \<Rightarrow> Inr gs2)
              else close_intra ops vt info gs2) (\<lambda>gs3.
       rbind (deref_info p gs3) (\<lambda>info'.
       Inr (gs3\<lparr>gs_active_sessions := um_erase (us_universal_session_id info') (gs_active_sessions gs3)\<rparr>)))))))"

definition GS_OnSocketSessionAbandoned ::
  "('h, 'g) GameServer game_vtable \<Rightarrow> u64 \<Rightarrow> ('h, 'g) GameServer \<Rightarrow> ('h, 'g) GameServer res" where
  "GS_OnSocketSessionAbandoned vt session gs =
    (case um_find (gs_info_ptr gs) session of
       None \<Rightarrow> Inr gs
     | Some p \<Rightarrow> rbind (deref_info p gs) (\<lambda>info.
         if us_is_client info then (case p of ActivePtr k \<Rightarrow> vt_OnClientAbandoned vt k gs | SupervisorPtr \<Rightarrow> Inr gs) else Inr gs))"

definition GS_OnSocketSessionAlived ::
  "('h, 'g) GameServer game_vtable \<Rightarrow> u64 \<Rightarrow> ('h, 'g) GameServer \<Rightarrow> ('h, 'g) GameServer res" where
  "GS_OnSocketSessionAlived vt session gs =
    (case um_find (gs_info_ptr gs) session of
       None \<Rightarrow> Inr gs
     | Some p \<Rightarrow> rbind (deref_info p gs) (\<lambda>info.
         if us_is_client info then (case p of ActivePtr k \<Rightarrow> vt_OnClientAlived vt k gs | SupervisorPtr \<Rightarrow> Inr gs) else Inr gs))"

section \<open>Packets between servers\<close>

definition authorize_server :: "('h, 'g) GameServer game_vtable \<Rightarrow> info_ptr \<Rightarrow> u64 \<Rightarrow> u64 \<Rightarrow> ('h, 'g) GameServer \<Rightarrow> ('h, 'g) GameServer" where
  "authorize_server vt p session server_id gs =
    (let server = (the (GetServerSession server_id gs))\<lparr>us_session := Some session, us_is_authorized := True\<rparr>;
         gs1 = authorize_info p (gs\<lparr>gs_server_sessions := um_set server_id server (gs_server_sessions gs)\<rparr>);
         gs2 = set_user_data session SERVER_ID_KEY server_id (on_posting (LinkSession server_id (Some session)) gs1)
     in ListenSector vt (si_server_type (is_server_info server)) server_id gs2)"

definition OnAuthorizeServerReq ::
  "('h, 'g) GameServer game_vtable \<Rightarrow> info_ptr \<Rightarrow> UniversalSessionInfo \<Rightarrow> u64 \<Rightarrow> packet_authorize_server_rq \<Rightarrow>
   ('h, 'g) GameServer \<Rightarrow> ('h, 'g) GameServer res" where
  "OnAuthorizeServerReq vt p info session packet gs =
    assert_that (si_server_id (gs_my_server_info gs) \<noteq> as_server_id packet)
      (let response = P_authorize_server_rs (si_server_id (gs_my_server_info gs)) in
       case GetServerSession (as_server_id packet) gs of
         None \<Rightarrow> Inr (gs_emit (GsSend session response UnknownServerId) gs)
       | Some server \<Rightarrow>
         if is_is_connector server then close_ptr (us_session info) gs
         else rbind (vt_OnIntraServerAccepted vt (ServerPtr (as_server_id packet)) (authorize_server vt p session (as_server_id packet) gs))
                (\<lambda>gs1. Inr (gs_emit (GsSend session response None') gs1)))"

definition OnAuthorizeServerRes ::
  "('h, 'g) GameServer game_vtable \<Rightarrow> info_ptr \<Rightarrow> UniversalSessionInfo \<Rightarrow> u64 \<Rightarrow> PacketHeader \<Rightarrow> u64 \<Rightarrow>
   ('h, 'g) GameServer \<Rightarrow> ('h, 'g) GameServer res" where
  "OnAuthorizeServerRes vt p info session header server_id gs =
    (if ph_error_code header = error_code_value UnknownServerId then
       Inr (gs_emit (GsSend session (P_authorize_server_rq \<lparr>as_server_type = si_server_type (gs_my_server_info gs),
              as_server_id = si_server_id (gs_my_server_info gs)\<rparr>) None') gs)
     else
       assert_that (si_server_id (gs_my_server_info gs) \<noteq> server_id)
         (case GetServerSession server_id gs of
            None \<Rightarrow> close_ptr (us_session info) gs
          | Some server \<Rightarrow>
            if \<not> is_is_connector server then close_ptr (us_session info) gs
            else vt_OnIntraServerConnected vt (ServerPtr server_id) (authorize_server vt p session server_id gs)))"

definition OnRegisterMinionServerRes :: "packet_register_minion_server_rs \<Rightarrow> ('h, 'g) GameServer \<Rightarrow> ('h, 'g) GameServer" where
  "OnRegisterMinionServerRes packet gs =
    (let info = rms_server_info packet in
     on_posting (LinkSession (si_server_id info) (us_session (gs_loopback gs)))
       (gs\<lparr>gs_my_server_info := info, gs_loopback := (gs_loopback gs)\<lparr>is_server_info := info\<rparr>,
           gs_current_universal_session_id := si_server_id info * 1000000000000000 + 100000000000001,
           gs_service_ready := True\<rparr>))"

definition GS_Reset :: "'h session_ops \<Rightarrow> ('h, 'g) GameServer game_vtable \<Rightarrow> ('h, 'g) GameServer \<Rightarrow> ('h, 'g) GameServer res" where
  "GS_Reset ops vt gs =
    rbind (foldr_res (\<lambda>(k, i) gs.
        on_posting_res (UnsetAll ops (si_server_id (is_server_info i)))
          (if is_socket_connector_id i > 0 then UnregisterConnectorSocket (is_socket_connector_id i) gs else gs))
      (gs_server_sessions gs) gs) (\<lambda>gs1.
    rbind (foldr_res (\<lambda>(k, i) gs. close_ptr (us_session i) gs) (gs_active_sessions gs) gs1) (\<lambda>gs2.
    rbind (on_posting_res (UnsetAll ops (si_server_id (gs_my_server_info gs))) (gs2\<lparr>gs_active_sessions := [], gs_server_sessions := []\<rparr>)) (\<lambda>gs3.
    rbind (vt_OnSupervisorResetMinionServer vt (gs3\<lparr>gs_service_ready := False\<rparr>)) (\<lambda>gs4.
    Inr (gs4\<lparr>gs_server_sessions := um_set SUPERVISOR_SERVER_ID (gs_supervisor gs4) (gs_server_sessions gs4)\<rparr>)))))"

definition OnRecoveryMinionServerRes ::
  "'h session_ops \<Rightarrow> ('h, 'g) GameServer game_vtable \<Rightarrow> u64 \<Rightarrow> PacketHeader \<Rightarrow> ('h, 'g) GameServer \<Rightarrow> ('h, 'g) GameServer res" where
  "OnRecoveryMinionServerRes ops vt session header gs =
    (if ph_error_code header \<noteq> error_code_value None' then
       rbind (GS_Reset ops vt gs) (\<lambda>gs1.
       Inr (gs_emit (GsSend session (P_register_minion_server_rq \<lparr>rm_server_type = si_server_type (gs_my_server_info gs1),
              rm_address = si_address (gs_my_server_info gs1)\<rparr>) None') gs1))
     else Inr gs)"

definition server_left :: "'h session_ops \<Rightarrow> ServerInfo \<Rightarrow> ('h, 'g) GameServer \<Rightarrow> ('h, 'g) GameServer res" where
  "server_left ops leaved gs =
    (let connector = (case GetServerSession (si_server_id leaved) gs of Some i \<Rightarrow> is_socket_connector_id i | None \<Rightarrow> 0);
         gs1 = UnregisterConnectorSocket connector gs
     in on_posting_res (UnsetAll ops (si_server_id leaved))
          (gs1\<lparr>gs_server_sessions := um_erase (si_server_id leaved) (gs_server_sessions gs1)\<rparr>))"

definition server_joined :: "('h, 'g) GameServer game_vtable \<Rightarrow> ServerInfo \<Rightarrow> ('h, 'g) GameServer \<Rightarrow> ('h, 'g) GameServer" where
  "server_joined vt joined gs =
    (let k = si_server_id joined in
     if k = si_server_id (gs_my_server_info gs) then gs\<lparr>gs_server_sessions := um_set k (gs_loopback gs) (gs_server_sessions gs)\<rparr>
     else
       let connector = IsConnector vt (si_server_type joined) k gs;
           old = (case GetServerSession k gs of
                    Some i \<Rightarrow> i
                  | None \<Rightarrow> \<lparr>us_universal_session_id = 0, us_session = None, us_is_authorized = False, us_is_client = False,
                             is_server_info = joined, is_socket_connector_id = 0, is_is_connector = False\<rparr>);
           info = old\<lparr>is_server_info := joined, is_is_connector := connector\<rparr>
       in if connector then
            let (c, gs1) = RegisterConnectorSocket (si_address joined) k gs
            in gs1\<lparr>gs_server_sessions := um_set k (info\<lparr>is_socket_connector_id := c\<rparr>) (gs_server_sessions gs1)\<rparr>
          else gs\<lparr>gs_server_sessions := um_set k info (gs_server_sessions gs)\<rparr>)"

definition OnUpdateIntraServerInfo ::
  "'h session_ops \<Rightarrow> ('h, 'g) GameServer game_vtable \<Rightarrow> packet_update_intra_server_info_ps \<Rightarrow> ('h, 'g) GameServer \<Rightarrow> ('h, 'g) GameServer res" where
  "OnUpdateIntraServerInfo ops vt packet gs =
    rbind (foldr_res (server_left ops) (ui_leaved_server_info packet) gs)
      (\<lambda>gs1. Inr (fold (server_joined vt) (ui_joined_server_info packet) gs1))"

definition OnSectorAllocation ::
  "('h, 'g) GameServer game_vtable \<Rightarrow> packet_sector_allocation_ps \<Rightarrow> ('h, 'g) GameServer \<Rightarrow> ('h, 'g) GameServer res" where
  "OnSectorAllocation vt packet gs =
    vt_OnSupervisorSectorAllocation vt packet
      (fold (\<lambda>i. on_posting (AllocateSector (al_sector_id i) (si_server_id (al_server_info i)))) (sal_allocation_info packet) gs)"

text \<open>The rest of \<^verbatim>\<open>OnSocketSessionData\<close>: packets that only an authorised server may send.\<close>

definition forward_data ::
  "('h, 'g) GameServer game_vtable \<Rightarrow> UniversalSessionInfo \<Rightarrow> u64 \<Rightarrow> PacketHeader \<Rightarrow> Packet option \<Rightarrow>
   ('h, 'g) GameServer \<Rightarrow> ('h, 'g) GameServer res" where
  "forward_data vt info session header packet gs =
    (if \<not> us_is_authorized info then close_ptr (us_session info) gs
     else
       case us_session info of
         None \<Rightarrow> Inl NullDeref
       | Some k \<Rightarrow>
         let server_id = user_data k SERVER_ID_KEY gs in
         (case GetServerSession server_id gs of
            None \<Rightarrow> Inr (gs_emit (GsClose session) gs)
          | Some _ \<Rightarrow> vt_OnIntraServerData vt (ServerPtr server_id) header packet gs))"

text \<open>The packets between servers; the body is absent when it does not deserialise.\<close>

definition server_data ::
  "'h session_ops \<Rightarrow> ('h, 'g) GameServer game_vtable \<Rightarrow> info_ptr \<Rightarrow> UniversalSessionInfo \<Rightarrow> u64 \<Rightarrow> PacketHeader \<Rightarrow> Packet option \<Rightarrow>
   ('h, 'g) GameServer \<Rightarrow> ('h, 'g) GameServer res" where
  "server_data ops vt p info session header packet gs =
    (case type_of_value (ph_packet_type header) of
        Some T_authorize_server_rq \<Rightarrow>
          (case packet of Some (P_authorize_server_rq r) \<Rightarrow> OnAuthorizeServerReq vt p info session r gs | _ \<Rightarrow> close_ptr (us_session info) gs)
      | Some T_authorize_server_rs \<Rightarrow>
          (case packet of Some (P_authorize_server_rs k) \<Rightarrow> OnAuthorizeServerRes vt p info session header k gs | _ \<Rightarrow> close_ptr (us_session info) gs)
      | Some T_register_minion_server_rs \<Rightarrow>
          (case packet of Some (P_register_minion_server_rs r) \<Rightarrow> Inr (OnRegisterMinionServerRes r gs) | _ \<Rightarrow> close_ptr (us_session info) gs)
      | Some T_recovery_minion_server_rs \<Rightarrow>
          (case packet of Some (P_recovery_minion_server_rs _) \<Rightarrow> OnRecoveryMinionServerRes ops vt session header gs | _ \<Rightarrow> close_ptr (us_session info) gs)
      | Some T_update_intra_server_info_ps \<Rightarrow>
          (case packet of Some (P_update_intra_server_info_ps r) \<Rightarrow> OnUpdateIntraServerInfo ops vt r gs | _ \<Rightarrow> close_ptr (us_session info) gs)
      | Some T_sector_allocation_ps \<Rightarrow>
          (case packet of Some (P_sector_allocation_ps r) \<Rightarrow> OnSectorAllocation vt r gs | _ \<Rightarrow> close_ptr (us_session info) gs)
      | _ \<Rightarrow> forward_data vt info session header packet gs)"

definition GS_OnSocketSessionData ::
  "'h session_ops \<Rightarrow> ('h, 'g) GameServer game_vtable \<Rightarrow> u64 \<Rightarrow> PacketHeader \<Rightarrow> Packet option \<Rightarrow>
   ('h, 'g) GameServer \<Rightarrow> ('h, 'g) GameServer res" where
  "GS_OnSocketSessionData ops vt session header packet gs =
    (case um_find (gs_info_ptr gs) session of
       None \<Rightarrow> Inl NullDeref
     | Some p \<Rightarrow> rbind (deref_info p gs) (\<lambda>info.
       if us_is_client info then
         (if \<not> gs_service_ready gs then Inr (gs_emit (GsClose session) gs)
          else case p of ActivePtr k \<Rightarrow> vt_OnClientData vt k header packet gs | SupervisorPtr \<Rightarrow> Inr gs)
       else
         server_data ops vt p info session header packet gs))"

section \<open>Loopback and ticks\<close>

text \<open>The buffers of the loopback session are those of its pool; \<^verbatim>\<open>ReleaseReadBuffer\<close> returns one.\<close>

definition GS_ProcessLoopbackData ::
  "(PacketType \<Rightarrow> u8 list \<Rightarrow> Packet option) \<Rightarrow> (session_heap, 'g) GameServer game_vtable \<Rightarrow> WriteBuffer option \<Rightarrow>
   (session_heap, 'g) GameServer \<Rightarrow> (session_heap, 'g) GameServer res" where
  "GS_ProcessLoopbackData unpack vt buffer gs =
    (case buffer of
       None \<Rightarrow> Inl NullDeref
     | Some b \<Rightarrow>
       rbind (ProcessLoopbackData (\<lambda>header cursor gs. vt_OnIntraServerData vt LoopbackPtr header (packet_of unpack header (Data cursor)) gs)
                \<lparr>db_bytes = wb_bytes b, db_capacity = wb_capacity b\<rparr> gs) (\<lambda>gs1.
       case us_session (gs_loopback gs1) of
         None \<Rightarrow> Inl NullDeref
       | Some k \<Rightarrow> on_posting_res (\<lambda>sp. rbind (heap_ReleaseWriteBuffer k b (sp_heap sp)) (\<lambda>h. Inr (sp\<lparr>sp_heap := h\<rparr>))) gs1))"

definition loopback_buffers :: "(session_heap, 'g) GameServer \<Rightarrow> WriteBuffer option list" where
  "loopback_buffers gs =
    (case us_session (gs_loopback gs) of
       None \<Rightarrow> []
     | Some k \<Rightarrow> (case sp_heap (gs_posting gs) k of Some (LoopSession s) \<Rightarrow> lb_packet_list s | _ \<Rightarrow> []))"

definition clear_loopback :: "(session_heap, 'g) GameServer \<Rightarrow> (session_heap, 'g) GameServer" where
  "clear_loopback gs =
    (case us_session (gs_loopback gs) of
       None \<Rightarrow> gs
     | Some k \<Rightarrow> (case sp_heap (gs_posting gs) k of
         Some (LoopSession s) \<Rightarrow>
           on_posting (\<lambda>sp. sp\<lparr>sp_heap := (sp_heap sp)(k \<mapsto> LoopSession (s\<lparr>lb_packet_list := []\<rparr>))\<rparr>) gs
       | _ \<Rightarrow> gs))"

definition GS_UpdateEveryTick ::
  "(Packet \<Rightarrow> u8 list) \<Rightarrow> (PacketType \<Rightarrow> u8 list \<Rightarrow> Packet option) \<Rightarrow> (session_heap, 'g) GameServer game_vtable \<Rightarrow> int \<Rightarrow> int \<Rightarrow>
   (session_heap, 'g) GameServer \<Rightarrow> (session_heap, 'g) GameServer res" where
  "GS_UpdateEveryTick pack unpack vt epoch now gs =
    rbind (on_posting_res (\<lambda>sp. rbind (TryFlushPacket (heap_ops pack) now (sp_throttler sp) (sp_heap sp))
             (\<lambda>(pt, h). Inr (sp\<lparr>sp_throttler := pt, sp_heap := h\<rparr>))) (gs\<lparr>gs_epoch := epoch\<rparr>)) (\<lambda>gs1.
    rbind (foldr_res (GS_ProcessLoopbackData unpack vt) (loopback_buffers gs1) gs1) (\<lambda>gs2.
    Inr (clear_loopback gs2)))"

section \<open>Initialisation\<close>

text \<open>\<^verbatim>\<open>Initialize\<close>; \<open>None\<close> when a server type is configured twice. \<open>loopback\<close> is the identifier of the loopback session, which
  the sources never set, \<open>zero\<close> a value-initialised \<^verbatim>\<open>ServerInfo\<close>.\<close>

definition GS_Initialize ::
  "int \<Rightarrow> u64 \<Rightarrow> ServerInfo \<Rightarrow> 'h \<Rightarrow> 'g \<Rightarrow> ServerType \<Rightarrow> SocketAddress \<Rightarrow> IntraServerConfig list \<Rightarrow> SocketAddress \<Rightarrow> GameConfig \<Rightarrow>
   ('h, 'g) GameServer option" where
  "GS_Initialize now loopback zero heap game my_type my_address configs supervisor_address config =
    (if \<not> distinct (map ic_server_type configs) then None
     else
       let lo = \<lparr>us_universal_session_id = 1, us_session = Some loopback, us_is_authorized = True, us_is_client = False,
                 is_server_info = zero, is_socket_connector_id = 0, is_is_connector = False\<rparr>;
           sup = \<lparr>us_universal_session_id = 2, us_session = None, us_is_authorized = True, us_is_client = False,
                  is_server_info = \<lparr>si_server_type = SupervisorServer, si_server_id = SUPERVISOR_SERVER_ID, si_address = supervisor_address\<rparr>,
                  is_socket_connector_id = 0, is_is_connector = False\<rparr>;
           gs = \<lparr>gs_loopback = lo, gs_current_universal_session_id = 100, gs_supervisor = sup,
                 gs_my_server_info = \<lparr>si_server_type = my_type, si_server_id = 0, si_address = my_address\<rparr>,
                 gs_connection_config = map (\<lambda>c. (ic_server_type c, c)) configs,
                 gs_server_sessions = [(SUPERVISOR_SERVER_ID, sup)], gs_active_sessions = [],
                 gs_posting = \<lparr>sp_sectors = [], sp_sessions = [],
                   sp_throttler = new_PacketThrottler now (int (unat (packet_batch_process_time_ms config))), sp_heap = heap\<rparr>,
                 gs_epoch = 0, gs_service_ready = False, gs_info_ptr = [], gs_user_data = [], gs_connectors = [], gs_next_connector = 1,
                 gs_out = [], gs_game = game\<rparr>
       in Some (snd (RegisterConnectorSocket supervisor_address SUPERVISOR_SERVER_ID gs)))"

section \<open>Pointers of open sessions\<close>

text \<open>
  What the callbacks of a server leave alone, as an interface: the tables of sessions, the user data pointers and the counter.
  Agencies and play servers are shown to satisfy it where they are modelled.
\<close>

definition sessions_kept :: "('h, 'g) GameServer \<Rightarrow> ('h, 'g) GameServer \<Rightarrow> bool" where
  "sessions_kept gs gs' \<longleftrightarrow> gs_active_sessions gs' = gs_active_sessions gs \<and> gs_info_ptr gs' = gs_info_ptr gs \<and>
     gs_current_universal_session_id gs' = gs_current_universal_session_id gs \<and> gs_supervisor gs' = gs_supervisor gs"

lemma sessions_kept_refl [simp, intro]: "sessions_kept gs gs"
  by (simp add: sessions_kept_def)

lemma sessions_kept_trans [trans]: "sessions_kept a b \<Longrightarrow> sessions_kept b c \<Longrightarrow> sessions_kept a c"
  by (simp add: sessions_kept_def)

named_theorems kept_intros \<open>operations that keep the session tables\<close>

lemma kept_simple [simp, kept_intros]:
  "sessions_kept gs (gs_emit e gs)" "sessions_kept gs (set_user_data s v x gs)" "sessions_kept gs (on_posting f gs)"
  "sessions_kept gs (gs\<lparr>gs_game := g\<rparr>)" "sessions_kept gs (gs\<lparr>gs_posting := sp\<rparr>)" "sessions_kept gs (gs\<lparr>gs_server_sessions := m\<rparr>)"
  by (simp_all add: sessions_kept_def gs_emit_def set_user_data_def on_posting_def)

lemma kept_on_posting_res [kept_intros]: "on_posting_res f gs = Inr gs' \<Longrightarrow> sessions_kept gs gs'"
  by (auto simp: on_posting_res_def res_iff)

lemma kept_ptr [kept_intros]:
  "close_ptr s gs = Inr gs' \<Longrightarrow> sessions_kept gs gs'" "send_ptr s p e gs = Inr gs' \<Longrightarrow> sessions_kept gs gs'"
  by (auto simp: close_ptr_def send_ptr_def split: option.splits)

lemma kept_foldr_res:
  assumes "foldr_res f xs gs = Inr gs'" and "\<And>x a b. f x a = Inr b \<Longrightarrow> sessions_kept a b"
  shows "sessions_kept gs gs'"
  using foldr_res_invariant [where P = "sessions_kept gs", OF assms(1)] assms(2) sessions_kept_trans by blast

lemma kept_fold:
  assumes "\<And>x a. sessions_kept a (f x a)"
  shows "sessions_kept gs (fold f xs gs)"
  using assms by (induction xs arbitrary: gs) (auto intro: sessions_kept_trans)

lemma kept_ListenSector [simp]: "sessions_kept gs (ListenSector vt t k gs)"
  unfolding ListenSector_def by (auto split: option.split intro!: kept_fold)

lemma kept_connectors [simp]:
  "sessions_kept gs (UnregisterConnectorSocket k gs)" "sessions_kept gs (snd (RegisterConnectorSocket a k gs))"
  by (simp_all add: UnregisterConnectorSocket_def RegisterConnectorSocket_def sessions_kept_def gs_emit_def Let_def split: option.split)

lemma kept_server_left: "server_left ops i gs = Inr gs' \<Longrightarrow> sessions_kept gs gs'"
  unfolding server_left_def Let_def
  by (drule kept_on_posting_res) (simp add: sessions_kept_def UnregisterConnectorSocket_def gs_emit_def split: option.splits)

lemma kept_server_joined [simp]: "sessions_kept gs (server_joined vt i gs)"
  unfolding server_joined_def Let_def RegisterConnectorSocket_def gs_emit_def
  by (simp add: sessions_kept_def)

lemma kept_OnUpdateIntraServerInfo: "OnUpdateIntraServerInfo ops vt p gs = Inr gs' \<Longrightarrow> sessions_kept gs gs'"
  unfolding OnUpdateIntraServerInfo_def res_iff
  using kept_foldr_res [OF _ kept_server_left] kept_fold [of "server_joined vt"] sessions_kept_trans by fastforce

text \<open>The state in which a session that the engine opens, or resumes, is handed over: \<^verbatim>\<open>ResetUserData\<close> has run.\<close>

definition fresh_session :: "u64 \<Rightarrow> ('h, 'g) GameServer \<Rightarrow> ('h, 'g) GameServer" where
  "fresh_session s gs = gs\<lparr>gs_info_ptr := um_erase s (gs_info_ptr gs), gs_user_data := filter (\<lambda>((s', k), v). s' \<noteq> s) (gs_user_data gs)\<rparr>"

text \<open>
  A peer that answers a registration with a fresh range of identifiers and does not report a failed recovery. The first keeps
  \<^verbatim>\<open>_current_universal_session_id\<close> ahead of the identifiers in use, the second avoids \<^verbatim>\<open>Reset\<close>.
\<close>

definition peer_ok :: "PacketHeader \<Rightarrow> Packet option \<Rightarrow> ('h, 'g) GameServer \<Rightarrow> bool" where
  "peer_ok header packet gs \<longleftrightarrow>
     (case packet of
        Some (P_register_minion_server_rs r) \<Rightarrow>
          (let next_id = si_server_id (rms_server_info r) * 1000000000000000 + 100000000000001
           in 100 \<le> next_id \<and> (\<forall>k\<in>fst ` set (gs_active_sessions gs). k < next_id))
      | Some (P_recovery_minion_server_rs _) \<Rightarrow> ph_error_code header = error_code_value None'
      | _ \<Rightarrow> True)"

inductive game_step ::
  "(Packet \<Rightarrow> u8 list) \<Rightarrow> (PacketType \<Rightarrow> u8 list \<Rightarrow> Packet option) \<Rightarrow> (session_heap, 'g) GameServer game_vtable \<Rightarrow>
   (session_heap, 'g) GameServer \<times> u64 set \<Rightarrow> (session_heap, 'g) GameServer \<times> u64 set \<Rightarrow> bool"
  for pack unpack vt where
  connected: "s \<notin> open_sessions \<Longrightarrow> gs_current_universal_session_id gs \<noteq> - 1 \<Longrightarrow>
    GS_OnSocketSessionConnected key b s attachment (fresh_session s gs) = Inr gs' \<Longrightarrow>
    game_step pack unpack vt (gs, open_sessions) (gs', insert s open_sessions)"
| accepted: "s \<notin> open_sessions \<Longrightarrow> gs_current_universal_session_id gs \<noteq> - 1 \<Longrightarrow>
    GS_OnSocketSessionAccepted vt b s (fresh_session s gs) = Inr gs' \<Longrightarrow>
    game_step pack unpack vt (gs, open_sessions) (gs', insert s open_sessions)"
| abandoned: "s \<in> open_sessions \<Longrightarrow> GS_OnSocketSessionAbandoned vt s gs = Inr gs' \<Longrightarrow>
    game_step pack unpack vt (gs, open_sessions) (gs', open_sessions)"
| alived: "s \<in> open_sessions \<Longrightarrow> GS_OnSocketSessionAlived vt s (fresh_session s gs) = Inr gs' \<Longrightarrow>
    game_step pack unpack vt (gs, open_sessions) (gs', open_sessions)"
| closed: "s \<in> open_sessions \<Longrightarrow> GS_OnSocketSessionClosed (heap_ops pack) vt s gs = Inr gs' \<Longrightarrow>
    game_step pack unpack vt (gs, open_sessions) (gs', open_sessions - {s})"
| data: "s \<in> open_sessions \<Longrightarrow> peer_ok header packet gs \<Longrightarrow>
    packet = None \<or> packet = Some p \<and> type_of_value (ph_packet_type header) = Some (PACKET_TYPE p) \<Longrightarrow>
    GS_OnSocketSessionData (heap_ops pack) vt s header packet gs = Inr gs' \<Longrightarrow>
    game_step pack unpack vt (gs, open_sessions) (gs', open_sessions)"
| tick: "GS_UpdateEveryTick pack unpack vt epoch now gs = Inr gs' \<Longrightarrow>
    game_step pack unpack vt (gs, open_sessions) (gs', open_sessions)"

text \<open>The pointer of an open session is unset, the supervisor's, or the key of an element that was made for that session.\<close>

definition pointers_ok :: "('h, 'g) GameServer \<Rightarrow> u64 set \<Rightarrow> bool" where
  "pointers_ok gs L \<longleftrightarrow>
     (\<forall>s\<in>L. \<forall>k. um_find (gs_info_ptr gs) s = Some (ActivePtr k) \<longrightarrow>
        (\<exists>i. um_find (gs_active_sessions gs) k = Some i \<and> us_session i = Some s \<and> us_universal_session_id i = k) \<and> 100 \<le> k) \<and>
     (\<forall>k. um_find (gs_active_sessions gs) k \<noteq> None \<longrightarrow> k < gs_current_universal_session_id gs) \<and>
     100 \<le> gs_current_universal_session_id gs \<and> us_universal_session_id (gs_supervisor gs) = 2"

lemma pointers_ok_kept: "sessions_kept gs gs' \<Longrightarrow> pointers_ok gs L \<Longrightarrow> pointers_ok gs' L"
  by (simp add: sessions_kept_def pointers_ok_def)

lemma pointers_ok_fresh:
  assumes "pointers_ok gs L"
  shows "pointers_ok (fresh_session s gs) (insert s L)" "um_find (gs_info_ptr (fresh_session s gs)) s = None"
  using assms by (simp_all add: pointers_ok_def fresh_session_def)

lemma u64_less_succ: "(x :: u64) \<noteq> - 1 \<Longrightarrow> x < x + 1"
proof -
  assume "x \<noteq> - 1"
  then have "unat x \<noteq> unat (- 1 :: u64)" by (metis of_nat_unat ucast_id)
  then have "unat x \<noteq> 18446744073709551615" by (simp add: unsigned_minus_1_eq_mask mask_eq_exp_minus_1)
  with unat_u64_less [of x] have "Suc (unat x) < 18446744073709551616" by linarith
  then show ?thesis by (simp add: word_less_nat_alt unat_word_ariths)
qed

lemma pointers_ok_new_active:
  assumes ok: "pointers_ok gs L" and none: "um_find (gs_info_ptr gs) s = None" and room: "gs_current_universal_session_id gs \<noteq> - 1"
  shows "pointers_ok (snd (new_active s gs)) L"
    and "fst (new_active s gs) = gs_current_universal_session_id gs"
proof -
  let ?k = "gs_current_universal_session_id gs"
  have lt: "?k < ?k + 1" using room by (rule u64_less_succ)
  have fresh: "um_find (gs_active_sessions gs) ?k = None" using ok unfolding pointers_ok_def by (meson order_less_irrefl)
  have "x < ?k \<Longrightarrow> x < ?k + 1" for x using lt order_less_trans by blast
  moreover have "100 \<le> ?k \<Longrightarrow> 100 \<le> ?k + 1" using lt by (meson order_le_less_trans order_less_imp_le)
  ultimately show "pointers_ok (snd (new_active s gs)) L"
    using ok none lt fresh unfolding pointers_ok_def
    by (auto simp: new_active_def set_info_ptr_def Let_def split: if_splits)
qed (simp add: new_active_def Let_def)

lemma pointers_ok_put:
  assumes "pointers_ok gs L" "um_find (gs_active_sessions gs) k = Some i"
    "us_session i' = us_session i" "us_universal_session_id i' = us_universal_session_id i"
  shows "pointers_ok (gs\<lparr>gs_active_sessions := um_set k i' (gs_active_sessions gs)\<rparr>) L"
  using assms unfolding pointers_ok_def by auto

lemma pointers_ok_authorize:
  assumes "pointers_ok gs L" "deref_info p gs = Inr info"
  shows "pointers_ok (authorize_info p gs) L"
proof (cases p)
  case SupervisorPtr
  then show ?thesis using assms(1) by (simp add: authorize_info_def pointers_ok_def)
next
  case (ActivePtr k)
  with assms(2) obtain i where "um_find (gs_active_sessions gs) k = Some i" by (auto simp: deref_info_def split: option.splits)
  with ActivePtr assms(1) show ?thesis by (simp add: authorize_info_def) (rule pointers_ok_put; simp)
qed

locale game_callbacks =
  fixes vt :: "(session_heap, 'g) GameServer game_vtable"
  assumes reset_kept: "vt_OnSupervisorResetMinionServer vt gs = Inr gs' \<Longrightarrow> sessions_kept gs gs'"
    and allocation_kept: "vt_OnSupervisorSectorAllocation vt packet gs = Inr gs' \<Longrightarrow> sessions_kept gs gs'"
    and client_accepted_kept: "vt_OnClientAccepted vt k gs = Inr gs' \<Longrightarrow> sessions_kept gs gs'"
    and client_closed_kept: "vt_OnClientClosed vt k gs = Inr gs' \<Longrightarrow> sessions_kept gs gs'"
    and client_abandoned_kept: "vt_OnClientAbandoned vt k gs = Inr gs' \<Longrightarrow> sessions_kept gs gs'"
    and client_alived_kept: "vt_OnClientAlived vt k gs = Inr gs' \<Longrightarrow> sessions_kept gs gs'"
    and client_data_kept: "vt_OnClientData vt k header body gs = Inr gs' \<Longrightarrow> sessions_kept gs gs'"
    and intra_connected_kept: "vt_OnIntraServerConnected vt p gs = Inr gs' \<Longrightarrow> sessions_kept gs gs'"
    and intra_accepted_kept: "vt_OnIntraServerAccepted vt p gs = Inr gs' \<Longrightarrow> sessions_kept gs gs'"
    and intra_closed_kept: "vt_OnIntraServerClosed vt p gs = Inr gs' \<Longrightarrow> sessions_kept gs gs'"
    and intra_data_kept: "vt_OnIntraServerData vt p header body gs = Inr gs' \<Longrightarrow> sessions_kept gs gs'"
begin

lemma accepted_ok:
  assumes "pointers_ok gs L" "gs_current_universal_session_id gs \<noteq> - 1"
    and "GS_OnSocketSessionAccepted vt b s (fresh_session s gs) = Inr gs'"
  shows "pointers_ok gs' (insert s L)"
proof -
  let ?gs = "fresh_session s gs"
  let ?k = "fst (new_active s ?gs)" and ?gs1 = "snd (new_active s ?gs)"
  have room: "gs_current_universal_session_id ?gs \<noteq> - 1" using assms(2) by (simp add: fresh_session_def)
  have ok1: "pointers_ok ?gs1 (insert s L)"
    using pointers_ok_new_active(1) [OF pointers_ok_fresh [OF assms(1)] room] .
  have at: "um_find (gs_active_sessions ?gs1) ?k \<noteq> None"
    by (simp add: new_active_def set_info_ptr_def Let_def)
  then obtain i where i: "um_find (gs_active_sessions ?gs1) ?k = Some i" by auto
  have ok2: "pointers_ok (?gs1\<lparr>gs_active_sessions := um_set ?k (i\<lparr>us_is_client := True\<rparr>) (gs_active_sessions ?gs1)\<rparr>) (insert s L)"
    by (rule pointers_ok_put [OF ok1 i]) simp_all
  have "gs' = ?gs1 \<or> gs' = gs_emit (GsClose s) ?gs1 \<or>
      vt_OnClientAccepted vt ?k (?gs1\<lparr>gs_active_sessions := um_set ?k (i\<lparr>us_is_client := True\<rparr>) (gs_active_sessions ?gs1)\<rparr>) = Inr gs'"
    using assms(3) i by (auto simp: GS_OnSocketSessionAccepted_def split_beta Let_def split: if_splits)
  then show ?thesis
    using ok1 ok2 pointers_ok_kept [OF client_accepted_kept] pointers_ok_kept [OF kept_simple(1)] by blast
qed

lemma close_intra_kept:
  assumes "close_intra ops vt info gs = Inr gs'"
  shows "gs_active_sessions gs' = gs_active_sessions gs \<and> gs_info_ptr gs' = gs_info_ptr gs \<and>
     gs_current_universal_session_id gs' = gs_current_universal_session_id gs \<and>
     us_universal_session_id (gs_supervisor gs') = us_universal_session_id (gs_supervisor gs)"
  using assms unfolding close_intra_def Let_def
  by (auto simp: res_iff sessions_kept_def split: option.splits if_splits dest!: kept_on_posting_res intra_closed_kept)

lemma closed_ok:
  assumes ok: "pointers_ok gs L" and s: "s \<in> L"
    and run: "GS_OnSocketSessionClosed (heap_ops pack) vt s gs = Inr gs'"
  shows "pointers_ok gs' (L - {s})"
proof (cases "um_find (gs_info_ptr gs) s")
  case None
  then show ?thesis using ok run by (auto simp: GS_OnSocketSessionClosed_def pointers_ok_def)
next
  case (Some p)
  from run Some obtain gs1 gs2 gs3 info info' where
      1: "sessions_kept gs gs1" and 2: "sessions_kept gs1 gs2"
    and 3: "(if us_is_client info then (case p of ActivePtr k \<Rightarrow> vt_OnClientClosed vt k gs2 | SupervisorPtr \<Rightarrow> Inr gs2)
              else close_intra (heap_ops pack) vt info gs2) = Inr gs3"
    and 4: "deref_info p gs3 = Inr info'"
    and out: "gs' = gs3\<lparr>gs_active_sessions := um_erase (us_universal_session_id info') (gs_active_sessions gs3)\<rparr>"
    unfolding GS_OnSocketSessionClosed_def by (auto simp: res_iff dest!: kept_on_posting_res)
  have 5: "gs_active_sessions gs3 = gs_active_sessions gs2 \<and> gs_info_ptr gs3 = gs_info_ptr gs2 \<and>
     gs_current_universal_session_id gs3 = gs_current_universal_session_id gs2 \<and>
     us_universal_session_id (gs_supervisor gs3) = us_universal_session_id (gs_supervisor gs2)"
    using 3 close_intra_kept [of "heap_ops pack" info gs2 gs3] client_closed_kept [of _ gs2 gs3]
    by (auto simp: sessions_kept_def split: if_splits info_ptr.splits)
  have ok3: "pointers_ok gs3 L" using ok 1 2 5 by (auto simp: pointers_ok_def sessions_kept_def)
  have ptr3: "um_find (gs_info_ptr gs3) s = Some p" using Some 1 2 5 by (simp add: sessions_kept_def)
  show ?thesis
  proof (cases p)
    case SupervisorPtr
    then have "us_universal_session_id info' = 2"
      using 4 ok3 by (auto simp: deref_info_def pointers_ok_def UniversalSessionInfo.truncate_def)
    then show ?thesis using ok3 by (auto simp: out pointers_ok_def)
  next
    case (ActivePtr k)
    then have "um_find (gs_active_sessions gs3) k = Some info'" "us_universal_session_id info' = k" "us_session info' = Some s"
      using 4 ok3 s ptr3 by (auto simp: deref_info_def pointers_ok_def split: option.splits)
    then show ?thesis using ok3 ptr3 ActivePtr unfolding out pointers_ok_def by auto
  qed
qed

end

context game_callbacks
begin

lemma authorize_server_ok:
  assumes "pointers_ok gs L" "deref_info p gs = Inr info"
  shows "pointers_ok (authorize_server vt p s k gs) L"
proof -
  let ?gs = "gs\<lparr>gs_server_sessions := um_set k ((the (GetServerSession k gs))\<lparr>us_session := Some s, us_is_authorized := True\<rparr>) (gs_server_sessions gs)\<rparr>"
  have "deref_info p ?gs = Inr info" using assms(2) by (simp add: deref_info_def split: info_ptr.splits)
  then have "pointers_ok (authorize_info p ?gs) L"
    using pointers_ok_authorize [of ?gs] pointers_ok_kept [OF kept_simple(6) assms(1)] by blast
  then show ?thesis
    unfolding authorize_server_def Let_def
    by (meson pointers_ok_kept kept_ListenSector kept_simple(2,3))
qed

lemma authorize_ok:
  assumes ok: "pointers_ok gs L" and at: "deref_info p gs = Inr info"
  shows "OnAuthorizeServerReq vt p info s r gs = Inr gs' \<Longrightarrow> pointers_ok gs' L"
    and "OnAuthorizeServerRes vt p info s header k gs = Inr gs' \<Longrightarrow> pointers_ok gs' L"
  using authorize_server_ok [OF assms] ok unfolding OnAuthorizeServerReq_def OnAuthorizeServerRes_def Let_def
  by (fastforce simp: res_iff split: option.splits if_splits
      dest: kept_ptr intra_accepted_kept intra_connected_kept intro: pointers_ok_kept pointers_ok_kept [OF kept_simple(1)])+

lemma register_ok:
  assumes "pointers_ok gs L" "peer_ok header (Some (P_register_minion_server_rs r)) gs"
  shows "pointers_ok (OnRegisterMinionServerRes r gs) L"
  using assms unfolding pointers_ok_def peer_ok_def OnRegisterMinionServerRes_def on_posting_def Let_def
  by (auto simp: um_find_None_iff)

lemma allocation_ok: "pointers_ok gs L \<Longrightarrow> OnSectorAllocation vt r gs = Inr gs' \<Longrightarrow> pointers_ok gs' L"
  unfolding OnSectorAllocation_def by (meson allocation_kept kept_fold kept_simple(3) pointers_ok_kept)

lemma forward_ok: "pointers_ok gs L \<Longrightarrow> forward_data vt info s header packet gs = Inr gs' \<Longrightarrow> pointers_ok gs' L"
  unfolding forward_data_def Let_def
  by (auto split: if_splits option.splits dest: kept_ptr intra_data_kept intro: pointers_ok_kept pointers_ok_kept [OF kept_simple(1)])

lemma server_data_ok:
  assumes ok: "pointers_ok gs L" and at: "deref_info p gs = Inr info" and peer: "peer_ok header packet gs"
    and run: "server_data ops vt p info s header packet gs = Inr gs'"
  shows "pointers_ok gs' L"
proof -
  have close: "pointers_ok g L" if "close_ptr q gs = Inr g" for q g using kept_ptr(1) [OF that] ok pointers_ok_kept by blast
  have recovery: "OnRecoveryMinionServerRes ops vt s header gs = Inr gs" if "packet = Some (P_recovery_minion_server_rs b)" for b
    using peer that by (simp add: peer_ok_def OnRecoveryMinionServerRes_def)
  note ok_rules = authorize_ok [OF ok at] forward_ok [OF ok] allocation_ok [OF ok] close pointers_ok_kept [OF kept_OnUpdateIntraServerInfo ok]
  show ?thesis
    using run peer ok unfolding server_data_def
    by (auto split: option.splits PacketType.splits Packet.splits simp: recovery dest: ok_rules register_ok [OF ok])
qed

lemma data_ok:
  assumes ok: "pointers_ok gs L" and peer: "peer_ok header packet gs"
    and run: "GS_OnSocketSessionData ops vt s header packet gs = Inr gs'"
  shows "pointers_ok gs' L"
proof -
  from run obtain p info where at: "deref_info p gs = Inr info"
    and data: "(if us_is_client info then
         (if \<not> gs_service_ready gs then Inr (gs_emit (GsClose s) gs)
          else case p of ActivePtr k \<Rightarrow> vt_OnClientData vt k header packet gs | SupervisorPtr \<Rightarrow> Inr gs)
       else server_data ops vt p info s header packet gs) = Inr gs'"
    unfolding GS_OnSocketSessionData_def rbind_Inr_iff by (auto simp: rbind_Inr_iff split: option.splits)
  show ?thesis
    using data ok server_data_ok [OF ok at peer]
    by (auto split: if_splits info_ptr.splits intro: pointers_ok_kept [OF kept_simple(1)] pointers_ok_kept [OF client_data_kept])
qed

end

lemma ProcessLoopback_loop_invariant:
  assumes "ProcessLoopback_loop H n c s = Inr s'" "P s"
    and "\<And>h c s s'. P s \<Longrightarrow> H h c s = Inr s' \<Longrightarrow> P s'"
  shows "P s'"
  using assms(1,2)
proof (induction n arbitrary: c s)
  case 0
  then show ?case by (simp add: ProcessLoopback_loop.simps [of H 0] res_iff split: if_splits)
next
  case (Suc n)
  then show ?case using assms(3) by (fastforce simp: ProcessLoopback_loop.simps [of H "Suc n"] res_iff split: if_splits)
qed

lemma pointers_ok_supervisor:
  assumes "pointers_ok gs L"
  shows "pointers_ok (OnSupervisorConnected key s gs) L"
proof -
  let ?sup = "(gs_supervisor gs)\<lparr>us_session := Some s\<rparr>"
  have 1: "gs_active_sessions (OnSupervisorConnected key s gs) =
        um_set (us_universal_session_id (gs_supervisor gs)) (UniversalSessionInfo.truncate ?sup) (gs_active_sessions gs)"
    "gs_info_ptr (OnSupervisorConnected key s gs) = um_set s SupervisorPtr (gs_info_ptr gs)"
    "gs_current_universal_session_id (OnSupervisorConnected key s gs) = gs_current_universal_session_id gs"
    "gs_supervisor (OnSupervisorConnected key s gs) = ?sup"
    by (simp_all add: OnSupervisorConnected_def Let_def set_info_ptr_def gs_emit_def split_beta)
  have two: "\<not> (100 :: u64) \<le> 2" "(2 :: u64) < 100" by simp_all
  have "100 \<le> k \<Longrightarrow> 2 < k" for k :: u64 using two(2) order_less_le_trans by blast
  then show ?thesis using assms two(1) unfolding pointers_ok_def 1 by auto
qed

context game_callbacks
begin

lemma loopback_kept:
  assumes "GS_ProcessLoopbackData unpack vt b gs = Inr gs'"
  shows "sessions_kept gs gs'"
proof -
  let ?H = "\<lambda>header cursor gs. vt_OnIntraServerData vt LoopbackPtr header (packet_of unpack header (Data cursor)) gs"
  have data: "sessions_kept gs gs1" if "ProcessLoopbackData ?H buf gs = Inr gs1" for buf gs1
    by (rule ProcessLoopback_loop_invariant [where P = "sessions_kept gs", OF that [unfolded ProcessLoopbackData_def]])
      (auto dest: intra_data_kept intro: sessions_kept_trans)
  from assms obtain buf gs1 where "ProcessLoopbackData ?H buf gs = Inr gs1" "\<exists>f. on_posting_res f gs1 = Inr gs'"
    unfolding GS_ProcessLoopbackData_def rbind_Inr_iff by (auto simp: rbind_Inr_iff split: option.splits)
  then show ?thesis using data kept_on_posting_res sessions_kept_trans by blast
qed

lemma tick_kept:
  assumes "GS_UpdateEveryTick pack unpack vt epoch now gs = Inr gs'"
  shows "sessions_kept gs gs'"
proof -
  have clear: "sessions_kept g (clear_loopback g)" for g :: "(session_heap, 'g) GameServer"
    by (simp add: clear_loopback_def split: option.split AnySession.split)
  have epoch: "sessions_kept gs (gs\<lparr>gs_epoch := epoch\<rparr>)" by (simp add: sessions_kept_def)
  from assms obtain gs1 gs2 where 1: "sessions_kept (gs\<lparr>gs_epoch := epoch\<rparr>) gs1"
    and 2: "foldr_res (GS_ProcessLoopbackData unpack vt) (loopback_buffers gs1) gs1 = Inr gs2" and out: "gs' = clear_loopback gs2"
    unfolding GS_UpdateEveryTick_def by (auto simp: res_iff dest!: kept_on_posting_res)
  have "sessions_kept gs1 gs2" by (rule kept_foldr_res [OF 2]) (rule loopback_kept)
  then show ?thesis unfolding out using epoch 1 clear sessions_kept_trans by meson
qed

lemma step_ok:
  assumes "game_step pack unpack vt c c'" "pointers_ok (fst c) (snd c)"
  shows "pointers_ok (fst c') (snd c')"
  using assms
proof (induction rule: game_step.induct)
  case (connected s L gs key b attachment gs')
  then have ok: "pointers_ok gs L" and room: "gs_current_universal_session_id (fresh_session s gs) \<noteq> - 1"
    by (simp_all add: fresh_session_def)
  have "gs' = gs_emit (GsClose s) (fresh_session s gs) \<or> gs' = OnSupervisorConnected key s (fresh_session s gs) \<or>
      (\<exists>e. gs' = gs_emit e (snd (new_active s (fresh_session s gs))))"
    using connected(3) by (auto simp: GS_OnSocketSessionConnected_def res_iff Let_def split_beta split: option.splits if_splits)
  then show ?case
    using pointers_ok_supervisor [OF pointers_ok_fresh(1) [OF ok]] pointers_ok_fresh(1) [OF ok]
      pointers_ok_new_active(1) [OF pointers_ok_fresh [OF ok] room]
    by (elim disjE exE) (simp_all add: pointers_ok_kept [OF kept_simple(1)])
next
  case (alived s L gs gs')
  then have ok: "pointers_ok gs L" by simp
  have "gs' = fresh_session s gs" using alived(2) by (simp add: GS_OnSocketSessionAlived_def pointers_ok_fresh(2) [OF ok])
  then show ?case using pointers_ok_fresh(1) [OF ok, of s] alived by (simp add: insert_absorb)
next
  case (abandoned s L gs gs')
  then show ?case
    unfolding GS_OnSocketSessionAbandoned_def
    by (auto simp: res_iff split: option.splits if_splits info_ptr.splits dest!: client_abandoned_kept intro: pointers_ok_kept)
next
  case (tick epoch now gs gs' L)
  then show ?case using pointers_ok_kept [OF tick_kept] by auto
qed (use accepted_ok closed_ok data_ok in auto)

lemma reachable_ok:
  assumes "(game_step pack unpack vt)\<^sup>*\<^sup>* c c'" "pointers_ok (fst c) (snd c)"
  shows "pointers_ok (fst c') (snd c')"
  using assms by (induction rule: rtranclp_induct) (blast intro: step_ok)+

end

lemma pointers_ok_use:
  assumes ok: "pointers_ok gs L" and s: "s \<in> L" and p: "um_find (gs_info_ptr gs) s = Some p"
  shows "\<exists>info. deref_info p gs = Inr info \<and>
      (\<forall>k. p = ActivePtr k \<longrightarrow> us_session info = Some s \<and> us_universal_session_id info = k) \<and>
      (\<forall>s'\<in>L. um_find (gs_info_ptr gs) s' = Some p \<longrightarrow> p = SupervisorPtr \<or> s' = s)"
proof (cases p)
  case SupervisorPtr
  then show ?thesis by (simp add: deref_info_def)
next
  case (ActivePtr k)
  have at: "\<exists>i. um_find (gs_active_sessions gs) k = Some i \<and> us_session i = Some s' \<and> us_universal_session_id i = k"
    if "s' \<in> L" "um_find (gs_info_ptr gs) s' = Some p" for s'
    using ok that ActivePtr unfolding pointers_ok_def by blast
  obtain i where i: "um_find (gs_active_sessions gs) k = Some i" "us_session i = Some s" "us_universal_session_id i = k"
    using at [OF s p] by blast
  have "s' = s" if "s' \<in> L" "um_find (gs_info_ptr gs) s' = Some p" for s'
    using at [OF that] i by simp
  then show ?thesis using i ActivePtr by (simp add: deref_info_def)
qed

lemma Initialize_pointers_ok:
  "GS_Initialize now loopback zero heap game my_type my_address configs supervisor_address config = Some gs \<Longrightarrow> pointers_ok gs {}"
  by (auto simp: GS_Initialize_def Let_def RegisterConnectorSocket_def gs_emit_def pointers_ok_def split: if_splits)

lemma dangling_session:
  assumes "deref_info (ActivePtr k) gs = Inl Undefined" "um_find (gs_info_ptr gs) s = Some (ActivePtr k)"
  shows "GS_OnSocketSessionData ops vt s header packet gs = Inl Undefined \<and> (\<exists>e. GS_OnSocketSessionClosed ops vt s gs = Inl e)"
proof -
  have "GS_OnSocketSessionClosed ops vt s gs \<noteq> Inr g" for g
  proof
    assume "GS_OnSocketSessionClosed ops vt s gs = Inr g"
    then obtain gs1 info where "sessions_kept gs gs1" "deref_info (ActivePtr k) gs1 = Inr info"
      using assms(2) unfolding GS_OnSocketSessionClosed_def by (auto simp: rbind_Inr_iff dest!: kept_on_posting_res)
    then show False using assms(1) by (simp add: deref_info_def sessions_kept_def split: option.splits)
  qed
  then show ?thesis
    using assms by (cases "GS_OnSocketSessionClosed ops vt s gs") (auto simp: GS_OnSocketSessionData_def)
qed

context game_callbacks
begin

lemma reset_clears:
  assumes "GS_Reset ops vt gs = Inr gs'"
  shows "gs_active_sessions gs' = [] \<and> gs_info_ptr gs' = gs_info_ptr gs"
proof -
  from assms obtain gs1 gs2 gs3 gs4 where
      1: "foldr_res (\<lambda>(k, i) gs. on_posting_res (UnsetAll ops (si_server_id (is_server_info i)))
          (if is_socket_connector_id i > 0 then UnregisterConnectorSocket (is_socket_connector_id i) gs else gs)) (gs_server_sessions gs) gs = Inr gs1"
    and 2: "foldr_res (\<lambda>(k, i) gs. close_ptr (us_session i) gs) (gs_active_sessions gs) gs1 = Inr gs2"
    and 3: "sessions_kept (gs2\<lparr>gs_active_sessions := [], gs_server_sessions := []\<rparr>) gs3"
    and 4: "sessions_kept (gs3\<lparr>gs_service_ready := False\<rparr>) gs4"
    and out: "gs' = gs4\<lparr>gs_server_sessions := um_set SUPERVISOR_SERVER_ID (gs_supervisor gs4) (gs_server_sessions gs4)\<rparr>"
    unfolding GS_Reset_def by (auto simp: rbind_Inr_iff dest!: kept_on_posting_res reset_kept)
  have "sessions_kept gs gs1"
    by (rule kept_foldr_res [OF 1]) (auto dest!: kept_on_posting_res intro: sessions_kept_trans [OF kept_connectors(1)] split: if_splits)
  moreover have "sessions_kept gs1 gs2" by (rule kept_foldr_res [OF 2]) (auto dest: kept_ptr)
  ultimately show ?thesis using 3 4 out by (simp add: sessions_kept_def)
qed

end

end
