(* ===== verification/PlayWorkers.thy ===== *)
theory PlayWorkers
  imports GameServers
begin

text \<open>
  The play server: \<^verbatim>\<open>play/PlayWorker.cpp\<close> and \<^verbatim>\<open>play/PacketHandler.cpp\<close>. Its own state is the \<open>World\<close>.

  A call into the world runs on an empty outbox; what the world posted is then carried out in order, through the posting
  manager of the server or, for a direct answer, on the session of the request. The world never reads the posting manager, so
  carrying the posts out after the call and not in the middle of it makes no difference.
\<close>

section \<open>Calls into the world\<close>

definition deliver :: "'h session_ops \<Rightarrow> (Packet \<Rightarrow> u8 list) \<Rightarrow> u64 option \<Rightarrow> post \<Rightarrow> ('h, 'g) GameServer \<Rightarrow> ('h, 'g) GameServer res" where
  "deliver ops pack request p gs =
    (case p of
       Reply packet error \<Rightarrow> send_ptr request packet error gs
     | CloseRequestSession \<Rightarrow> close_ptr request gs
     | _ \<Rightarrow> on_posting_res (perform ops pack p) gs)"

definition play_world ::
  "'h session_ops \<Rightarrow> (Packet \<Rightarrow> u8 list) \<Rightarrow> u64 option \<Rightarrow> (World \<Rightarrow> World res) \<Rightarrow> ('h, World) GameServer \<Rightarrow> ('h, World) GameServer res" where
  "play_world ops pack request f gs =
    rbind (f ((gs_game gs)\<lparr>w_outbox := []\<rparr>)) (\<lambda>w.
      foldr_res (deliver ops pack request) (w_outbox w) (gs\<lparr>gs_game := w\<lparr>w_outbox := []\<rparr>\<rparr>))"

section \<open>Handlers\<close>

text \<open>The handlers of \<^verbatim>\<open>PacketHandler\<close>; \<open>server\<close> is what the \<^verbatim>\<open>IntraServerInfo*\<close> points to.\<close>

definition OnAgencySpawnCharacterReq ::
  "'h session_ops \<Rightarrow> (Packet \<Rightarrow> u8 list) \<Rightarrow> garbage \<Rightarrow> int \<Rightarrow> IntraServerInfo \<Rightarrow> packet_spawn_character_rq \<Rightarrow>
   ('h, World) GameServer \<Rightarrow> ('h, World) GameServer res" where
  "OnAgencySpawnCharacterReq ops pack gb tick server packet =
    play_world ops pack (us_session server) (SpawnCharacter gb tick (si_server_id (is_server_info server)) packet)"

definition OnAgencyRemoveCharacterReq ::
  "'h session_ops \<Rightarrow> (Packet \<Rightarrow> u8 list) \<Rightarrow> garbage \<Rightarrow> IntraServerInfo \<Rightarrow> packet_remove_character_rq \<Rightarrow>
   ('h, World) GameServer \<Rightarrow> ('h, World) GameServer res" where
  "OnAgencyRemoveCharacterReq ops pack gb server packet =
    play_world ops pack (us_session server) (RemoveCharacter gb (si_server_id (is_server_info server)) packet)"

definition OnAgencyUserMoveReq ::
  "'h session_ops \<Rightarrow> (Packet \<Rightarrow> u8 list) \<Rightarrow> IntraServerInfo \<Rightarrow> packet_character_move_rq \<Rightarrow>
   ('h, World) GameServer \<Rightarrow> ('h, World) GameServer res" where
  "OnAgencyUserMoveReq ops pack server packet =
    play_world ops pack (us_session server) (MoveObject (si_server_id (is_server_info server)) packet)"

definition OnPlayCreateObservingObjectReq ::
  "'h session_ops \<Rightarrow> (Packet \<Rightarrow> u8 list) \<Rightarrow> IntraServerInfo \<Rightarrow> packet_create_observing_object_rq \<Rightarrow>
   ('h, World) GameServer \<Rightarrow> ('h, World) GameServer res" where
  "OnPlayCreateObservingObjectReq ops pack server packet = play_world ops pack (us_session server) (CreateObservingObject packet)"

definition OnPlayRemoveObservingObjectReq ::
  "'h session_ops \<Rightarrow> (Packet \<Rightarrow> u8 list) \<Rightarrow> IntraServerInfo \<Rightarrow> packet_remove_observing_object_rq \<Rightarrow>
   ('h, World) GameServer \<Rightarrow> ('h, World) GameServer res" where
  "OnPlayRemoveObservingObjectReq ops pack server packet = play_world ops pack (us_session server) (RemoveObservingObject packet)"

definition Play_OnPlayPromoteObjectReq ::
  "'h session_ops \<Rightarrow> (Packet \<Rightarrow> u8 list) \<Rightarrow> int \<Rightarrow> IntraServerInfo \<Rightarrow> packet_promote_object_rq \<Rightarrow>
   ('h, World) GameServer \<Rightarrow> ('h, World) GameServer res" where
  "Play_OnPlayPromoteObjectReq ops pack tick server packet = play_world ops pack (us_session server) (PromoteObservingObject tick packet)"

section \<open>PlayWorker\<close>

definition Play_Update ::
  "'h session_ops \<Rightarrow> (Packet \<Rightarrow> u8 list) \<Rightarrow> garbage \<Rightarrow> int \<Rightarrow> int \<Rightarrow> int \<Rightarrow> ('h, World) GameServer \<Rightarrow> ('h, World) GameServer res" where
  "Play_Update ops pack gb tick current_time delta_time gs =
    rbind (play_world ops pack None (World_Update gb tick current_time delta_time) gs)
      (on_posting_res (\<lambda>sp. rbind (ForceFlushPacket ops (sp_throttler sp) (sp_heap sp))
         (\<lambda>(pt, h). Inr (sp\<lparr>sp_throttler := pt, sp_heap := h\<rparr>))))"

definition Play_OnSupervisorResetMinionServer :: "('h, World) GameServer \<Rightarrow> ('h, World) GameServer res" where
  "Play_OnSupervisorResetMinionServer gs = Inr (gs\<lparr>gs_game := ClearSector (gs_game gs)\<rparr>)"

definition Play_OnSupervisorSectorAllocation :: "packet_sector_allocation_ps \<Rightarrow> ('h, World) GameServer \<Rightarrow> ('h, World) GameServer res" where
  "Play_OnSupervisorSectorAllocation packet gs =
    (let my_id = si_server_id (gs_my_server_info gs);
         w = fold (\<lambda>i w. if si_server_id (al_server_info i) = my_id then RemoveSector (al_sector_id i) w else w)
               (sal_deallocation_info packet) (gs_game gs)
     in rbind (foldr_res (\<lambda>i w. if si_server_id (al_server_info i) = my_id
                                 then AddSector (si_server_id (al_server_info i)) (al_sector_id i) w else Inr w)
                 (sal_allocation_info packet) w)
          (\<lambda>w'. Inr (gs\<lparr>gs_game := w'\<rparr>)))"

definition listed_object :: "garbage \<Rightarrow> u64 \<Rightarrow> Fixture \<Rightarrow> PacketObjectInfo" where
  "listed_object gb sector_id fixture =
    (gb_object_info gb)\<lparr>oi_fixture := fixture, oi_object_id := fx_id fixture, oi_sector_id := sector_id, oi_type := Character\<rparr>"

definition Play_OnIntraServerAccepted ::
  "'h session_ops \<Rightarrow> (Packet \<Rightarrow> u8 list) \<Rightarrow> garbage \<Rightarrow> server_ptr \<Rightarrow> ('h, World) GameServer \<Rightarrow> ('h, World) GameServer res" where
  "Play_OnIntraServerAccepted ops pack gb p gs =
    (case server_at p gs of
       None \<Rightarrow> Inl Undefined
     | Some server \<Rightarrow>
       if si_server_type (is_server_info server) = AgencyServer then
         foldr_res (\<lambda>(sector_id, sector) gs.
             case sector of
               None \<Rightarrow> Inr gs
             | Some ss \<Rightarrow>
               (case us_session server of
                  None \<Rightarrow> Inl NullDeref
                | Some k \<Rightarrow> on_posting_res (post_to ops pack k (P_object_list_ps \<lparr>ol_sector_id = sector_id,
                    ol_object_list = map (\<lambda>(_, f). listed_object gb sector_id f) (ss_fixtures ss)\<rparr>)) gs))
           (w_sectors (gs_game gs)) gs
       else Inr gs)"

text \<open>The switch of \<^verbatim>\<open>OnIntraServerData\<close>. A body that does not deserialise closes the session.\<close>

definition play_dispatch ::
  "'h session_ops \<Rightarrow> (Packet \<Rightarrow> u8 list) \<Rightarrow> garbage \<Rightarrow> int \<Rightarrow> IntraServerInfo \<Rightarrow> PacketHeader \<Rightarrow> Packet option \<Rightarrow>
   ('h, World) GameServer \<Rightarrow> ('h, World) GameServer res" where
  "play_dispatch ops pack gb tick server header packet gs =
    (case type_of_value (ph_packet_type header) of
       Some T_spawn_character_rq \<Rightarrow>
         (case packet of Some (P_spawn_character_rq r) \<Rightarrow> OnAgencySpawnCharacterReq ops pack gb tick server r gs
          | _ \<Rightarrow> close_ptr (us_session server) gs)
     | Some T_character_move_rq \<Rightarrow>
         (case packet of Some (P_character_move_rq r) \<Rightarrow> OnAgencyUserMoveReq ops pack server r gs
          | _ \<Rightarrow> close_ptr (us_session server) gs)
     | Some T_remove_character_rq \<Rightarrow>
         (case packet of Some (P_remove_character_rq r) \<Rightarrow> OnAgencyRemoveCharacterReq ops pack gb server r gs
          | _ \<Rightarrow> close_ptr (us_session server) gs)
     | Some T_create_observing_object_rq \<Rightarrow>
         (case packet of Some (P_create_observing_object_rq r) \<Rightarrow> OnPlayCreateObservingObjectReq ops pack server r gs
          | _ \<Rightarrow> close_ptr (us_session server) gs)
     | Some T_remove_observing_object_rq \<Rightarrow>
         (case packet of Some (P_remove_observing_object_rq r) \<Rightarrow> OnPlayRemoveObservingObjectReq ops pack server r gs
          | _ \<Rightarrow> close_ptr (us_session server) gs)
     | Some T_promote_object_rq \<Rightarrow>
         (case packet of Some (P_promote_object_rq r) \<Rightarrow> Play_OnPlayPromoteObjectReq ops pack tick server r gs
          | _ \<Rightarrow> close_ptr (us_session server) gs)
     | _ \<Rightarrow> Inr gs)"

definition Play_OnIntraServerData ::
  "'h session_ops \<Rightarrow> (Packet \<Rightarrow> u8 list) \<Rightarrow> garbage \<Rightarrow> int \<Rightarrow> server_ptr \<Rightarrow> PacketHeader \<Rightarrow> Packet option \<Rightarrow>
   ('h, World) GameServer \<Rightarrow> ('h, World) GameServer res" where
  "Play_OnIntraServerData ops pack gb tick p header packet gs =
    (case server_at p gs of None \<Rightarrow> Inl Undefined | Some server \<Rightarrow> play_dispatch ops pack gb tick server header packet gs)"

definition play_vtable :: "'h session_ops \<Rightarrow> (Packet \<Rightarrow> u8 list) \<Rightarrow> garbage \<Rightarrow> int \<Rightarrow> ('h, World) GameServer game_vtable" where
  "play_vtable ops pack gb tick =
    \<lparr>vt_OnSupervisorResetMinionServer = Play_OnSupervisorResetMinionServer,
     vt_OnSupervisorSectorAllocation = Play_OnSupervisorSectorAllocation,
     vt_OnClientAccepted = (\<lambda>_. Inr), vt_OnClientClosed = (\<lambda>_. Inr), vt_OnClientAbandoned = (\<lambda>_. Inr), vt_OnClientAlived = (\<lambda>_. Inr),
     vt_OnClientData = (\<lambda>_ _ _. Inr),
     vt_OnIntraServerConnected = (\<lambda>_. Inr),
     vt_OnIntraServerAccepted = Play_OnIntraServerAccepted ops pack gb,
     vt_OnIntraServerClosed = (\<lambda>_. Inr),
     vt_OnIntraServerData = Play_OnIntraServerData ops pack gb tick,
     vt_CheckIntraServerConnectivity = (\<lambda>_ _. True),
     vt_CheckIntraServerSectorListening = (\<lambda>_ _ _. True)\<rparr>"

section \<open>A play server is a game server\<close>

lemma kept_deliver: "deliver ops pack request p gs = Inr gs' \<Longrightarrow> sessions_kept gs gs'"
  unfolding deliver_def by (auto split: post.splits dest: kept_ptr kept_on_posting_res)

lemma kept_play_world: "play_world ops pack request f gs = Inr gs' \<Longrightarrow> sessions_kept gs gs'"
  unfolding play_world_def rbind_Inr_iff
  by (elim exE conjE, rule sessions_kept_trans [OF kept_simple(4)], erule kept_foldr_res, erule kept_deliver)

lemma kept_play_accepted: "Play_OnIntraServerAccepted ops pack gb p gs = Inr gs' \<Longrightarrow> sessions_kept gs gs'"
  unfolding Play_OnIntraServerAccepted_def
  by (auto split: option.splits if_splits elim!: kept_foldr_res kept_on_posting_res)

lemma kept_play_data: "Play_OnIntraServerData ops pack gb tick p header packet gs = Inr gs' \<Longrightarrow> sessions_kept gs gs'"
  unfolding Play_OnIntraServerData_def play_dispatch_def OnAgencySpawnCharacterReq_def OnAgencyUserMoveReq_def OnAgencyRemoveCharacterReq_def
    OnPlayCreateObservingObjectReq_def OnPlayRemoveObservingObjectReq_def Play_OnPlayPromoteObjectReq_def
  by (auto split: option.splits PacketType.splits Packet.splits dest: kept_play_world kept_ptr)

interpretation play: game_callbacks "play_vtable (heap_ops pack) pack gb tick"
  by unfold_locales
    (auto simp: play_vtable_def Play_OnSupervisorResetMinionServer_def Play_OnSupervisorSectorAllocation_def Let_def res_iff
      dest: kept_play_accepted kept_play_data)

text \<open>A failed recovery leaves dangling pointers behind. \<^verbatim>\<open>Reset\<close> closes every session and clears \<^verbatim>\<open>_active_sessions\<close>, but the
  sessions keep the pointers into it as user data: the close events that follow, and any packet that was still queued, follow
  a pointer to an erased element.\<close>
theorem play_reset_dangles:
  assumes "ph_error_code header \<noteq> error_code_value None'"
    and "OnRecoveryMinionServerRes (heap_ops pack) (play_vtable (heap_ops pack) pack gb tick) supervisor_session header gs = Inr gs'"
    and "um_find (gs_info_ptr gs) s = Some (ActivePtr k)"
  shows "GS_OnSocketSessionData (heap_ops pack) (play_vtable (heap_ops pack) pack gb tick) s header' packet gs' = Inl Undefined \<and>
    (\<exists>e. GS_OnSocketSessionClosed (heap_ops pack) (play_vtable (heap_ops pack) pack gb tick) s gs' = Inl e)"
proof -
  let ?vt = "play_vtable (heap_ops pack) pack gb tick"
  from assms(1,2) obtain gs1 e where 1: "GS_Reset (heap_ops pack) ?vt gs = Inr gs1" and gs': "gs' = gs_emit e gs1"
    by (auto simp: OnRecoveryMinionServerRes_def rbind_Inr_iff)
  have "deref_info (ActivePtr k) gs' = Inl Undefined" "um_find (gs_info_ptr gs') s = Some (ActivePtr k)"
    using play.reset_clears [OF 1] assms(3) by (simp_all add: gs' gs_emit_def deref_info_def)
  then show ?thesis by (rule dangling_session)
qed

definition sample_play :: "(session_heap, World) GameServer" where
  "sample_play = the (GS_Initialize 0 5 \<lparr>si_server_type = PlayServer, si_server_id = 0, si_address = \<lparr>sa_ip = [], sa_port = 0\<rparr>\<rparr>
     (\<lambda>_. None) new_World PlayServer \<lparr>sa_ip = [], sa_port = 8000\<rparr> [] \<lparr>sa_ip = [], sa_port = 7000\<rparr>
     \<lparr>game_update_tick_ms = 10, packet_batch_process_time_ms = 10, fixture_transform_cooltime_ms = 10\<rparr>)"

theorem play_reset_dangles_witness:
  "\<exists>gs'. OnRecoveryMinionServerRes (heap_ops (\<lambda>_. [])) (play_vtable (heap_ops (\<lambda>_. [])) (\<lambda>_. []) sample_gb 0) 3
       \<lparr>ph_packet_type = 0, ph_error_code = error_code_value RecoveryFailed, ph_body_size = 0\<rparr> (snd (new_active 7 sample_play)) = Inr gs' \<and>
     GS_OnSocketSessionData (heap_ops (\<lambda>_. [])) (play_vtable (heap_ops (\<lambda>_. [])) (\<lambda>_. []) sample_gb 0) 7
       \<lparr>ph_packet_type = 0, ph_error_code = 0, ph_body_size = 0\<rparr> None gs' = Inl Undefined"
proof -
  let ?ops = "heap_ops (\<lambda>_. [])" and ?h = "\<lparr>ph_packet_type = 0, ph_error_code = error_code_value RecoveryFailed, ph_body_size = 0\<rparr>"
  let ?vt = "play_vtable ?ops (\<lambda>_. []) sample_gb 0" and ?gs = "snd (new_active 7 sample_play)"
  have "\<exists>gs'. OnRecoveryMinionServerRes ?ops ?vt 3 ?h ?gs = Inr gs'"
    by (simp add: OnRecoveryMinionServerRes_def GS_Reset_def new_active_def set_info_ptr_def sample_play_def GS_Initialize_def Let_def
        RegisterConnectorSocket_def gs_emit_def on_posting_res_def UnsetAll_def UnlinkSession_def session_at_def no_session_def
        close_ptr_def put_session_def play_vtable_def Play_OnSupervisorResetMinionServer_def SUPERVISOR_SERVER_ID_def um_get_def)
  then obtain gs' where 1: "OnRecoveryMinionServerRes ?ops ?vt 3 ?h ?gs = Inr gs'" by blast
  have 2: "um_find (gs_info_ptr ?gs) 7 = Some (ActivePtr 100)"
    by (simp add: new_active_def set_info_ptr_def sample_play_def GS_Initialize_def Let_def RegisterConnectorSocket_def gs_emit_def)
  show ?thesis using 1 play_reset_dangles [OF _ 1 2] by auto
qed

end
