(* ===== verification/Agency.thy ===== *)
theory Agency
  imports GameServers
begin

text \<open>
  The agency, the server that clients talk to: \<^verbatim>\<open>agency/AgencyWorker.cpp\<close> and \<^verbatim>\<open>agency/PacketHandler.cpp\<close>.

  A \<^verbatim>\<open>UniversalSessionInfo*\<close> in \<^verbatim>\<open>_object_sessions\<close> points to an element of \<^verbatim>\<open>_active_sessions\<close> and is the key of that element;
  following it after the element is gone is \<open>Undefined\<close>. The strings that sessions keep as user data are an allocation table,
  their pointer the address there (0 is null). \<open>gb\<close> is what uninitialised members of local packets hold.
\<close>

section \<open>State\<close>

record AgencyState =
  ag_object_sessions :: "(u64, u64) umap"
  ag_a1 :: u32
  ag_a2 :: u32
  ag_object_cache :: "(u64, (u64, Fixture) umap) umap"
  ag_strings :: "(u64, string) umap"
  ag_next_string :: u64

definition new_AgencyState :: AgencyState where
  "new_AgencyState = \<lparr>ag_object_sessions = [], ag_a1 = 0, ag_a2 = 0, ag_object_cache = [], ag_strings = [], ag_next_string = 1\<rparr>"

datatype AgencySessionValue = UserId | ObjectId | SectorId | Nickname

fun session_value :: "AgencySessionValue \<Rightarrow> u64" where
  "session_value UserId = 0"
| "session_value ObjectId = 1"
| "session_value SectorId = 2"
| "session_value Nickname = 3"

definition InitialSectorId :: u64 where "InitialSectorId = si_sector_id CenterSector"

definition InitialCharacterPosition :: Vector2 where
  "InitialCharacterPosition = Center (projr (GetSectorFixtureRectangle InitialSectorId))"

type_synonym 'h agency = "('h, AgencyState) GameServer"

definition on_agency :: "(AgencyState \<Rightarrow> AgencyState) \<Rightarrow> 'h agency \<Rightarrow> 'h agency" where
  "on_agency f gs = gs\<lparr>gs_game := f (gs_game gs)\<rparr>"

definition cached :: "u64 \<Rightarrow> 'h agency \<Rightarrow> (u64, Fixture) umap" where
  "cached sector gs = um_get [] sector (ag_object_cache (gs_game gs))"

definition set_cached :: "u64 \<Rightarrow> (u64, Fixture) umap \<Rightarrow> 'h agency \<Rightarrow> 'h agency" where
  "set_cached sector c = on_agency (\<lambda>a. a\<lparr>ag_object_cache := um_set sector c (ag_object_cache a)\<rparr>)"

text \<open>Posting with a policy, and sending to the listeners of a sector.\<close>

definition agency_post ::
  "'h session_ops \<Rightarrow> (Packet \<Rightarrow> u8 list) \<Rightarrow> u64 \<Rightarrow> Packet \<Rightarrow> PacketPostingPolicy \<Rightarrow> 'h agency \<Rightarrow> 'h agency res" where
  "agency_post ops pack session packet policy =
    on_posting_res (\<lambda>sp. rbind (PostPacket ops pack session packet policy (sp_throttler sp) (sp_heap sp))
      (\<lambda>(pt, h). Inr (sp\<lparr>sp_throttler := pt, sp_heap := h\<rparr>)))"

definition agency_broadcast :: "'h session_ops \<Rightarrow> (Packet \<Rightarrow> u8 list) \<Rightarrow> Packet \<Rightarrow> u64 \<Rightarrow> 'h agency \<Rightarrow> 'h agency res" where
  "agency_broadcast ops pack packet sector = on_posting_res (Posting_SendToSector ops pack packet sector False)"

definition owner_session :: "u64 \<Rightarrow> 'h agency \<Rightarrow> u64 option \<times> 'h agency" where
  "owner_session sector gs = (let (s, sp) = GetSectorOwnerSession sector (gs_posting gs) in (s, gs\<lparr>gs_posting := sp\<rparr>))"

text \<open>The session of a client, and its user data.\<close>

definition client_session :: "u64 \<Rightarrow> 'h agency \<Rightarrow> (UniversalSessionInfo \<times> u64) res" where
  "client_session k gs =
    rbind (deref_info (ActivePtr k) gs) (\<lambda>info. case us_session info of None \<Rightarrow> Inl NullDeref | Some s \<Rightarrow> Inr (info, s))"

abbreviation session_data :: "u64 \<Rightarrow> AgencySessionValue \<Rightarrow> 'h agency \<Rightarrow> u64" where
  "session_data s v gs \<equiv> user_data s (session_value v) gs"

abbreviation set_session_data :: "u64 \<Rightarrow> AgencySessionValue \<Rightarrow> u64 \<Rightarrow> 'h agency \<Rightarrow> 'h agency" where
  "set_session_data s v x gs \<equiv> set_user_data s (session_value v) x gs"

definition new_string :: "string \<Rightarrow> 'h agency \<Rightarrow> u64 \<times> 'h agency" where
  "new_string s gs =
    (let a = ag_next_string (gs_game gs)
     in (a, on_agency (\<lambda>g. g\<lparr>ag_strings := um_set a s (ag_strings g), ag_next_string := a + 1\<rparr>) gs))"

definition delete_string :: "u64 \<Rightarrow> 'h agency \<Rightarrow> 'h agency res" where
  "delete_string a gs =
    (if a = 0 then Inr gs
     else case um_find (ag_strings (gs_game gs)) a of
       None \<Rightarrow> Inl Undefined
     | Some _ \<Rightarrow> Inr (on_agency (\<lambda>g. g\<lparr>ag_strings := um_erase a (ag_strings g)\<rparr>) gs))"

section \<open>PacketHandler\<close>

definition OnUserMoveReq ::
  "'h session_ops \<Rightarrow> (Packet \<Rightarrow> u8 list) \<Rightarrow> u64 \<Rightarrow> packet_character_move_rq \<Rightarrow> 'h agency \<Rightarrow> 'h agency res" where
  "OnUserMoveReq ops pack k packet gs =
    rbind (client_session k gs) (\<lambda>(info, s).
    let current_sector_id = session_data s SectorId gs;
        object_id = session_data s ObjectId gs;
        (play_session, gs1) = owner_session current_sector_id gs in
    case play_session of
      None \<Rightarrow> Inr (gs_emit (GsClose s) gs1)
    | Some p \<Rightarrow>
        agency_post ops pack p (P_character_move_rq (packet\<lparr>cm_sector_id := current_sector_id, cm_object_id := object_id, cm_to_owner := True\<rparr>))
          Immediate gs1)"

definition moved_fixture :: "'h agency \<Rightarrow> Direction \<Rightarrow> Vector2 \<Rightarrow> Fixture \<Rightarrow> Fixture" where
  "moved_fixture gs direction position f =
    f\<lparr>fx_direction := direction, fx_position := position, fx_last_transform_time := gs_epoch gs\<rparr>"

definition OnPlayMoveCharacterRes ::
  "'h session_ops \<Rightarrow> (Packet \<Rightarrow> u8 list) \<Rightarrow> PacketHeader \<Rightarrow> packet_character_move_rs \<Rightarrow> 'h agency \<Rightarrow> 'h agency res" where
  "OnPlayMoveCharacterRes ops pack header packet gs =
    (if ph_error_code header \<noteq> error_code_value None' then Inr gs
     else
       case um_find (ag_object_sessions (gs_game gs)) (cms_object_id packet) of
         None \<Rightarrow> Inr gs
       | Some k \<Rightarrow>
           let objects = cached (cms_sector_id packet) gs;
               fixture = moved_fixture gs (cms_direction packet) (cms_starting_position packet) (um_get new_Fixture (cms_object_id packet) objects);
               gs1 = set_cached (cms_sector_id packet) (um_set (cms_object_id packet) fixture objects) gs;
               response = \<lparr>om_sector_id = cms_sector_id packet, om_object_id = cms_object_id packet,
                           om_starting_position = cms_starting_position packet, om_direction = cms_direction packet\<rparr>
           in rbind (client_session k gs1) (\<lambda>(info, s).
              on_posting_res (Posting_SendToSectorWithout ops pack (us_universal_session_id info) (P_object_move_ps response)
                  (cms_sector_id packet) False)
                (gs_emit (GsSend s (P_character_move_rs packet) None') gs1)))"

definition listed_cache :: "int \<Rightarrow> u64 \<Rightarrow> Fixture \<Rightarrow> PacketObjectInfo" where
  "listed_cache now object_id f =
    \<lparr>oi_object_id = object_id, oi_sector_id = fx_sector_id f, oi_type = Character,
     oi_fixture = f\<lparr>fx_personal_delta_time :=
       (if fx_direction f \<noteq> DirMax then of_int ((now - fx_last_transform_time f) mod 65536) else 0)\<rparr>,
     oi_vital = \<lparr>hp = 0, speed = 0, damage = 0\<rparr>\<rparr>"

definition MakeObjectListPacket :: "u64 \<Rightarrow> 'h agency \<Rightarrow> packet_object_list_ps \<times> 'h agency" where
  "MakeObjectListPacket sector_id gs =
    (let objects = cached sector_id gs
     in (\<lparr>ol_sector_id = sector_id, ol_object_list = map (\<lambda>(k, f). listed_cache (gs_epoch gs) k f) objects\<rparr>, set_cached sector_id objects gs))"

text \<open>The part of \<^verbatim>\<open>OnPlaySpawnCharacterRes\<close> for a user that is still there.\<close>

definition enter_world ::
  "'h session_ops \<Rightarrow> (Packet \<Rightarrow> u8 list) \<Rightarrow> u64 \<Rightarrow> string \<Rightarrow> PacketObjectInfo \<Rightarrow> u64 \<Rightarrow> 'h agency \<Rightarrow> 'h agency res" where
  "enter_world ops pack user_id nickname object_info s gs =
    (let sector = oi_sector_id object_info;
         (a, gs1) = new_string nickname (set_session_data s SectorId sector gs);
         gs2 = set_session_data s ObjectId (oi_object_id object_info) (set_session_data s UserId user_id (set_session_data s Nickname a gs1));
         gs3 = on_agency (\<lambda>g. g\<lparr>ag_object_sessions := um_set (oi_object_id object_info) user_id (ag_object_sessions g)\<rparr>) gs2
     in rbind (agency_broadcast ops pack (P_create_object_ps object_info) sector gs3) (\<lambda>gs4.
        let gs5 = gs_emit (GsSend s (P_game_enter_request_rs \<lparr>ger_nickname = nickname, ger_object_info = object_info\<rparr>) None')
                    (on_posting (AddSectorListener sector user_id) gs4);
            (object_push, gs6) = MakeObjectListPacket sector gs5
        in Inr (gs_emit (GsSend s (P_object_list_ps object_push) None') gs6)))"

definition OnPlaySpawnCharacterRes ::
  "'h session_ops \<Rightarrow> (Packet \<Rightarrow> u8 list) \<Rightarrow> IntraServerInfo \<Rightarrow> packet_spawn_character_rs \<Rightarrow> 'h agency \<Rightarrow> 'h agency res" where
  "OnPlaySpawnCharacterRes ops pack server packet gs =
    (let received = sps_object_info packet;
         object_info = received\<lparr>oi_fixture := (oi_fixture received)\<lparr>fx_last_transform_time := gs_epoch gs\<rparr>\<rparr>;
         sector = oi_sector_id object_info;
         gs1 = set_cached sector (um_set (oi_object_id object_info) (oi_fixture object_info) (cached sector gs)) gs
     in case um_find (gs_active_sessions gs1) (sps_user_id packet) of
          None \<Rightarrow>
            send_ptr (us_session server) (P_remove_character_rs \<lparr>rcs_user_id = sps_user_id packet, rcs_sector_id = sector,
              rcs_object_id = oi_object_id object_info\<rparr>) None' gs1
        | Some info \<Rightarrow>
            (case us_session info of
               None \<Rightarrow> Inl NullDeref
             | Some s \<Rightarrow> enter_world ops pack (sps_user_id packet) (sps_nickname packet) object_info s gs1))"

definition OnPlayRemoveCharacterRes ::
  "'h session_ops \<Rightarrow> (Packet \<Rightarrow> u8 list) \<Rightarrow> packet_remove_character_rs \<Rightarrow> 'h agency \<Rightarrow> 'h agency res" where
  "OnPlayRemoveCharacterRes ops pack packet gs =
    agency_broadcast ops pack (P_remove_object_ps \<lparr>ro_sector_id = rcs_sector_id packet, ro_object_id = rcs_object_id packet, ro_reason = 0\<rparr>)
      (rcs_sector_id packet)
      (set_cached (rcs_sector_id packet) (um_erase (rcs_object_id packet) (cached (rcs_sector_id packet) gs)) gs)"

definition OnPlayObjectListPush ::
  "'h session_ops \<Rightarrow> (Packet \<Rightarrow> u8 list) \<Rightarrow> int \<Rightarrow> packet_object_list_ps \<Rightarrow> 'h agency \<Rightarrow> 'h agency res" where
  "OnPlayObjectListPush ops pack now packet gs =
    (let objects = map (\<lambda>o'. o'\<lparr>oi_fixture := (oi_fixture o')\<lparr>fx_last_transform_time := now\<rparr>\<rparr>) (ol_object_list packet)
     in agency_broadcast ops pack (P_object_list_ps (packet\<lparr>ol_object_list := objects\<rparr>)) (ol_sector_id packet)
          (set_cached (ol_sector_id packet) (fold (\<lambda>o'. um_set (oi_object_id o') (oi_fixture o')) objects []) gs))"

definition OnPlayObjectMovePush ::
  "'h session_ops \<Rightarrow> (Packet \<Rightarrow> u8 list) \<Rightarrow> packet_object_move_ps \<Rightarrow> 'h agency \<Rightarrow> 'h agency res" where
  "OnPlayObjectMovePush ops pack packet gs =
    (let objects = cached (om_sector_id packet) gs;
         fixture = moved_fixture gs (om_direction packet) (om_starting_position packet) (um_get new_Fixture (om_object_id packet) objects)
     in agency_broadcast ops pack (P_object_move_ps packet) (om_sector_id packet)
          (set_cached (om_sector_id packet) (um_set (om_object_id packet) fixture objects) gs))"

definition OnPlayObjectCreatePush ::
  "'h session_ops \<Rightarrow> (Packet \<Rightarrow> u8 list) \<Rightarrow> PacketObjectInfo \<Rightarrow> 'h agency \<Rightarrow> 'h agency res" where
  "OnPlayObjectCreatePush ops pack info gs =
    agency_broadcast ops pack (P_create_object_ps info) (oi_sector_id info)
      (set_cached (oi_sector_id info)
        (um_set (oi_object_id info) ((oi_fixture info)\<lparr>fx_last_transform_time := gs_epoch gs\<rparr>) (cached (oi_sector_id info) gs)) gs)"

definition OnPlayObjectRemovePush ::
  "'h session_ops \<Rightarrow> (Packet \<Rightarrow> u8 list) \<Rightarrow> packet_remove_object_ps \<Rightarrow> 'h agency \<Rightarrow> 'h agency res" where
  "OnPlayObjectRemovePush ops pack packet gs =
    agency_broadcast ops pack (P_remove_object_ps packet) (ro_sector_id packet)
      (set_cached (ro_sector_id packet) (um_erase (ro_object_id packet) (cached (ro_sector_id packet) gs)) gs)"

text \<open>The part of \<^verbatim>\<open>OnPlayPromoteObjectReq\<close> that moves the user along with its object.\<close>

definition follow_object :: "u64 \<Rightarrow> u64 \<Rightarrow> u64 \<Rightarrow> 'h agency \<Rightarrow> 'h agency res" where
  "follow_object k origin sector gs =
    rbind (client_session k gs) (\<lambda>(info, s).
    assert_that (session_data s SectorId gs = origin)
      (let (object_push, gs1) = MakeObjectListPacket sector gs;
           gs2 = gs_emit (GsSend s (P_object_list_ps object_push) None') (set_session_data s SectorId sector gs1)
       in Inr (on_posting (AddSectorListener sector (us_universal_session_id info))
                (on_posting (RemoveSectorListener origin (us_universal_session_id info)) gs2))))"

definition Agency_OnPlayPromoteObjectReq :: "packet_promote_object_rq \<Rightarrow> 'h agency \<Rightarrow> 'h agency res" where
  "Agency_OnPlayPromoteObjectReq packet gs =
    (let sector = oi_sector_id (po_object_info packet);
         object_id = oi_object_id (po_object_info packet);
         (departing_play_session, gs1) = owner_session sector gs;
         (origin_play_session, gs2) = owner_session (po_origin_sector_id packet) gs1 in
     if departing_play_session = None \<or> origin_play_session = None then Inr gs2
     else
       let origin_objects = cached (po_origin_sector_id packet) gs2;
           gs3 = set_cached (po_origin_sector_id packet) origin_objects gs2 in
       case um_find origin_objects object_id of
         None \<Rightarrow> Inr gs3
       | Some _ \<Rightarrow>
           let gs4 = set_cached sector (um_set object_id (oi_fixture (po_object_info packet)) (cached sector gs3)) gs3 in
           (case um_find (ag_object_sessions (gs_game gs4)) object_id of
              None \<Rightarrow> Inr gs4
            | Some k \<Rightarrow> follow_object k (po_origin_sector_id packet) sector gs4))"

section \<open>AgencyWorker\<close>

definition Agency_Update :: "'h session_ops \<Rightarrow> 'h agency \<Rightarrow> 'h agency res" where
  "Agency_Update ops =
    on_posting_res (\<lambda>sp. rbind (ForceFlushPacket ops (sp_throttler sp) (sp_heap sp))
      (\<lambda>(pt, h). Inr (sp\<lparr>sp_throttler := pt, sp_heap := h\<rparr>)))"

definition Agency_OnClientAccepted :: "'h session_ops \<Rightarrow> (Packet \<Rightarrow> u8 list) \<Rightarrow> garbage \<Rightarrow> u64 \<Rightarrow> 'h agency \<Rightarrow> 'h agency res" where
  "Agency_OnClientAccepted ops pack gb k gs =
    rbind (deref_info (ActivePtr k) gs) (\<lambda>info.
    let (play_session, gs1) = owner_session InitialSectorId gs in
    case play_session of
      None \<Rightarrow> close_ptr (us_session info) gs1
    | Some p \<Rightarrow>
        let user_id = us_universal_session_id info;
            fixture = new_Fixture\<lparr>fx_sector_id := fx_sector_id (oi_fixture (gb_object_info gb)),
                        fx_position := InitialCharacterPosition, fx_size := vec2 100 100\<rparr>;
            request = \<lparr>sp_user_id = user_id, sp_nickname = [],
                       sp_object_info = (gb_object_info gb)\<lparr>oi_sector_id := InitialSectorId, oi_fixture := fixture\<rparr>\<rparr>
        in agency_post ops pack p (P_spawn_character_rq request) Throttle (on_posting (LinkSession user_id (us_session info)) gs1))"

definition Agency_OnClientClosed :: "'h session_ops \<Rightarrow> (Packet \<Rightarrow> u8 list) \<Rightarrow> garbage \<Rightarrow> u64 \<Rightarrow> 'h agency \<Rightarrow> 'h agency res" where
  "Agency_OnClientClosed ops pack gb k gs =
    rbind (client_session k gs) (\<lambda>(info, s).
    let object_id = session_data s ObjectId gs;
        sector_id = session_data s SectorId gs;
        gs1 = on_agency (\<lambda>g. g\<lparr>ag_a1 := ag_a1 g + 1\<rparr>) gs in
    if object_id = 0 then Inr gs1
    else
      let gs2 = on_agency (\<lambda>g. g\<lparr>ag_a2 := ag_a2 g + 1\<rparr>) gs1;
          packet = \<lparr>rc_user_id = session_data s UserId gs2, rc_sector_id = sector_id, rc_object_id = object_id, rc_to_owner = gb_bool gb\<rparr>
      in rbind (on_posting_res (Posting_SendToSectorOwner ops pack (P_remove_character_rq packet) sector_id) gs2) (\<lambda>gs3.
         rbind (on_posting_res (UnsetAll ops (us_universal_session_id info)) gs3) (\<lambda>gs4.
         delete_string (session_data s Nickname gs2)
           (on_agency (\<lambda>g. g\<lparr>ag_object_sessions := um_erase object_id (ag_object_sessions g)\<rparr>) gs4))))"

definition Agency_OnIntraServerClosed :: "server_ptr \<Rightarrow> 'h agency \<Rightarrow> 'h agency res" where
  "Agency_OnIntraServerClosed p gs =
    (case server_at p gs of
       None \<Rightarrow> Inl Undefined
     | Some server \<Rightarrow>
       if si_server_type (is_server_info server) = PlayServer
       then Inr (on_posting (\<lambda>sp. snd (GetOwnershipSectors (si_server_id (is_server_info server)) sp)) gs)
       else Inr gs)"

definition Agency_OnClientData ::
  "'h session_ops \<Rightarrow> (Packet \<Rightarrow> u8 list) \<Rightarrow> u64 \<Rightarrow> PacketHeader \<Rightarrow> Packet option \<Rightarrow> 'h agency \<Rightarrow> 'h agency res" where
  "Agency_OnClientData ops pack k header packet gs =
    rbind (client_session k gs) (\<lambda>(info, s).
    if session_data s ObjectId gs = 0 then Inr (gs_emit (GsClose s) gs)
    else
      case type_of_value (ph_packet_type header) of
        Some T_character_move_rq \<Rightarrow>
          (case packet of Some (P_character_move_rq r) \<Rightarrow> OnUserMoveReq ops pack k r gs | _ \<Rightarrow> Inr (gs_emit (GsClose s) gs))
      | _ \<Rightarrow> Inr gs)"

definition agency_dispatch ::
  "'h session_ops \<Rightarrow> (Packet \<Rightarrow> u8 list) \<Rightarrow> IntraServerInfo \<Rightarrow> PacketHeader \<Rightarrow> Packet option \<Rightarrow> 'h agency \<Rightarrow> 'h agency res" where
  "agency_dispatch ops pack server header packet gs =
    (case type_of_value (ph_packet_type header) of
       Some T_spawn_character_rs \<Rightarrow>
         (case packet of Some (P_spawn_character_rs r) \<Rightarrow> OnPlaySpawnCharacterRes ops pack server r gs | _ \<Rightarrow> close_ptr (us_session server) gs)
     | Some T_remove_character_rs \<Rightarrow>
         (case packet of Some (P_remove_character_rs r) \<Rightarrow> OnPlayRemoveCharacterRes ops pack r gs | _ \<Rightarrow> close_ptr (us_session server) gs)
     | Some T_character_move_rs \<Rightarrow>
         (case packet of Some (P_character_move_rs r) \<Rightarrow> OnPlayMoveCharacterRes ops pack header r gs | _ \<Rightarrow> close_ptr (us_session server) gs)
     | Some T_create_object_ps \<Rightarrow>
         (case packet of Some (P_create_object_ps r) \<Rightarrow> OnPlayObjectCreatePush ops pack r gs | _ \<Rightarrow> close_ptr (us_session server) gs)
     | Some T_remove_object_ps \<Rightarrow>
         (case packet of Some (P_remove_object_ps r) \<Rightarrow> OnPlayObjectRemovePush ops pack r gs | _ \<Rightarrow> close_ptr (us_session server) gs)
     | Some T_object_move_ps \<Rightarrow>
         (case packet of Some (P_object_move_ps r) \<Rightarrow> OnPlayObjectMovePush ops pack r gs | _ \<Rightarrow> close_ptr (us_session server) gs)
     | Some T_promote_object_rq \<Rightarrow>
         (case packet of Some (P_promote_object_rq r) \<Rightarrow> Agency_OnPlayPromoteObjectReq r gs | _ \<Rightarrow> close_ptr (us_session server) gs)
     | _ \<Rightarrow> Inr gs)"

definition Agency_OnIntraServerData ::
  "'h session_ops \<Rightarrow> (Packet \<Rightarrow> u8 list) \<Rightarrow> server_ptr \<Rightarrow> PacketHeader \<Rightarrow> Packet option \<Rightarrow> 'h agency \<Rightarrow> 'h agency res" where
  "Agency_OnIntraServerData ops pack p header packet gs =
    (case server_at p gs of None \<Rightarrow> Inl Undefined | Some server \<Rightarrow> agency_dispatch ops pack server header packet gs)"

definition agency_vtable :: "'h session_ops \<Rightarrow> (Packet \<Rightarrow> u8 list) \<Rightarrow> garbage \<Rightarrow> 'h agency game_vtable" where
  "agency_vtable ops pack gb =
    \<lparr>vt_OnSupervisorResetMinionServer = Inr,
     vt_OnSupervisorSectorAllocation = (\<lambda>_. Inr),
     vt_OnClientAccepted = Agency_OnClientAccepted ops pack gb,
     vt_OnClientClosed = Agency_OnClientClosed ops pack gb,
     vt_OnClientAbandoned = (\<lambda>_. Inr), vt_OnClientAlived = (\<lambda>_. Inr),
     vt_OnClientData = Agency_OnClientData ops pack,
     vt_OnIntraServerConnected = (\<lambda>_. Inr),
     vt_OnIntraServerAccepted = (\<lambda>_. Inr),
     vt_OnIntraServerClosed = Agency_OnIntraServerClosed,
     vt_OnIntraServerData = Agency_OnIntraServerData ops pack,
     vt_CheckIntraServerConnectivity = (\<lambda>_ _. True),
     vt_CheckIntraServerSectorListening = (\<lambda>_ _ _. True)\<rparr>"

section \<open>An agency is a game server\<close>

lemma kept_iff [simp]:
  "sessions_kept (gs_emit e gs) gs' = sessions_kept gs gs'" "sessions_kept gs (gs_emit e gs') = sessions_kept gs gs'"
  "sessions_kept (set_user_data s v x gs) gs' = sessions_kept gs gs'" "sessions_kept gs (set_user_data s v x gs') = sessions_kept gs gs'"
  "sessions_kept (on_posting f gs) gs' = sessions_kept gs gs'" "sessions_kept gs (on_posting f gs') = sessions_kept gs gs'"
  "sessions_kept (gs\<lparr>gs_posting := sp\<rparr>) gs' = sessions_kept gs gs'" "sessions_kept gs (gs'\<lparr>gs_posting := sp\<rparr>) = sessions_kept gs gs'"
  by (simp_all add: sessions_kept_def gs_emit_def set_user_data_def on_posting_def)

lemma kept_agency_iff [simp]:
  "sessions_kept (on_agency g gs) gs' = sessions_kept gs gs'" "sessions_kept gs (on_agency g gs') = sessions_kept gs gs'"
  "sessions_kept (set_cached k c gs) gs' = sessions_kept gs gs'" "sessions_kept gs (set_cached k c gs') = sessions_kept gs gs'"
  by (simp_all add: sessions_kept_def on_agency_def set_cached_def)

lemma kept_agency_res:
  "agency_post ops pack s p policy gs = Inr gs' \<Longrightarrow> sessions_kept gs gs'"
  "agency_broadcast ops pack p s gs = Inr gs' \<Longrightarrow> sessions_kept gs gs'"
  "delete_string a gs = Inr gs' \<Longrightarrow> sessions_kept gs gs'"
  by (auto simp: agency_post_def agency_broadcast_def delete_string_def split: if_splits option.splits dest: kept_on_posting_res)

lemma client_session_Inr:
  "client_session k gs = Inr (info, s) \<longleftrightarrow> um_find (gs_active_sessions gs) k = Some info \<and> us_session info = Some s"
  by (auto simp: client_session_def deref_info_def res_iff split: option.splits)

lemmas agency_unfold = owner_session_def MakeObjectListPacket_def new_string_def enter_world_def follow_object_def Let_def

lemma kept_agency_requests:
  "OnUserMoveReq ops pack k p gs = Inr gs' \<Longrightarrow> sessions_kept gs gs'"
  "Agency_OnClientAccepted ops pack gb k gs = Inr gs' \<Longrightarrow> sessions_kept gs gs'"
  "Agency_OnClientClosed ops pack gb k gs = Inr gs' \<Longrightarrow> sessions_kept gs gs'"
  "Agency_OnIntraServerClosed q gs = Inr gs' \<Longrightarrow> sessions_kept gs gs'"
     apply (auto simp: OnUserMoveReq_def agency_unfold split_beta rbind_Inr_iff split: option.splits if_splits dest!: kept_agency_res)[1]
    apply (auto simp: Agency_OnClientAccepted_def agency_unfold split_beta rbind_Inr_iff split: option.splits if_splits dest!: kept_agency_res kept_ptr)[1]
   apply (auto simp: Agency_OnClientClosed_def Let_def split_beta rbind_Inr_iff split: option.splits if_splits
      dest!: kept_agency_res kept_on_posting_res, meson sessions_kept_trans)[1]
  apply (auto simp: Agency_OnIntraServerClosed_def split: option.splits if_splits)
  done

lemma kept_agency_handlers:
  "OnPlayMoveCharacterRes ops pack header r1 gs = Inr gs' \<Longrightarrow> sessions_kept gs gs'"
  "OnPlaySpawnCharacterRes ops pack server r2 gs = Inr gs' \<Longrightarrow> sessions_kept gs gs'"
  "OnPlayRemoveCharacterRes ops pack r3 gs = Inr gs' \<Longrightarrow> sessions_kept gs gs'"
  "OnPlayObjectMovePush ops pack r4 gs = Inr gs' \<Longrightarrow> sessions_kept gs gs'"
  "OnPlayObjectCreatePush ops pack r5 gs = Inr gs' \<Longrightarrow> sessions_kept gs gs'"
  "OnPlayObjectRemovePush ops pack r6 gs = Inr gs' \<Longrightarrow> sessions_kept gs gs'"
  "Agency_OnPlayPromoteObjectReq r7 gs = Inr gs' \<Longrightarrow> sessions_kept gs gs'"
  by (auto simp: OnPlayMoveCharacterRes_def OnPlaySpawnCharacterRes_def OnPlayRemoveCharacterRes_def OnPlayObjectMovePush_def
      OnPlayObjectCreatePush_def OnPlayObjectRemovePush_def Agency_OnPlayPromoteObjectReq_def agency_unfold res_iff split_beta
      split: option.splits if_splits dest!: kept_agency_res kept_on_posting_res kept_ptr)

lemma kept_agency_client_data: "Agency_OnClientData ops pack k header packet gs = Inr gs' \<Longrightarrow> sessions_kept gs gs'"
proof -
  assume "Agency_OnClientData ops pack k header packet gs = Inr gs'"
  then obtain s where "(if session_data s ObjectId gs = 0 then Inr (gs_emit (GsClose s) gs)
      else case type_of_value (ph_packet_type header) of
        Some T_character_move_rq \<Rightarrow>
          (case packet of Some (P_character_move_rq r) \<Rightarrow> OnUserMoveReq ops pack k r gs | _ \<Rightarrow> Inr (gs_emit (GsClose s) gs))
      | _ \<Rightarrow> Inr gs) = Inr gs'"
    unfolding Agency_OnClientData_def rbind_Inr_iff by force
  then show "sessions_kept gs gs'"
    by (cases "session_data s ObjectId gs = 0")
      (auto split: option.splits PacketType.splits Packet.splits dest: kept_agency_requests(1))
qed

lemma kept_agency_dispatch: "agency_dispatch ops pack server header packet gs = Inr gs' \<Longrightarrow> sessions_kept gs gs'"
  unfolding agency_dispatch_def
  by (auto split: option.splits PacketType.splits Packet.splits dest: kept_agency_handlers kept_ptr)

lemma kept_agency_data: "Agency_OnIntraServerData ops pack q header packet gs = Inr gs' \<Longrightarrow> sessions_kept gs gs'"
  unfolding Agency_OnIntraServerData_def by (auto split: option.splits dest: kept_agency_dispatch)

interpretation agency: game_callbacks "agency_vtable (heap_ops pack) pack gb"
  by unfold_locales (auto simp: agency_vtable_def dest: kept_agency_requests kept_agency_client_data kept_agency_data)


abbreviation sample_init :: "session_heap agency option" where
  "sample_init \<equiv> GS_Initialize 0 5 \<lparr>si_server_type = AgencyServer, si_server_id = 0, si_address = \<lparr>sa_ip = [], sa_port = 0\<rparr>\<rparr>
     (\<lambda>_. None) new_AgencyState AgencyServer \<lparr>sa_ip = [], sa_port = 8000\<rparr> [] \<lparr>sa_ip = [], sa_port = 7000\<rparr>
     \<lparr>game_update_tick_ms = 10, packet_batch_process_time_ms = 10, fixture_transform_cooltime_ms = 10\<rparr>"

definition sample_agency :: "session_heap agency" where
  "sample_agency = the sample_init"

lemma sample_agency_init: "sample_init = Some sample_agency"
  by (simp add: sample_agency_def GS_Initialize_def Let_def)

lemma sample_agency_fields:
  "gs_current_universal_session_id sample_agency = 100" "gs_info_ptr sample_agency = []" "gs_active_sessions sample_agency = []"
  by (simp_all add: sample_agency_def GS_Initialize_def Let_def RegisterConnectorSocket_def gs_emit_def)

lemma sample_agency_accepts:
  "game_step pack unpack (agency_vtable (heap_ops pack) pack gb) (sample_agency, {})
     (snd (new_active 7 (fresh_session 7 sample_agency)), {7})"
proof -
  have "gs_current_universal_session_id sample_agency \<noteq> - 1"
    by (simp add: sample_agency_fields)
  moreover have "GS_OnSocketSessionAccepted (agency_vtable (heap_ops pack) pack gb) False 7 (fresh_session 7 sample_agency) =
      Inr (snd (new_active 7 (fresh_session 7 sample_agency)))"
    by (simp add: GS_OnSocketSessionAccepted_def split_beta Let_def)
  ultimately show ?thesis using game_step.accepted [of 7 "{}"] by simp
qed

lemma sample_agency_run:
  "(game_step (\<lambda>_. []) (\<lambda>_ _. None) (agency_vtable (heap_ops (\<lambda>_. [])) (\<lambda>_. []) sample_gb))\<^sup>*\<^sup>* (sample_agency, {})
     (snd (new_active 7 (fresh_session 7 sample_agency)), {7})"
  by (rule r_into_rtranclp) (rule sample_agency_accepts)


text \<open>C28. An agency lets a peer that never authorised itself reassign sectors: \<^verbatim>\<open>packet_sector_allocation_ps\<close> is handled before
  \<^verbatim>\<open>is_authorized\<close> is looked at, and afterwards the last server the packet names for a sector owns it, so requests of clients in
  that sector are sent to a server of the peer's choice.\<close>
theorem unauthorized_peer_takes_sectors:
  assumes "um_find (gs_info_ptr gs) s = Some (ActivePtr k)" and "um_find (gs_active_sessions gs) k = Some info"
    and "\<not> us_is_client info" and "\<not> us_is_authorized info"
    and "type_of_value (ph_packet_type header) = Some T_sector_allocation_ps"
    and "sal_allocation_info r = xs @ [\<lparr>al_server_info = thief, al_sector_id = sector\<rparr>]"
  shows "\<exists>gs'. GS_OnSocketSessionData ops (agency_vtable ops pack gb) s header (Some (P_sector_allocation_ps r)) gs = Inr gs' \<and>
      ns_owner_id (Posting.sector_at sector (gs_posting gs')) = si_server_id thief \<and>
      fst (owner_session sector gs') = nn_session (session_at (si_server_id thief) (gs_posting gs'))"
  using assms
  by (simp add: GS_OnSocketSessionData_def deref_info_def server_data_def OnSectorAllocation_def agency_vtable_def on_posting_def
      AllocateSector_def owner_session_def GetSectorOwnerSession_def Let_def split_beta)

theorem unauthorized_peer_takes_sectors_witness:
  "\<exists>gs'. GS_OnSocketSessionData (heap_ops (\<lambda>_. [])) (agency_vtable (heap_ops (\<lambda>_. [])) (\<lambda>_. []) sample_gb) 7
      \<lparr>ph_packet_type = type_value T_sector_allocation_ps, ph_error_code = 0, ph_body_size = 0\<rparr>
      (Some (P_sector_allocation_ps \<lparr>sal_allocation_info = [\<lparr>al_server_info = \<lparr>si_server_type = PlayServer, si_server_id = 666,
         si_address = \<lparr>sa_ip = [], sa_port = 1\<rparr>\<rparr>, al_sector_id = 12\<rparr>], sal_deallocation_info = []\<rparr>))
      (snd (new_active 7 sample_agency)) = Inr gs' \<and> ns_owner_id (Posting.sector_at 12 (gs_posting gs')) = 666"
proof -
  let ?gs = "snd (new_active 7 sample_agency)"
  have "um_find (gs_info_ptr ?gs) 7 = Some (ActivePtr 100)"
    "um_find (gs_active_sessions ?gs) 100 = Some (no_info\<lparr>us_session := Some 7, us_universal_session_id := 100\<rparr>)"
    by (simp_all add: new_active_def set_info_ptr_def sample_agency_fields Let_def)
  from unauthorized_peer_takes_sectors [OF this, where xs = "[]" and sector = 12 and ops = "heap_ops (\<lambda>_. [])" and pack = "\<lambda>_. []"
      and gb = sample_gb and header = "\<lparr>ph_packet_type = type_value T_sector_allocation_ps, ph_error_code = 0, ph_body_size = 0\<rparr>"
      and thief = "\<lparr>si_server_type = PlayServer, si_server_id = 666, si_address = \<lparr>sa_ip = [], sa_port = 1\<rparr>\<rparr>"
      and r = "\<lparr>sal_allocation_info = [\<lparr>al_server_info = \<lparr>si_server_type = PlayServer, si_server_id = 666,
         si_address = \<lparr>sa_ip = [], sa_port = 1\<rparr>\<rparr>, al_sector_id = 12\<rparr>], sal_deallocation_info = []\<rparr>"]
  show ?thesis by (auto simp: no_info_def)
qed

end
