(* ===== verification/Engine.thy ===== *)
theory Engine
  imports Sessions Concurrent
begin

text \<open>
  The network engine: \<^verbatim>\<open>engine/NetworkEngine.cpp\<close>, the contexts it hands to the worker (\<^verbatim>\<open>SocketContext.h\<close>,
  \<^verbatim>\<open>SocketWorkerInfo.h\<close>, \<^verbatim>\<open>NetworkEngineWorker.h\<close>) and the completion handlers that call it
  (\<^verbatim>\<open>iocp/IocpSocketServerOperation.cpp\<close>).

  A stream pointer is the stream's identifier, a session pointer the session's identifier, which is unique within one engine.
  \<open>ne_pool\<close> lists the sessions that \<^verbatim>\<open>Pop\<close> will yield. Calls of \<^verbatim>\<open>SocketServer::Connect\<close> are recorded in \<open>ne_connects\<close>, reads that a
  stream has started in \<open>en_reads\<close>, chains of contexts given to the worker in \<open>ne_submitted\<close>; \<open>ne_queue_room\<close> is the room in the
  worker's queue. A buffer has room for \<open>slots\<close> contexts (the size of \<^verbatim>\<open>SocketBuffer::reserved\<close> over that of a \<^verbatim>\<open>SocketContext\<close>).
  \<open>key\<close> is the random key of a new session, \<open>now\<close> the reading of the clock in nanoseconds; the two readings a function takes of it
  may differ (\<open>now_ms\<close>). Of the reference count of a buffer only the last release is tracked; \<open>sx_heap\<close> tells a buffer that was allocated
  beyond the pool and does not return to it. Reference counts of sessions are not tracked.
\<close>

section \<open>State\<close>

datatype StreamType = NoStreamType | ConnectorStream | AcceptorStream

record SocketStreamExtension =
  xs_session :: "u64 option"
  xs_connector_id :: u64
  xs_connection_created_time :: int
  xs_ping_ms :: u32
  xs_stream_type :: StreamType

record EngineStream =
  en_stream :: Stream
  en_worker_index :: nat
  en_extension :: "SocketStreamExtension option"
  en_read_capacity :: u32
  en_reads :: "(DynamicBuffer \<times> u64) list"

record EngineSession =
  eo_session :: Session
  eo_stream :: "u64 option"

record ConnectorInfo =
  ci_connector_id :: u64
  ci_stream :: "u64 option"
  ci_remote_address :: SocketAddress
  ci_attachment :: u64
  ci_session_id :: u64
  ci_session_key :: "u8 list"

record SocketWorkerInfo =
  wi_activated_sockets :: "u64 list"
  wi_opened_sessions :: "u64 list"
  wi_abandoned_sessions :: "u64 list"

datatype ContextType =
  SessionAccepted | SessionConnected | SessionAbandoned | SessionAlived | SessionClosed | SessionData | SessionError

record SocketContext =
  sx_context_type :: ContextType
  sx_header :: PacketHeader
  sx_session :: "u64 option"
  sx_attachment :: u64
  sx_data :: "u8 list"
  sx_heap :: bool

record NetworkEngine =
  ne_option :: NetworkEngineOption
  ne_worker_infos :: "SocketWorkerInfo list"
  ne_pool :: "u64 list"
  ne_sessions :: "u64 \<Rightarrow> EngineSession option"
  ne_streams :: "u64 \<Rightarrow> EngineStream option"
  ne_abandoned_session_list :: "(u64, u64) umap"
  ne_connector_list :: "(u64, ConnectorInfo) umap"
  ne_current_connector_id :: u64
  ne_connects :: "(SocketAddress \<times> u64) list"
  ne_submitted :: "SocketContext list list"
  ne_queue_room :: nat

definition EmptyKey :: "u8 list" where "EmptyKey = replicate 64 0"

definition no_connector :: ConnectorInfo where
  "no_connector = \<lparr>ci_connector_id = 0, ci_stream = None, ci_remote_address = \<lparr>sa_ip = [], sa_port = 0\<rparr>, ci_attachment = 0,
     ci_session_id = 0, ci_session_key = EmptyKey\<rparr>"

definition no_header :: PacketHeader where
  "no_header = \<lparr>ph_packet_type = 0, ph_error_code = 0, ph_body_size = 0\<rparr>"

definition set_key :: "u64 \<Rightarrow> u64 list \<Rightarrow> u64 list" where
  "set_key k ks = (if k \<in> set ks then ks else ks @ [k])"

section \<open>Access\<close>

definition stream_at :: "u64 \<Rightarrow> NetworkEngine \<Rightarrow> EngineStream res" where
  "stream_at k e = (case ne_streams e k of None \<Rightarrow> Inl NullDeref | Some st \<Rightarrow> Inr st)"

definition put_stream :: "u64 \<Rightarrow> EngineStream \<Rightarrow> NetworkEngine \<Rightarrow> NetworkEngine" where
  "put_stream k st e = e\<lparr>ne_streams := (ne_streams e)(k \<mapsto> st)\<rparr>"

definition on_stream :: "u64 \<Rightarrow> (EngineStream \<Rightarrow> EngineStream) \<Rightarrow> NetworkEngine \<Rightarrow> NetworkEngine res" where
  "on_stream k f e = rbind (stream_at k e) (\<lambda>st. Inr (put_stream k (f st) e))"

definition extension_at :: "u64 \<Rightarrow> NetworkEngine \<Rightarrow> SocketStreamExtension res" where
  "extension_at k e =
    rbind (stream_at k e) (\<lambda>st. case en_extension st of None \<Rightarrow> Inl NullDeref | Some x \<Rightarrow> Inr x)"

definition on_extension :: "u64 \<Rightarrow> (SocketStreamExtension \<Rightarrow> SocketStreamExtension) \<Rightarrow> NetworkEngine \<Rightarrow> NetworkEngine res" where
  "on_extension k f e = rbind (extension_at k e) (\<lambda>x. on_stream k (\<lambda>st. st\<lparr>en_extension := Some (f x)\<rparr>) e)"

text \<open>\<^verbatim>\<open>GetWorkerInfo\<close>\<close>

definition on_worker :: "nat \<Rightarrow> (SocketWorkerInfo \<Rightarrow> SocketWorkerInfo) \<Rightarrow> NetworkEngine \<Rightarrow> NetworkEngine res" where
  "on_worker i f e =
    assert_that (i < length (ne_worker_infos e)) (Inr (e\<lparr>ne_worker_infos := (ne_worker_infos e)[i := f (ne_worker_infos e ! i)]\<rparr>))"

definition on_worker_of :: "u64 \<Rightarrow> (SocketWorkerInfo \<Rightarrow> SocketWorkerInfo) \<Rightarrow> NetworkEngine \<Rightarrow> NetworkEngine res" where
  "on_worker_of k f e = rbind (stream_at k e) (\<lambda>st. on_worker (en_worker_index st) f e)"

definition ses_at :: "u64 \<Rightarrow> NetworkEngine \<Rightarrow> EngineSession res" where
  "ses_at k e = (case ne_sessions e k of None \<Rightarrow> Inl NullDeref | Some s \<Rightarrow> Inr s)"

definition put_ses :: "u64 \<Rightarrow> EngineSession \<Rightarrow> NetworkEngine \<Rightarrow> NetworkEngine" where
  "put_ses k s e = e\<lparr>ne_sessions := (ne_sessions e)(k \<mapsto> s)\<rparr>"

definition on_session :: "u64 \<Rightarrow> (EngineSession \<Rightarrow> EngineSession) \<Rightarrow> NetworkEngine \<Rightarrow> NetworkEngine res" where
  "on_session k f e = rbind (ses_at k e) (\<lambda>s. Inr (put_ses k (f s) e))"

definition on_session_data :: "u64 \<Rightarrow> (Session \<Rightarrow> Session) \<Rightarrow> NetworkEngine \<Rightarrow> NetworkEngine res" where
  "on_session_data k f = on_session k (\<lambda>s. s\<lparr>eo_session := f (eo_session s)\<rparr>)"

text \<open>A member function of a session that also works on the stream of the session.\<close>

definition as_socket_session :: "EngineSession \<Rightarrow> NetworkEngine \<Rightarrow> SocketSession" where
  "as_socket_session s e =
    Session.extend (eo_session s) \<lparr>so_stream = (case eo_stream s of None \<Rightarrow> None | Some i \<Rightarrow> map_option en_stream (ne_streams e i))\<rparr>"

definition put_socket_session :: "u64 \<Rightarrow> SocketSession \<Rightarrow> NetworkEngine \<Rightarrow> NetworkEngine" where
  "put_socket_session k ss e =
    (case ne_sessions e k of
       None \<Rightarrow> e
     | Some s \<Rightarrow>
       let e1 = put_ses k (s\<lparr>eo_session := Session.truncate ss\<rparr>) e
       in (case (eo_stream s, so_stream ss) of
             (Some i, Some st) \<Rightarrow> (case ne_streams e1 i of Some es \<Rightarrow> put_stream i (es\<lparr>en_stream := st\<rparr>) e1 | None \<Rightarrow> e1)
           | _ \<Rightarrow> e1))"

definition call_session :: "u64 option \<Rightarrow> (SocketSession \<Rightarrow> ('r \<times> SocketSession) res) \<Rightarrow> NetworkEngine \<Rightarrow> ('r \<times> NetworkEngine) res" where
  "call_session p f e =
    (case p of
       None \<Rightarrow> Inl NullDeref
     | Some k \<Rightarrow> rbind (ses_at k e) (\<lambda>s. rbind (f (as_socket_session s e)) (\<lambda>(r, ss). Inr (r, put_socket_session k ss e))))"

definition session_do :: "u64 option \<Rightarrow> (SocketSession \<Rightarrow> SocketSession res) \<Rightarrow> NetworkEngine \<Rightarrow> NetworkEngine res" where
  "session_do p f e = rbind (call_session p (\<lambda>s. rbind (f s) (\<lambda>s'. Inr ((), s'))) e) (\<lambda>(_, e'). Inr e')"

section \<open>Buffers and packets of a stream\<close>

text \<open>\<^verbatim>\<open>AllocateReadBuffer\<close>: whether the buffer comes from the heap; \<^verbatim>\<open>ReleaseReadBuffer\<close> of a buffer from the pool.\<close>

definition AllocateReadBuffer :: "bool \<Rightarrow> Stream \<Rightarrow> bool option \<times> Stream" where
  "AllocateReadBuffer must st =
    (if st_read_free st > 0 then (Some False, st\<lparr>st_read_free := st_read_free st - 1\<rparr>)
     else if must then (Some True, st) else (None, st))"

definition ReleaseReadBuffer :: "Stream \<Rightarrow> Stream" where
  "ReleaseReadBuffer st = st\<lparr>st_read_free := st_read_free st + 1\<rparr>"

definition TryAllocateReadBuffer :: "(Packet \<Rightarrow> u8 list) \<Rightarrow> SocketSession \<Rightarrow> (bool \<times> SocketSession) res" where
  "TryAllocateReadBuffer pack s =
    rbind (GetSocketStream (\<lambda>st. Inr (AllocateReadBuffer False st)) s) (\<lambda>(b, s1).
      case b of
        Some _ \<Rightarrow> Inr (True, s1)
      | None \<Rightarrow> rbind (Session_Send_must pack (P_bandwith_overflow_ps 0) None' s1) (\<lambda>s2.
                 rbind (CloseSession pack s2) (\<lambda>s3. Inr (False, s3))))"

definition Session_ReleaseReadBuffer :: "bool \<Rightarrow> SocketSession \<Rightarrow> SocketSession res" where
  "Session_ReleaseReadBuffer heap s =
    rbind (GetSocketStream (\<lambda>st. Inr ((), if heap then st else ReleaseReadBuffer st)) s) (\<lambda>(_, s'). Inr s')"

definition release_read :: "u64 \<Rightarrow> NetworkEngine \<Rightarrow> NetworkEngine res" where
  "release_read k = on_stream k (\<lambda>st. st\<lparr>en_stream := ReleaseReadBuffer (en_stream st)\<rparr>)"

text \<open>\<^verbatim>\<open>AllocateReadBuffer(true)\<close> on a stream: whether the buffer comes from the heap.\<close>

definition must_allocate_read :: "u64 \<Rightarrow> NetworkEngine \<Rightarrow> (bool \<times> NetworkEngine) res" where
  "must_allocate_read k e =
    rbind (stream_at k e) (\<lambda>es. let (b, st) = AllocateReadBuffer True (en_stream es) in
    case b of None \<Rightarrow> Inl NullDeref | Some heap \<Rightarrow> Inr (heap, put_stream k (es\<lparr>en_stream := st\<rparr>) e))"

definition TransmitRead :: "u64 \<Rightarrow> DynamicBuffer \<Rightarrow> u64 \<Rightarrow> NetworkEngine \<Rightarrow> NetworkEngine res" where
  "TransmitRead k buffer attachment e =
    assert_that (unat (db_capacity buffer) \<ge> length (db_bytes buffer))
      (on_stream k (\<lambda>st. st\<lparr>en_reads := en_reads st @ [(buffer, attachment)]\<rparr>) e)"

definition transmit_disconnect :: "u64 \<Rightarrow> u64 \<Rightarrow> NetworkEngine \<Rightarrow> NetworkEngine res" where
  "transmit_disconnect k code = on_stream k (\<lambda>st. st\<lparr>en_stream := TransmitDisconnect code (en_stream st)\<rparr>)"

text \<open>\<^verbatim>\<open>AllocateWriteBuffer\<close>, \<^verbatim>\<open>SerializePacket\<close>, \<^verbatim>\<open>TransmitWrite\<close> on a stream. The engine does not check the first two: a null buffer is
  dereferenced, and a packet that does not fit leaves a length beyond the end of the buffer.\<close>

definition transmit_packet :: "(Packet \<Rightarrow> u8 list) \<Rightarrow> bool \<Rightarrow> u64 \<Rightarrow> Packet \<Rightarrow> ErrorCode \<Rightarrow> NetworkEngine \<Rightarrow> NetworkEngine res" where
  "transmit_packet pack must k packet error e =
    rbind (stream_at k e) (\<lambda>es.
    case AllocateWriteBuffer must (en_stream es) of
      (None, st) \<Rightarrow> Inl NullDeref
    | (Some b, st) \<Rightarrow>
        (case SerializePacket pack packet error (wb_capacity b) of
           (_, None) \<Rightarrow> Inl Undefined
         | (_, Some bytes) \<Rightarrow>
             rbind (TransmitWrite (Some (b\<lparr>wb_bytes := bytes\<rparr>)) 0 st) (\<lambda>st'. Inr (put_stream k (es\<lparr>en_stream := st'\<rparr>) e))))"

text \<open>Where the engine answers in the buffer it is reading: the bytes there are replaced, and the buffer is written to the stream.\<close>

definition answer_in_place ::
  "(Packet \<Rightarrow> u8 list) \<Rightarrow> u64 \<Rightarrow> Packet \<Rightarrow> DynamicBufferCursor \<Rightarrow> NetworkEngine \<Rightarrow> (DynamicBufferCursor \<times> NetworkEngine) res" where
  "answer_in_place pack k packet cursor e =
    (case SerializePacket pack packet None' (db_capacity (cur_buffer cursor)) of
       (_, None) \<Rightarrow> Inl Undefined
     | (_, Some bytes) \<Rightarrow>
       rbind (stream_at k e) (\<lambda>es.
       rbind (TransmitWrite (Some \<lparr>wb_bytes = bytes, wb_capacity = db_capacity (cur_buffer cursor), wb_heap = True\<rparr>) 0 (en_stream es)) (\<lambda>st.
       Inr (cursor\<lparr>cur_buffer := (cur_buffer cursor)\<lparr>db_bytes := bytes\<rparr>\<rparr>, put_stream k (es\<lparr>en_stream := st\<rparr>) e))))"

section \<open>Contexts\<close>

definition PrepareSocketContext ::
  "nat \<Rightarrow> u8 list \<Rightarrow> ContextType \<Rightarrow> PacketHeader \<Rightarrow> u64 option \<Rightarrow> u64 \<Rightarrow> nat \<Rightarrow> SocketContext option" where
  "PrepareSocketContext slots data context_type header session attachment context_sequence =
    (if context_sequence + 1 > slots then None
     else Some \<lparr>sx_context_type = context_type, sx_header = header, sx_session = session, sx_attachment = attachment, sx_data = data,
       sx_heap = False\<rparr>)"

definition Submit :: "SocketContext list \<Rightarrow> NetworkEngine \<Rightarrow> bool \<times> NetworkEngine" where
  "Submit chain e =
    (if ne_queue_room e > 0 then (True, e\<lparr>ne_submitted := ne_submitted e @ [chain], ne_queue_room := ne_queue_room e - 1\<rparr>)
     else (False, e))"

definition SendSocketContext ::
  "(Packet \<Rightarrow> u8 list) \<Rightarrow> nat \<Rightarrow> bool \<Rightarrow> u8 list \<Rightarrow> ContextType \<Rightarrow> PacketHeader \<Rightarrow> u64 option \<Rightarrow> u64 \<Rightarrow> NetworkEngine \<Rightarrow> NetworkEngine res" where
  "SendSocketContext pack slots heap data context_type header session attachment e =
    (case PrepareSocketContext slots data context_type header session attachment 0 of
       None \<Rightarrow> Inl AssertFail
     | Some context \<Rightarrow>
       (case Submit [context\<lparr>sx_heap := heap\<rparr>] e of
          (True, e1) \<Rightarrow> Inr e1
        | (False, e1) \<Rightarrow>
          rbind (session_do session (Session_ReleaseReadBuffer heap) e1) (\<lambda>e2.
          rbind (session_do session (Session_Send_must pack (P_server_is_busy_ps 0) None') e2) (\<lambda>e3.
          session_do session (CloseSession pack) e3))))"

section \<open>Connections\<close>

text \<open>\<^verbatim>\<open>NetworkEngine::Initialize\<close>, with the streams of the socket server and the random keys of the sessions. The pool numbers its sessions
  from 1; the last one pushed is the first to be popped.\<close>

definition new_session :: "u8 list \<Rightarrow> u64 \<Rightarrow> EngineSession" where
  "new_session session_key i =
    \<lparr>eo_session = \<lparr>ss_state = Closed, ss_initialized = True, ss_ping = 0, ss_heartbeat_receiving = 0, ss_heartbeat_sending = 0, ss_abandoned = 0,
       ss_key = session_key, ss_user_data = [], ss_session_id = i\<rparr>, eo_stream = None\<rparr>"

definition Engine_Initialize ::
  "NetworkEngineOption \<Rightarrow> SocketServerConfig \<Rightarrow> nat \<Rightarrow> (u64 \<Rightarrow> u8 list) \<Rightarrow> (u64 \<Rightarrow> EngineStream option) \<Rightarrow> NetworkEngine" where
  "Engine_Initialize option config queue_room keys streams =
    (let ids = rev (map of_nat [1..<Suc (unat (max_session_count option))]) in
     \<lparr>ne_option = option,
      ne_worker_infos = replicate (unat (worker_count config)) \<lparr>wi_activated_sockets = [], wi_opened_sessions = [], wi_abandoned_sessions = []\<rparr>,
      ne_pool = ids, ne_sessions = (\<lambda>i. if i \<in> set ids then Some (new_session (keys i) i) else None), ne_streams = streams,
      ne_abandoned_session_list = [], ne_connector_list = [], ne_current_connector_id = 1, ne_connects = [], ne_submitted = [],
      ne_queue_room = queue_room\<rparr>)"

definition Engine_RegisterConnectorSocket :: "SocketAddress \<Rightarrow> u64 \<Rightarrow> NetworkEngine \<Rightarrow> u64 \<times> NetworkEngine" where
  "Engine_RegisterConnectorSocket remote_address attachment e =
    (let c = ne_current_connector_id e;
         info = no_connector\<lparr>ci_connector_id := c, ci_remote_address := remote_address, ci_attachment := attachment\<rparr> in
     (c, e\<lparr>ne_current_connector_id := c + 1, ne_connector_list := snd (cm_Insert c info (ne_connector_list e)),
           ne_connects := ne_connects e @ [(remote_address, c)]\<rparr>))"

text \<open>\<^verbatim>\<open>UnregisterConnectorSocket\<close> with its default \<^verbatim>\<open>delete_attachment = false\<close>.\<close>

definition Engine_UnregisterConnectorSocket :: "u64 \<Rightarrow> NetworkEngine \<Rightarrow> NetworkEngine res" where
  "Engine_UnregisterConnectorSocket c e =
    (case cm_Remove c (ne_connector_list e) of
       (None, _) \<Rightarrow> Inr e
     | (Some info, l) \<Rightarrow>
         let e1 = e\<lparr>ne_connector_list := l\<rparr>
         in (case ci_stream info of None \<Rightarrow> Inr e1 | Some k \<Rightarrow> transmit_disconnect k GRACEFUL_SHUTDOWN_CODE e1))"

text \<open>The extension of a stream, allocated at its first connection.\<close>

definition extension_of :: "EngineStream \<Rightarrow> SocketStreamExtension" where
  "extension_of es =
    (case en_extension es of
       Some x \<Rightarrow> x
     | None \<Rightarrow> \<lparr>xs_session = None, xs_connector_id = 0, xs_connection_created_time = 0, xs_ping_ms = 100, xs_stream_type = NoStreamType\<rparr>)"

text \<open>\<^verbatim>\<open>AllocateReadBuffer\<close> and \<^verbatim>\<open>TransmitRead\<close> of a new connection; a null buffer is dereferenced.\<close>

definition start_reading :: "u64 \<Rightarrow> NetworkEngine \<Rightarrow> NetworkEngine res" where
  "start_reading k e =
    rbind (stream_at k e) (\<lambda>es.
    let (b, st) = AllocateReadBuffer False (en_stream es) in
    if b = None then Inl NullDeref
    else TransmitRead k \<lparr>db_bytes = [], db_capacity = en_read_capacity es\<rparr> k (put_stream k (es\<lparr>en_stream := st\<rparr>) e))"

definition OnAccept :: "int \<Rightarrow> u64 \<Rightarrow> NetworkEngine \<Rightarrow> NetworkEngine res" where
  "OnAccept now k e =
    rbind (on_worker_of k (\<lambda>w. w\<lparr>wi_activated_sockets := set_key k (wi_activated_sockets w)\<rparr>) e) (\<lambda>e1.
    rbind (stream_at k e1) (\<lambda>es.
    start_reading k (put_stream k (es\<lparr>en_extension := Some ((extension_of es)\<lparr>xs_session := None, xs_stream_type := AcceptorStream,
        xs_connection_created_time := now, xs_ping_ms := 100\<rparr>)\<rparr>) e1)))"

text \<open>\<^verbatim>\<open>OnConnect\<close>; a null stream, the failure of a connection, is \<open>None\<close>.\<close>

definition OnConnect :: "(Packet \<Rightarrow> u8 list) \<Rightarrow> int \<Rightarrow> u64 option \<Rightarrow> u64 \<Rightarrow> NetworkEngine \<Rightarrow> NetworkEngine res" where
  "OnConnect pack now stream attachment e =
    (case stream of
       None \<Rightarrow>
         (case cm_TryGet attachment (ne_connector_list e) of
            None \<Rightarrow> Inr e
          | Some info \<Rightarrow> Inr (e\<lparr>ne_connects := ne_connects e @ [(ci_remote_address info, ci_connector_id info)]\<rparr>))
     | Some k \<Rightarrow>
       rbind (on_worker_of k (\<lambda>w. w\<lparr>wi_activated_sockets := set_key k (wi_activated_sockets w)\<rparr>) e) (\<lambda>e1.
       rbind (stream_at k e1) (\<lambda>es.
       let e2 = put_stream k (es\<lparr>en_extension := Some (extension_of es)\<rparr>) e1 in
       case cm_TryGet attachment (ne_connector_list e) of
         None \<Rightarrow> transmit_disconnect k attachment e2
       | Some info \<Rightarrow>
         let e3 = e2\<lparr>ne_connector_list := snd (cm_Insert (ci_connector_id info) (info\<lparr>ci_stream := Some k\<rparr>) (ne_connector_list e2))\<rparr>
         in rbind (on_extension k (\<lambda>x. x\<lparr>xs_session := None, xs_stream_type := ConnectorStream, xs_connector_id := attachment,
                     xs_connection_created_time := now, xs_ping_ms := 100\<rparr>) e3) (\<lambda>e4.
            rbind (transmit_packet pack False k
                     (if ci_session_id info \<noteq> 0 then P_session_auth_rq \<lparr>sar_session_id = ci_session_id info, sar_session_key = ci_session_key info\<rparr>
                      else P_session_create_rq 0) None' e4) (start_reading k)))))"

definition OnWrite :: "WriteBuffer \<Rightarrow> u64 \<Rightarrow> NetworkEngine \<Rightarrow> NetworkEngine res" where
  "OnWrite buffer k = on_stream k (\<lambda>st. st\<lparr>en_stream := ReleaseWriteBuffer buffer (en_stream st)\<rparr>)"

section \<open>Packets that open a session\<close>

definition change_state :: "u64 \<Rightarrow> SessionState \<Rightarrow> SessionState \<Rightarrow> NetworkEngine \<Rightarrow> (bool \<times> NetworkEngine) res" where
  "change_state k expected desired e =
    rbind (ses_at k e) (\<lambda>s. case ChangeSessionState expected desired (eo_session s) of
      (b, s') \<Rightarrow> Inr (b, put_ses k (s\<lparr>eo_session := s'\<rparr>) e))"

text \<open>\<^verbatim>\<open>RemoveIf\<close> on the list of abandoned sessions; the argument changes the state of the session also when it refuses.\<close>

definition remove_abandoned ::
  "u64 \<Rightarrow> (EngineSession \<Rightarrow> bool \<times> EngineSession) \<Rightarrow> NetworkEngine \<Rightarrow> u64 option \<times> NetworkEngine" where
  "remove_abandoned session_id f e =
    (let (r, l, e1) = cm_RemoveIf session_id
           (\<lambda>k e. case ne_sessions e k of None \<Rightarrow> (False, e) | Some s \<Rightarrow> (let (b, s') = f s in (b, put_ses k s' e)))
           (ne_abandoned_session_list e) e
     in (r, e1\<lparr>ne_abandoned_session_list := l\<rparr>))"

definition try_resume :: "SessionState \<Rightarrow> EngineSession \<Rightarrow> bool \<times> EngineSession" where
  "try_resume desired s = (let (b, s') = ChangeSessionState Wait desired (eo_session s) in (b, s\<lparr>eo_session := s'\<rparr>))"

definition try_resume_with_key :: "u8 list \<Rightarrow> EngineSession \<Rightarrow> bool \<times> EngineSession" where
  "try_resume_with_key session_key s =
    (let key_equal = (ss_key (eo_session s) = session_key); (state_valid, s') = try_resume Opened s in (key_equal \<and> state_valid, s'))"

definition set_session :: "u64 \<Rightarrow> u64 option \<Rightarrow> NetworkEngine \<Rightarrow> NetworkEngine res" where
  "set_session k session = on_extension k (\<lambda>x. x\<lparr>xs_session := session\<rparr>)"

text \<open>\<^verbatim>\<open>Pop\<close> from the pool, opening of the session, its key and its stream.\<close>

definition open_session :: "u64 \<Rightarrow> u8 list \<Rightarrow> NetworkEngine \<Rightarrow> (u64 option \<times> NetworkEngine) res" where
  "open_session k session_key e =
    (case ne_pool e of
       [] \<Rightarrow> rbind (set_session k None e) (\<lambda>e1. Inr (None, e1))
     | s # pool \<Rightarrow>
       rbind (set_session k (Some s) (e\<lparr>ne_pool := pool\<rparr>)) (\<lambda>e1.
       rbind (change_state s Closed Opened e1) (\<lambda>(_, e2).
       rbind (on_session s (\<lambda>x. x\<lparr>eo_session := (eo_session x)\<lparr>ss_key := session_key\<rparr>, eo_stream := Some k\<rparr>) e2) (\<lambda>e3.
       Inr (Some s, e3)))))"

text \<open>The statements behind the switch.\<close>

definition session_opened :: "int \<Rightarrow> u64 \<Rightarrow> u64 \<Rightarrow> NetworkEngine \<Rightarrow> NetworkEngine res" where
  "session_opened now_ms k s e =
    rbind (on_worker_of k (\<lambda>w. w\<lparr>wi_opened_sessions := set_key s (wi_opened_sessions w)\<rparr>) e) (\<lambda>e1.
    on_session_data s (\<lambda>x. ResetUserData (UpdateHeartbeatReceivingTime now_ms (UpdateHeartbeatSendingTime now_ms x))) e1)"

definition resume_session :: "u64 \<Rightarrow> u64 \<Rightarrow> NetworkEngine \<Rightarrow> NetworkEngine res" where
  "resume_session k s e =
    rbind (set_session k (Some s) e) (\<lambda>e1.
    rbind (on_session s (\<lambda>x. x\<lparr>eo_stream := Some k\<rparr>) e1) (\<lambda>e2.
    on_worker_of k (\<lambda>w. w\<lparr>wi_abandoned_sessions := removeAll s (wi_abandoned_sessions w)\<rparr>) e2))"

type_synonym session_result = "ContextType \<times> ConnectorInfo \<times> DynamicBufferCursor \<times> NetworkEngine"

definition on_create_rq :: "(Packet \<Rightarrow> u8 list) \<Rightarrow> u8 list \<Rightarrow> int \<Rightarrow> u64 \<Rightarrow> DynamicBufferCursor \<Rightarrow> NetworkEngine \<Rightarrow> session_result res" where
  "on_create_rq pack key now_ms k cursor e =
    rbind (open_session k key e) (\<lambda>(session, e1).
    case session of
      None \<Rightarrow> Inr (SessionError, no_connector, cursor, e1)
    | Some s \<Rightarrow>
        rbind (transmit_packet pack False k (P_session_create_rs \<lparr>scr_session_id = s, scr_session_key = key\<rparr>) None' e1) (\<lambda>e2.
        rbind (session_opened now_ms k s e2) (\<lambda>e3. Inr (SessionAccepted, no_connector, cursor, e3))))"

definition on_create_rs ::
  "int \<Rightarrow> u64 \<Rightarrow> packet_session_create_rs \<Rightarrow> DynamicBufferCursor \<Rightarrow> NetworkEngine \<Rightarrow> session_result res" where
  "on_create_rs now_ms k packet cursor e =
    rbind (extension_at k e) (\<lambda>x.
    case cm_TryGet (xs_connector_id x) (ne_connector_list e) of
      None \<Rightarrow> Inr (SessionError, no_connector, cursor, e)
    | Some info \<Rightarrow>
        rbind (open_session k (scr_session_key packet) e) (\<lambda>(session, e1).
        case session of
          None \<Rightarrow> Inr (SessionError, info, cursor, e1)
        | Some s \<Rightarrow>
            let info' = (if use_session_reconnect (ne_option e) then info\<lparr>ci_session_id := s, ci_session_key := scr_session_key packet\<rparr> else info)
            in rbind (session_opened now_ms k s e1) (\<lambda>e2. Inr (SessionConnected, info', cursor, e2))))"

definition on_auth_rq ::
  "(Packet \<Rightarrow> u8 list) \<Rightarrow> packet_session_auth_rq \<Rightarrow> int \<Rightarrow> u64 \<Rightarrow> packet_session_auth_rq \<Rightarrow> DynamicBufferCursor \<Rightarrow> NetworkEngine \<Rightarrow>
   session_result res" where
  "on_auth_rq pack garbage now_ms k packet cursor e =
    (let key_equal = (case um_find (ne_abandoned_session_list e) (sar_session_id packet) of
                        None \<Rightarrow> False
                      | Some a \<Rightarrow> (case ne_sessions e a of None \<Rightarrow> False | Some s \<Rightarrow> ss_key (eo_session s) = sar_session_key packet));
         (session, e1) = remove_abandoned (sar_session_id packet) (try_resume_with_key (sar_session_key packet)) e in
     case session of
       None \<Rightarrow>
         rbind (transmit_packet pack False k (P_session_auth_rq garbage) (if key_equal then SessionIsNotReady else SessionAuthFailed) e1) (\<lambda>e2.
         Inr (SessionError, no_connector, cursor, e2))
     | Some s \<Rightarrow>
         rbind (resume_session k s e1) (\<lambda>e2.
         rbind (session_opened now_ms k s e2) (\<lambda>e3. Inr (SessionAlived, no_connector, cursor, e3))))"

text \<open>A request for a new session, answered in place; the connector's old session is forgotten in the local copy.\<close>

definition ask_new_session ::
  "(Packet \<Rightarrow> u8 list) \<Rightarrow> u64 \<Rightarrow> ConnectorInfo \<Rightarrow> DynamicBufferCursor \<Rightarrow> NetworkEngine \<Rightarrow> session_result res" where
  "ask_new_session pack k info cursor e =
    rbind (answer_in_place pack k (P_session_create_rq 0) cursor e) (\<lambda>(cursor', e').
    Inr (SessionError, info\<lparr>ci_session_id := 0, ci_session_key := EmptyKey\<rparr>, cursor', e'))"

definition on_auth_rs ::
  "(Packet \<Rightarrow> u8 list) \<Rightarrow> nat \<Rightarrow> int \<Rightarrow> u64 \<Rightarrow> PacketHeader \<Rightarrow> DynamicBufferCursor \<Rightarrow> NetworkEngine \<Rightarrow> session_result res" where
  "on_auth_rs pack slots now_ms k header cursor e =
    rbind (extension_at k e) (\<lambda>x.
    case cm_TryGet (xs_connector_id x) (ne_connector_list e) of
      None \<Rightarrow> Inr (SessionError, no_connector, cursor, e)
    | Some info \<Rightarrow>
        if ph_error_code header \<noteq> error_code_value None' then
          if ph_error_code header = error_code_value SessionIsNotReady then
            rbind (answer_in_place pack k (P_session_auth_rq \<lparr>sar_session_id = ci_session_id info, sar_session_key = ci_session_key info\<rparr>) cursor e)
              (\<lambda>(cursor', e'). Inr (SessionError, info, cursor', e'))
          else
            (case cm_Remove (ci_session_id info) (ne_abandoned_session_list e) of
               (None, _) \<Rightarrow> ask_new_session pack k info cursor e
             | (Some s, l) \<Rightarrow>
                 rbind (SendSocketContext pack slots False (Data cursor) SessionClosed header (Some s) 0 (e\<lparr>ne_abandoned_session_list := l\<rparr>)) (\<lambda>e1.
                 rbind (set_session k None e1) (\<lambda>e2. ask_new_session pack k info cursor e2)))
        else
          let (session, e1) = remove_abandoned (ci_session_id info) (try_resume Opened) e in
          (case session of
             None \<Rightarrow> ask_new_session pack k info cursor e1
           | Some s \<Rightarrow>
               rbind (resume_session k s e1) (\<lambda>e2.
               rbind (session_opened now_ms k s e2) (\<lambda>e3. Inr (SessionAlived, info, cursor, e3)))))"

definition ProcessSessionPacket ::
  "(Packet \<Rightarrow> u8 list) \<Rightarrow> (PacketType \<Rightarrow> u8 list \<Rightarrow> Packet option) \<Rightarrow> nat \<Rightarrow> u8 list \<Rightarrow> packet_session_auth_rq \<Rightarrow> int \<Rightarrow> u64 \<Rightarrow> PacketHeader \<Rightarrow>
   DynamicBufferCursor \<Rightarrow> NetworkEngine \<Rightarrow> session_result res" where
  "ProcessSessionPacket pack unpack slots key garbage now_ms k header cursor e =
    rbind (extension_at k e) (\<lambda>x.
    let failed = Inr (SessionError, no_connector, cursor, e);
        body = packet_of unpack header (Data cursor) in
    case type_of_value (ph_packet_type header) of
      Some T_session_create_rq \<Rightarrow> (if body = None then failed else on_create_rq pack key now_ms k cursor e)
    | Some T_session_create_rs \<Rightarrow>
        if xs_stream_type x \<noteq> ConnectorStream then failed
        else (case body of Some (P_session_create_rs p) \<Rightarrow> on_create_rs now_ms k p cursor e | _ \<Rightarrow> failed)
    | Some T_session_auth_rq \<Rightarrow>
        (case body of Some (P_session_auth_rq p) \<Rightarrow> on_auth_rq pack garbage now_ms k p cursor e | _ \<Rightarrow> failed)
    | Some T_session_auth_rs \<Rightarrow> (if body = None then failed else on_auth_rs pack slots now_ms k header cursor e)
    | _ \<Rightarrow> failed)"

section \<open>Reading\<close>

record ReadState =
  rd_cursor :: DynamicBufferCursor
  rd_contexts :: "SocketContext list"
  rd_sequence :: nat

text \<open>The body of the loop of \<^verbatim>\<open>OnRead\<close> behind the header; \<open>None\<close> when the function returns from inside the loop. Contexts that were
  prepared before such a return are not submitted.\<close>

definition stop_reading :: "(Packet \<Rightarrow> u8 list) \<Rightarrow> u64 \<Rightarrow> u64 option \<Rightarrow> NetworkEngine \<Rightarrow> (ReadState option \<times> NetworkEngine) res" where
  "stop_reading pack k session e =
    rbind (session_do session (CloseSession pack) e) (\<lambda>e1. rbind (release_read k e1) (\<lambda>e2. Inr (None, e2)))"

definition skip_body :: "PacketHeader \<Rightarrow> ReadState \<Rightarrow> NetworkEngine \<Rightarrow> (ReadState option \<times> NetworkEngine) res" where
  "skip_body header rd e = rbind (Seek (ph_body_size header) (rd_cursor rd)) (\<lambda>c. Inr (Some (rd\<lparr>rd_cursor := c\<rparr>), e))"

definition read_unauthorized ::
  "(Packet \<Rightarrow> u8 list) \<Rightarrow> (PacketType \<Rightarrow> u8 list \<Rightarrow> Packet option) \<Rightarrow> nat \<Rightarrow> u8 list \<Rightarrow> packet_session_auth_rq \<Rightarrow> int \<Rightarrow> u64 \<Rightarrow> PacketHeader \<Rightarrow>
   ReadState \<Rightarrow> NetworkEngine \<Rightarrow> (ReadState option \<times> NetworkEngine) res" where
  "read_unauthorized pack unpack slots key garbage now_ms k header rd e =
    rbind (ProcessSessionPacket pack unpack slots key garbage now_ms k header (rd_cursor rd) e) (\<lambda>(session_context, info, cursor, e1).
    if session_context = SessionError then skip_body header (rd\<lparr>rd_cursor := cursor\<rparr>) e1
    else
      rbind (extension_at k e1) (\<lambda>x.
      case PrepareSocketContext slots (Data cursor) session_context header (xs_session x) (ci_attachment info) (rd_sequence rd) of
        None \<Rightarrow>
          rbind (transmit_disconnect k GRACEFUL_SHUTDOWN_CODE e1) (\<lambda>e2. rbind (release_read k e2) (\<lambda>e3. Inr (None, e3)))
      | Some context \<Rightarrow>
          skip_body header (rd\<lparr>rd_cursor := cursor, rd_contexts := rd_contexts rd @ [context], rd_sequence := rd_sequence rd + 1\<rparr>) e1))"

text \<open>The reserved area of the buffer is full: the contexts are submitted and reading goes on in a new buffer.\<close>

definition next_buffer ::
  "(Packet \<Rightarrow> u8 list) \<Rightarrow> u64 \<Rightarrow> u64 option \<Rightarrow> ReadState \<Rightarrow> NetworkEngine \<Rightarrow> (ReadState option \<times> NetworkEngine) res" where
  "next_buffer pack k session rd e =
    rbind (call_session session (TryAllocateReadBuffer pack) e) (\<lambda>(allocated, e1).
    if \<not> allocated then rbind (release_read k e1) (\<lambda>e2. Inr (None, e2))
    else
      rbind (stream_at k e1) (\<lambda>es.
      case Submit (rd_contexts rd) e1 of
        (False, e2) \<Rightarrow>
          rbind (session_do session (CloseSession pack) e2) (\<lambda>e3.
          rbind (release_read k e3) (\<lambda>e4. rbind (release_read k e4) (\<lambda>e5. Inr (None, e5))))
      | (True, e2) \<Rightarrow>
          Inr (Some \<lparr>rd_cursor = new_cursor \<lparr>db_bytes = Data (rd_cursor rd), db_capacity = en_read_capacity es\<rparr>,
                 rd_contexts = [], rd_sequence = 0\<rparr>, e2)))"

definition read_data ::
  "(Packet \<Rightarrow> u8 list) \<Rightarrow> nat \<Rightarrow> u64 \<Rightarrow> u64 option \<Rightarrow> u64 \<Rightarrow> PacketHeader \<Rightarrow> ReadState \<Rightarrow> NetworkEngine \<Rightarrow>
   (ReadState option \<times> NetworkEngine) res" where
  "read_data pack slots k session attachment header rd e =
    rbind (case PrepareSocketContext slots (Data (rd_cursor rd)) SessionData header session attachment (rd_sequence rd) of
             Some _ \<Rightarrow> Inr (Some rd, e)
           | None \<Rightarrow> next_buffer pack k session rd e) (\<lambda>(r, e1).
    case r of
      None \<Rightarrow> Inr (None, e1)
    | Some rd1 \<Rightarrow>
        (case PrepareSocketContext slots (Data (rd_cursor rd1)) SessionData header session attachment (rd_sequence rd1) of
           None \<Rightarrow> Inl NullDeref
         | Some context \<Rightarrow>
             skip_body header (rd1\<lparr>rd_contexts := rd_contexts rd1 @ [context], rd_sequence := rd_sequence rd1 + 1\<rparr>) e1))"

definition read_packet ::
  "(Packet \<Rightarrow> u8 list) \<Rightarrow> (PacketType \<Rightarrow> u8 list \<Rightarrow> Packet option) \<Rightarrow> nat \<Rightarrow> u8 list \<Rightarrow> packet_session_auth_rq \<Rightarrow> int \<Rightarrow> u64 \<Rightarrow> u64 \<Rightarrow> PacketHeader \<Rightarrow>
   ReadState \<Rightarrow> NetworkEngine \<Rightarrow> (ReadState option \<times> NetworkEngine) res" where
  "read_packet pack unpack slots key garbage now_ms k attachment header rd e =
    rbind (extension_at k e) (\<lambda>x.
    case xs_session x of
      None \<Rightarrow> read_unauthorized pack unpack slots key garbage now_ms k header rd e
    | Some s \<Rightarrow>
      (case type_of_value (ph_packet_type header) of
         Some T_heartbeat_rq \<Rightarrow>
           rbind (on_session_data s (UpdateHeartbeatReceivingTime now_ms) e) (\<lambda>e1.
           rbind (session_do (Some s) (Session_Send pack (P_heartbeat_rs 0) None') e1) (\<lambda>e2. skip_body header rd e2))
       | Some T_heartbeat_rs \<Rightarrow> rbind (on_session_data s (UpdateHeartbeatReceivingTime now_ms) e) (skip_body header rd)
       | Some T_session_create_rq \<Rightarrow> stop_reading pack k (Some s) e
       | Some T_session_create_rs \<Rightarrow> stop_reading pack k (Some s) e
       | Some T_session_close_rq \<Rightarrow> stop_reading pack k (Some s) e
       | _ \<Rightarrow> read_data pack slots k (Some s) attachment header rd e))"

text \<open>The loop. Every round moves the cursor by the twelve bytes of length and header at least, so the capacity of the buffer bounds the
  number of rounds; running out of it is \<open>Undefined\<close>.\<close>

fun read_loop ::
  "(Packet \<Rightarrow> u8 list) \<Rightarrow> (PacketType \<Rightarrow> u8 list \<Rightarrow> Packet option) \<Rightarrow> nat \<Rightarrow> u8 list \<Rightarrow> packet_session_auth_rq \<Rightarrow> int \<Rightarrow> u64 \<Rightarrow> u64 \<Rightarrow> nat \<Rightarrow>
   ReadState \<Rightarrow> NetworkEngine \<Rightarrow> (ReadState option \<times> NetworkEngine) res" where
  "read_loop pack unpack slots key garbage now_ms k attachment fuel rd e =
    (let c = rd_cursor rd in
     if RemainBytes c > PACKET_LENGTH_SIZE then
       if RemainBytes c - PACKET_LENGTH_SIZE < nat_of_bytes (take PACKET_LENGTH_SIZE (Data c)) then Inr (Some rd, e)
       else
         case fuel of
           0 \<Rightarrow> Inl Undefined
         | Suc n \<Rightarrow>
           rbind (Seek (of_nat PACKET_LENGTH_SIZE) c) (\<lambda>c1.
           rbind (DeserializePacketHeader (Data c1) PACKET_HEADER_SIZE) (\<lambda>header.
           rbind (Seek (of_nat PACKET_HEADER_SIZE) c1) (\<lambda>c2.
           if RemainBytes c2 < unat (ph_body_size header) then
             rbind (extension_at k e) (\<lambda>x.
             rbind (if xs_session x \<noteq> None then session_do (xs_session x) (CloseSession pack) e
                    else transmit_disconnect k GRACEFUL_SHUTDOWN_CODE e) (\<lambda>e1.
             rbind (release_read k e1) (\<lambda>e2. Inr (None, e2))))
           else
             rbind (read_packet pack unpack slots key garbage now_ms k attachment header (rd\<lparr>rd_cursor := c2\<rparr>) e) (\<lambda>(r, e1).
             case r of
               None \<Rightarrow> Inr (None, e1)
             | Some rd1 \<Rightarrow> read_loop pack unpack slots key garbage now_ms k attachment n rd1 e1))))
     else Inr (Some rd, e))"

declare read_loop.simps [simp del]

text \<open>What \<^verbatim>\<open>OnRead\<close> does behind the loop.\<close>

definition read_end :: "(Packet \<Rightarrow> u8 list) \<Rightarrow> u64 \<Rightarrow> u64 \<Rightarrow> ReadState \<Rightarrow> NetworkEngine \<Rightarrow> NetworkEngine res" where
  "read_end pack k attachment rd e =
    (if cur_cursor (rd_cursor rd) \<le> int (PACKET_LENGTH_SIZE + PACKET_HEADER_SIZE) then TransmitRead k (cur_buffer (rd_cursor rd)) attachment e
     else
       rbind (extension_at k e) (\<lambda>x.
       rbind (call_session (xs_session x) (TryAllocateReadBuffer pack) e) (\<lambda>(allocated, e1).
       if \<not> allocated then release_read k e1
       else
         rbind (stream_at k e1) (\<lambda>es.
         let buffer = \<lparr>db_bytes = Data (rd_cursor rd), db_capacity = en_read_capacity es\<rparr> in
         if rd_contexts rd \<noteq> [] then
           (case Submit (rd_contexts rd) e1 of
              (True, e2) \<Rightarrow> TransmitRead k buffer attachment e2
            | (False, e2) \<Rightarrow>
              rbind (release_read k e2) (\<lambda>e3. rbind (release_read k e3) (\<lambda>e4.
              rbind (session_do (xs_session x) (Session_Send_must pack (P_server_is_busy_ps 0) None') e4) (\<lambda>e5.
              session_do (xs_session x) (CloseSession pack) e5))))
         else rbind (release_read k e1) (TransmitRead k buffer attachment)))))"

definition OnRead ::
  "(Packet \<Rightarrow> u8 list) \<Rightarrow> (PacketType \<Rightarrow> u8 list \<Rightarrow> Packet option) \<Rightarrow> nat \<Rightarrow> u8 list \<Rightarrow> packet_session_auth_rq \<Rightarrow> int \<Rightarrow> u64 \<Rightarrow> DynamicBuffer \<Rightarrow> u64 \<Rightarrow>
   NetworkEngine \<Rightarrow> NetworkEngine res" where
  "OnRead pack unpack slots key garbage now_ms k buffer attachment e =
    rbind (read_loop pack unpack slots key garbage now_ms k attachment (unat (db_capacity buffer))
             \<lparr>rd_cursor = new_cursor buffer, rd_contexts = [], rd_sequence = 0\<rparr> e) (\<lambda>(r, e1).
    case r of None \<Rightarrow> Inr e1 | Some rd \<Rightarrow> read_end pack k attachment rd e1)"

section \<open>Completions\<close>

text \<open>A stream that is gone: its connector connects again; its session is abandoned when it may be resumed and closed otherwise.\<close>

definition reconnect_connector :: "SocketStreamExtension \<Rightarrow> NetworkEngine \<Rightarrow> NetworkEngine" where
  "reconnect_connector x e =
    (if xs_stream_type x = ConnectorStream then
       case cm_TryGet (xs_connector_id x) (ne_connector_list e) of
         None \<Rightarrow> e
       | Some info \<Rightarrow>
           e\<lparr>ne_connector_list := snd (cm_Process (xs_connector_id x) (\<lambda>c. c\<lparr>ci_stream := None\<rparr>) (ne_connector_list e)),
             ne_connects := ne_connects e @ [(ci_remote_address info, xs_connector_id x)]\<rparr>
     else e)"

definition abandon_session :: "u64 \<Rightarrow> u64 \<Rightarrow> u64 \<Rightarrow> NetworkEngine \<Rightarrow> (ContextType \<times> NetworkEngine) res" where
  "abandon_session k attachment s e =
    (if \<not> odd (unat attachment) \<and> use_session_reconnect (ne_option e) then
       rbind (change_state s Opened Abandoned e) (\<lambda>(changed, e1).
       assert_that changed
         (rbind (on_worker_of k (\<lambda>w. w\<lparr>wi_abandoned_sessions := set_key s (wi_abandoned_sessions w)\<rparr>)
                  (e1\<lparr>ne_abandoned_session_list := snd (cm_Insert s s (ne_abandoned_session_list e1))\<rparr>))
            (\<lambda>e2. Inr (SessionAbandoned, e2))))
     else Inr (SessionClosed, e))"

definition lose_session :: "(Packet \<Rightarrow> u8 list) \<Rightarrow> nat \<Rightarrow> u64 \<Rightarrow> u64 \<Rightarrow> u64 \<Rightarrow> NetworkEngine \<Rightarrow> NetworkEngine res" where
  "lose_session pack slots k attachment s e =
    rbind (abandon_session k attachment s e) (\<lambda>(context_type, e1).
    rbind (must_allocate_read k e1) (\<lambda>(heap, e2).
    rbind (on_worker_of k (\<lambda>w. w\<lparr>wi_opened_sessions := removeAll s (wi_opened_sessions w)\<rparr>) e2) (\<lambda>e3.
    rbind (SendSocketContext pack slots heap [] context_type no_header (Some s) 0 e3) (\<lambda>e4.
    on_extension k (\<lambda>x. x\<lparr>xs_connector_id := 0, xs_session := None\<rparr>) e4))))"

definition OnDisconnect :: "(Packet \<Rightarrow> u8 list) \<Rightarrow> nat \<Rightarrow> u64 \<Rightarrow> u64 \<Rightarrow> NetworkEngine \<Rightarrow> NetworkEngine res" where
  "OnDisconnect pack slots k attachment e =
    rbind (extension_at k e) (\<lambda>x.
    rbind (on_worker_of k (\<lambda>w. w\<lparr>wi_activated_sockets := removeAll k (wi_activated_sockets w)\<rparr>) e) (\<lambda>e1.
    let e2 = reconnect_connector x e1 in
    case xs_session x of None \<Rightarrow> Inr e2 | Some s \<Rightarrow> lose_session pack slots k attachment s e2))"

text \<open>\<^verbatim>\<open>IocpSocketServer::IoRead\<close>: bytes have arrived behind the contents of the buffer of the oldest read, or none when the peer is gone.\<close>

definition IoRead ::
  "(Packet \<Rightarrow> u8 list) \<Rightarrow> (PacketType \<Rightarrow> u8 list \<Rightarrow> Packet option) \<Rightarrow> nat \<Rightarrow> u8 list \<Rightarrow> packet_session_auth_rq \<Rightarrow> int \<Rightarrow> u64 \<Rightarrow> u8 list \<Rightarrow>
   NetworkEngine \<Rightarrow> NetworkEngine res" where
  "IoRead pack unpack slots key garbage now_ms k transferred e =
    rbind (stream_at k e) (\<lambda>es.
    case en_reads es of
      [] \<Rightarrow> Inl Undefined
    | (buffer, attachment) # reads \<Rightarrow>
      let e1 = put_stream k (es\<lparr>en_reads := reads\<rparr>) e in
      if transferred \<noteq> [] then OnRead pack unpack slots key garbage now_ms k (buffer\<lparr>db_bytes := db_bytes buffer @ transferred\<rparr>) attachment e1
      else rbind (transmit_disconnect k attachment e1) (release_read k))"

section \<open>Ticks\<close>

definition ns :: "int \<Rightarrow> int" where "ns ms = ms * 1000000"

definition tick_socket :: "(Packet \<Rightarrow> u8 list) \<Rightarrow> int \<Rightarrow> u64 \<Rightarrow> NetworkEngine \<Rightarrow> NetworkEngine res" where
  "tick_socket pack now k e =
    rbind (extension_at k e) (\<lambda>x.
    rbind (if xs_session x = None \<and> now \<ge> xs_connection_created_time x + ns (int (unat (socket_idle_timeout_ms (ne_option e))))
           then transmit_disconnect k GRACEFUL_SHUTDOWN_CODE e else Inr e) (\<lambda>e1.
    case xs_session x of
      None \<Rightarrow> Inr e1
    | Some s \<Rightarrow>
      if xs_stream_type x = AcceptorStream then
        rbind (ses_at s e1) (\<lambda>ses.
        if now \<ge> ns (ss_heartbeat_sending (eo_session ses)) + ns (int (unat (session_heartbeat_interval_ms (ne_option e)))) then
          rbind (transmit_packet pack True k (P_heartbeat_rq (xs_ping_ms x)) None' e1) (\<lambda>e2.
          on_session_data s (UpdateHeartbeatSendingTime (now div 1000000)) e2)
        else Inr e1)
      else Inr e1))"

text \<open>The sessions to delete and the state after the loop over the opened sessions.\<close>

fun tick_opened :: "(Packet \<Rightarrow> u8 list) \<Rightarrow> int \<Rightarrow> u64 list \<Rightarrow> NetworkEngine \<Rightarrow> (u64 list \<times> NetworkEngine) res" where
  "tick_opened pack now [] e = Inr ([], e)"
| "tick_opened pack now (s # ss) e =
    rbind (ses_at s e) (\<lambda>ses.
    if now \<ge> ns (ss_heartbeat_receiving (eo_session ses)) + ns (int (unat (session_idle_timeout_ms (ne_option e)))) then
      rbind (session_do (Some s) (CloseSession pack) e) (\<lambda>e1.
      rbind (tick_opened pack now ss e1) (\<lambda>(deleted, e2). Inr (s # deleted, e2)))
    else tick_opened pack now ss e)"

text \<open>The loop over the abandoned sessions, with its \<^verbatim>\<open>continue\<close> for every state other than \<^verbatim>\<open>Wait\<close> and its \<^verbatim>\<open>break\<close>.\<close>

fun tick_abandoned :: "(Packet \<Rightarrow> u8 list) \<Rightarrow> nat \<Rightarrow> int \<Rightarrow> u64 list \<Rightarrow> NetworkEngine \<Rightarrow> (u64 list \<times> NetworkEngine) res" where
  "tick_abandoned pack slots now [] e = Inr ([], e)"
| "tick_abandoned pack slots now (s # ss) e =
    rbind (ses_at s e) (\<lambda>ses.
    if ss_state (eo_session ses) \<noteq> Wait then tick_abandoned pack slots now ss e
    else if now \<ge> ns (ss_abandoned (eo_session ses)) + ns (int (unat (session_reconnect_timeout_ms (ne_option e)))) then
      (case remove_abandoned s (try_resume Closed) e of
         (None, e1) \<Rightarrow> Inr ([s], e1)
       | (Some t, e1) \<Rightarrow>
         rbind (ses_at t e1) (\<lambda>ses1.
         case eo_stream ses1 of
           None \<Rightarrow> Inl NullDeref
         | Some k \<Rightarrow>
           rbind (must_allocate_read k e1) (\<lambda>(heap, e2).
           rbind (SendSocketContext pack slots heap [] SessionClosed no_header (Some s) 0 e2) (\<lambda>e3.
           rbind (tick_abandoned pack slots now ss e3) (\<lambda>(deleted, e4). Inr (s # deleted, e4))))))
    else tick_abandoned pack slots now ss e)"

definition OnTick :: "(Packet \<Rightarrow> u8 list) \<Rightarrow> nat \<Rightarrow> int \<Rightarrow> nat \<Rightarrow> NetworkEngine \<Rightarrow> NetworkEngine res" where
  "OnTick pack slots now i e =
    assert_that (i < length (ne_worker_infos e))
      (rbind (foldr_res (tick_socket pack now) (wi_activated_sockets (ne_worker_infos e ! i)) e) (\<lambda>e1.
       rbind (tick_opened pack now (wi_opened_sessions (ne_worker_infos e1 ! i)) e1) (\<lambda>(closed, e2).
       rbind (on_worker i (\<lambda>w. w\<lparr>wi_opened_sessions := filter (\<lambda>s. s \<notin> set closed) (wi_opened_sessions w)\<rparr>) e2) (\<lambda>e3.
       rbind (tick_abandoned pack slots now (wi_abandoned_sessions (ne_worker_infos e3 ! i)) e3) (\<lambda>(gone, e4).
       on_worker i (\<lambda>w. w\<lparr>wi_abandoned_sessions := filter (\<lambda>s. s \<notin> set gone) (wi_abandoned_sessions w)\<rparr>) e4)))))"

section \<open>The worker\<close>

text \<open>The handlers of a \<^verbatim>\<open>NetworkEngineWorker\<close>, on a state of their own, and the dispatch of a chain of contexts in \<^verbatim>\<open>UpdateContext\<close>.
  \<^verbatim>\<open>SessionClosed\<close> ends the chain.\<close>

record 's worker_handlers =
  wh_connected :: "SocketContext \<Rightarrow> 's \<Rightarrow> 's res"
  wh_accepted :: "SocketContext \<Rightarrow> 's \<Rightarrow> 's res"
  wh_abandoned :: "SocketContext \<Rightarrow> 's \<Rightarrow> 's res"
  wh_alived :: "SocketContext \<Rightarrow> 's \<Rightarrow> 's res"
  wh_closed :: "SocketContext \<Rightarrow> 's \<Rightarrow> 's res"
  wh_data :: "SocketContext \<Rightarrow> 's \<Rightarrow> 's res"

definition context_state :: "SocketContext \<Rightarrow> NetworkEngine \<Rightarrow> SessionState res" where
  "context_state cx e =
    (case sx_session cx of None \<Rightarrow> Inl NullDeref | Some s \<Rightarrow> rbind (ses_at s e) (\<lambda>ses. Inr (ss_state (eo_session ses))))"

text \<open>\<^verbatim>\<open>SocketContext::Release\<close>. Every context of a chain holds one reference to the buffer of the chain, so the last one returns it.\<close>

definition Context_Release :: "bool \<Rightarrow> SocketContext \<Rightarrow> NetworkEngine \<Rightarrow> NetworkEngine res" where
  "Context_Release last_of_buffer cx e =
    (case sx_session cx of
       None \<Rightarrow> Inr e
     | Some k \<Rightarrow>
       if \<not> last_of_buffer then Inr e
       else rbind (session_do (Some k) (Session_ReleaseReadBuffer (sx_heap cx)) e) (\<lambda>e1.
            if sx_context_type cx = SessionClosed then on_session k (\<lambda>x. x\<lparr>eo_stream := None\<rparr>) e1 else Inr e1))"

text \<open>The dispatch on the type of a context.\<close>

definition handle_context :: "'s worker_handlers \<Rightarrow> SocketContext \<Rightarrow> 's \<times> NetworkEngine \<Rightarrow> ('s \<times> NetworkEngine) res" where
  "handle_context wh cx = (\<lambda>(s, e).
    case sx_context_type cx of
      SessionAccepted \<Rightarrow> rbind (wh_accepted wh cx s) (\<lambda>s'. Inr (s', e))
    | SessionConnected \<Rightarrow> rbind (wh_connected wh cx s) (\<lambda>s'. Inr (s', e))
    | SessionAbandoned \<Rightarrow>
        rbind (wh_abandoned wh cx s) (\<lambda>s'.
        case sx_session cx of
          None \<Rightarrow> Inl NullDeref
        | Some k \<Rightarrow> rbind (change_state k Abandoned Wait e) (\<lambda>(changed, e'). assert_that changed (Inr (s', e'))))
    | SessionAlived \<Rightarrow> rbind (wh_alived wh cx s) (\<lambda>s'. Inr (s', e))
    | SessionClosed \<Rightarrow> rbind (wh_closed wh cx s) (\<lambda>s'. Inr (s', e))
    | SessionData \<Rightarrow>
        rbind (context_state cx e) (\<lambda>state. assert_that (state = Opened) (rbind (wh_data wh cx s) (\<lambda>s'. Inr (s', e))))
    | SessionError \<Rightarrow> Inr (s, e))"

fun process_chain :: "'s worker_handlers \<Rightarrow> SocketContext list \<Rightarrow> 's \<times> NetworkEngine \<Rightarrow> ('s \<times> NetworkEngine) res" where
  "process_chain wh [] se = Inr se"
| "process_chain wh (cx # chain) se =
    rbind (handle_context wh cx se) (\<lambda>(s, e).
    rbind (Context_Release (chain = []) cx e) (\<lambda>e'.
    if sx_context_type cx = SessionClosed then Inr (s, e') else process_chain wh chain (s, e')))"

definition UpdateContext :: "'s worker_handlers \<Rightarrow> 's \<Rightarrow> NetworkEngine \<Rightarrow> ('s \<times> NetworkEngine) res" where
  "UpdateContext wh s e =
    foldr_res (process_chain wh) (ne_submitted e) (s, e\<lparr>ne_submitted := [], ne_queue_room := ne_queue_room e + length (ne_submitted e)\<rparr>)"

end
