(* ===== verification/EngineFraming.thy ===== *)
theory EngineFraming
  imports Engine
begin

text \<open>
  How the engine cuts the byte stream of a connection into packets: whatever pieces the bytes arrive in, the packets that the peer
  framed are handed to the worker, once each and in order. Also the cases in which they are not.
\<close>

section \<open>One packet in a buffer\<close>

lemma read_loop_frame:
  assumes c: "cursor_ok (rd_cursor rd)" "Data (rd_cursor rd) = frame pack (p, err) @ rest" "length (Data (rd_cursor rd)) < 2147483648"
  obtains c2 where "cursor_ok c2" "Data c2 = pack p @ rest" "cur_buffer c2 = cur_buffer (rd_cursor rd)"
    "cur_cursor c2 = cur_cursor (rd_cursor rd) + 12"
    "read_loop pack unpack slots key garbage now_ms k attachment (Suc n) rd e =
       rbind (read_packet pack unpack slots key garbage now_ms k attachment (packet_header pack p err) (rd\<lparr>rd_cursor := c2\<rparr>) e) (\<lambda>(r, e1).
         case r of None \<Rightarrow> Inr (None, e1) | Some rd1 \<Rightarrow> read_loop pack unpack slots key garbage now_ms k attachment n rd1 e1)"
proof -
  let ?c = "rd_cursor rd" and ?h = "packet_header pack p err"
  have d: "Data ?c = bytes_of 4 (8 + length (pack p)) @ header_bytes ?h @ pack p @ rest" using c(2) by (simp add: frame_def)
  have small: "length (pack p) < 2147483648" using c(3) unfolding d by simp
  obtain c1 where c1: "Seek 4 ?c = Inr c1" "cursor_ok c1" "Data c1 = header_bytes ?h @ pack p @ rest"
      "cur_buffer c1 = cur_buffer ?c" "cur_cursor c1 = cur_cursor ?c + 4"
    using Seek_forward [OF c(1), of 4] d by auto
  obtain c2 where c2: "Seek 8 c1 = Inr c2" "cursor_ok c2" "Data c2 = pack p @ rest" "cur_buffer c2 = cur_buffer ?c" "cur_cursor c2 = cur_cursor ?c + 12"
    using Seek_forward [OF c1(2), of 8] c1 by auto
  have h: "DeserializePacketHeader (Data c1) 8 = Inr ?h" unfolding c1(3) using header_round_trip [of ?h "pack p @ rest" 0] by simp
  have b: "unat (ph_body_size ?h) = length (pack p)" using small by (simp add: packet_header_def u32_of_nat)
  have rem: "RemainBytes ?c = 12 + length (pack p) + length rest" "RemainBytes c2 = length (pack p) + length rest"
    using c(1) d c2 by (simp_all add: RemainBytes_Data)
  have len: "nat_of_bytes (take 4 (Data ?c)) = 8 + length (pack p)" using small by (simp add: d nat_of_bytes_of)
  have "read_loop pack unpack slots key garbage now_ms k attachment (Suc n) rd e =
       rbind (read_packet pack unpack slots key garbage now_ms k attachment ?h (rd\<lparr>rd_cursor := c2\<rparr>) e) (\<lambda>(r, e1).
         case r of None \<Rightarrow> Inr (None, e1) | Some rd1 \<Rightarrow> read_loop pack unpack slots key garbage now_ms k attachment n rd1 e1)"
    by (subst read_loop.simps) (simp add: Let_def PACKET_LENGTH_SIZE_def PACKET_HEADER_SIZE_def rem len c1(1) h c2(1) b)
  with c2 that show thesis by blast
qed

text \<open>A frame that has not arrived completely stays in the buffer.\<close>

lemma read_loop_partial:
  assumes "cursor_ok (rd_cursor rd)" "Data (rd_cursor rd) @ missing = frame pack (p, err)" "missing \<noteq> []" "length (pack p) < 2147483648"
  shows "read_loop pack unpack slots key garbage now_ms k attachment n rd e = Inr (Some rd, e)"
proof (cases "length (Data (rd_cursor rd)) > 4")
  case True
  have d: "Data (rd_cursor rd) @ missing = bytes_of 4 (8 + length (pack p)) @ header_bytes (packet_header pack p err) @ pack p"
    using assms(2) by (simp add: frame_def)
  have "take 4 (Data (rd_cursor rd)) = take 4 (Data (rd_cursor rd) @ missing)" using True by simp
  then have "take 4 (Data (rd_cursor rd)) = bytes_of 4 (8 + length (pack p))" unfolding d by simp
  then have len: "nat_of_bytes (take 4 (Data (rd_cursor rd))) = 8 + length (pack p)" using assms(4) by (simp add: nat_of_bytes_of)
  have "length (Data (rd_cursor rd)) < 12 + length (pack p)"
    using arg_cong [OF d, of length] assms(3) by (cases missing) auto
  then have "length (Data (rd_cursor rd)) - 4 < 8 + length (pack p)" using True by linarith
  then show ?thesis
    using True assms(1) by (subst read_loop.simps) (simp add: Let_def RemainBytes_Data PACKET_LENGTH_SIZE_def len)
next
  case False
  then show ?thesis using assms(1) by (subst read_loop.simps) (simp add: Let_def RemainBytes_Data PACKET_LENGTH_SIZE_def)
qed

lemma read_loop_empty:
  assumes "cursor_ok (rd_cursor rd)" "Data (rd_cursor rd) = []"
  shows "read_loop pack unpack slots key garbage now_ms k attachment n rd e = Inr (Some rd, e)"
  using assms by (subst read_loop.simps) (simp add: Let_def RemainBytes_Data PACKET_LENGTH_SIZE_def)

section \<open>A connection with an open session\<close>

text \<open>Stream \<open>k\<close> carries the open session \<open>s\<close>, has \<open>r\<close> free read buffers and the started reads \<open>rs\<close>; \<open>sub\<close> has been submitted and
  \<open>room\<close> later chains fit the queue of the worker.\<close>

definition connection :: "u64 \<Rightarrow> u64 \<Rightarrow> u32 \<Rightarrow> nat \<Rightarrow> (DynamicBuffer \<times> u64) list \<Rightarrow> SocketContext list list \<Rightarrow> nat \<Rightarrow> NetworkEngine \<Rightarrow> bool" where
  "connection k s cap r rs sub room e \<longleftrightarrow>
     (\<exists>es x ses. ne_streams e k = Some es \<and> en_extension es = Some x \<and> xs_session x = Some s \<and> ne_sessions e s = Some ses \<and>
        ss_state (eo_session ses) = Opened \<and> eo_stream ses = Some k \<and> en_read_capacity es = cap \<and>
        st_read_free (en_stream es) = r \<and> en_reads es = rs) \<and>
     ne_submitted e = sub \<and> ne_queue_room e = room"

lemma connection_extension: "connection k s cap r rs sub room e \<Longrightarrow> \<exists>x. extension_at k e = Inr x \<and> xs_session x = Some s"
  by (auto simp: connection_def extension_at_def stream_at_def)

lemma connection_stream: "connection k s cap r rs sub room e \<Longrightarrow> \<exists>es. stream_at k e = Inr es \<and> en_read_capacity es = cap"
  by (auto simp: connection_def stream_at_def)

lemma connection_alloc:
  assumes "connection k s cap (Suc r) rs sub room e"
  shows "\<exists>e'. call_session (Some s) (TryAllocateReadBuffer pack) e = Inr (True, e') \<and> connection k s cap r rs sub room e'"
proof -
  obtain es x ses where w: "ne_streams e k = Some es" "en_extension es = Some x" "xs_session x = Some s" "ne_sessions e s = Some ses"
    "ss_state (eo_session ses) = Opened" "eo_stream ses = Some k" "en_read_capacity es = cap"
    "st_read_free (en_stream es) = Suc r" "en_reads es = rs" "ne_submitted e = sub" "ne_queue_room e = room"
    using assms by (auto simp: connection_def)
  have t: "TryAllocateReadBuffer pack (as_socket_session ses e) =
      Inr (True, (as_socket_session ses e)\<lparr>so_stream := Some ((en_stream es)\<lparr>st_read_free := r\<rparr>)\<rparr>)"
    using w by (simp add: TryAllocateReadBuffer_def GetSocketStream_def with_stream_def AllocateReadBuffer_def as_socket_session_def
        Session.defs)
  show ?thesis
    using w by (simp add: call_session_def ses_at_def t) (simp add: put_socket_session_def put_ses_def put_stream_def connection_def Session.defs as_socket_session_def)
qed

lemma connection_submit:
  "connection k s cap r rs sub (Suc room) e \<Longrightarrow> \<exists>e'. Submit chain e = (True, e') \<and> connection k s cap r rs (sub @ [chain]) room e'"
  by (auto simp: Submit_def connection_def)

lemma connection_read:
  assumes "connection k s cap r rs sub room e" "length (db_bytes b) \<le> unat (db_capacity b)"
  shows "\<exists>e'. TransmitRead k b a e = Inr e' \<and> connection k s cap r (rs @ [(b, a)]) sub room e'"
  using assms by (auto simp: TransmitRead_def on_stream_def stream_at_def put_stream_def connection_def)

section \<open>Data packets\<close>

definition data_packet :: "Packet \<Rightarrow> bool" where
  "data_packet p \<longleftrightarrow> PACKET_TYPE p \<notin> {T_heartbeat_rq, T_heartbeat_rs, T_session_create_rq, T_session_create_rs, T_session_close_rq}"

definition data_context :: "(Packet \<Rightarrow> u8 list) \<Rightarrow> u64 \<Rightarrow> u64 \<Rightarrow> Packet \<times> ErrorCode \<Rightarrow> u8 list \<Rightarrow> SocketContext" where
  "data_context pack s a pe rest = \<lparr>sx_context_type = SessionData, sx_header = packet_header pack (fst pe) (snd pe), sx_session = Some s,
     sx_attachment = a, sx_data = pack (fst pe) @ rest, sx_heap = False\<rparr>"

text \<open>What a context tells the worker: its kind, its session, the error code and the packet that its data deserialise to.\<close>

definition delivered :: "(PacketType \<Rightarrow> u8 list \<Rightarrow> Packet option) \<Rightarrow> SocketContext \<Rightarrow> ContextType \<times> u64 option \<times> u16 \<times> Packet option" where
  "delivered unpack cx = (sx_context_type cx, sx_session cx, ph_error_code (sx_header cx), packet_of unpack (sx_header cx) (sx_data cx))"

lemma delivered_data_context:
  assumes "unpack (PACKET_TYPE p) (pack p) = Some p" "length (pack p) < 4294967296"
  shows "delivered unpack (data_context pack s a (p, err) rest) = (SessionData, Some s, error_code_value err, Some p)"
  using assms by (simp add: delivered_def data_context_def packet_of_def packet_header_def DeserializePacketBody_def u32_of_nat)

lemma new_cursor_start: "cur_cursor (new_cursor b) = 0" "cur_buffer (new_cursor b) = b"
  by (simp_all add: new_cursor_def)

lemma skip_body_ok:
  assumes "cursor_ok (rd_cursor rd)" "Data (rd_cursor rd) = pack p @ rest" "length (pack p) < 2147483648"
  shows "\<exists>c. skip_body (packet_header pack p err) rd e = Inr (Some (rd\<lparr>rd_cursor := c\<rparr>), e) \<and> cursor_ok c \<and> Data c = rest \<and>
     cur_cursor c = cur_cursor (rd_cursor rd) + int (length (pack p))"
proof -
  have "unat (ph_body_size (packet_header pack p err)) = length (pack p)" using assms(3) by (simp add: packet_header_def u32_of_nat)
  then show ?thesis
    using Seek_forward [OF assms(1), of "ph_body_size (packet_header pack p err)"] assms(2,3) by (auto simp: skip_body_def)
qed

lemma read_data_ok:
  assumes conn: "connection k s cap (Suc r) rs sub (Suc room) e" and slots: "slots \<ge> 1"
    and rd: "cursor_ok (rd_cursor rd)" "Data (rd_cursor rd) = pack p @ rest" "length (pack p) < 2147483648"
      "rd_sequence rd = length (rd_contexts rd)"
  shows "\<exists>rd' e' r' sub' room'. read_data pack slots k (Some s) a (packet_header pack p err) rd e = Inr (Some rd', e') \<and>
     connection k s cap r' rs sub' room' e' \<and> r \<le> r' \<and> room \<le> room' \<and> cursor_ok (rd_cursor rd') \<and> Data (rd_cursor rd') = rest \<and>
     concat sub' @ rd_contexts rd' = concat sub @ rd_contexts rd @ [data_context pack s a (p, err) rest] \<and>
     rd_contexts rd' \<noteq> [] \<and> rd_sequence rd' = length (rd_contexts rd') \<and> int (length (pack p)) \<le> cur_cursor (rd_cursor rd') \<and>
     (length (rd_contexts rd) < slots \<longrightarrow> length (rd_contexts rd') = Suc (length (rd_contexts rd)) \<and>
        cur_cursor (rd_cursor rd') = cur_cursor (rd_cursor rd) + int (length (pack p)))"
proof (cases "length (rd_contexts rd) < slots")
  case True
  let ?rd = "rd\<lparr>rd_contexts := rd_contexts rd @ [data_context pack s a (p, err) rest], rd_sequence := Suc (rd_sequence rd)\<rparr>"
  obtain c where c: "skip_body (packet_header pack p err) ?rd e = Inr (Some (?rd\<lparr>rd_cursor := c\<rparr>), e)" "cursor_ok c" "Data c = rest"
     "cur_cursor c = cur_cursor (rd_cursor rd) + int (length (pack p))"
    using skip_body_ok [where rd = ?rd and pack = pack and p = p and rest = rest] rd by auto
  have run: "read_data pack slots k (Some s) a (packet_header pack p err) rd e = Inr (Some (?rd\<lparr>rd_cursor := c\<rparr>), e)"
    using True rd(2,4) c(1) by (simp add: read_data_def PrepareSocketContext_def data_context_def)
  show ?thesis
    by (rule exI, rule exI, rule exI, rule exI, rule exI, rule conjI, rule run, rule conjI, rule conn)
      (use c rd True in \<open>auto simp: cursor_ok_def\<close>)
next
  case False
  obtain e1 where e1: "call_session (Some s) (TryAllocateReadBuffer pack) e = Inr (True, e1)" "connection k s cap r rs sub (Suc room) e1"
    using connection_alloc [OF conn, of pack] by blast
  obtain es where es: "stream_at k e1 = Inr es" "en_read_capacity es = cap" using connection_stream [OF e1(2)] by blast
  obtain e2 where e2: "Submit (rd_contexts rd) e1 = (True, e2)" "connection k s cap r rs (sub @ [rd_contexts rd]) room e2"
    using connection_submit [OF e1(2)] by blast
  let ?c = "new_cursor \<lparr>db_bytes = pack p @ rest, db_capacity = cap\<rparr>"
  let ?rd = "\<lparr>rd_cursor = ?c, rd_contexts = [data_context pack s a (p, err) rest], rd_sequence = 1\<rparr>"
  obtain c where c: "skip_body (packet_header pack p err) ?rd e2 = Inr (Some (?rd\<lparr>rd_cursor := c\<rparr>), e2)" "cursor_ok c" "Data c = rest"
     "cur_cursor c = int (length (pack p))"
    using skip_body_ok [where rd = ?rd and pack = pack and p = p and rest = rest and err = err and e = e2] rd(3)
    by (auto simp: new_cursor_start)
  have "next_buffer pack k (Some s) rd e = Inr (Some \<lparr>rd_cursor = ?c, rd_contexts = [], rd_sequence = 0\<rparr>, e2)"
    using e1(1) es e2(1) rd(2) by (simp add: next_buffer_def)
  moreover have "PrepareSocketContext slots (Data (rd_cursor rd)) SessionData (packet_header pack p err) (Some s) a (rd_sequence rd) = None"
    using False rd(4) by (simp add: PrepareSocketContext_def)
  ultimately have run: "read_data pack slots k (Some s) a (packet_header pack p err) rd e = Inr (Some (?rd\<lparr>rd_cursor := c\<rparr>), e2)"
    using slots c(1) by (simp add: read_data_def PrepareSocketContext_def data_context_def)
  show ?thesis
    by (rule exI, rule exI, rule exI, rule exI, rule exI, rule conjI, rule run, rule conjI, rule e2(2))
      (use c False in auto)
qed

text \<open>Several complete packets, and the beginning of another one.\<close>

definition incomplete :: "(Packet \<Rightarrow> u8 list) \<Rightarrow> u8 list \<Rightarrow> bool" where
  "incomplete pack tail \<longleftrightarrow> tail = [] \<or> (\<exists>pe missing. tail @ missing = frame pack pe \<and> missing \<noteq> [] \<and> length (pack (fst pe)) < 2147483648)"

lemma read_loop_incomplete:
  assumes "cursor_ok (rd_cursor rd)" "incomplete pack (Data (rd_cursor rd))"
  shows "read_loop pack unpack slots key garbage now_ms k attachment n rd e = Inr (Some rd, e)"
  using assms read_loop_empty read_loop_partial unfolding incomplete_def by (metis prod.collapse)

definition sendable :: "(Packet \<Rightarrow> u8 list) \<Rightarrow> (PacketType \<Rightarrow> u8 list \<Rightarrow> Packet option) \<Rightarrow> Packet \<times> ErrorCode \<Rightarrow> bool" where
  "sendable pack unpack pe \<longleftrightarrow> data_packet (fst pe) \<and> unpack (PACKET_TYPE (fst pe)) (pack (fst pe)) = Some (fst pe) \<and> pack (fst pe) \<noteq> []"

definition seen :: "u64 \<Rightarrow> Packet \<times> ErrorCode \<Rightarrow> ContextType \<times> u64 option \<times> u16 \<times> Packet option" where
  "seen s pe = (SessionData, Some s, error_code_value (snd pe), Some (fst pe))"

lemma read_packet_data:
  assumes "connection k s cap r rs sub room e" "data_packet p"
  shows "read_packet pack unpack slots key garbage now_ms k a (packet_header pack p err) rd e =
     read_data pack slots k (Some s) a (packet_header pack p err) rd e"
proof -
  have "type_of_value (ph_packet_type (packet_header pack p err)) = Some (PACKET_TYPE p)" by (simp add: packet_header_def)
  moreover obtain x where "extension_at k e = Inr x" "xs_session x = Some s" using connection_extension [OF assms(1)] by blast
  ultimately show ?thesis using assms(2) by (cases "PACKET_TYPE p") (simp_all add: read_packet_def data_packet_def)
qed

lemma read_loop_run:
  assumes "\<forall>pe \<in> set ps. sendable pack unpack pe" and "slots \<ge> 1"
    and "cursor_ok (rd_cursor rd)" "Data (rd_cursor rd) = concat (map (frame pack) ps) @ tail" "length (Data (rd_cursor rd)) < 2147483648"
    and "rd_sequence rd = length (rd_contexts rd)"
    and "length (rd_contexts rd) + length ps \<le> slots \<or> (\<forall>pe \<in> set ps. 12 < length (pack (fst pe)))"
    and "connection k s cap r rs sub room e" "length ps \<le> r" "length ps \<le> room" "length ps \<le> fuel"
  shows "\<exists>rd' e' r' sub' room' fuel'. read_loop pack unpack slots key garbage now_ms k a fuel rd e =
       read_loop pack unpack slots key garbage now_ms k a fuel' rd' e' \<and> fuel \<le> fuel' + length ps \<and> cursor_ok (rd_cursor rd') \<and>
     rd_sequence rd' = length (rd_contexts rd') \<and>
     (length (rd_contexts rd) + length ps \<le> slots \<longrightarrow> length (rd_contexts rd') = length (rd_contexts rd) + length ps \<and> concat sub' = concat sub) \<and>
     connection k s cap r' rs sub' room' e' \<and> r \<le> r' + length ps \<and> room \<le> room' + length ps \<and>
     Data (rd_cursor rd') = tail \<and> (ps = [] \<longrightarrow> rd' = rd \<and> sub' = sub) \<and> (ps \<noteq> [] \<longrightarrow> rd_contexts rd' \<noteq> [] \<and> 12 < cur_cursor (rd_cursor rd')) \<and>
     map (delivered unpack) (concat sub' @ rd_contexts rd') = map (delivered unpack) (concat sub @ rd_contexts rd) @ map (seen s) ps"
  using assms
proof (induction ps arbitrary: rd e r sub room fuel)
  case Nil
  then show ?case
    by (intro exI [of _ rd] exI [of _ e] exI [of _ r] exI [of _ sub] exI [of _ room] exI [of _ fuel]) auto
next
  case (Cons pe ps)
  obtain p err where pe: "pe = (p, err)" by (cases pe)
  have sp: "data_packet p" "unpack (PACKET_TYPE p) (pack p) = Some p" "pack p \<noteq> []" using Cons.prems(1) by (auto simp: pe sendable_def)
  define rest where "rest = concat (map (frame pack) ps) @ tail"
  have d: "Data (rd_cursor rd) = frame pack (p, err) @ rest" using Cons.prems(4) by (simp add: pe rest_def)
  have small: "length (pack p) < 2147483648" "length rest < 2147483648" using Cons.prems(5) by (simp_all add: d length_frame)
  obtain n where n: "fuel = Suc n" "length ps \<le> n" using Cons.prems(11) by (cases fuel) auto
  obtain r0 room0 where rr: "r = Suc r0" "room = Suc room0" using Cons.prems(9,10) by (cases r; cases room) auto
  obtain c2 where c2: "cursor_ok c2" "Data c2 = pack p @ rest" "cur_cursor c2 = cur_cursor (rd_cursor rd) + 12"
    and loop: "read_loop pack unpack slots key garbage now_ms k a fuel rd e =
       rbind (read_packet pack unpack slots key garbage now_ms k a (packet_header pack p err) (rd\<lparr>rd_cursor := c2\<rparr>) e) (\<lambda>(r, e1).
         case r of None \<Rightarrow> Inr (None, e1) | Some rd1 \<Rightarrow> read_loop pack unpack slots key garbage now_ms k a n rd1 e1)"
    using read_loop_frame [OF Cons.prems(3) d Cons.prems(5), of unpack slots key garbage now_ms k a n e] unfolding n(1) by blast
  obtain rd1 e1 r1 sub1 room1 where 1: "read_data pack slots k (Some s) a (packet_header pack p err) (rd\<lparr>rd_cursor := c2\<rparr>) e = Inr (Some rd1, e1)"
     "connection k s cap r1 rs sub1 room1 e1" "r0 \<le> r1" "room0 \<le> room1" "cursor_ok (rd_cursor rd1)" "Data (rd_cursor rd1) = rest"
     "concat sub1 @ rd_contexts rd1 = concat sub @ rd_contexts rd @ [data_context pack s a (p, err) rest]"
     "rd_contexts rd1 \<noteq> []" "rd_sequence rd1 = length (rd_contexts rd1)" "int (length (pack p)) \<le> cur_cursor (rd_cursor rd1)"
     "length (rd_contexts rd) < slots \<longrightarrow> length (rd_contexts rd1) = Suc (length (rd_contexts rd)) \<and>
        cur_cursor (rd_cursor rd1) = cur_cursor c2 + int (length (pack p))"
    using read_data_ok [where rd = "rd\<lparr>rd_cursor := c2\<rparr>" and pack = pack and p = p and rest = rest and err = err and a = a,
        OF Cons.prems(8) [unfolded rr] Cons.prems(2)] c2 small(1) Cons.prems(6) by auto
  have far: "12 < cur_cursor (rd_cursor rd1)"
  proof (cases "length (rd_contexts rd) < slots")
    case True
    then show ?thesis using 1(11) c2(3) Cons.prems(3) sp(3) by (simp add: cursor_ok_def) (metis add_strict_increasing2 length_greater_0_conv of_nat_0_less_iff)
  next
    case False
    then show ?thesis using Cons.prems(7) 1(10) by (auto simp: pe)
  qed
  have cap: "length (rd_contexts rd1) + length ps \<le> slots \<or> (\<forall>pe \<in> set ps. 12 < length (pack (fst pe)))"
    using Cons.prems(7) 1(11) by auto
  have ps: "\<forall>pe \<in> set ps. sendable pack unpack pe" and len: "length (Data (rd_cursor rd1)) < 2147483648"
    and q: "length ps \<le> r1" "length ps \<le> room1"
    using Cons.prems(1,9,10) 1(3,4,6) small(2) rr by simp_all
  obtain rd2 e2 r2 sub2 room2 n2 where 2: "read_loop pack unpack slots key garbage now_ms k a n rd1 e1 =
        read_loop pack unpack slots key garbage now_ms k a n2 rd2 e2"
     "connection k s cap r2 rs sub2 room2 e2" "r1 \<le> r2 + length ps" "room1 \<le> room2 + length ps"
     "Data (rd_cursor rd2) = tail" "ps = [] \<longrightarrow> rd2 = rd1 \<and> sub2 = sub1" "ps \<noteq> [] \<longrightarrow> rd_contexts rd2 \<noteq> [] \<and> 12 < cur_cursor (rd_cursor rd2)"
     "map (delivered unpack) (concat sub2 @ rd_contexts rd2) = map (delivered unpack) (concat sub1 @ rd_contexts rd1) @ map (seen s) ps"
     "n \<le> n2 + length ps" "cursor_ok (rd_cursor rd2)" "rd_sequence rd2 = length (rd_contexts rd2)"
     "length (rd_contexts rd1) + length ps \<le> slots \<longrightarrow> length (rd_contexts rd2) = length (rd_contexts rd1) + length ps \<and> concat sub2 = concat sub1"
    using Cons.IH [OF ps Cons.prems(2) 1(5) 1(6) [unfolded rest_def] len 1(9) cap 1(2) q n(2)] by blast
  have dl: "delivered unpack (data_context pack s a (p, err) rest) = seen s pe"
    using delivered_data_context [of unpack p pack s a err rest] sp(2) small(1) by (simp add: seen_def pe)
  have run: "read_loop pack unpack slots key garbage now_ms k a fuel rd e = read_loop pack unpack slots key garbage now_ms k a n2 rd2 e2"
    unfolding loop read_packet_data [OF Cons.prems(8) sp(1)] using 1(1) 2(1) by simp
  have "map (delivered unpack) (concat sub2 @ rd_contexts rd2) = map (delivered unpack) (concat sub @ rd_contexts rd) @ map (seen s) (pe # ps)"
    unfolding 2(8) 1(7) by (simp add: dl)
  moreover have "rd_contexts rd2 \<noteq> [] \<and> 12 < cur_cursor (rd_cursor rd2)" using 2(6,7) 1(8) far by (cases ps) auto
  moreover have "length (rd_contexts rd) + length (pe # ps) \<le> slots \<longrightarrow>
      length (rd_contexts rd2) = length (rd_contexts rd) + length (pe # ps) \<and> concat sub2 = concat sub"
    using 2(12) 1(7,11) by (auto simp: append_eq_append_conv)
  ultimately show ?case
    using run 2(2-5,9-11) 1(3,4) rr n(1)
    by (intro exI [of _ rd2] exI [of _ e2] exI [of _ r2] exI [of _ sub2] exI [of _ room2] exI [of _ n2]) simp
qed

lemma read_loop_packets:
  assumes "\<forall>pe \<in> set ps. sendable pack unpack pe" and "slots \<ge> 1"
    and "cursor_ok (rd_cursor rd)" "Data (rd_cursor rd) = concat (map (frame pack) ps) @ tail" "length (Data (rd_cursor rd)) < 2147483648"
    and "rd_sequence rd = length (rd_contexts rd)" "incomplete pack tail"
    and "length (rd_contexts rd) + length ps \<le> slots \<or> (\<forall>pe \<in> set ps. 12 < length (pack (fst pe)))"
    and "connection k s cap r rs sub room e" "length ps \<le> r" "length ps \<le> room" "length ps \<le> fuel"
  shows "\<exists>rd' e' r' sub' room'. read_loop pack unpack slots key garbage now_ms k a fuel rd e = Inr (Some rd', e') \<and>
     connection k s cap r' rs sub' room' e' \<and> r \<le> r' + length ps \<and> room \<le> room' + length ps \<and>
     Data (rd_cursor rd') = tail \<and> (ps = [] \<longrightarrow> rd' = rd \<and> sub' = sub) \<and> (ps \<noteq> [] \<longrightarrow> rd_contexts rd' \<noteq> [] \<and> 12 < cur_cursor (rd_cursor rd')) \<and>
     map (delivered unpack) (concat sub' @ rd_contexts rd') = map (delivered unpack) (concat sub @ rd_contexts rd) @ map (seen s) ps"
proof -
  obtain rd' e' r' sub' room' fuel' where 1: "read_loop pack unpack slots key garbage now_ms k a fuel rd e =
       read_loop pack unpack slots key garbage now_ms k a fuel' rd' e'" "cursor_ok (rd_cursor rd')" "Data (rd_cursor rd') = tail"
    and 2: "connection k s cap r' rs sub' room' e'" "r \<le> r' + length ps" "room \<le> room' + length ps"
      "ps = [] \<longrightarrow> rd' = rd \<and> sub' = sub" "ps \<noteq> [] \<longrightarrow> rd_contexts rd' \<noteq> [] \<and> 12 < cur_cursor (rd_cursor rd')"
      "map (delivered unpack) (concat sub' @ rd_contexts rd') = map (delivered unpack) (concat sub @ rd_contexts rd) @ map (seen s) ps"
    using read_loop_run [OF assms(1-6,8-12), of key garbage now_ms a] by blast
  have "read_loop pack unpack slots key garbage now_ms k a fuel rd e = Inr (Some rd', e')"
    unfolding 1(1) using read_loop_incomplete [OF 1(2)] assms(7) 1(3) by simp
  with 1(3) 2 show ?thesis by blast
qed

section \<open>One completed read\<close>

lemma frames_length: "length ps \<le> length (concat (map (frame pack) ps))"
  by (induction ps) (simp_all add: length_frame)

lemma read_end_ok:
  assumes "connection k s cap (Suc r) [] sub (Suc room) e" "12 < cur_cursor (rd_cursor rd)" "rd_contexts rd \<noteq> []"
    and "length (Data (rd_cursor rd)) \<le> unat cap"
  shows "\<exists>e'. read_end pack k a rd e = Inr e' \<and>
     connection k s cap r [(\<lparr>db_bytes = Data (rd_cursor rd), db_capacity = cap\<rparr>, a)] (sub @ [rd_contexts rd]) room e'"
proof -
  obtain x where x: "extension_at k e = Inr x" "xs_session x = Some s" using connection_extension [OF assms(1)] by blast
  obtain e1 where e1: "call_session (Some s) (TryAllocateReadBuffer pack) e = Inr (True, e1)" "connection k s cap r [] sub (Suc room) e1"
    using connection_alloc [OF assms(1), of pack] by blast
  obtain es where es: "stream_at k e1 = Inr es" "en_read_capacity es = cap" using connection_stream [OF e1(2)] by blast
  obtain e2 where e2: "Submit (rd_contexts rd) e1 = (True, e2)" "connection k s cap r [] (sub @ [rd_contexts rd]) room e2"
    using connection_submit [OF e1(2)] by blast
  let ?b = "\<lparr>db_bytes = Data (rd_cursor rd), db_capacity = cap\<rparr>"
  obtain e3 where e3: "TransmitRead k ?b a e2 = Inr e3" "connection k s cap r [(?b, a)] (sub @ [rd_contexts rd]) room e3"
    using connection_read [OF e2(2), of ?b a] assms(4) by auto
  have "read_end pack k a rd e = Inr e3"
    using assms(2,3) x e1(1) es e2(1) e3(1) by (simp add: read_end_def PACKET_LENGTH_SIZE_def PACKET_HEADER_SIZE_def Let_def)
  with e3(2) show ?thesis by blast
qed

lemma OnRead_ok:
  assumes "\<forall>pe \<in> set ps. sendable pack unpack pe" "slots \<ge> 1" "length ps \<le> slots \<or> (\<forall>pe \<in> set ps. 12 < length (pack (fst pe)))"
    and "incomplete pack tail" "length (concat (map (frame pack) ps) @ tail) \<le> unat cap" "unat cap < 2147483648"
    and "connection k s cap r [] sub room e" "2 * length ps \<le> r" "2 * length ps \<le> room"
  shows "\<exists>e' r' sub' room'. OnRead pack unpack slots key garbage now_ms k \<lparr>db_bytes = concat (map (frame pack) ps) @ tail, db_capacity = cap\<rparr> a e = Inr e' \<and>
     connection k s cap r' [(\<lparr>db_bytes = tail, db_capacity = cap\<rparr>, a)] sub' room' e' \<and> r \<le> r' + 2 * length ps \<and> room \<le> room' + 2 * length ps \<and>
     map (delivered unpack) (concat sub') = map (delivered unpack) (concat sub) @ map (seen s) ps"
proof -
  let ?b = "\<lparr>db_bytes = concat (map (frame pack) ps) @ tail, db_capacity = cap\<rparr>"
  let ?rd = "\<lparr>rd_cursor = new_cursor ?b, rd_contexts = [], rd_sequence = 0\<rparr>"
  have len: "length (Data (rd_cursor ?rd)) < 2147483648" "length ps \<le> unat cap" "length (rd_contexts ?rd) + length ps \<le> slots \<or> (\<forall>pe \<in> set ps. 12 < length (pack (fst pe)))"
    using assms(3,5,6) frames_length [of ps pack] by auto
  have init: "cursor_ok (rd_cursor ?rd)" "Data (rd_cursor ?rd) = concat (map (frame pack) ps) @ tail" "rd_sequence ?rd = length (rd_contexts ?rd)"
    "length ps \<le> r" "length ps \<le> room" using assms(8,9) by simp_all
  obtain rd1 e1 r1 sub1 room1 where 1: "read_loop pack unpack slots key garbage now_ms k a (unat cap) ?rd e = Inr (Some rd1, e1)"
     "connection k s cap r1 [] sub1 room1 e1" "r \<le> r1 + length ps" "room \<le> room1 + length ps"
     "Data (rd_cursor rd1) = tail" "ps = [] \<longrightarrow> rd1 = ?rd \<and> sub1 = sub" "ps \<noteq> [] \<longrightarrow> rd_contexts rd1 \<noteq> [] \<and> 12 < cur_cursor (rd_cursor rd1)"
     "map (delivered unpack) (concat sub1 @ rd_contexts rd1) = map (delivered unpack) (concat sub @ rd_contexts ?rd) @ map (seen s) ps"
    using read_loop_packets [where rd = ?rd and fuel = "unat cap" and key = key and garbage = garbage and now_ms = now_ms and a = a,
        OF assms(1,2) init(1,2) len(1) init(3) assms(4) len(3) assms(7) init(4,5) len(2)] by blast
  show ?thesis
  proof (cases "ps = []")
    case True
    obtain e2 where e2: "TransmitRead k ?b a e1 = Inr e2" "connection k s cap r1 [(?b, a)] sub1 room1 e2"
      using connection_read [OF 1(2), of ?b a] assms(5) by auto
    have "OnRead pack unpack slots key garbage now_ms k ?b a e = Inr e2"
      using 1(1,6) e2(1) True by (simp add: OnRead_def read_end_def new_cursor_def)
    then show ?thesis using e2(2) 1(3,4,6) True by (intro exI [of _ e2] exI [of _ r1] exI [of _ sub1] exI [of _ room1]) auto
  next
    case False
    have "length ps \<ge> 1" using False by (cases ps) auto
    then obtain r2 room2 where rr: "r1 = Suc r2" "room1 = Suc room2" using 1(3,4) assms(8,9) by (cases r1; cases room1) auto
    obtain e2 where e2: "read_end pack k a rd1 e1 = Inr e2" "connection k s cap r2 [(\<lparr>db_bytes = tail, db_capacity = cap\<rparr>, a)] (sub1 @ [rd_contexts rd1]) room2 e2"
      using read_end_ok [OF 1(2) [unfolded rr], of rd1 pack a] 1(5,7) assms(5) False by auto
    have "OnRead pack unpack slots key garbage now_ms k ?b a e = Inr e2" using 1(1) e2(1) by (simp add: OnRead_def)
    then show ?thesis
      using e2(2) 1(3,4,8) rr \<open>length ps \<ge> 1\<close>
      by (intro exI [of _ e2] exI [of _ r2] exI [of _ "sub1 @ [rd_contexts rd1]"] exI [of _ room2]) auto
  qed
qed

section \<open>Reassembly\<close>

text \<open>Of frames with the given lengths, \<open>n\<close> bytes have arrived: the lengths of the frames that are not complete and the bytes of the first of
  them.\<close>

fun unread :: "nat list \<Rightarrow> nat \<Rightarrow> nat list \<times> nat" where
  "unread [] n = ([], n)"
| "unread (l # ls) n = (if l \<le> n then unread ls (n - l) else (l # ls, n))"

text \<open>The pieces in which the bytes arrive: none is empty, and each fits into the buffer behind what is left there.\<close>

fun chunks_fit :: "nat \<Rightarrow> nat list \<Rightarrow> nat \<Rightarrow> 'a list list \<Rightarrow> bool" where
  "chunks_fit cap ls n [] = True"
| "chunks_fit cap ls n (c # cs) =
    (c \<noteq> [] \<and> n + length c \<le> cap \<and> (case unread ls (n + length c) of (ls', n') \<Rightarrow> chunks_fit cap ls' n' cs))"

lemma append_split:
  assumes "xs @ a = ys @ b" "length ys \<le> length xs"
  shows "xs = ys @ drop (length ys) xs" "drop (length ys) xs @ a = b"
proof -
  have "take (length ys) xs = ys" using arg_cong [OF assms(1), of "take (length ys)"] assms(2) by simp
  then show *: "xs = ys @ drop (length ys) xs" by (metis append_take_drop_id)
  show "drop (length ys) xs @ a = b" using assms(1) * by (metis append.assoc same_append_eq)
qed

lemma split_stream:
  assumes "b @ later = concat (map f ps)"
  obtains ps1 ps2 tail where "ps = ps1 @ ps2" "b = concat (map f ps1) @ tail" "tail @ later = concat (map f ps2)"
    "unread (map (\<lambda>p. length (f p)) ps) (length b) = (map (\<lambda>p. length (f p)) ps2, length tail)"
    "ps2 = [] \<Longrightarrow> tail = []" "\<And>q qs. ps2 = q # qs \<Longrightarrow> length tail < length (f q)"
  using assms
proof (induction ps arbitrary: b thesis)
  case (Cons p ps)
  show ?case
  proof (cases "length (f p) \<le> length b")
    case True
    then have b: "b = f p @ drop (length (f p)) b" "drop (length (f p)) b @ later = concat (map f ps)"
      using append_split [of b later "f p" "concat (map f ps)"] Cons.prems(2) by auto
    show ?thesis
    proof (rule Cons.IH [OF _ b(2)])
      fix ps1 ps2 tail
      assume s: "ps = ps1 @ ps2" "drop (length (f p)) b = concat (map f ps1) @ tail" "tail @ later = concat (map f ps2)"
        "unread (map (\<lambda>p. length (f p)) ps) (length (drop (length (f p)) b)) = (map (\<lambda>p. length (f p)) ps2, length tail)"
        "ps2 = [] \<Longrightarrow> tail = []" "\<And>q qs. ps2 = q # qs \<Longrightarrow> length tail < length (f q)"
      show ?thesis by (rule Cons.prems(1) [of "p # ps1" ps2 tail]) (use s b(1) True in auto)
    qed
  next
    case False
    then show ?thesis using Cons.prems(2) by (intro Cons.prems(1) [of "[]" "p # ps" b]) auto
  qed
qed simp

lemma stream_reassembled_from:
  assumes "\<forall>pe \<in> set ps. sendable pack unpack pe \<and> 12 + length (pack (fst pe)) \<le> unat cap"
    and "slots \<ge> 1" "length ps \<le> slots \<or> (\<forall>pe \<in> set ps. 12 < length (pack (fst pe)))" "unat cap < 2147483648"
    and "pre @ concat chunks = concat (map (frame pack) ps)"
    and "chunks_fit (unat cap) (map (\<lambda>pe. length (frame pack pe)) ps) (length pre) chunks"
    and "connection k s cap r [(\<lparr>db_bytes = pre, db_capacity = cap\<rparr>, a)] sub room e" "2 * length ps \<le> r" "2 * length ps \<le> room"
    and "chunks = [] \<Longrightarrow> ps = []"
  shows "\<exists>e' r' sub' room'. foldr_res (IoRead pack unpack slots key garbage now_ms k) chunks e = Inr e' \<and>
     connection k s cap r' [(\<lparr>db_bytes = [], db_capacity = cap\<rparr>, a)] sub' room' e' \<and>
     map (delivered unpack) (concat sub') = map (delivered unpack) (concat sub) @ map (seen s) ps"
  using assms
proof (induction chunks arbitrary: ps pre r sub room e)
  case Nil
  then show ?case by auto
next
  case (Cons c cs)
  have eq: "(pre @ c) @ concat cs = concat (map (frame pack) ps)" using Cons.prems(5) by simp
  obtain ps1 ps2 tail where s: "ps = ps1 @ ps2" "pre @ c = concat (map (frame pack) ps1) @ tail" "tail @ concat cs = concat (map (frame pack) ps2)"
    "unread (map (\<lambda>pe. length (frame pack pe)) ps) (length (pre @ c)) = (map (\<lambda>pe. length (frame pack pe)) ps2, length tail)"
    "ps2 = [] \<Longrightarrow> tail = []" "\<And>q qs. ps2 = q # qs \<Longrightarrow> length tail < length (frame pack q)"
    using split_stream [OF eq] by metis
  have fit: "c \<noteq> []" "length (pre @ c) \<le> unat cap" "chunks_fit (unat cap) (map (\<lambda>pe. length (frame pack pe)) ps2) (length tail) cs"
    using Cons.prems(6) s(4) by simp_all
  have inc: "incomplete pack tail"
  proof (cases ps2)
    case (Cons q qs)
    have "tail @ drop (length tail) (frame pack q) = frame pack q"
      using append_split(1) [of "frame pack q" "concat (map (frame pack) qs)" tail "concat cs"] s(3) s(6) [OF Cons] Cons by simp
    moreover have "length (pack (fst q)) < 2147483648" using Cons.prems(1,4) s(1) Cons by auto
    ultimately show ?thesis using s(6) [OF Cons] unfolding incomplete_def by (intro disjI2 exI [of _ q] exI conjI) auto
  qed (use s(5) in \<open>simp add: incomplete_def\<close>)
  obtain es x ses where w: "ne_streams e k = Some es" "en_reads es = [(\<lparr>db_bytes = pre, db_capacity = cap\<rparr>, a)]"
    using Cons.prems(7) by (auto simp: connection_def)
  let ?e = "put_stream k (es\<lparr>en_reads := []\<rparr>) e"
  have c0: "connection k s cap r [] sub room ?e" using Cons.prems(7) w(1) by (auto simp: connection_def put_stream_def)
  have p1: "\<forall>pe \<in> set ps1. sendable pack unpack pe" "length ps1 \<le> slots \<or> (\<forall>pe \<in> set ps1. 12 < length (pack (fst pe)))"
    "2 * length ps1 \<le> r" "2 * length ps1 \<le> room"
    using Cons.prems(1,3,8,9) s(1) by auto
  obtain e1 r1 sub1 room1 where 1: "OnRead pack unpack slots key garbage now_ms k \<lparr>db_bytes = pre @ c, db_capacity = cap\<rparr> a ?e = Inr e1"
     "connection k s cap r1 [(\<lparr>db_bytes = tail, db_capacity = cap\<rparr>, a)] sub1 room1 e1" "r \<le> r1 + 2 * length ps1" "room \<le> room1 + 2 * length ps1"
     "map (delivered unpack) (concat sub1) = map (delivered unpack) (concat sub) @ map (seen s) ps1"
    using OnRead_ok [OF p1(1) Cons.prems(2) p1(2) inc _ Cons.prems(4) c0 p1(3,4)] fit(2) unfolding s(2) by blast
  have io: "IoRead pack unpack slots key garbage now_ms k c e = Inr e1" using w fit(1) 1(1) by (simp add: IoRead_def stream_at_def)
  have last: "cs = [] \<Longrightarrow> ps2 = []" using s(3,5,6) by (cases ps2) (auto simp: length_frame frame_def)
  have p2: "\<forall>pe \<in> set ps2. sendable pack unpack pe \<and> 12 + length (pack (fst pe)) \<le> unat cap"
    "length ps2 \<le> slots \<or> (\<forall>pe \<in> set ps2. 12 < length (pack (fst pe)))" "2 * length ps2 \<le> r1" "2 * length ps2 \<le> room1"
    using Cons.prems(1,3,8,9) s(1) 1(3,4) by auto
  obtain e2 r2 sub2 room2 where 2: "foldr_res (IoRead pack unpack slots key garbage now_ms k) cs e1 = Inr e2"
     "connection k s cap r2 [(\<lparr>db_bytes = [], db_capacity = cap\<rparr>, a)] sub2 room2 e2"
     "map (delivered unpack) (concat sub2) = map (delivered unpack) (concat sub1) @ map (seen s) ps2"
    using Cons.IH [OF p2(1) Cons.prems(2) p2(2) Cons.prems(4) s(3) fit(3) 1(2) p2(3,4) last] by blast
  show ?case using io 2 1(5) s(1) by (intro exI [of _ e2] exI [of _ r2] exI [of _ sub2] exI [of _ room2]) simp
qed

text \<open>C1. The engine reassembles packets from any pieces of the byte stream. A peer sends the frames of a list of data packets over a
  connection with an open session, and the bytes arrive in any pieces that fit the read buffer. Then no read fails, and the contexts
  handed to the worker over all reads are the packets, each once, in order, with its error code and session; afterwards the
  connection waits for more with an empty buffer. Needed: every packet has a body and fits a buffer; the worker's queue and the pool
  of read buffers have room; and a read does not complete more packets than a buffer has room for contexts, unless all bodies are
  longer than twelve bytes.\<close>

theorem stream_reassembled:
  assumes "\<forall>pe \<in> set ps. sendable pack unpack pe \<and> 12 + length (pack (fst pe)) \<le> unat cap" and "unat cap < 2147483648"
    and "concat chunks = concat (map (frame pack) ps)" and "chunks_fit (unat cap) (map (\<lambda>pe. length (frame pack pe)) ps) 0 chunks"
    and "slots \<ge> 1" and "length ps \<le> slots \<or> (\<forall>pe \<in> set ps. 12 < length (pack (fst pe)))"
    and "connection k s cap r [(\<lparr>db_bytes = [], db_capacity = cap\<rparr>, a)] sub room e" and "2 * length ps \<le> r" and "2 * length ps \<le> room"
  shows "\<exists>e' r' sub' room'. foldr_res (IoRead pack unpack slots key garbage now_ms k) chunks e = Inr e' \<and>
     connection k s cap r' [(\<lparr>db_bytes = [], db_capacity = cap\<rparr>, a)] sub' room' e' \<and>
     map (delivered unpack) (concat sub') = map (delivered unpack) (concat sub) @ map (seen s) ps"
proof -
  have "chunks = [] \<Longrightarrow> ps = []" using assms(3) by (cases ps) (auto simp: frame_def header_bytes_def bytes_of_Suc numeral_2_eq_2)
  then show ?thesis
    using stream_reassembled_from [where pre = "[]" and chunks = chunks, OF assms(1,5,6,2) _ _ assms(7-9)] assms(3,4) by simp
qed

definition sample_engine :: "nat \<Rightarrow> nat \<Rightarrow> u64 option \<Rightarrow> NetworkEngine" where
  "sample_engine r room session =
    \<lparr>ne_option = \<lparr>socket_idle_timeout_ms = 1000, session_idle_timeout_ms = 1000, session_heartbeat_interval_ms = 100, max_session_count = 4,
       use_session_reconnect = True, session_reconnect_timeout_ms = 1000, worker_update_tick_ms = 10\<rparr>,
     ne_worker_infos = [\<lparr>wi_activated_sockets = [6], wi_opened_sessions = [3], wi_abandoned_sessions = []\<rparr>], ne_pool = [4],
     ne_sessions = [3 \<mapsto> \<lparr>eo_session = \<lparr>ss_state = Opened, ss_initialized = True, ss_ping = 0, ss_heartbeat_receiving = 0,
        ss_heartbeat_sending = 0, ss_abandoned = 0, ss_key = [], ss_user_data = [], ss_session_id = 3\<rparr>, eo_stream = Some 6\<rparr>],
     ne_streams = [6 \<mapsto> \<lparr>en_stream = \<lparr>st_connected = True, st_write_free = 3, st_write_capacity = 100, st_read_free = r, st_ops = []\<rparr>,
        en_worker_index = 0, en_extension = Some \<lparr>xs_session = session, xs_connector_id = 0, xs_connection_created_time = 0, xs_ping_ms = 100,
          xs_stream_type = AcceptorStream\<rparr>, en_read_capacity = 100, en_reads = [(\<lparr>db_bytes = [], db_capacity = 100\<rparr>, 6)]\<rparr>],
     ne_abandoned_session_list = [], ne_connector_list = [], ne_current_connector_id = 1, ne_connects = [], ne_submitted = [],
     ne_queue_room = room\<rparr>"

lemma sample_connection: "connection 6 3 100 r [(\<lparr>db_bytes = [], db_capacity = 100\<rparr>, 6)] [] room (sample_engine r room (Some 3))"
  by (simp add: connection_def sample_engine_def)

theorem stream_reassembled_witness:
  "\<exists>e' r' sub' room'. foldr_res (IoRead (\<lambda>_. [7]) (\<lambda>_ _. Some (P_start_skill_rq 1)) 2 [] \<lparr>sar_session_id = 0, sar_session_key = []\<rparr> 0 6)
       [take 5 (frame (\<lambda>_. [7]) (P_start_skill_rq 1, None')), drop 5 (frame (\<lambda>_. [7]) (P_start_skill_rq 1, None'))]
       (sample_engine 2 2 (Some 3)) = Inr e' \<and>
     connection 6 3 100 r' [(\<lparr>db_bytes = [], db_capacity = 100\<rparr>, 6)] sub' room' e' \<and>
     map (delivered (\<lambda>_ _. Some (P_start_skill_rq 1))) (concat sub') = [(SessionData, Some 3, 0, Some (P_start_skill_rq 1))]"
proof -
  let ?f = "frame (\<lambda>_. [7]) (P_start_skill_rq 1, None')"
  have "?f \<noteq> []" by (simp add: length_frame flip: length_greater_0_conv)
  then have fit: "chunks_fit (unat (100 :: u32)) (map (\<lambda>pe. length (frame (\<lambda>_. [7]) pe)) [(P_start_skill_rq 1, None')]) 0 [take 5 ?f, drop 5 ?f]"
    by (simp add: length_frame)
  have cat: "concat [take 5 ?f, drop 5 ?f] = concat (map (frame (\<lambda>_. [7])) [(P_start_skill_rq 1, None')])" by simp
  have ok: "\<forall>pe \<in> set [(P_start_skill_rq 1, None')]. sendable (\<lambda>_. [7]) (\<lambda>_ _. Some (P_start_skill_rq 1)) pe \<and>
      12 + length ((\<lambda>_. [7 :: u8]) (fst pe)) \<le> unat (100 :: u32)"
    by (simp add: sendable_def data_packet_def)
  show ?thesis
    using stream_reassembled [where slots = 2 and key = "[]" and garbage = "\<lparr>sar_session_id = 0, sar_session_key = []\<rparr>" and now_ms = 0,
        OF ok _ cat fit _ _ sample_connection [of 2 2]]
    by (simp add: seen_def del: foldr_res.simps)
qed

section \<open>Where packets get lost\<close>

text \<open>A read that completes one packet more than the buffer has room for contexts, the last with a body of at most twelve bytes, loses
  that packet and corrupts the stream. The packet is moved to a new buffer, without its header; its cursor there is at most twelve, so
  the buffer is taken for one that holds no packet: its context is not submitted, and the next read is appended behind the old
  body, which is then taken for the length of a packet.\<close>

theorem full_buffer_loses_packet:
  assumes "\<forall>pe \<in> set ps. sendable pack unpack pe" and "sendable pack unpack (q, err)" and "length ps = slots" and "slots \<ge> 1"
    and "length (pack q) \<le> 12" and "length (concat (map (frame pack) ps) @ frame pack (q, err)) \<le> unat cap" and "unat cap < 2147483648"
    and "connection k s cap (Suc r) [] sub (Suc room) e" and "slots \<le> r" and "slots \<le> room"
  shows "\<exists>e' r' sub' room'. OnRead pack unpack slots key garbage now_ms k
       \<lparr>db_bytes = concat (map (frame pack) ps) @ frame pack (q, err), db_capacity = cap\<rparr> a e = Inr e' \<and>
     connection k s cap r' [(\<lparr>db_bytes = pack q, db_capacity = cap\<rparr>, a)] sub' room' e' \<and>
     map (delivered unpack) (concat sub') = map (delivered unpack) (concat sub) @ map (seen s) ps"
proof -
  let ?b = "\<lparr>db_bytes = concat (map (frame pack) ps) @ frame pack (q, err), db_capacity = cap\<rparr>"
  let ?rd = "\<lparr>rd_cursor = new_cursor ?b, rd_contexts = [], rd_sequence = 0\<rparr>"
  have fuel: "Suc (length ps) \<le> unat cap" using assms(6) frames_length [of ps pack] by (simp add: length_frame)
  have start: "cursor_ok (rd_cursor ?rd)" "Data (rd_cursor ?rd) = concat (map (frame pack) ps) @ frame pack (q, err)"
      "length (Data (rd_cursor ?rd)) < 2147483648" "rd_sequence ?rd = length (rd_contexts ?rd)"
      "length (rd_contexts ?rd) + length ps \<le> slots \<or> (\<forall>pe \<in> set ps. 12 < length (pack (fst pe)))"
    using assms(3,6,7) by simp_all
  have rooms: "length ps \<le> Suc r" "length ps \<le> Suc room" "length ps \<le> unat cap" using assms(3,9,10) fuel by simp_all
  obtain rd1 e1 r1 sub1 room1 n where 1: "read_loop pack unpack slots key garbage now_ms k a (unat cap) ?rd e =
       read_loop pack unpack slots key garbage now_ms k a n rd1 e1" "unat cap \<le> n + length ps" "cursor_ok (rd_cursor rd1)"
     "rd_sequence rd1 = length (rd_contexts rd1)"
     "length (rd_contexts ?rd) + length ps \<le> slots \<longrightarrow> length (rd_contexts rd1) = length (rd_contexts ?rd) + length ps \<and> concat sub1 = concat sub"
     "connection k s cap r1 [] sub1 room1 e1" "Suc r \<le> r1 + length ps" "Suc room \<le> room1 + length ps" "Data (rd_cursor rd1) = frame pack (q, err)"
     "map (delivered unpack) (concat sub1 @ rd_contexts rd1) = map (delivered unpack) (concat sub @ rd_contexts ?rd) @ map (seen s) ps"
    using read_loop_run [where tail = "frame pack (q, err)" and key = key and garbage = garbage and now_ms = now_ms and a = a,
        OF assms(1,4) start assms(8) rooms] by blast
  have full: "length (rd_contexts rd1) = slots" using 1(5) assms(3) by simp
  obtain n' where n: "n = Suc n'" using 1(2) fuel by (cases n) auto
  have small: "length (Data (rd_cursor rd1)) < 2147483648" using assms(6,7) by (simp add: 1(9))
  obtain c2 where c2: "cursor_ok c2" "Data c2 = pack q"
    and loop: "read_loop pack unpack slots key garbage now_ms k a n rd1 e1 =
       rbind (read_packet pack unpack slots key garbage now_ms k a (packet_header pack q err) (rd1\<lparr>rd_cursor := c2\<rparr>) e1) (\<lambda>(r, e1).
         case r of None \<Rightarrow> Inr (None, e1) | Some rd1 \<Rightarrow> read_loop pack unpack slots key garbage now_ms k a n' rd1 e1)"
    using read_loop_frame [where rd = rd1 and rest = "[]" and p = q and err = err and pack = pack and unpack = unpack and slots = slots
        and key = key and garbage = garbage and now_ms = now_ms and k = k and attachment = a and n = n' and e = e1, OF 1(3) _ small] 1(9)
    unfolding n by simp blast
  obtain r2 room2 where rr: "r1 = Suc r2" "room1 = Suc room2" using 1(7,8) assms(3,9,10) by (cases r1; cases room1) auto
  obtain e2 where e2: "call_session (Some s) (TryAllocateReadBuffer pack) e1 = Inr (True, e2)" "connection k s cap r2 [] sub1 room1 e2"
    using connection_alloc [OF 1(6) [unfolded rr(1)], of pack] by blast
  obtain es where es: "stream_at k e2 = Inr es" "en_read_capacity es = cap" using connection_stream [OF e2(2)] by blast
  obtain e3 where e3: "Submit (rd_contexts rd1) e2 = (True, e3)" "connection k s cap r2 [] (sub1 @ [rd_contexts rd1]) room2 e3"
    using connection_submit [OF e2(2) [unfolded rr(2)]] by blast
  let ?b2 = "\<lparr>db_bytes = pack q, db_capacity = cap\<rparr>"
  let ?rd2 = "\<lparr>rd_cursor = new_cursor ?b2, rd_contexts = [data_context pack s a (q, err) []], rd_sequence = 1\<rparr>"
  have body: "unat (ph_body_size (packet_header pack q err)) = length (pack q)" using assms(5) by (simp add: packet_header_def u32_of_nat)
  obtain c3 where c3: "Seek (ph_body_size (packet_header pack q err)) (new_cursor ?b2) = Inr c3" "cursor_ok c3" "Data c3 = []"
      "cur_buffer c3 = ?b2" "cur_cursor c3 = int (length (pack q))"
    using Seek_forward [of "new_cursor ?b2" "ph_body_size (packet_header pack q err)"] assms(5) body by (auto simp: new_cursor_start)
  have "read_data pack slots k (Some s) a (packet_header pack q err) (rd1\<lparr>rd_cursor := c2\<rparr>) e1 = Inr (Some (?rd2\<lparr>rd_cursor := c3\<rparr>), e3)"
    using 1(4) full assms(4) e2(1) es e3(1) c2(2) c3(1)
    by (simp add: read_data_def next_buffer_def PrepareSocketContext_def skip_body_def data_context_def)
  then have run: "read_loop pack unpack slots key garbage now_ms k a n rd1 e1 = Inr (Some (?rd2\<lparr>rd_cursor := c3\<rparr>), e3)"
    unfolding loop using read_packet_data [OF 1(6)] assms(2) read_loop_empty [of "?rd2\<lparr>rd_cursor := c3\<rparr>"] c3 by (simp add: sendable_def)
  obtain e4 where e4: "TransmitRead k ?b2 a e3 = Inr e4" "connection k s cap r2 [(?b2, a)] (sub1 @ [rd_contexts rd1]) room2 e4"
    using connection_read [OF e3(2), of ?b2 a] assms(6) by (auto simp: length_frame)
  have "OnRead pack unpack slots key garbage now_ms k ?b a e = Inr e4"
    using 1(1) run e4(1) assms(5) c3 by (simp add: OnRead_def read_end_def PACKET_LENGTH_SIZE_def PACKET_HEADER_SIZE_def)
  then show ?thesis using e4(2) 1(10) by (intro exI [of _ e4] exI [of _ r2] exI [of _ "sub1 @ [rd_contexts rd1]"] exI [of _ room2]) simp
qed

text \<open>C31. A single packet with a body, received on a connection that has no session and not a request that opens one, ends the process:
  behind the loop \<^verbatim>\<open>OnRead\<close> calls \<^verbatim>\<open>TryAllocateReadBuffer\<close> on the session, which is null.\<close>

theorem unauthenticated_packet_crashes:
  assumes "ne_streams e k = Some es" and "en_extension es = Some x" and "xs_session x = None"
    and "PACKET_TYPE p \<notin> {T_session_create_rq, T_session_create_rs, T_session_auth_rq, T_session_auth_rs}"
    and "pack p \<noteq> []" and "12 + length (pack p) \<le> unat cap" and "unat cap < 2147483648"
  shows "OnRead pack unpack slots key garbage now_ms k \<lparr>db_bytes = frame pack (p, err), db_capacity = cap\<rparr> a e = Inl NullDeref"
proof -
  let ?b = "\<lparr>db_bytes = frame pack (p, err), db_capacity = cap\<rparr>"
  let ?rd = "\<lparr>rd_cursor = new_cursor ?b, rd_contexts = [], rd_sequence = 0\<rparr>"
  have ext: "extension_at k e = Inr x" using assms(1,2) by (simp add: extension_at_def stream_at_def)
  obtain n where n: "unat cap = Suc n" using assms(6) by (cases "unat cap") auto
  have small: "length (pack p) < 2147483636" using assms(6,7) by simp
  obtain c2 where c2: "cursor_ok c2" "Data c2 = pack p" "cur_cursor c2 = 12"
    and loop: "read_loop pack unpack slots key garbage now_ms k a (unat cap) ?rd e =
       rbind (read_packet pack unpack slots key garbage now_ms k a (packet_header pack p err) (?rd\<lparr>rd_cursor := c2\<rparr>) e) (\<lambda>(r, e1).
         case r of None \<Rightarrow> Inr (None, e1) | Some rd1 \<Rightarrow> read_loop pack unpack slots key garbage now_ms k a n rd1 e1)"
    using read_loop_frame [where rd = ?rd and rest = "[]" and p = p and err = err and pack = pack and unpack = unpack and slots = slots
        and key = key and garbage = garbage and now_ms = now_ms and k = k and attachment = a and n = n and e = e] small unfolding n
    by (simp add: length_frame new_cursor_start) blast
  have "type_of_value (ph_packet_type (packet_header pack p err)) = Some (PACKET_TYPE p)" by (simp add: packet_header_def)
  then have failed: "ProcessSessionPacket pack unpack slots key garbage now_ms k (packet_header pack p err) c2 e = Inr (SessionError, no_connector, c2, e)"
    using ext assms(4) by (cases "PACKET_TYPE p") (simp_all add: ProcessSessionPacket_def Let_def)
  obtain c3 where c3: "skip_body (packet_header pack p err) (?rd\<lparr>rd_cursor := c2\<rparr>) e = Inr (Some (?rd\<lparr>rd_cursor := c3\<rparr>), e)"
      "cursor_ok c3" "Data c3 = []" "cur_cursor c3 = 12 + int (length (pack p))"
    using skip_body_ok [where rd = "?rd\<lparr>rd_cursor := c2\<rparr>" and pack = pack and p = p and rest = "[]" and err = err and e = e] c2 small by auto
  have "read_loop pack unpack slots key garbage now_ms k a (unat cap) ?rd e = Inr (Some (?rd\<lparr>rd_cursor := c3\<rparr>), e)"
    unfolding loop using ext assms(3) failed c3 read_loop_empty [of "?rd\<lparr>rd_cursor := c3\<rparr>"] by (simp add: read_packet_def read_unauthorized_def)
  moreover have "\<not> cur_cursor c3 \<le> 12" using c3(4) assms(5) by (cases "pack p") auto
  ultimately show ?thesis
    using ext assms(3) by (simp add: OnRead_def read_end_def call_session_def PACKET_LENGTH_SIZE_def PACKET_HEADER_SIZE_def)
qed

theorem unauthenticated_packet_crashes_witness:
  "OnRead (\<lambda>_. [7]) (\<lambda>_ _. None) 2 [] \<lparr>sar_session_id = 0, sar_session_key = []\<rparr> 0 6
     \<lparr>db_bytes = frame (\<lambda>_. [7]) (P_start_skill_rq 1, None'), db_capacity = 100\<rparr> 6 (sample_engine 2 2 None) = Inl NullDeref"
  using unauthenticated_packet_crashes [of "sample_engine 2 2 None" 6 "the (ne_streams (sample_engine 2 2 None) 6)"
      "the (en_extension (the (ne_streams (sample_engine 2 2 None) 6)))" "P_start_skill_rq 1" "\<lambda>_. [7]" 100]
  by (simp add: sample_engine_def)

theorem full_buffer_loses_packet_witness:
  "\<exists>e' r' sub' room'. OnRead (\<lambda>_. [7]) (\<lambda>_ _. Some (P_start_skill_rq 1)) 1 [] \<lparr>sar_session_id = 0, sar_session_key = []\<rparr> 0 6
       \<lparr>db_bytes = frame (\<lambda>_. [7]) (P_start_skill_rq 1, None') @ frame (\<lambda>_. [7]) (P_start_skill_rq 1, None'), db_capacity = 100\<rparr> 6
       (put_stream 6 ((the (ne_streams (sample_engine 2 2 (Some 3)) 6))\<lparr>en_reads := []\<rparr>) (sample_engine 2 2 (Some 3))) = Inr e' \<and>
     connection 6 3 100 r' [(\<lparr>db_bytes = [7], db_capacity = 100\<rparr>, 6)] sub' room' e' \<and>
     map (delivered (\<lambda>_ _. Some (P_start_skill_rq 1))) (concat sub') = [(SessionData, Some 3, 0, Some (P_start_skill_rq 1))]"
proof -
  have "connection 6 3 100 (Suc 1) [] [] (Suc 1) (put_stream 6 ((the (ne_streams (sample_engine 2 2 (Some 3)) 6))\<lparr>en_reads := []\<rparr>) (sample_engine 2 2 (Some 3)))"
    by (simp add: connection_def sample_engine_def put_stream_def)
  from full_buffer_loses_packet [where ps = "[(P_start_skill_rq 1, None')]" and q = "P_start_skill_rq 1" and err = None' and pack = "\<lambda>_. [7]"
      and unpack = "\<lambda>_ _. Some (P_start_skill_rq 1)" and slots = 1 and key = "[]" and garbage = "\<lparr>sar_session_id = 0, sar_session_key = []\<rparr>"
      and now_ms = 0 and a = 6, OF _ _ _ _ _ _ _ this]
  show ?thesis by (simp add: sendable_def data_packet_def seen_def length_frame)
qed

end
