(* ===== verification/EngineSessions.thy ===== *)
theory EngineSessions
  imports Engine
begin

text \<open>
  Who owns a session of the engine. \<open>owns\<close> collects the parts of the engine's state that say so: the session in the extension of
  every stream, the pool, the abandoned sessions and the connectors. Most operations do not touch them (the lemmas in \<open>frame\<close>); for
  the others the invariant \<open>engine_inv\<close> is shown, and with it for every state that the completions, the ticks, the worker and the
  registration of connectors reach (\<open>engine_run\<close>).
\<close>

section \<open>Successful branches\<close>

lemma case_Inr_iff [res_iff]:
  "(case x of None \<Rightarrow> a | Some y \<Rightarrow> g y) = Inr z \<longleftrightarrow> x = None \<and> a = Inr z \<or> (\<exists>y. x = Some y \<and> g y = Inr z)"
  "(case p of (c, d) \<Rightarrow> h c d) = Inr z \<longleftrightarrow> (\<exists>c d. p = (c, d) \<and> h c d = Inr z)"
  "(case q of True \<Rightarrow> v | False \<Rightarrow> w) = Inr z \<longleftrightarrow> q \<and> v = Inr z \<or> \<not> q \<and> w = Inr z"
  "(if q then v else w) = Inr z \<longleftrightarrow> q \<and> v = Inr z \<or> \<not> q \<and> w = Inr z"
  "(case xs of [] \<Rightarrow> a | y # ys \<Rightarrow> l y ys) = Inr z \<longleftrightarrow> xs = [] \<and> a = Inr z \<or> (\<exists>y ys. xs = y # ys \<and> l y ys = Inr z)"
  by (auto split: option.splits bool.splits prod.splits list.splits)

lemma case_packet_Inr:
  "(case q of P_session_create_rs p \<Rightarrow> f p | _ \<Rightarrow> g) = Inr z \<Longrightarrow> (\<exists>p. f p = Inr z) \<or> g = Inr z"
  "(case q of P_session_auth_rq p \<Rightarrow> h p | _ \<Rightarrow> g) = Inr z \<Longrightarrow> (\<exists>p. h p = Inr z) \<or> g = Inr z"
  by (cases q; auto)+

section \<open>Owners\<close>

definition holder :: "NetworkEngine \<Rightarrow> u64 \<Rightarrow> u64 option" where
  "holder e k =
    (case ne_streams e k of None \<Rightarrow> None | Some es \<Rightarrow> (case en_extension es of None \<Rightarrow> None | Some x \<Rightarrow> xs_session x))"

definition owns ::
  "NetworkEngine \<Rightarrow> (u64 \<Rightarrow> u64 option) \<times> u64 list \<times> (u64, u64) umap \<times> (u64, ConnectorInfo) umap" where
  "owns e = (holder e, ne_pool e, ne_abandoned_session_list e, ne_connector_list e)"

definition owners_ok :: "(u64 \<Rightarrow> u64 option) \<times> u64 list \<times> (u64, u64) umap \<times> (u64, ConnectorInfo) umap \<Rightarrow> bool" where
  "owners_ok = (\<lambda>(h, pool, abandoned, connectors).
    (\<forall>k k' s. h k = Some s \<longrightarrow> h k' = Some s \<longrightarrow> k = k') \<and> distinct pool \<and>
    (\<forall>s \<in> set pool. um_find abandoned s = None \<and> (\<forall>k. h k \<noteq> Some s)) \<and>
    (\<forall>s t. um_find abandoned s = Some t \<longrightarrow> t = s \<and> (\<forall>k. h k \<noteq> Some s)) \<and>
    (\<forall>info \<in> snd ` set connectors. ci_session_id info = 0))"

definition engine_inv :: "NetworkEngine \<Rightarrow> bool" where
  "engine_inv e = owners_ok (owns e)"

named_theorems frame \<open>operations that leave the owners of sessions alone\<close>

lemma owns_simps [simp]:
  "owns (e\<lparr>ne_worker_infos := w\<rparr>) = owns e" "owns (e\<lparr>ne_sessions := m\<rparr>) = owns e" "owns (e\<lparr>ne_connects := c\<rparr>) = owns e"
  "owns (e\<lparr>ne_submitted := l\<rparr>) = owns e" "owns (e\<lparr>ne_queue_room := n\<rparr>) = owns e" "owns (e\<lparr>ne_current_connector_id := i\<rparr>) = owns e"
  "owns (put_ses s x e) = owns e" "holder (e\<lparr>ne_abandoned_session_list := l'\<rparr>) = holder e" "holder (e\<lparr>ne_connector_list := l''\<rparr>) = holder e"
  "holder (e\<lparr>ne_pool := p\<rparr>) = holder e"
  by (simp_all add: owns_def holder_def fun_eq_iff put_ses_def)

lemma holder_put_stream:
  "holder (put_stream k es e) = (holder e)(k := (case en_extension es of None \<Rightarrow> None | Some x \<Rightarrow> xs_session x))"
  by (simp add: holder_def put_stream_def fun_eq_iff)

lemma owns_put_stream:
  "ne_streams e k = Some es \<Longrightarrow> en_extension es' = en_extension es \<Longrightarrow> owns (put_stream k es' e) = owns e"
  by (simp add: owns_def holder_put_stream fun_eq_iff) (simp add: holder_def put_stream_def)

lemma stream_at_Inr [res_iff]: "stream_at k e = Inr es \<longleftrightarrow> ne_streams e k = Some es"
  by (simp add: stream_at_def split: option.split)

lemma on_stream_frame:
  "on_stream k f e = Inr e' \<Longrightarrow> (\<And>es. en_extension (f es) = en_extension es) \<Longrightarrow> owns e' = owns e"
  by (auto simp: on_stream_def res_iff owns_put_stream)

lemma on_worker_frame [frame]:
  "on_worker i f e = Inr e' \<Longrightarrow> owns e' = owns e" "on_worker_of k f e = Inr e' \<Longrightarrow> owns e' = owns e"
  by (auto simp: on_worker_def on_worker_of_def res_iff)

lemma on_session_frame [frame]:
  "on_session s g e = Inr e' \<Longrightarrow> owns e' = owns e" "on_session_data s d e = Inr e' \<Longrightarrow> owns e' = owns e"
  "change_state s a b e = Inr (r, e') \<Longrightarrow> owns e' = owns e"
  by (auto simp: on_session_def on_session_data_def change_state_def res_iff)

lemma put_socket_session_frame: "owns (put_socket_session s ss e) = owns e"
  by (auto simp: put_socket_session_def Let_def owns_put_stream split: option.split)

lemma call_session_frame [frame]:
  "call_session p f e = Inr (r, e') \<Longrightarrow> owns e' = owns e" "session_do p g e = Inr e' \<Longrightarrow> owns e' = owns e"
  by (auto simp: session_do_def call_session_def res_iff put_socket_session_frame)

lemma stream_ops_frame [frame]:
  "release_read k e = Inr e' \<Longrightarrow> owns e' = owns e" "TransmitRead k b a e = Inr e' \<Longrightarrow> owns e' = owns e"
  "transmit_disconnect k a e = Inr e' \<Longrightarrow> owns e' = owns e" "OnWrite w k e = Inr e' \<Longrightarrow> owns e' = owns e"
  by (auto simp: release_read_def TransmitRead_def transmit_disconnect_def OnWrite_def res_iff elim!: on_stream_frame)

lemma must_allocate_read_frame [frame]: "must_allocate_read k e = Inr (h, e') \<Longrightarrow> owns e' = owns e"
  by (auto simp: must_allocate_read_def Let_def res_iff owns_put_stream)

lemma transmit_packet_frame [frame]: "transmit_packet pack must k p err e = Inr e' \<Longrightarrow> owns e' = owns e"
  by (auto simp: transmit_packet_def res_iff owns_put_stream)

lemma answer_in_place_frame [frame]: "answer_in_place pack k p c e = Inr (c', e') \<Longrightarrow> owns e' = owns e"
  by (auto simp: answer_in_place_def res_iff owns_put_stream)

lemma start_reading_frame [frame]: "start_reading k e = Inr e' \<Longrightarrow> owns e' = owns e"
  by (auto simp: start_reading_def Let_def res_iff owns_put_stream dest!: frame)

lemma Submit_frame [frame]: "Submit chain e = (b, e') \<Longrightarrow> owns e' = owns e"
  by (auto simp: Submit_def split: if_splits)

lemma SendSocketContext_frame [frame]: "SendSocketContext pack slots heap d t h p a e = Inr e' \<Longrightarrow> owns e' = owns e"
  by (auto simp: SendSocketContext_def res_iff dest!: frame)

lemma session_opened_frame [frame]: "session_opened now k s e = Inr e' \<Longrightarrow> owns e' = owns e"
  by (auto simp: session_opened_def res_iff dest!: frame)

section \<open>Reading keeps the owners\<close>

lemma stop_reading_frame [frame]: "stop_reading pack k p e = Inr (r, e') \<Longrightarrow> owns e' = owns e"
  by (auto simp: stop_reading_def res_iff dest!: frame)

lemma skip_body_frame [frame]: "skip_body h rd e = Inr (r, e') \<Longrightarrow> owns e' = owns e"
  by (auto simp: skip_body_def res_iff)

lemma next_buffer_frame [frame]: "next_buffer pack k p rd e = Inr (r, e') \<Longrightarrow> owns e' = owns e"
  by (auto simp: next_buffer_def res_iff dest!: frame)

lemma read_data_frame [frame]: "read_data pack slots k p a h rd e = Inr (r, e') \<Longrightarrow> owns e' = owns e"
  by (auto simp: read_data_def res_iff dest!: frame)

lemma read_end_frame [frame]: "read_end pack k a rd e = Inr e' \<Longrightarrow> owns e' = owns e"
  by (auto simp: read_end_def Let_def res_iff dest!: frame)

lemma tick_socket_frame [frame]: "tick_socket pack now k e = Inr e' \<Longrightarrow> owns e' = owns e"
  by (auto simp: tick_socket_def res_iff dest!: frame)

lemma tick_opened_frame [frame]: "tick_opened pack now ss e = Inr (d, e') \<Longrightarrow> owns e' = owns e"
  by (induction ss arbitrary: e d) (fastforce simp: res_iff dest!: frame)+

lemma Context_Release_frame [frame]: "Context_Release b cx e = Inr e' \<Longrightarrow> owns e' = owns e"
  by (auto simp: Context_Release_def res_iff dest!: frame)

lemma handle_context_frame [frame]: "handle_context wh cx (s, e) = Inr (s', e') \<Longrightarrow> owns e' = owns e"
  by (auto simp: handle_context_def res_iff split: ContextType.splits dest!: frame)

lemma process_chain_frame [frame]: "process_chain wh chain (s, e) = Inr (s', e') \<Longrightarrow> owns e' = owns e"
  by (induction chain arbitrary: s e) (fastforce simp: res_iff dest!: frame)+

lemma UpdateContext_frame [frame]:
  assumes "UpdateContext wh s e = Inr (s', e')"
  shows "owns e' = owns e"
proof -
  have "owns (snd (s', e')) = owns e"
    using assms unfolding UpdateContext_def
    by (rule foldr_res_invariant [where P = "\<lambda>se. owns (snd se) = owns e"]) (auto dest!: frame)
  then show ?thesis by simp
qed

section \<open>Operations that change the owners\<close>

lemma set_session_owns:
  assumes "set_session k p e = Inr e'"
  shows "owns e' = ((holder e)(k := p), ne_pool e, ne_abandoned_session_list e, ne_connector_list e)"
  using assms by (auto simp: set_session_def on_extension_def on_stream_def res_iff owns_def holder_put_stream) (simp_all add: put_stream_def)

lemma engine_inv_owns: "owns e' = owns e \<Longrightarrow> engine_inv e' = engine_inv e"
  by (simp add: engine_inv_def)

lemma owners_ok_take:
  assumes "owners_ok (h, s # pool, ab, cs)"
  shows "owners_ok (h(k := Some s), pool, ab, cs)"
  using assms by (auto simp: owners_ok_def)

lemma owners_ok_drop: "owners_ok (h, pool, ab, cs) \<Longrightarrow> owners_ok (h(k := None), pool, ab, cs)"
  by (auto simp: owners_ok_def)

lemma owners_ok_resume:
  assumes "owners_ok (h, pool, ab, cs)" "um_find ab s = Some s"
  shows "owners_ok (h(k := Some s), pool, um_erase s ab, cs)"
  using assms by (auto simp: owners_ok_def)

lemma owners_ok_forget: "owners_ok (h, pool, ab, cs) \<Longrightarrow> owners_ok (h, pool, um_erase s ab, cs)"
  by (auto simp: owners_ok_def)

lemma owners_ok_abandon:
  assumes "owners_ok (h, pool, ab, cs)" "h k = Some s"
  shows "owners_ok (h(k := None), pool, um_set s s ab, cs)"
  using assms by (auto simp: owners_ok_def)

lemma owners_ok_connectors:
  assumes "owners_ok (h, pool, ab, cs)" "\<forall>info \<in> snd ` set cs'. ci_session_id info = 0"
  shows "owners_ok (h, pool, ab, cs')"
  using assms unfolding owners_ok_def prod.case by (elim conjE) (intro conjI; assumption)

lemma open_session_inv:
  assumes "open_session k key e = Inr (r, e')" "engine_inv e"
  shows "engine_inv e'"
proof (cases "ne_pool e")
  case Nil
  then obtain "owns e' = ((holder e)(k := None), ne_pool e, ne_abandoned_session_list e, ne_connector_list e)"
    using assms(1) by (auto simp: open_session_def res_iff dest!: set_session_owns)
  then show ?thesis using assms(2) by (simp add: engine_inv_def owns_def [of e] owners_ok_drop)
next
  case (Cons s pool)
  then obtain "owns e' = ((holder e)(k := Some s), pool, ne_abandoned_session_list e, ne_connector_list e)"
    using assms(1) by (auto simp: open_session_def res_iff dest!: set_session_owns frame)
  then show ?thesis using assms(2) Cons owners_ok_take by (simp add: engine_inv_def owns_def [of e])
qed

lemma remove_abandoned_owns:
  assumes "remove_abandoned i f e = (r, e')"
  shows "owns e' = (holder e, ne_pool e, if r = None then ne_abandoned_session_list e else um_erase i (ne_abandoned_session_list e), ne_connector_list e)"
    and "r = Some s \<Longrightarrow> um_find (ne_abandoned_session_list e) i = Some s"
  using assms by (auto simp: remove_abandoned_def cm_RemoveIf_def owns_def holder_def fun_eq_iff put_ses_def split: option.splits prod.splits bool.splits)

lemma resume_inv:
  assumes "remove_abandoned i f e = (Some s, e1)" "resume_session k s e1 = Inr e2" "engine_inv e"
  shows "engine_inv e2"
proof -
  have "um_find (ne_abandoned_session_list e) i = Some s" using remove_abandoned_owns(2) [OF assms(1)] by simp
  moreover from this have "i = s" using assms(3) by (auto simp: engine_inv_def owners_ok_def owns_def)
  moreover have "owns e1 = (holder e, ne_pool e, um_erase i (ne_abandoned_session_list e), ne_connector_list e)"
    using remove_abandoned_owns(1) [OF assms(1)] by simp
  moreover from assms(2) have "owns e2 = ((holder e1)(k := Some s), ne_pool e1, ne_abandoned_session_list e1, ne_connector_list e1)"
    by (auto simp: resume_session_def res_iff dest!: set_session_owns frame)
  ultimately show ?thesis using assms(3) by (simp add: engine_inv_def owns_def owners_ok_resume)
qed

lemma resumed_inv:
  assumes "remove_abandoned i f e = (r, e1)" "engine_inv e"
  shows "engine_inv e1"
  using remove_abandoned_owns(1) [OF assms(1)] assms(2) by (simp add: engine_inv_def owns_def [of e] owners_ok_forget)

lemma frame_inv: "owns e' = owns e \<Longrightarrow> engine_inv e \<Longrightarrow> engine_inv e'"
  by (simp add: engine_inv_def)

lemma on_create_rq_inv: "on_create_rq pack key now_ms k c e = Inr (t, i, c', e') \<Longrightarrow> engine_inv e \<Longrightarrow> engine_inv e'"
  by (auto simp: on_create_rq_def res_iff dest!: open_session_inv frame intro: frame_inv)

lemma on_create_rs_inv: "on_create_rs now_ms k p c e = Inr (t, i, c', e') \<Longrightarrow> engine_inv e \<Longrightarrow> engine_inv e'"
  by (auto simp: on_create_rs_def Let_def res_iff dest!: open_session_inv frame intro: frame_inv)

lemma on_auth_rq_inv: "on_auth_rq pack garbage now_ms k p c e = Inr (t, i, c', e') \<Longrightarrow> engine_inv e \<Longrightarrow> engine_inv e'"
  unfolding on_auth_rq_def Let_def
  by (auto simp: res_iff split: prod.splits dest: resume_inv resumed_inv dest!: transmit_packet_frame session_opened_frame intro: frame_inv)

lemma ask_new_session_frame [frame]: "ask_new_session pack k i c e = Inr (t, i', c', e') \<Longrightarrow> owns e' = owns e"
  by (auto simp: ask_new_session_def res_iff dest!: frame)

lemma claimed_inv: "cm_Remove i (ne_abandoned_session_list e) = (r, l) \<Longrightarrow> engine_inv e \<Longrightarrow> engine_inv (e\<lparr>ne_abandoned_session_list := l\<rparr>)"
  by (auto simp: cm_Remove_def engine_inv_def owns_def owners_ok_forget split: option.splits)

lemma set_session_None_inv: "set_session k None e = Inr e' \<Longrightarrow> engine_inv e \<Longrightarrow> engine_inv e'"
  by (drule set_session_owns) (simp add: engine_inv_def owns_def [of e] owners_ok_drop)

lemma on_auth_rs_inv: "on_auth_rs pack slots now_ms k h c e = Inr (t, i, c', e') \<Longrightarrow> engine_inv e \<Longrightarrow> engine_inv e'"
  unfolding on_auth_rs_def Let_def
  by (auto simp: res_iff dest: resume_inv resumed_inv claimed_inv set_session_None_inv
      dest!: answer_in_place_frame session_opened_frame ask_new_session_frame SendSocketContext_frame intro: frame_inv)

lemma ProcessSessionPacket_inv:
  assumes "ProcessSessionPacket pack unpack slots key garbage now_ms k h c e = Inr (t, i, c', e')" "engine_inv e"
  shows "engine_inv e'"
proof (cases "type_of_value (ph_packet_type h)")
  case None
  then show ?thesis using assms by (auto simp: ProcessSessionPacket_def Let_def res_iff)
next
  case (Some p)
  then show ?thesis using assms
    by (cases p) (auto simp: ProcessSessionPacket_def Let_def res_iff dest!: case_packet_Inr
        dest: on_create_rq_inv on_create_rs_inv on_auth_rq_inv on_auth_rs_inv)
qed

lemma read_unauthorized_inv:
  assumes "read_unauthorized pack unpack slots key garbage now_ms k h rd e = Inr (r, e')" "engine_inv e"
  shows "engine_inv e'"
  using assms unfolding read_unauthorized_def
  by (auto simp: res_iff dest: ProcessSessionPacket_inv dest!: frame intro: frame_inv)

lemma read_packet_inv:
  assumes "read_packet pack unpack slots key garbage now_ms k a h rd e = Inr (r, e')" "engine_inv e"
  shows "engine_inv e'"
proof -
  obtain x where x: "extension_at k e = Inr x" using assms(1) by (auto simp: read_packet_def res_iff)
  show ?thesis
  proof (cases "xs_session x")
    case None
    then show ?thesis using assms x read_unauthorized_inv by (simp add: read_packet_def)
  next
    case (Some s)
    then have "owns e' = owns e" using assms(1) x
      by (cases "type_of_value (ph_packet_type h)"; cases "the (type_of_value (ph_packet_type h))")
        (auto simp: read_packet_def res_iff dest!: frame)
    then show ?thesis using assms(2) by (rule frame_inv)
  qed
qed

lemma read_loop_inv:
  assumes "read_loop pack unpack slots key garbage now_ms k a n rd e = Inr (r, e')" "engine_inv e"
  shows "engine_inv e'"
  using assms
proof (induction n arbitrary: rd e)
  case 0
  then show ?case by (auto simp: read_loop.simps [of _ _ _ _ _ _ _ _ 0] Let_def split: if_splits)
next
  case (Suc n)
  from Suc.prems(1) [unfolded read_loop.simps [of _ _ _ _ _ _ _ _ "Suc n"]]
  have "e' = e \<or> owns e' = owns e \<or> (\<exists>h c2 r1 e1. read_packet pack unpack slots key garbage now_ms k a h (rd\<lparr>rd_cursor := c2\<rparr>) e = Inr (r1, e1) \<and>
      (e1 = e' \<or> (\<exists>rd1. read_loop pack unpack slots key garbage now_ms k a n rd1 e1 = Inr (r, e'))))"
    by (auto simp: Let_def res_iff dest!: frame)
  then show ?case using Suc.IH Suc.prems(2) by (auto dest: read_packet_inv frame_inv)
qed

lemma OnRead_inv:
  "OnRead pack unpack slots key garbage now_ms k b a e = Inr e' \<Longrightarrow> engine_inv e \<Longrightarrow> engine_inv e'"
  by (auto simp: OnRead_def res_iff dest: read_loop_inv dest!: frame intro: frame_inv)

lemma IoRead_inv:
  "IoRead pack unpack slots key garbage now_ms k d e = Inr e' \<Longrightarrow> engine_inv e \<Longrightarrow> engine_inv e'"
  by (auto simp: IoRead_def Let_def res_iff owns_put_stream dest!: frame intro: frame_inv elim!: OnRead_inv)

lemma owns_put_extension:
  assumes "engine_inv e" "en_extension es = None \<or> (\<exists>x. en_extension es = Some x \<and> xs_session x = None)"
  shows "engine_inv (put_stream k es e)"
proof -
  have "holder (put_stream k es e) = (holder e)(k := None)" using assms(2) by (auto simp: holder_put_stream)
  then show ?thesis using assms(1) by (simp add: engine_inv_def owns_def owners_ok_drop) (simp add: put_stream_def owners_ok_drop)
qed

lemma OnAccept_inv:
  assumes "OnAccept now k e = Inr e'" "engine_inv e"
  shows "engine_inv e'"
proof -
  obtain e1 es es' where "owns e1 = owns e" "owns e' = owns (put_stream k es' e1)"
      and "\<exists>x. en_extension es' = Some x \<and> xs_session x = None"
    using assms(1) unfolding OnAccept_def by (fastforce simp: res_iff dest!: frame)
  then show ?thesis using assms(2) frame_inv owns_put_extension by metis
qed

section \<open>Connectors and disconnects\<close>

lemma connector_fresh:
  assumes "engine_inv e" "cm_TryGet c (ne_connector_list e) = Some info"
  shows "ci_session_id info = 0"
proof -
  have "info \<in> snd ` set (ne_connector_list e)" using assms(2) by (force simp: cm_TryGet_def dest: map_of_SomeD)
  then show ?thesis using assms(1) by (auto simp: engine_inv_def owners_ok_def owns_def)
qed

lemma connectors_inv:
  assumes "engine_inv e" "\<forall>info \<in> snd ` set cs. ci_session_id info = 0"
  shows "engine_inv (e\<lparr>ne_connector_list := cs\<rparr>)"
  using assms owners_ok_connectors by (simp add: engine_inv_def owns_def)

lemma connector_insert_inv:
  assumes "engine_inv e" "ci_session_id info = 0"
  shows "engine_inv (e\<lparr>ne_connector_list := um_set c info (ne_connector_list e)\<rparr>)"
proof (rule connectors_inv [OF assms(1)])
  have "\<forall>i \<in> snd ` set (ne_connector_list e). ci_session_id i = 0" using assms(1) by (simp add: engine_inv_def owners_ok_def owns_def)
  then show "\<forall>i \<in> snd ` set (um_set c info (ne_connector_list e)). ci_session_id i = 0"
    using assms(2) by (fastforce dest!: um_set_subset)
qed

lemma connector_remove_inv:
  assumes "engine_inv e"
  shows "engine_inv (e\<lparr>ne_connector_list := um_erase c (ne_connector_list e)\<rparr>)"
proof (rule connectors_inv [OF assms])
  show "\<forall>i \<in> snd ` set (um_erase c (ne_connector_list e)). ci_session_id i = 0"
    using assms by (auto simp: engine_inv_def owners_ok_def owns_def AList.delete_eq)
qed

lemma on_extension_drop_inv:
  assumes "on_extension k f e = Inr e'" "\<And>x. xs_session (f x) = None" "engine_inv e"
  shows "engine_inv e'"
  using assms by (auto simp: on_extension_def on_stream_def res_iff intro!: owns_put_extension)

lemma owns_extend:
  assumes "ne_streams e k = Some es"
  shows "owns (put_stream k (es\<lparr>en_extension := Some (extension_of es)\<rparr>) e) = owns e"
  using assms by (cases "en_extension es") (auto simp: owns_def holder_put_stream fun_eq_iff holder_def put_stream_def extension_of_def)

lemma OnConnect_inv:
  assumes "OnConnect pack now stream a e = Inr e'" "engine_inv e"
  shows "engine_inv e'"
proof (cases stream)
  case None
  then show ?thesis using assms by (auto simp: OnConnect_def res_iff intro: frame_inv)
next
  case (Some k)
  let ?f = "\<lambda>x. x\<lparr>xs_session := None, xs_stream_type := ConnectorStream, xs_connector_id := a, xs_connection_created_time := now, xs_ping_ms := 100\<rparr>"
  let ?connect = "\<lambda>info e2. e2\<lparr>ne_connector_list := um_set (ci_connector_id info) (info\<lparr>ci_stream := Some k\<rparr>) (ne_connector_list e2)\<rparr>"
  obtain e1 es where 1: "owns e1 = owns e" "ne_streams e1 k = Some es"
    and run: "owns e' = owns (put_stream k (es\<lparr>en_extension := Some (extension_of es)\<rparr>) e1) \<or>
      (\<exists>info e3. cm_TryGet a (ne_connector_list e) = Some info \<and> owns e' = owns e3 \<and>
         on_extension k ?f (?connect info (put_stream k (es\<lparr>en_extension := Some (extension_of es)\<rparr>) e1)) = Inr e3)"
    using assms(1) Some by (simp add: OnConnect_def Let_def cm_Insert_def res_iff) (auto dest!: frame)
  define e2 where "e2 = put_stream k (es\<lparr>en_extension := Some (extension_of es)\<rparr>) e1"
  have inv2: "engine_inv e2" using frame_inv [OF _ assms(2)] owns_extend [OF 1(2)] 1(1) by (simp add: e2_def)
  from run [folded e2_def] show ?thesis
  proof (elim disjE exE conjE)
    assume "owns e' = owns e2"
    then show ?thesis using inv2 by (rule frame_inv)
  next
    fix info e3
    assume i: "cm_TryGet a (ne_connector_list e) = Some info" "owns e' = owns e3" "on_extension k ?f (?connect info e2) = Inr e3"
    have "engine_inv e3"
      by (rule on_extension_drop_inv [OF i(3)]) (use connector_insert_inv [OF inv2] connector_fresh [OF assms(2) i(1)] in simp_all)
    then show ?thesis by (rule frame_inv [OF i(2)])
  qed
qed

text \<open>A disconnect moves the session from the stream to the list of abandoned sessions or drops it.\<close>

lemma extension_holder: "extension_at k e = Inr x \<Longrightarrow> holder e k = xs_session x"
  by (auto simp: extension_at_def res_iff holder_def)

lemma on_extension_None_owns:
  assumes "on_extension k (\<lambda>x. x\<lparr>xs_connector_id := c, xs_session := None\<rparr>) e = Inr e'"
  shows "owns e' = ((holder e)(k := None), ne_pool e, ne_abandoned_session_list e, ne_connector_list e)"
  using assms by (auto simp: on_extension_def on_stream_def res_iff owns_def holder_put_stream) (simp_all add: put_stream_def)

lemma reconnect_inv:
  assumes "engine_inv e" "cm_TryGet c (ne_connector_list e) = Some info"
  shows "engine_inv (e\<lparr>ne_connector_list := snd (cm_Process c (\<lambda>i. i\<lparr>ci_stream := None\<rparr>) (ne_connector_list e)), ne_connects := cs\<rparr>)"
proof -
  have "engine_inv (e\<lparr>ne_connector_list := um_set c (info\<lparr>ci_stream := None\<rparr>) (ne_connector_list e)\<rparr>)"
    by (rule connector_insert_inv [OF assms(1)]) (use connector_fresh [OF assms] in simp)
  then show ?thesis using assms(2) by (simp add: cm_Process_def cm_TryGet_def engine_inv_def)
qed

lemma reconnect_connector_inv: "engine_inv e \<Longrightarrow> engine_inv (reconnect_connector x e)"
  by (auto simp: reconnect_connector_def reconnect_inv split: option.split)

lemma holder_reconnect: "holder (reconnect_connector x e) = holder e"
  by (simp add: reconnect_connector_def holder_def fun_eq_iff split: option.split)

lemma lose_session_inv:
  assumes "lose_session pack slots k a s e = Inr e'" "engine_inv e" "holder e k = Some s"
  shows "engine_inv e'"
proof -
  obtain e1 e2 where e1: "owns e1 = owns e \<or> owns e1 = (holder e, ne_pool e, um_set s s (ne_abandoned_session_list e), ne_connector_list e)"
    and e2: "owns e2 = owns e1" "on_extension k (\<lambda>x. x\<lparr>xs_connector_id := 0, xs_session := None\<rparr>) e2 = Inr e'"
  proof -
    obtain t e1 where 1: "abandon_session k a s e = Inr (t, e1)"
      and 2: "rbind (must_allocate_read k e1) (\<lambda>(heap, e4).
        rbind (on_worker_of k (\<lambda>w. w\<lparr>wi_opened_sessions := removeAll s (wi_opened_sessions w)\<rparr>) e4) (\<lambda>e5.
        rbind (SendSocketContext pack slots heap [] t no_header (Some s) 0 e5) (\<lambda>e6.
        on_extension k (\<lambda>x. x\<lparr>xs_connector_id := 0, xs_session := None\<rparr>) e6))) = Inr e'"
      using assms(1) by (auto simp: lose_session_def res_iff)
    have "owns e1 = owns e \<or> owns e1 = (holder e, ne_pool e, um_set s s (ne_abandoned_session_list e), ne_connector_list e)"
    proof -
      have "owns (e3\<lparr>ne_abandoned_session_list := um_set s s (ne_abandoned_session_list e3)\<rparr>) =
          (holder e, ne_pool e, um_set s s (ne_abandoned_session_list e), ne_connector_list e)" if "owns e3 = owns e" for e3
        using that by (simp add: owns_def)
      then show ?thesis using 1 by (auto simp: abandon_session_def cm_Insert_def res_iff dest!: frame)
    qed
    moreover from 2 obtain e2 where "owns e2 = owns e1" "on_extension k (\<lambda>x. x\<lparr>xs_connector_id := 0, xs_session := None\<rparr>) e2 = Inr e'"
      by (auto simp: res_iff dest!: must_allocate_read_frame on_worker_frame SendSocketContext_frame)
    ultimately show ?thesis using that by blast
  qed
  have "owns e' = ((holder e2)(k := None), ne_pool e2, ne_abandoned_session_list e2, ne_connector_list e2)"
    using on_extension_None_owns [OF e2(2)] .
  then show ?thesis using e1 e2(1) assms(2,3) owners_ok_drop owners_ok_abandon [of "holder e"] by (auto simp: engine_inv_def owns_def)
qed

lemma OnDisconnect_inv:
  assumes "OnDisconnect pack slots k a e = Inr e'" "engine_inv e"
  shows "engine_inv e'"
proof -
  obtain x e1 where x: "extension_at k e = Inr x" and e1: "owns e1 = owns e"
    and run: "xs_session x = None \<and> e' = reconnect_connector x e1 \<or>
      (\<exists>s. xs_session x = Some s \<and> lose_session pack slots k a s (reconnect_connector x e1) = Inr e')"
    using assms(1) by (auto simp: OnDisconnect_def Let_def res_iff dest!: on_worker_frame)
  have "engine_inv (reconnect_connector x e1)" by (rule reconnect_connector_inv [OF frame_inv [OF e1 assms(2)]])
  moreover have "holder (reconnect_connector x e1) k = xs_session x" using e1 extension_holder [OF x] by (simp add: holder_reconnect owns_def)
  ultimately show ?thesis using run lose_session_inv by auto
qed

section \<open>Ticks\<close>

lemma tick_abandoned_inv:
  "tick_abandoned pack slots now ss e = Inr (d, e') \<Longrightarrow> engine_inv e \<Longrightarrow> engine_inv e'"
proof (induction ss arbitrary: e d)
  case (Cons s ss)
  from Cons.prems(1) consider d' where "tick_abandoned pack slots now ss e = Inr (d', e')"
    | r where "remove_abandoned s (try_resume Closed) e = (r, e')"
    | r e1 e2 d' where "remove_abandoned s (try_resume Closed) e = (r, e1)" "owns e2 = owns e1" "tick_abandoned pack slots now ss e2 = Inr (d', e')"
    by (auto simp: res_iff dest!: must_allocate_read_frame SendSocketContext_frame)
  then show ?case
  proof cases
    case (3 r e1 e2 d')
    then show ?thesis using Cons.IH Cons.prems(2) resumed_inv frame_inv by blast
  qed (use Cons.IH Cons.prems(2) resumed_inv in blast)+
qed simp

lemma OnTick_inv:
  assumes "OnTick pack slots now i e = Inr e'" "engine_inv e"
  shows "engine_inv e'"
proof -
  obtain e1 e2 e3 e4 closed gone where sockets: "foldr_res (tick_socket pack now) (wi_activated_sockets (ne_worker_infos e ! i)) e = Inr e1"
    and rest: "owns e2 = owns e1" "owns e3 = owns e2" "tick_abandoned pack slots now gone e3 = Inr (closed, e4)" "owns e' = owns e4"
    using assms(1) by (auto simp: OnTick_def res_iff dest!: tick_opened_frame on_worker_frame)
  have "engine_inv e1"
    by (rule foldr_res_invariant [where P = engine_inv, OF sockets assms(2)]) (auto dest!: frame intro: frame_inv)
  then show ?thesis using rest tick_abandoned_inv frame_inv by metis
qed

section \<open>Runs of the engine\<close>

text \<open>What may happen to an engine after \<^verbatim>\<open>Initialize\<close>: connectors are registered and removed, operations of the socket server complete,
  workers tick, the socket server works on its streams, the game worker handles its contexts and calls its sessions, and a session that nobody refers to returns to
  the pool, with whatever contents it has by then.\<close>

inductive engine_step ::
  "(Packet \<Rightarrow> u8 list) \<Rightarrow> (PacketType \<Rightarrow> u8 list \<Rightarrow> Packet option) \<Rightarrow> nat \<Rightarrow> 's worker_handlers \<Rightarrow> NetworkEngine \<Rightarrow> NetworkEngine \<Rightarrow> bool"
  for pack unpack slots wh where
  register: "engine_step pack unpack slots wh e (snd (Engine_RegisterConnectorSocket address attachment e))"
| unregister: "Engine_UnregisterConnectorSocket c e = Inr e' \<Longrightarrow> engine_step pack unpack slots wh e e'"
| accept: "OnAccept now k e = Inr e' \<Longrightarrow> engine_step pack unpack slots wh e e'"
| connect: "OnConnect pack now stream attachment e = Inr e' \<Longrightarrow> engine_step pack unpack slots wh e e'"
| read: "IoRead pack unpack slots key garbage now k transferred e = Inr e' \<Longrightarrow> engine_step pack unpack slots wh e e'"
| written: "OnWrite buffer k e = Inr e' \<Longrightarrow> engine_step pack unpack slots wh e e'"
| disconnect: "OnDisconnect pack slots k attachment e = Inr e' \<Longrightarrow> engine_step pack unpack slots wh e e'"
| tick: "OnTick pack slots now i e = Inr e' \<Longrightarrow> engine_step pack unpack slots wh e e'"
| update: "UpdateContext wh s e = Inr (s', e') \<Longrightarrow> engine_step pack unpack slots wh e e'"
| call: "session_do (Some s) f e = Inr e' \<Longrightarrow> engine_step pack unpack slots wh e e'"
| stream: "on_stream k (\<lambda>es. es\<lparr>en_stream := change (en_stream es)\<rparr>) e = Inr e' \<Longrightarrow> engine_step pack unpack slots wh e e'"
| returned: "(\<And>k. holder e k \<noteq> Some s) \<Longrightarrow> um_find (ne_abandoned_session_list e) s = None \<Longrightarrow> s \<notin> set (ne_pool e) \<Longrightarrow>
    engine_step pack unpack slots wh e (put_ses s contents (e\<lparr>ne_pool := s # ne_pool e\<rparr>))"

inductive engine_run ::
  "(Packet \<Rightarrow> u8 list) \<Rightarrow> (PacketType \<Rightarrow> u8 list \<Rightarrow> Packet option) \<Rightarrow> nat \<Rightarrow> 's worker_handlers \<Rightarrow> NetworkEngine \<Rightarrow> bool"
  for pack unpack slots wh where
  init: "(\<And>k es. streams k = Some es \<Longrightarrow> en_extension es = None) \<Longrightarrow>
    engine_run pack unpack slots wh (Engine_Initialize option config room keys streams)"
| step: "engine_run pack unpack slots wh e \<Longrightarrow> engine_step pack unpack slots wh e e' \<Longrightarrow> engine_run pack unpack slots wh e'"

lemma Initialize_inv:
  assumes "\<And>k es. streams k = Some es \<Longrightarrow> en_extension es = None"
  shows "engine_inv (Engine_Initialize option config room keys streams)"
proof -
  let ?e = "Engine_Initialize option config room keys streams" and ?n = "unat (max_session_count option)"
  have none: "holder ?e k = None" for k
    using assms by (auto simp: holder_def Engine_Initialize_def Let_def split: option.split)
  have "inj_on (of_nat :: nat \<Rightarrow> u64) (set [1..<Suc ?n])"
  proof (rule inj_onI)
    fix x y assume xy: "x \<in> set [1..<Suc ?n]" "y \<in> set [1..<Suc ?n]" and eq: "(of_nat x :: u64) = of_nat y"
    have "?n < 4294967296" using unsigned_less [of "max_session_count option", where ?'a = nat] by simp
    moreover have "x \<le> ?n" "y \<le> ?n" using xy by (simp_all only: set_upt atLeastLessThan_iff less_Suc_eq_le)
    ultimately have small: "x < 18446744073709551616" "y < 18446744073709551616" by linarith+
    show "x = y" using arg_cong [OF eq, of unat] unfolding u64_of_nat [OF small(1)] u64_of_nat [OF small(2)] .
  qed
  then have "distinct (ne_pool ?e)" by (simp add: Engine_Initialize_def Let_def distinct_map del: upt_Suc)
  moreover have "ne_abandoned_session_list ?e = []" "ne_connector_list ?e = []" by (simp_all add: Engine_Initialize_def Let_def)
  ultimately show ?thesis using none by (simp add: engine_inv_def owners_ok_def owns_def)
qed

lemma step_inv: "engine_step pack unpack slots wh e e' \<Longrightarrow> engine_inv e \<Longrightarrow> engine_inv e'"
proof (induction rule: engine_step.induct)
  case (register e address attachment)
  let ?info = "no_connector\<lparr>ci_connector_id := ne_current_connector_id e, ci_remote_address := address, ci_attachment := attachment\<rparr>"
  have "engine_inv (e\<lparr>ne_connector_list := um_set (ne_current_connector_id e) ?info (ne_connector_list e)\<rparr>)"
    by (rule connector_insert_inv [OF register]) (simp add: no_connector_def)
  then show ?case by (simp add: Engine_RegisterConnectorSocket_def Let_def cm_Insert_def engine_inv_def owns_def holder_def [abs_def])
next
  case (unregister c e e')
  then show ?case using connector_remove_inv [of e c]
    by (auto simp: Engine_UnregisterConnectorSocket_def cm_Remove_def res_iff Let_def split: option.splits dest!: frame intro: frame_inv)
next
  case (stream k change e e')
  have "owns e' = owns e" by (rule on_stream_frame [OF stream.hyps]) simp
  then show ?case using stream.prems by (rule frame_inv)
next
  case (returned e s contents)
  then show ?case by (auto simp: engine_inv_def owners_ok_def owns_def [of e] owns_def [of "e\<lparr>ne_pool := s # ne_pool e\<rparr>"])
qed (auto intro: OnAccept_inv OnConnect_inv IoRead_inv OnDisconnect_inv OnTick_inv frame_inv dest!: frame)

lemma run_inv: "engine_run pack unpack slots wh e \<Longrightarrow> engine_inv e"
  by (induction rule: engine_run.induct) (auto intro: Initialize_inv step_inv)

text \<open>C3. No two connections share a session. In every state an engine reaches, a session is the session of at most one stream; a session
  that waits for its client in the list of abandoned sessions, under its own identifier, belongs to no stream; and the sessions in
  the pool are pairwise different, not abandoned and belong to no stream.\<close>

theorem sessions_have_one_owner:
  assumes "engine_run pack unpack slots wh e"
  shows "(holder e k = Some s \<and> holder e k' = Some s \<longrightarrow> k = k') \<and>
     (um_find (ne_abandoned_session_list e) i = Some s \<longrightarrow> i = s \<and> holder e k \<noteq> Some s) \<and>
     distinct (ne_pool e) \<and> (s \<in> set (ne_pool e) \<longrightarrow> holder e k \<noteq> Some s \<and> um_find (ne_abandoned_session_list e) s = None)"
  using run_inv [OF assms] unfolding engine_inv_def owners_ok_def owns_def prod.case by metis

text \<open>C29. A connector never resumes its session. Whenever a registered connector is connected, also again after a failure, the
  request it sends is one for a new session, never \<^verbatim>\<open>packet_session_auth_rq\<close>: the identifier and the key of the session that it was given are
  written to a local copy of the \<^verbatim>\<open>ConnectorInfo\<close>.\<close>

theorem connectors_never_resume:
  assumes "engine_run pack unpack slots wh e" and "cm_TryGet c (ne_connector_list e) = Some info"
    and "ne_streams e k = Some es" and "OnConnect pack now (Some k) c e = Inr e'"
  shows "\<exists>es' bytes. ne_streams e' k = Some es' \<and>
     snd (SerializePacket pack (P_session_create_rq 0) None' (st_write_capacity (en_stream es))) = Some bytes \<and>
     st_ops (en_stream es') = st_ops (en_stream es) @ [if st_connected (en_stream es) then WriteOp bytes 0 else FailedOp 0]"
proof -
  have fresh: "ci_session_id info = 0" by (rule connector_fresh [OF run_inv [OF assms(1)] assms(2)])
  show ?thesis using assms(2-4) fresh
    by (auto simp: OnConnect_def Let_def on_worker_of_def on_worker_def stream_at_def res_iff on_extension_def extension_at_def on_stream_def
        put_stream_def transmit_packet_def start_reading_def TransmitRead_def AllocateReadBuffer_def AllocateWriteBuffer_def TransmitWrite_def
        split: if_splits)
qed

definition idle_handlers :: "unit worker_handlers" where
  "idle_handlers = \<lparr>wh_connected = \<lambda>_ s. Inr s, wh_accepted = \<lambda>_ s. Inr s, wh_abandoned = \<lambda>_ s. Inr s, wh_alived = \<lambda>_ s. Inr s,
     wh_closed = \<lambda>_ s. Inr s, wh_data = \<lambda>_ s. Inr s\<rparr>"

definition sample_stream :: EngineStream where
  "sample_stream = \<lparr>en_stream = \<lparr>st_connected = True, st_write_free = 3, st_write_capacity = 100, st_read_free = 3, st_ops = []\<rparr>,
     en_worker_index = 0, en_extension = None, en_read_capacity = 100, en_reads = []\<rparr>"

definition sample_start :: NetworkEngine where
  "sample_start = Engine_Initialize
     \<lparr>socket_idle_timeout_ms = 5000, session_idle_timeout_ms = 5000, session_heartbeat_interval_ms = 2000, max_session_count = 2,
      use_session_reconnect = True, session_reconnect_timeout_ms = 30000, worker_update_tick_ms = 500\<rparr>
     \<lparr>parallel_acceptor_count = 1, max_connectable_socket_count = 2, max_acceptable_socket_count = 2, worker_count = 1, read_buffer_pool_size = 4,
      read_buffer_capacity = 100, write_buffer_pool_size = 4, write_buffer_capacity = 100, update_tick = 10\<rparr> 4 (\<lambda>_. []) [6 \<mapsto> sample_stream, 8 \<mapsto> sample_stream]"

lemma sample_run: "engine_run pack unpack slots wh sample_start"
  unfolding sample_start_def by (rule engine_run.init) (auto simp: sample_stream_def split: if_splits)

theorem sessions_have_one_owner_witness:
  "\<exists>e. OnAccept 0 6 sample_start = Inr e \<and> ne_pool e = [2, 1] \<and> holder e 6 \<noteq> Some 2 \<and> um_find (ne_abandoned_session_list e) 2 = None"
proof -
  obtain e where e: "OnAccept 0 6 sample_start = Inr e" "ne_pool e = [2, 1]"
    by (simp add: sample_start_def Engine_Initialize_def sample_stream_def OnAccept_def on_worker_of_def stream_at_def on_worker_def
        start_reading_def put_stream_def AllocateReadBuffer_def TransmitRead_def on_stream_def upt_conv_Cons)
  have "engine_run (\<lambda>_. []) (\<lambda>_ _. None) 2 idle_handlers e" by (rule engine_run.step [OF sample_run engine_step.accept [OF e(1)]])
  from sessions_have_one_owner [OF this, of 6 2 6 2] e show ?thesis by simp
qed

theorem connectors_never_resume_witness:
  "\<exists>e es'. OnConnect (\<lambda>_. [7]) 0 (Some 6) 1 (snd (Engine_RegisterConnectorSocket \<lparr>sa_ip = ''10.0.0.1'', sa_port = 80\<rparr> 9 sample_start)) = Inr e \<and>
     ne_streams e 6 = Some es' \<and> (\<exists>bytes. st_ops (en_stream es') = [WriteOp bytes 0])"
proof -
  let ?e = "snd (Engine_RegisterConnectorSocket \<lparr>sa_ip = ''10.0.0.1'', sa_port = 80\<rparr> 9 sample_start)"
  have run: "engine_run (\<lambda>_. [7]) (\<lambda>_ _. None) 2 idle_handlers ?e" by (rule engine_run.step [OF sample_run engine_step.register])
  have get: "\<exists>info. cm_TryGet 1 (ne_connector_list ?e) = Some info" "ne_streams ?e 6 = Some sample_stream"
    by (simp_all add: Engine_RegisterConnectorSocket_def sample_start_def Engine_Initialize_def cm_TryGet_def cm_Insert_def)
  obtain e where "OnConnect (\<lambda>_. [7]) 0 (Some 6) 1 ?e = Inr e"
    by (simp add: Engine_RegisterConnectorSocket_def sample_start_def Engine_Initialize_def sample_stream_def OnConnect_def on_worker_of_def
        stream_at_def on_worker_def start_reading_def put_stream_def AllocateReadBuffer_def TransmitRead_def on_stream_def cm_TryGet_def cm_Insert_def
        on_extension_def extension_at_def transmit_packet_def AllocateWriteBuffer_def TransmitWrite_def no_connector_def SerializePacket_def
        Let_def PACKET_LENGTH_SIZE_def PACKET_HEADER_SIZE_def upt_conv_Cons)
  then show ?thesis using connectors_never_resume [OF run _ get(2), of 1] get(1) by (fastforce simp: sample_stream_def)
qed

section \<open>Sessions that should be resumed\<close>

lemma abandoned_chain_faults:
  assumes "sx_context_type cx = SessionAbandoned" "sx_session cx = Some k"
  shows "\<exists>f. process_chain wh [cx] se = Inl f"
proof (cases "process_chain wh [cx] se")
  case (Inr r)
  then obtain e ses e1 where
      "session_do (Some k) (Session_ReleaseReadBuffer (sx_heap cx)) (put_ses k (ses\<lparr>eo_session := (eo_session ses)\<lparr>ss_state := Wait\<rparr>\<rparr>) e) = Inr e1"
    using assms
    by (cases se) (auto simp: handle_context_def Context_Release_def change_state_def ChangeSessionState_def res_iff split: if_splits)
  then show ?thesis
    by (auto simp: session_do_def call_session_def ses_at_def put_ses_def Session_ReleaseReadBuffer_def GetSocketStream_def as_socket_session_def
        Session.defs res_iff)
qed auto


definition sample_opened :: "SessionState \<Rightarrow> u8 list \<Rightarrow> NetworkEngine" where
  "sample_opened state session_key =
    put_ses 1 \<lparr>eo_session = (eo_session (new_session session_key 1))\<lparr>ss_state := state\<rparr>, eo_stream = Some 6\<rparr>
      (put_stream 6 (sample_stream\<lparr>en_extension := Some \<lparr>xs_session = Some 1, xs_connector_id = 0, xs_connection_created_time = 0, xs_ping_ms = 100,
         xs_stream_type = AcceptorStream\<rparr>\<rparr>) (sample_start\<lparr>ne_pool := [2]\<rparr>))"

lemmas sample_defs = sample_opened_def sample_start_def Engine_Initialize_def sample_stream_def new_session_def put_ses_def put_stream_def
  upt_conv_Cons


text \<open>One request with a wrong key makes an abandoned session unusable. The key is compared, but the state of the session becomes
  \<^verbatim>\<open>Opened\<close> whether it was right or not. The request fails; afterwards every request for that session fails, also one with its key, and the
  tick passes the session over, so it is neither resumed nor timed out and stays in the list.\<close>

theorem wrong_key_locks_session:
  assumes "um_find (ne_abandoned_session_list e) s = Some s" and "ne_sessions e s = Some ses" and "ss_state (eo_session ses) = Wait"
    and "ss_key (eo_session ses) \<noteq> sar_session_key p" and "sar_session_id p = s"
    and "on_auth_rq pack garbage now_ms k p c e = Inr (t, i, c', e1)"
    and "on_auth_rq pack garbage' now_ms' k' \<lparr>sar_session_id = s, sar_session_key = session_key\<rparr> d e1 = Inr (t', i', d', e2)"
  shows "t = SessionError \<and> t' = SessionError \<and> um_find (ne_abandoned_session_list e2) s = Some s \<and>
     (\<exists>ses'. ne_sessions e2 s = Some ses' \<and> ss_state (eo_session ses') = Opened) \<and>
     tick_abandoned pack slots now [s] e2 = Inr ([], e2)"
proof -
  have kept: "ne_abandoned_session_list b' = ne_abandoned_session_list b \<and> ne_sessions b' = ne_sessions b"
    if "transmit_packet pack m q y err b = Inr b'" for m q y err b b'
    using that by (auto simp: transmit_packet_def put_stream_def res_iff)
  let ?e = "put_ses s (ses\<lparr>eo_session := (eo_session ses)\<lparr>ss_state := Opened\<rparr>\<rparr>) e"
  have first: "remove_abandoned s (try_resume_with_key (sar_session_key p)) e = (None, ?e)"
    using assms(1-4) by (simp add: remove_abandoned_def cm_RemoveIf_def try_resume_with_key_def try_resume_def ChangeSessionState_def put_ses_def)
  have 1: "t = SessionError" "ne_abandoned_session_list e1 = ne_abandoned_session_list e" "ne_sessions e1 = ne_sessions ?e"
    using assms(6) first kept by (auto simp: on_auth_rq_def assms(5) Let_def res_iff put_ses_def)
  have again: "remove_abandoned s (try_resume_with_key session_key) e1 = (None, e1)"
    using 1(2,3) assms(1)
    by (simp add: remove_abandoned_def cm_RemoveIf_def try_resume_with_key_def try_resume_def ChangeSessionState_def put_ses_def fun_upd_idem)
  have 2: "t' = SessionError" "ne_abandoned_session_list e2 = ne_abandoned_session_list e1" "ne_sessions e2 = ne_sessions e1"
    using assms(7) again kept by (auto simp: on_auth_rq_def Let_def res_iff)
  then show ?thesis using 1 assms(1) by (simp add: ses_at_def put_ses_def)
qed

theorem wrong_key_locks_session_witness:
  "\<exists>e1 e2 c. on_auth_rq (\<lambda>_. [7]) \<lparr>sar_session_id = 0, sar_session_key = []\<rparr> 0 8 \<lparr>sar_session_id = 1, sar_session_key = [3]\<rparr> c
       ((sample_opened Wait [5])\<lparr>ne_abandoned_session_list := [(1, 1)]\<rparr>) = Inr (SessionError, no_connector, c, e1) \<and>
     on_auth_rq (\<lambda>_. [7]) \<lparr>sar_session_id = 0, sar_session_key = []\<rparr> 0 8 \<lparr>sar_session_id = 1, sar_session_key = [5]\<rparr> c e1 =
       Inr (SessionError, no_connector, c, e2) \<and>
     tick_abandoned (\<lambda>_. [7]) 1 99999999999 [1] e2 = Inr ([], e2)"
proof -
  let ?g = "\<lparr>sar_session_id = 0, sar_session_key = []\<rparr>" and ?c = "new_cursor \<lparr>db_bytes = [], db_capacity = 9\<rparr>"
  let ?e = "(sample_opened Wait [5])\<lparr>ne_abandoned_session_list := [(1, 1)]\<rparr>"
  note eval = sample_defs on_auth_rq_def remove_abandoned_def cm_RemoveIf_def try_resume_with_key_def try_resume_def ChangeSessionState_def
    transmit_packet_def AllocateWriteBuffer_def TransmitWrite_def stream_at_def SerializePacket_def Let_def PACKET_LENGTH_SIZE_def PACKET_HEADER_SIZE_def
  obtain e1 e2 where run: "on_auth_rq (\<lambda>_. [7]) ?g 0 8 \<lparr>sar_session_id = 1, sar_session_key = [3]\<rparr> ?c ?e = Inr (SessionError, no_connector, ?c, e1)"
      "on_auth_rq (\<lambda>_. [7]) ?g 0 8 \<lparr>sar_session_id = 1, sar_session_key = [5]\<rparr> ?c e1 = Inr (SessionError, no_connector, ?c, e2)"
    by (simp add: eval)
  have "tick_abandoned (\<lambda>_. [7]) 1 99999999999 [1] e2 = Inr ([], e2)"
    using wrong_key_locks_session [where s = 1, OF _ _ _ _ _ run] by (simp add: sample_defs)
  then show ?thesis using run by blast
qed

end
