(* ===== verification/SocketServers.thy ===== *)
theory SocketServers
  imports Memory EngineSessions
begin

text \<open>
  The socket server below the engine: \<^verbatim>\<open>network/iocp/IocpSocketServer.cpp\<close>, \<^verbatim>\<open>IocpSocketServerOperation.cpp\<close>,
  \<^verbatim>\<open>IocpAcceptorStream.cpp\<close>, \<^verbatim>\<open>IocpConnectorStream.cpp\<close>.

  The operating system is a parameter: whether a call succeeds is an argument of the function that makes it, and the
  completions a thread receives are its input. A stream pointer is the stream's identifier; the streams themselves are those of the
  engine, which is the event handler (\<open>iv_engine\<close>). \<open>iv_accepts\<close> are the streams with an accept in progress, \<open>iv_live\<close> those that were
  handed to the engine, \<open>iv_connects\<close> the connects in progress, \<open>iv_ticks\<close> the tick contexts that are posted and not handled. When the
  last reference to a stream goes, \<^verbatim>\<open>SocketObjectDeleter\<close> returns it to its pool (\<open>stream_deleted\<close>).
\<close>

section \<open>State\<close>

record IocpSocketServer =
  iv_config :: SocketServerConfig
  iv_is_initialized :: bool
  iv_start :: bool
  iv_acceptor_stream :: bool
  iv_acceptor_socket_pool :: "ObjectPool option"
  iv_connector_socket_pool :: "ObjectPool option"
  iv_accepts :: "u64 list"
  iv_hang_acceptor_count :: u32
  iv_live :: "u64 list"
  iv_connects :: "(u64 \<times> SocketAddress \<times> u64) list"
  iv_tick_pool :: ObjectPool
  iv_ticks :: "(nat \<times> ObjectBlock) list"
  iv_engine :: NetworkEngine

definition CONNECTOR_SOCKET_START_ID :: u64 where "CONNECTOR_SOCKET_START_ID = 2147483647"

datatype IoOperation = NoOperation | AcceptOp | ReadOp | WriteIoOp | DisconnectIoOp | ConnectOp | TickOp

section \<open>Streams\<close>

text \<open>\<^verbatim>\<open>SocketInitializer::Initialize\<close>: the stream with its worker and its buffers; \<open>os\<close> tells which of the calls of the operating
  system fails, if any. The remainder by zero workers is undefined; only the socket of a connector is bound. The address of the peer, which is
  only logged and used for connecting, is not part of the stream.\<close>

datatype socket_setup = SocketReady | NoSocket | NoPort | NoBind

definition SocketInitializer_Initialize :: "(u64 \<Rightarrow> socket_setup) \<Rightarrow> SocketServerConfig \<Rightarrow> u64 \<Rightarrow> EngineStream res" where
  "SocketInitializer_Initialize os config i =
    (if os i = NoSocket then Inl (Throw ''cannot allocate win socket'')
     else if worker_count config = 0 then Inl Undefined
     else if os i = NoPort then Inl (Throw ''cannot register socket to iocp'')
     else if i \<ge> CONNECTOR_SOCKET_START_ID \<and> os i = NoBind then Inl (Throw ''failed to bind connector socket'')
     else Inr \<lparr>en_stream = \<lparr>st_connected = False, st_write_free = unat (write_buffer_pool_size config),
                 st_write_capacity = write_buffer_capacity config, st_read_free = unat (read_buffer_pool_size config), st_ops = []\<rparr>,
               en_worker_index = unat (i mod ucast (worker_count config)), en_extension = None,
               en_read_capacity = read_buffer_capacity config, en_reads = []\<rparr>)"

text \<open>A \<^verbatim>\<open>SocketObjectPool\<close> of one chunk: the blocks and their streams.\<close>

definition new_socket_pool ::
  "(u64 \<Rightarrow> socket_setup) \<Rightarrow> SocketServerConfig \<Rightarrow> u32 \<Rightarrow> u64 \<Rightarrow> NetworkEngine \<Rightarrow> (ObjectPool \<times> NetworkEngine) res" where
  "new_socket_pool os config pool_size start e =
    rbind (new_ObjectPool pool_size pool_size start) (\<lambda>p.
    case p of
      None \<Rightarrow> Inl Undefined
    | Some pool \<Rightarrow>
        rbind (foldr_res (\<lambda>i e. rbind (SocketInitializer_Initialize os config i) (\<lambda>es. Inr (put_stream i es e))) (rev (map bl_id (op_pool pool))) e)
          (\<lambda>e'. Inr (pool, e')))"

text \<open>\<open>ports\<close> tells whether the completion ports of the workers could be created.\<close>

definition IocpSocketServer_Initialize ::
  "(u64 \<Rightarrow> socket_setup) \<Rightarrow> bool \<Rightarrow> SocketServerConfig \<Rightarrow> IocpSocketServer \<Rightarrow> (bool \<times> IocpSocketServer) res" where
  "IocpSocketServer_Initialize os ports config sv =
    (if iv_is_initialized sv then Inr (False, sv)
     else
       let sv1 = sv\<lparr>iv_is_initialized := True, iv_config := config\<rparr> in
       if read_buffer_capacity config = 0 \<or> read_buffer_capacity config mod 4096 \<noteq> 0 \<or> write_buffer_capacity config = 0 \<or>
          write_buffer_capacity config mod 4096 \<noteq> 0 then Inl (Throw ''buffer must align as 4096 byte'')
       else if read_buffer_pool_size config < 4 \<or> write_buffer_pool_size config < 4 then Inl (Throw ''need at least of 4 buffers'')
       else if \<not> ports then Inr (False, sv1)
       else
         rbind (new_socket_pool os config (max_connectable_socket_count config) CONNECTOR_SOCKET_START_ID (iv_engine sv)) (\<lambda>(pool, e).
         Inr (True, sv1\<lparr>iv_connector_socket_pool := Some pool, iv_engine := e\<rparr>)))"

text \<open>\<^verbatim>\<open>InitializeAcceptor\<close>; \<open>socket_ready\<close> and \<open>registered\<close> tell whether the acceptor's socket and port could be set up before the
  acceptor stream is created, and whether the socket could be registered after it.\<close>

definition InitializeAcceptor :: "(u64 \<Rightarrow> socket_setup) \<Rightarrow> bool \<Rightarrow> bool \<Rightarrow> IocpSocketServer \<Rightarrow> (bool \<times> IocpSocketServer) res" where
  "InitializeAcceptor os socket_ready registered sv =
    (if iv_acceptor_stream sv then Inr (False, sv)
     else
       rbind (new_socket_pool os (iv_config sv) (max_acceptable_socket_count (iv_config sv)) 1 (iv_engine sv)) (\<lambda>(pool, e).
       let sv1 = sv\<lparr>iv_acceptor_socket_pool := Some pool, iv_engine := e\<rparr> in
       if \<not> socket_ready then Inr (False, sv1) else Inr (registered, sv1\<lparr>iv_acceptor_stream := True\<rparr>)))"

section \<open>Accepting\<close>

text \<open>\<^verbatim>\<open>IocpAcceptorStream::TransmitAccept\<close>. The context holds the only reference to a stream that comes from the pool; if \<^verbatim>\<open>AcceptEx\<close>
  fails, releasing the context releases the stream, which returns it to the pool.\<close>

definition stream_deleted :: "ObjectBlock \<Rightarrow> IocpSocketServer \<Rightarrow> IocpSocketServer" where
  "stream_deleted block sv =
    (if bl_id block \<ge> CONNECTOR_SOCKET_START_ID
     then sv\<lparr>iv_connector_socket_pool := map_option (Pool_Push block) (iv_connector_socket_pool sv)\<rparr>
     else sv\<lparr>iv_acceptor_socket_pool := map_option (Pool_Push block) (iv_acceptor_socket_pool sv)\<rparr>)"

definition TransmitAccept :: "(u64 \<Rightarrow> bool) \<Rightarrow> ObjectBlock \<Rightarrow> IocpSocketServer \<Rightarrow> (bool \<times> IocpSocketServer) res" where
  "TransmitAccept accept_ex block sv =
    rbind (stream_at (bl_id block) (iv_engine sv)) (\<lambda>es.
    case AllocateReadBuffer False (en_stream es) of
      (None, _) \<Rightarrow> Inl AssertFail
    | (Some _, st) \<Rightarrow>
        if accept_ex (bl_id block) then
          Inr (True, sv\<lparr>iv_engine := put_stream (bl_id block) (es\<lparr>en_stream := st\<rparr>) (iv_engine sv), iv_accepts := iv_accepts sv @ [bl_id block]\<rparr>)
        else Inr (False, stream_deleted block sv))"

definition AcceptSocket :: "(u64 \<Rightarrow> bool) \<Rightarrow> IocpSocketServer \<Rightarrow> (bool \<times> IocpSocketServer) res" where
  "AcceptSocket accept_ex sv =
    (case iv_acceptor_socket_pool sv of
       None \<Rightarrow> Inl NullDeref
     | Some pool \<Rightarrow>
       (case Pool_Pop False pool of
          (None, _) \<Rightarrow> Inr (False, sv)
        | (Some block, pool') \<Rightarrow>
            rbind (TransmitAccept accept_ex block (sv\<lparr>iv_acceptor_socket_pool := Some pool'\<rparr>)) (\<lambda>(started, sv1).
            if \<not> started then Inr (False, sv1\<lparr>iv_acceptor_socket_pool := map_option (Pool_Push block) (iv_acceptor_socket_pool sv1)\<rparr>)
            else Inr (True, sv1))))"

text \<open>What the completion port of the acceptor reports: nothing within 500 milliseconds, a failed accept with its error, or an accepted
  connection with the address of the peer (none if it cannot be converted).\<close>

datatype IoError = DupName | NetnameDeleted | SemTimeout | NetworkUnreachable | PortUnreachable | ConnectionRefused | IoPending
  | AbandonedWait | OtherError

datatype acceptor_event = WaitTimeout | AcceptFailed u64 IoError | Accepted u64 "SocketAddress option"

fun retry_accepts :: "(u64 \<Rightarrow> bool) \<Rightarrow> nat \<Rightarrow> IocpSocketServer \<Rightarrow> (nat \<times> IocpSocketServer) res" where
  "retry_accepts accept_ex 0 sv = Inr (0, sv)"
| "retry_accepts accept_ex (Suc n) sv =
    rbind (AcceptSocket accept_ex sv) (\<lambda>(b, sv1). if b then retry_accepts accept_ex n sv1 else Inr (Suc n, sv1))"

definition IoAccept :: "u64 \<Rightarrow> SocketAddress option \<Rightarrow> IocpSocketServer \<Rightarrow> IocpSocketServer res" where
  "IoAccept k address sv =
    (if address = None then Inl (Throw ''cannot convert address to ip'')
     else rbind (on_stream k (\<lambda>es. es\<lparr>en_stream := snd (SetConnectionStatus True (en_stream es))\<rparr>) (iv_engine sv)) (\<lambda>e.
          Inr (sv\<lparr>iv_engine := e, iv_accepts := remove1 k (iv_accepts sv), iv_live := iv_live sv @ [k]\<rparr>)))"

text \<open>One round of \<^verbatim>\<open>AcceptorMain\<close>; the accepted stream is posted to its worker.\<close>

definition AcceptorMain :: "(u64 \<Rightarrow> bool) \<Rightarrow> acceptor_event \<Rightarrow> IocpSocketServer \<Rightarrow> IocpSocketServer res" where
  "AcceptorMain accept_ex event sv =
    rbind (retry_accepts accept_ex (unat (iv_hang_acceptor_count sv)) sv) (\<lambda>(hang, sv0).
    let sv1 = sv0\<lparr>iv_hang_acceptor_count := of_nat hang\<rparr> in
    case event of
      WaitTimeout \<Rightarrow> Inr sv1
    | AcceptFailed k error \<Rightarrow>
        assert_that (error \<in> {DupName, NetnameDeleted, NetworkUnreachable, IoPending}) (Inr (sv1\<lparr>iv_accepts := remove1 k (iv_accepts sv1)\<rparr>))
    | Accepted k address \<Rightarrow>
        rbind (IoAccept k address sv1) (\<lambda>sv2.
        rbind (AcceptSocket accept_ex sv2) (\<lambda>(b, sv3).
        Inr (if b then sv3 else sv3\<lparr>iv_hang_acceptor_count := iv_hang_acceptor_count sv3 + 1\<rparr>))))"

section \<open>Connecting\<close>

definition TransmitConnect :: "u64 \<Rightarrow> SocketAddress \<Rightarrow> u64 \<Rightarrow> IocpSocketServer \<Rightarrow> IocpSocketServer res" where
  "TransmitConnect k address attachment sv =
    rbind (stream_at k (iv_engine sv)) (\<lambda>es.
    case AllocateWriteBuffer False (en_stream es) of
      (None, _) \<Rightarrow> Inl AssertFail
    | (Some _, st) \<Rightarrow>
        Inr (sv\<lparr>iv_engine := put_stream k (es\<lparr>en_stream := st\<rparr>) (iv_engine sv), iv_connects := iv_connects sv @ [(k, address, attachment)]\<rparr>))"

definition Connect :: "(u64 \<Rightarrow> socket_setup) \<Rightarrow> SocketAddress \<Rightarrow> u64 \<Rightarrow> IocpSocketServer \<Rightarrow> IocpSocketServer res" where
  "Connect os address attachment sv =
    (case iv_connector_socket_pool sv of
       None \<Rightarrow> Inl NullDeref
     | Some pool \<Rightarrow>
       (case Pool_Pop True pool of
          (None, _) \<Rightarrow> Inl NullDeref
        | (Some block, pool') \<Rightarrow>
            rbind (if bl_is_heap_allocation block
                   then rbind (SocketInitializer_Initialize os (iv_config sv) (bl_id block)) (\<lambda>es. Inr (put_stream (bl_id block) es (iv_engine sv)))
                   else Inr (iv_engine sv)) (\<lambda>e.
            TransmitConnect (bl_id block) address attachment (sv\<lparr>iv_connector_socket_pool := Some pool', iv_engine := e\<rparr>))))"

section \<open>Ticks\<close>

text \<open>One round of \<^verbatim>\<open>TickMain\<close>: a tick for every worker, in a context from the tick pool; with no tick configured the thread has ended.\<close>

fun send_ticks :: "nat list \<Rightarrow> IocpSocketServer \<Rightarrow> IocpSocketServer res" where
  "send_ticks [] sv = Inr sv"
| "send_ticks (handle # handles) sv =
    (case Pool_Pop False (iv_tick_pool sv) of
       (None, _) \<Rightarrow> Inl NullDeref
     | (Some block, pool) \<Rightarrow> send_ticks handles (sv\<lparr>iv_tick_pool := pool, iv_ticks := iv_ticks sv @ [(handle, block)]\<rparr>))"

definition TickMain :: "IocpSocketServer \<Rightarrow> IocpSocketServer res" where
  "TickMain sv = (if update_tick (iv_config sv) \<noteq> 0 \<and> iv_start sv then send_ticks [0..<unat (worker_count (iv_config sv))] sv else Inr sv)"

text \<open>The pool that \<^verbatim>\<open>TickMain\<close> builds when it starts: eight contexts for each worker, in chunks of one per worker.\<close>

definition tick_pool :: "SocketServerConfig \<Rightarrow> ObjectPool option res" where
  "tick_pool config = new_ObjectPool (worker_count config * 8) (worker_count config) 1"

section \<open>The workers\<close>

text \<open>A completion that \<^verbatim>\<open>IoMain\<close> takes from the port of a worker: the operation with its stream, attachment, bytes and buffer, or the error
  code of a failed operation. \<open>error\<close> is checked first; the operation is then handled in any case. \<open>connected\<close> is what \<^verbatim>\<open>getsockopt\<close> tells of
  a connect.\<close>

record io_completion =
  ic_error :: "IoError option"
  ic_operation :: IoOperation
  ic_stream :: u64
  ic_attachment :: u64
  ic_transferred :: "u8 list"
  ic_buffer :: WriteBuffer
  ic_connected :: bool

definition IoConnect :: "(Packet \<Rightarrow> u8 list) \<Rightarrow> int \<Rightarrow> io_completion \<Rightarrow> NetworkEngine \<Rightarrow> NetworkEngine res" where
  "IoConnect pack now c e =
    (if \<not> ic_connected c then OnConnect pack now None (ic_attachment c) e
     else rbind (on_stream (ic_stream c) (\<lambda>es. es\<lparr>en_stream := snd (SetConnectionStatus True (en_stream es))\<rparr>) e)
            (OnConnect pack now (Some (ic_stream c)) (ic_attachment c)))"

text \<open>The dispatch of \<^verbatim>\<open>IoMain\<close>, with the context returned to its pool behind the switch: an accept holds a read buffer, a disconnect and a
  connect hold a write buffer of the stream. \<open>False\<close>: the thread ends.\<close>

definition return_read :: "u64 \<Rightarrow> NetworkEngine \<Rightarrow> NetworkEngine res" where
  "return_read k = on_stream k (\<lambda>es. es\<lparr>en_stream := ReleaseReadBuffer (en_stream es)\<rparr>)"

definition return_write :: "WriteBuffer \<Rightarrow> u64 \<Rightarrow> NetworkEngine \<Rightarrow> NetworkEngine res" where
  "return_write b k = on_stream k (\<lambda>es. es\<lparr>en_stream := ReleaseWriteBuffer b (en_stream es)\<rparr>)"

definition io_dispatch ::
  "(Packet \<Rightarrow> u8 list) \<Rightarrow> (PacketType \<Rightarrow> u8 list \<Rightarrow> Packet option) \<Rightarrow> nat \<Rightarrow> u8 list \<Rightarrow> packet_session_auth_rq \<Rightarrow> int \<Rightarrow> nat \<Rightarrow> io_completion \<Rightarrow>
   NetworkEngine \<Rightarrow> NetworkEngine res" where
  "io_dispatch pack unpack slots key garbage now worker_index c e =
    (case ic_operation c of
       ReadOp \<Rightarrow> IoRead pack unpack slots key garbage (now div 1000000) (ic_stream c) (ic_transferred c) e
     | WriteIoOp \<Rightarrow> OnWrite (ic_buffer c) (ic_stream c) e
     | DisconnectIoOp \<Rightarrow> rbind (OnDisconnect pack slots (ic_stream c) (ic_attachment c) e) (return_write (ic_buffer c) (ic_stream c))
     | AcceptOp \<Rightarrow> rbind (OnAccept now (ic_stream c) e) (return_read (ic_stream c))
     | ConnectOp \<Rightarrow> rbind (IoConnect pack now c e) (return_write (ic_buffer c) (ic_stream c))
     | TickOp \<Rightarrow> OnTick pack slots now worker_index e
     | NoOperation \<Rightarrow> Inr e)"

text \<open>The context of the oldest tick of a worker goes back to the tick pool.\<close>

definition return_tick :: "nat \<Rightarrow> IocpSocketServer \<Rightarrow> IocpSocketServer" where
  "return_tick worker_index sv =
    (case find (\<lambda>(handle, _). handle = worker_index) (iv_ticks sv) of
       None \<Rightarrow> sv
     | Some (handle, block) \<Rightarrow> sv\<lparr>iv_ticks := remove1 (handle, block) (iv_ticks sv), iv_tick_pool := Pool_Push block (iv_tick_pool sv)\<rparr>)"

definition IoMain ::
  "(Packet \<Rightarrow> u8 list) \<Rightarrow> (PacketType \<Rightarrow> u8 list \<Rightarrow> Packet option) \<Rightarrow> nat \<Rightarrow> u8 list \<Rightarrow> packet_session_auth_rq \<Rightarrow> int \<Rightarrow> nat \<Rightarrow> io_completion \<Rightarrow>
   IocpSocketServer \<Rightarrow> (bool \<times> IocpSocketServer) res" where
  "IoMain pack unpack slots key garbage now worker_index c sv =
    (if ic_error c = Some AbandonedWait then Inr (False, sv)
     else if ic_error c = Some OtherError then Inl AssertFail
     else
       rbind (io_dispatch pack unpack slots key garbage now worker_index c (iv_engine sv)) (\<lambda>e.
       Inr (True, if ic_operation c = TickOp then return_tick worker_index (sv\<lparr>iv_engine := e\<rparr>) else sv\<lparr>iv_engine := e\<rparr>)))"

section \<open>Start\<close>

fun start_accepts :: "(u64 \<Rightarrow> bool) \<Rightarrow> nat \<Rightarrow> IocpSocketServer \<Rightarrow> (bool \<times> IocpSocketServer) res" where
  "start_accepts accept_ex 0 sv = Inr (True, sv)"
| "start_accepts accept_ex (Suc n) sv =
    rbind (AcceptSocket accept_ex sv) (\<lambda>(b, sv1). if b then start_accepts accept_ex n sv1 else Inr (False, sv1))"

text \<open>\<^verbatim>\<open>Start\<close>: \<open>Some 0\<close> for success, \<open>None\<close> for \<open>-1\<close>, another value for an error of the operating system, which for a failed
  accept is whatever error was last.\<close>

definition IocpSocketServer_Start :: "(u64 \<Rightarrow> bool) \<Rightarrow> u32 option \<Rightarrow> u32 \<Rightarrow> IocpSocketServer \<Rightarrow> (u32 option \<times> IocpSocketServer) res" where
  "IocpSocketServer_Start accept_ex bind_error last_error sv =
    (if \<not> iv_is_initialized sv then Inr (None, sv)
     else
       let sv1 = sv\<lparr>iv_start := True\<rparr> in
       if \<not> iv_acceptor_stream sv then Inr (Some 0, sv1)
       else
         case bind_error of
           Some error \<Rightarrow> Inr (Some error, sv1)
         | None \<Rightarrow>
             rbind (start_accepts accept_ex (unat (parallel_acceptor_count (iv_config sv))) sv1) (\<lambda>(b, sv2).
             Inr (Some (if b then 0 else last_error), sv2)))"

definition Shutdown :: "IocpSocketServer \<Rightarrow> IocpSocketServer" where
  "Shutdown sv = sv\<lparr>iv_start := False\<rparr>"

section \<open>Accepting goes on\<close>

text \<open>Runs of the acceptor: it is started, its thread handles events, streams are worked on by the engine and returned to the pool when
  the last reference to them is gone. \<^verbatim>\<open>AcceptEx\<close> always starts. \<open>lost\<close> are the streams whose accept failed.\<close>

definition idle_server :: "SocketServerConfig \<Rightarrow> NetworkEngine \<Rightarrow> ObjectPool \<Rightarrow> IocpSocketServer" where
  "idle_server config e ticks = \<lparr>iv_config = config, iv_is_initialized = True, iv_start = False, iv_acceptor_stream = False, iv_acceptor_socket_pool = None,
     iv_connector_socket_pool = None, iv_accepts = [], iv_hang_acceptor_count = 0, iv_live = [], iv_connects = [], iv_tick_pool = ticks,
     iv_ticks = [], iv_engine = e\<rparr>"

fun event_stream :: "acceptor_event \<Rightarrow> u64 list" where
  "event_stream WaitTimeout = []"
| "event_stream (AcceptFailed k error) = [k]"
| "event_stream (Accepted k address) = [k]"

fun failed_stream :: "acceptor_event \<Rightarrow> u64 list" where
  "failed_stream (AcceptFailed k error) = [k]"
| "failed_stream event = []"

inductive acceptor_run :: "SocketServerConfig \<Rightarrow> u64 list \<Rightarrow> IocpSocketServer \<Rightarrow> bool" for config where
  start: "InitializeAcceptor os True True (idle_server config e ticks) = Inr (True, sv0) \<Longrightarrow>
    IocpSocketServer_Start (\<lambda>_. True) None 1 sv0 = Inr (Some 0, sv) \<Longrightarrow> acceptor_run config [] sv"
| round: "acceptor_run config lost sv \<Longrightarrow> set (event_stream event) \<subseteq> set (iv_accepts sv) \<Longrightarrow>
    AcceptorMain (\<lambda>_. True) event sv = Inr sv' \<Longrightarrow> acceptor_run config (lost @ failed_stream event) sv'"
| work: "acceptor_run config lost sv \<Longrightarrow> acceptor_run config lost (sv\<lparr>iv_engine := e'\<rparr>)"
| deleted: "acceptor_run config lost sv \<Longrightarrow> k \<in> set (iv_live sv) \<Longrightarrow> k < CONNECTOR_SOCKET_START_ID \<Longrightarrow>
    acceptor_run config lost (stream_deleted \<lparr>bl_id = k, bl_is_heap_allocation = False\<rparr> (sv\<lparr>iv_live := remove1 k (iv_live sv)\<rparr>))"

text \<open>The streams of the server and where they are; the accepts that are in progress, waiting for a stream, or lost.\<close>

definition pooled :: "IocpSocketServer \<Rightarrow> u64 list" where
  "pooled sv = (case iv_acceptor_socket_pool sv of None \<Rightarrow> [] | Some p \<Rightarrow> map bl_id (op_pool p))"

definition streams_of :: "u64 list \<Rightarrow> IocpSocketServer \<Rightarrow> u64 multiset" where
  "streams_of lost sv = mset (pooled sv) + mset (iv_accepts sv) + mset (iv_live sv) + mset lost"

definition acceptor_ids :: "SocketServerConfig \<Rightarrow> u64 list" where
  "acceptor_ids config = map of_nat [1..<Suc (unat (max_acceptable_socket_count config))]"

definition acceptor_inv :: "SocketServerConfig \<Rightarrow> u64 list \<Rightarrow> IocpSocketServer \<Rightarrow> bool" where
  "acceptor_inv config lost sv \<longleftrightarrow>
    iv_acceptor_socket_pool sv \<noteq> None \<and>
    streams_of lost sv = mset (acceptor_ids config) \<and>
    length (iv_accepts sv) + unat (iv_hang_acceptor_count sv) + length lost = unat (parallel_acceptor_count config)"

lemma pooled_hang [simp]:
  "pooled (sv\<lparr>iv_hang_acceptor_count := h\<rparr>) = pooled sv" "streams_of lost (sv\<lparr>iv_hang_acceptor_count := h\<rparr>) = streams_of lost sv"
  "pooled (sv\<lparr>iv_engine := e\<rparr>) = pooled sv" "streams_of lost (sv\<lparr>iv_engine := e\<rparr>) = streams_of lost sv"
  by (simp_all add: pooled_def streams_of_def)

lemma stack_try_pop_eq: "stack_try_pop st = (case st of [] \<Rightarrow> None | x # xs \<Rightarrow> Some (x, xs))"
  by (cases st) auto

lemma AcceptSocket_ok:
  assumes "AcceptSocket (\<lambda>_. True) sv = Inr (b, sv')"
  shows "\<not> b \<Longrightarrow> sv' = sv \<and> pooled sv = []"
    and "b \<Longrightarrow> streams_of lost sv' = streams_of lost sv" "b \<Longrightarrow> length (iv_accepts sv') = Suc (length (iv_accepts sv))"
    and "iv_hang_acceptor_count sv' = iv_hang_acceptor_count sv" "iv_live sv' = iv_live sv" "iv_config sv' = iv_config sv"
    and "iv_acceptor_socket_pool sv' \<noteq> None" "set (iv_accepts sv) \<subseteq> set (iv_accepts sv')"
  using assms
  by (auto simp: AcceptSocket_def TransmitAccept_def Pool_Pop_def AllocateReadBuffer_def pooled_def streams_of_def res_iff
      stack_try_pop_eq split: option.splits if_splits list.splits)

lemma retry_accepts_ok:
  assumes "retry_accepts (\<lambda>_. True) n sv = Inr (m, sv')" "iv_acceptor_socket_pool sv \<noteq> None"
  shows "streams_of lost sv' = streams_of lost sv \<and> length (iv_accepts sv') + m = length (iv_accepts sv) + n \<and> m \<le> n \<and> (m = 0 \<or> pooled sv' = []) \<and>
    iv_live sv' = iv_live sv \<and> iv_config sv' = iv_config sv \<and> iv_acceptor_socket_pool sv' \<noteq> None \<and> set (iv_accepts sv) \<subseteq> set (iv_accepts sv')"
  using assms
proof (induction n arbitrary: sv)
  case (Suc n)
  from Suc.prems(1) obtain b sv1 where 1: "AcceptSocket (\<lambda>_. True) sv = Inr (b, sv1)"
    and rest: "if b then retry_accepts (\<lambda>_. True) n sv1 = Inr (m, sv') else m = Suc n \<and> sv' = sv1"
    by (auto simp: res_iff)
  show ?case
  proof (cases b)
    case True
    then show ?thesis using Suc.IH [of sv1] rest AcceptSocket_ok [OF 1] by auto
  next
    case False
    then show ?thesis using rest AcceptSocket_ok(1) [OF 1] Suc.prems(2) by simp
  qed
qed simp

lemma Suc_length_remove1: "k \<in> set xs \<Longrightarrow> Suc (length (remove1 k xs)) = length xs"
  using length_pos_if_in_set [of k xs] by (simp add: length_remove1)

lemma IoAccept_ok:
  assumes "IoAccept k address sv = Inr sv'" "k \<in> set (iv_accepts sv)"
  shows "streams_of lost sv' = streams_of lost sv" "Suc (length (iv_accepts sv')) = length (iv_accepts sv)"
    "iv_hang_acceptor_count sv' = iv_hang_acceptor_count sv" "iv_acceptor_socket_pool sv' = iv_acceptor_socket_pool sv" "pooled sv' = pooled sv"
proof -
  have "mset (iv_accepts sv) = add_mset k (mset (remove1 k (iv_accepts sv)))" using assms(2) by simp
  moreover have "iv_accepts sv' = remove1 k (iv_accepts sv)" "iv_live sv' = iv_live sv @ [k]" "iv_acceptor_socket_pool sv' = iv_acceptor_socket_pool sv"
      "iv_hang_acceptor_count sv' = iv_hang_acceptor_count sv"
    using assms(1) by (auto simp: IoAccept_def res_iff)
  ultimately show "streams_of lost sv' = streams_of lost sv" "Suc (length (iv_accepts sv')) = length (iv_accepts sv)"
    "iv_hang_acceptor_count sv' = iv_hang_acceptor_count sv" "iv_acceptor_socket_pool sv' = iv_acceptor_socket_pool sv" "pooled sv' = pooled sv"
    using assms(2) by (simp_all add: streams_of_def pooled_def Suc_length_remove1)
qed

lemma round_inv:
  assumes "AcceptorMain (\<lambda>_. True) event sv = Inr sv'" "set (event_stream event) \<subseteq> set (iv_accepts sv)" "acceptor_inv config lost sv"
  shows "acceptor_inv config (lost @ failed_stream event) sv' \<and> (iv_hang_acceptor_count sv' = 0 \<or> pooled sv' = [])"
proof -
  obtain m sv0 where retry: "retry_accepts (\<lambda>_. True) (unat (iv_hang_acceptor_count sv)) sv = Inr (m, sv0)"
    using assms(1) by (auto simp: AcceptorMain_def res_iff)
  define sv1 where "sv1 = sv0\<lparr>iv_hang_acceptor_count := of_nat m\<rparr>"
  note ok = retry_accepts_ok [OF retry, of lost]
  have pool: "iv_acceptor_socket_pool sv \<noteq> None" using assms(3) by (simp add: acceptor_inv_def)
  have small: "m < 4294967296" using ok pool unsigned_less [of "iv_hang_acceptor_count sv", where ?'a = nat] by simp
  then have hang: "unat (iv_hang_acceptor_count sv1) = m" by (simp add: sv1_def u32_of_nat)
  have inv1: "acceptor_inv config lost sv1" and full: "m = 0 \<or> pooled sv1 = []" and sub: "set (iv_accepts sv) \<subseteq> set (iv_accepts sv1)"
    using ok pool assms(3) hang by (auto simp: acceptor_inv_def sv1_def)
  have main: "rbind (Inr (m, sv0)) (\<lambda>(hang, sv0). let sv1 = sv0\<lparr>iv_hang_acceptor_count := of_nat hang\<rparr> in
      case event of
        WaitTimeout \<Rightarrow> Inr sv1
      | AcceptFailed k error \<Rightarrow>
          assert_that (error \<in> {DupName, NetnameDeleted, NetworkUnreachable, IoPending}) (Inr (sv1\<lparr>iv_accepts := remove1 k (iv_accepts sv1)\<rparr>))
      | Accepted k address \<Rightarrow>
          rbind (IoAccept k address sv1) (\<lambda>sv2. rbind (AcceptSocket (\<lambda>_. True) sv2) (\<lambda>(b, sv3).
            Inr (if b then sv3 else sv3\<lparr>iv_hang_acceptor_count := iv_hang_acceptor_count sv3 + 1\<rparr>)))) = Inr sv'"
    using assms(1) unfolding AcceptorMain_def retry .
  show ?thesis
  proof (cases event)
    case WaitTimeout
    then show ?thesis using main inv1 full hang by (auto simp: unat_eq_zero sv1_def)
  next
    case (AcceptFailed k error)
    then have "k \<in> set (iv_accepts sv1)" using assms(2) sub by auto
    then have len: "Suc (length (remove1 k (iv_accepts sv1))) = length (iv_accepts sv1)" and ms: "add_mset k (mset (remove1 k (iv_accepts sv1))) = mset (iv_accepts sv1)"
      by (simp_all add: Suc_length_remove1)
    have sv': "sv' = sv1\<lparr>iv_accepts := remove1 k (iv_accepts sv1)\<rparr>" using main AcceptFailed by (simp add: Let_def sv1_def res_iff)
    have "streams_of (lost @ [k]) sv' = streams_of lost sv1" unfolding sv' using ms [symmetric] by (simp add: streams_of_def pooled_def del: mset_remove1)
    moreover have "pooled sv' = pooled sv1" by (simp add: sv' pooled_def)
    ultimately show ?thesis using inv1 full hang AcceptFailed len by (auto simp: acceptor_inv_def sv' unat_eq_zero)
  next
    case (Accepted k address)
    then obtain sv2 b sv3 where 2: "IoAccept k address sv1 = Inr sv2" and 3: "AcceptSocket (\<lambda>_. True) sv2 = Inr (b, sv3)"
      and sv': "sv' = (if b then sv3 else sv3\<lparr>iv_hang_acceptor_count := iv_hang_acceptor_count sv3 + 1\<rparr>)"
      using main by (auto simp: Let_def sv1_def res_iff simp del: if_split_asm split del: if_split)
    have k: "k \<in> set (iv_accepts sv1)" using assms(2) sub Accepted by auto
    note io = IoAccept_ok(1) [OF 2 k, of lost] IoAccept_ok(2-5) [OF 2 k]
    show ?thesis
    proof (cases b)
      case True
      have "m = 0" using full AcceptSocket_ok(2) [OF 3, of lost] True 3 io(5)
        by (auto simp: AcceptSocket_def Pool_Pop_def stack_try_pop_eq pooled_def split: option.splits list.splits)
      then show ?thesis using AcceptSocket_ok [OF 3] True sv' io inv1 hang Accepted by (auto simp: acceptor_inv_def unat_eq_zero)
    next
      case False
      have "unat (iv_hang_acceptor_count sv3 + 1) = Suc m"
      proof -
        have "Suc m \<le> unat (parallel_acceptor_count config)" using inv1 hang io(2) by (simp add: acceptor_inv_def)
        then have "Suc m < 4294967296" using unsigned_less [of "parallel_acceptor_count config", where ?'a = nat] by simp
        then show ?thesis using hang io(3) AcceptSocket_ok(1) [OF 3] False by (simp add: unat_word_ariths)
      qed
      then show ?thesis using AcceptSocket_ok(1) [OF 3] False sv' io inv1 hang Accepted by (auto simp: acceptor_inv_def streams_of_def pooled_def)
    qed
  qed
qed

lemma start_accepts_ok:
  assumes "start_accepts (\<lambda>_. True) n sv = Inr (True, sv')" "iv_acceptor_socket_pool sv \<noteq> None"
  shows "streams_of lost sv' = streams_of lost sv \<and> length (iv_accepts sv') = length (iv_accepts sv) + n \<and>
    iv_hang_acceptor_count sv' = iv_hang_acceptor_count sv \<and> iv_acceptor_socket_pool sv' \<noteq> None"
  using assms
proof (induction n arbitrary: sv)
  case (Suc n)
  from Suc.prems(1) obtain sv1 where 1: "AcceptSocket (\<lambda>_. True) sv = Inr (True, sv1)" and rest: "start_accepts (\<lambda>_. True) n sv1 = Inr (True, sv')"
    by (auto simp: res_iff)
  show ?case using Suc.IH [OF rest] AcceptSocket_ok [OF 1] by auto
qed simp

lemma one_chunk_pool:
  assumes "new_ObjectPool n n 1 = Inr (Some p)"
  shows "mset (map bl_id (op_pool p)) = mset (map of_nat [1..<Suc (unat n)])"
proof -
  have "allocate_loop n n 0 ([], 1) = Some (AllocateChunk (unat n) ([], 1))" if "0 < n"
    using that by (subst allocate_loop.simps, simp, subst allocate_loop.simps, simp)
  then have "op_pool p = rev (map (\<lambda>i. \<lparr>bl_id = 1 + of_nat i, bl_is_heap_allocation = False\<rparr>) [0..<unat n])"
    using assms by (auto simp: new_ObjectPool_def res_iff AllocateChunk_eq)
  moreover have "[1..<Suc (unat n)] = map Suc [0..<unat n]" by (simp add: map_Suc_upt del: upt_Suc)
  ultimately show ?thesis by (simp add: o_def image_mset.compositionality del: upt_Suc)
qed

lemma start_inv:
  assumes "InitializeAcceptor os True True (idle_server config e ticks) = Inr (True, sv0)" "IocpSocketServer_Start (\<lambda>_. True) None 1 sv0 = Inr (Some 0, sv)"
  shows "acceptor_inv config [] sv"
proof -
  obtain p e' where p: "new_ObjectPool (max_acceptable_socket_count config) (max_acceptable_socket_count config) 1 = Inr (Some p)"
    and sv0: "sv0 = (idle_server config e ticks)\<lparr>iv_acceptor_socket_pool := Some p, iv_engine := e', iv_acceptor_stream := True\<rparr>"
    using assms(1) by (auto simp: InitializeAcceptor_def new_socket_pool_def idle_server_def res_iff)
  have streams: "streams_of [] (sv0\<lparr>iv_start := True\<rparr>) = mset (acceptor_ids config)"
    using one_chunk_pool [OF p] by (simp add: streams_of_def pooled_def sv0 idle_server_def acceptor_ids_def del: upt_Suc)
  obtain b where "start_accepts (\<lambda>_. True) (unat (parallel_acceptor_count config)) (sv0\<lparr>iv_start := True\<rparr>) = Inr (b, sv)" "b"
    using assms(2) by (auto simp: IocpSocketServer_Start_def sv0 idle_server_def Let_def res_iff split: if_splits)
  then show ?thesis
    using start_accepts_ok [of "unat (parallel_acceptor_count config)" "sv0\<lparr>iv_start := True\<rparr>" sv "[]"] streams
    by (simp add: acceptor_inv_def sv0 idle_server_def)
qed

lemma acceptor_run_inv: "acceptor_run config lost sv \<Longrightarrow> acceptor_inv config lost sv"
proof (induction rule: acceptor_run.induct)
  case (start os e ticks sv0 sv)
  then show ?case by (rule start_inv)
next
  case (round lost sv event sv')
  then show ?case using round_inv by blast
next
  case (work lost sv e')
  then show ?case by (simp add: acceptor_inv_def)
next
  case (deleted lost sv k)
  then obtain p where p: "iv_acceptor_socket_pool sv = Some p" by (auto simp: acceptor_inv_def)
  have "add_mset k (mset (remove1 k (iv_live sv))) = mset (iv_live sv)" using deleted.hyps(2) by simp
  then have "streams_of lost (stream_deleted \<lparr>bl_id = k, bl_is_heap_allocation = False\<rparr> (sv\<lparr>iv_live := remove1 k (iv_live sv)\<rparr>)) = streams_of lost sv"
    using deleted.hyps(3) p unfolding streams_of_def
    by (simp add: stream_deleted_def pooled_def Pool_Push_def stack_push_def not_le [symmetric] del: mset_remove1)
  then show ?case using deleted.IH deleted.hyps(3) p by (simp add: acceptor_inv_def stream_deleted_def not_le [symmetric])
qed


text \<open>Failed accepts are not repeated. Once as many accepts have failed as \<^verbatim>\<open>parallel_acceptor_count\<close>, with errors that
  \<^verbatim>\<open>AcceptorMain\<close> tolerates, no accept is in progress, none is waiting, and no event but the timeout can occur, which changes nothing: the server
  accepts nobody any more, whatever is in the pool.\<close>

theorem failed_accepts_end_service:
  assumes "acceptor_run config lost sv" and "length lost = unat (parallel_acceptor_count config)"
  shows "iv_accepts sv = [] \<and> iv_hang_acceptor_count sv = 0 \<and>
     (set (event_stream event) \<subseteq> set (iv_accepts sv) \<longleftrightarrow> event = WaitTimeout) \<and> AcceptorMain accept_ex WaitTimeout sv = Inr sv"
proof -
  have "iv_accepts sv = []" "unat (iv_hang_acceptor_count sv) = 0" using acceptor_run_inv [OF assms(1)] assms(2) by (simp_all add: acceptor_inv_def)
  then show ?thesis by (cases event) (simp_all add: AcceptorMain_def unat_eq_zero)
qed

definition sample_config :: SocketServerConfig where
  "sample_config = \<lparr>parallel_acceptor_count = 1, max_connectable_socket_count = 2, max_acceptable_socket_count = 2, worker_count = 1,
     read_buffer_pool_size = 4, read_buffer_capacity = 4096, write_buffer_pool_size = 4, write_buffer_capacity = 4096, update_tick = 10\<rparr>"

lemma sample_pool:
  "new_ObjectPool 2 2 1 = Inr (Some \<lparr>op_pool = [\<lparr>bl_id = 2, bl_is_heap_allocation = False\<rparr>, \<lparr>bl_id = 1, bl_is_heap_allocation = False\<rparr>],
     op_object_sequence = 3\<rparr>)"
  by (simp add: new_ObjectPool_def allocate_loop.simps [of 2 2 0] allocate_loop.simps [of 2 2 2] AllocateChunk_eq upt_conv_Cons)

lemma sample_acceptor: "\<exists>sv. acceptor_run sample_config [] sv \<and> iv_accepts sv = [2] \<and> iv_hang_acceptor_count sv = 0"
proof -
  let ?t = "\<lparr>op_pool = [], op_object_sequence = 1\<rparr>"
  obtain sv0 where sv0: "InitializeAcceptor (\<lambda>_. SocketReady) True True (idle_server sample_config sample_start ?t) = Inr (True, sv0)"
    by (simp add: InitializeAcceptor_def idle_server_def new_socket_pool_def sample_pool SocketInitializer_Initialize_def sample_config_def)
  then have fields: "iv_acceptor_socket_pool sv0 = Some \<lparr>op_pool = [\<lparr>bl_id = 2, bl_is_heap_allocation = False\<rparr>, \<lparr>bl_id = 1, bl_is_heap_allocation = False\<rparr>],
        op_object_sequence = 3\<rparr>" "iv_is_initialized sv0" "iv_acceptor_stream sv0" "iv_config sv0 = sample_config" "iv_accepts sv0 = []" "iv_hang_acceptor_count sv0 = 0"
      and stream: "\<exists>es. ne_streams (iv_engine sv0) 2 = Some es \<and> st_read_free (en_stream es) = 4"
    by (auto simp: InitializeAcceptor_def idle_server_def new_socket_pool_def sample_pool SocketInitializer_Initialize_def sample_config_def
        put_stream_def)
  obtain sv where "IocpSocketServer_Start (\<lambda>_. True) None 1 sv0 = Inr (Some 0, sv)" "iv_accepts sv = [2]" "iv_hang_acceptor_count sv = 0"
    using fields stream
    by (auto simp: IocpSocketServer_Start_def Let_def sample_config_def AcceptSocket_def Pool_Pop_def TransmitAccept_def stream_at_def AllocateReadBuffer_def)
  then show ?thesis using acceptor_run.start [OF sv0] by blast
qed


theorem failed_accepts_end_service_witness:
  "\<exists>sv. acceptor_run sample_config [2] sv \<and> iv_accepts sv = [] \<and> AcceptorMain (\<lambda>_. True) WaitTimeout sv = Inr sv"
proof -
  obtain sv where sv: "acceptor_run sample_config [] sv" "iv_accepts sv = [2]" "iv_hang_acceptor_count sv = 0" using sample_acceptor by blast
  have "AcceptorMain (\<lambda>_. True) (AcceptFailed 2 NetnameDeleted) sv = Inr (sv\<lparr>iv_accepts := []\<rparr>)" using sv by (simp add: AcceptorMain_def)
  then have "acceptor_run sample_config [2] (sv\<lparr>iv_accepts := []\<rparr>)"
    using acceptor_run.round [OF sv(1), of "AcceptFailed 2 NetnameDeleted"] sv(2) by simp
  then show ?thesis using failed_accepts_end_service [of sample_config "[2]"] by (intro exI [of _ "sv\<lparr>iv_accepts := []\<rparr>"]) (simp add: sample_config_def)
qed

section \<open>Refused accepts\<close>

text \<open>When \<^verbatim>\<open>AcceptEx\<close> refuses, the stream is returned to the pool twice: by the reference in the context that is released, and by
  \<^verbatim>\<open>AcceptSocket\<close>. The next two accepts then use one and the same stream.\<close>

theorem refused_accept_duplicates_stream:
  assumes "iv_acceptor_socket_pool sv = Some p" and "op_pool p = block # blocks" and "\<not> bl_is_heap_allocation block"
    and "bl_id block < CONNECTOR_SOCKET_START_ID" and "ne_streams (iv_engine sv) (bl_id block) = Some es" and "st_read_free (en_stream es) > 1"
    and "\<not> accept_ex (bl_id block)" and "iv_accepts sv = []"
  shows "\<exists>sv1 sv2 sv3. AcceptSocket accept_ex sv = Inr (False, sv1) \<and> pooled sv1 = bl_id block # bl_id block # map bl_id blocks \<and>
     AcceptSocket (\<lambda>_. True) sv1 = Inr (True, sv2) \<and> AcceptSocket (\<lambda>_. True) sv2 = Inr (True, sv3) \<and> iv_accepts sv3 = [bl_id block, bl_id block]"
proof -
  let ?sv1 = "sv\<lparr>iv_acceptor_socket_pool := Some (p\<lparr>op_pool := block # block # blocks\<rparr>)\<rparr>"
  have "\<not> CONNECTOR_SOCKET_START_ID \<le> bl_id block" using assms(4) by simp
  then have 1: "AcceptSocket accept_ex sv = Inr (False, ?sv1)"
    using assms(1-3,5-7) by (simp add: AcceptSocket_def Pool_Pop_def TransmitAccept_def stream_at_def AllocateReadBuffer_def stream_deleted_def
        Pool_Push_def stack_push_def)
  have "\<exists>sv2 sv3. AcceptSocket (\<lambda>_. True) ?sv1 = Inr (True, sv2) \<and> AcceptSocket (\<lambda>_. True) sv2 = Inr (True, sv3) \<and>
      iv_accepts sv3 = [bl_id block, bl_id block]"
    using assms(5,6,8) by (simp add: AcceptSocket_def Pool_Pop_def TransmitAccept_def stream_at_def AllocateReadBuffer_def put_stream_def)
  then show ?thesis using 1 by (auto simp: pooled_def)
qed

section \<open>Ticks that nobody handles\<close>

lemma send_ticks_ok:
  "length handles \<le> length (op_pool (iv_tick_pool sv)) \<Longrightarrow>
   \<exists>sv'. send_ticks handles sv = Inr sv' \<and> length (op_pool (iv_tick_pool sv')) = length (op_pool (iv_tick_pool sv)) - length handles \<and>
     iv_start sv' = iv_start sv \<and> iv_config sv' = iv_config sv"
proof (induction handles arbitrary: sv)
  case (Cons h hs)
  then obtain b bs where b: "op_pool (iv_tick_pool sv) = b # bs" by (cases "op_pool (iv_tick_pool sv)") auto
  show ?case using Cons.IH [of "sv\<lparr>iv_tick_pool := (iv_tick_pool sv)\<lparr>op_pool := bs\<rparr>, iv_ticks := iv_ticks sv @ [(h, b)]\<rparr>"] Cons.prems b
    by (auto simp: Pool_Pop_def)
qed simp

lemma send_ticks_fail: "length (op_pool (iv_tick_pool sv)) < length handles \<Longrightarrow> send_ticks handles sv = Inl NullDeref"
proof (induction handles arbitrary: sv)
  case (Cons h hs)
  then show ?case by (cases "op_pool (iv_tick_pool sv)") (simp_all add: Pool_Pop_def)
qed simp

lemma tick_rounds:
  assumes "iv_start sv" "update_tick (iv_config sv) \<noteq> 0" "n * unat (worker_count (iv_config sv)) \<le> length (op_pool (iv_tick_pool sv))"
  shows "\<exists>sv'. foldr_res (\<lambda>_. TickMain) [0..<n] sv = Inr sv' \<and> iv_start sv' \<and> iv_config sv' = iv_config sv \<and>
    length (op_pool (iv_tick_pool sv')) = length (op_pool (iv_tick_pool sv)) - n * unat (worker_count (iv_config sv))"
  using assms(3)
proof (induction n)
  case (Suc n)
  then obtain sv1 where 1: "foldr_res (\<lambda>_. TickMain) [0..<n] sv = Inr sv1" "iv_start sv1" "iv_config sv1 = iv_config sv"
      "length (op_pool (iv_tick_pool sv1)) = length (op_pool (iv_tick_pool sv)) - n * unat (worker_count (iv_config sv))" by auto
  obtain sv2 where "send_ticks [0..<unat (worker_count (iv_config sv))] sv1 = Inr sv2" "iv_start sv2" "iv_config sv2 = iv_config sv"
      "length (op_pool (iv_tick_pool sv2)) = length (op_pool (iv_tick_pool sv)) - n * unat (worker_count (iv_config sv)) - unat (worker_count (iv_config sv))"
    using send_ticks_ok [of "[0..<unat (worker_count (iv_config sv))]" sv1, OF _] Suc.prems 1 by (simp add: le_diff_conv2) blast
  then show ?case using 1 by (simp add: foldr_res_append TickMain_def [of sv1] assms(2) diff_diff_left add.commute)
qed (use assms(1) in simp)

text \<open>The ticks overrun. The pool that \<^verbatim>\<open>TickMain\<close> takes its contexts from holds eight for each worker. If the workers handle none of them during
  eight rounds, the ninth dereferences the null pointer that the empty pool returns.\<close>

theorem unhandled_ticks_crash:
  assumes "iv_start sv" and "update_tick (iv_config sv) \<noteq> 0" and "worker_count (iv_config sv) > 0" and "unat (worker_count (iv_config sv)) * 9 < 2 ^ 32"
    and "tick_pool (iv_config sv) = Inr (Some (iv_tick_pool sv))"
  shows "\<exists>sv'. foldr_res (\<lambda>_. TickMain) [0..<8] sv = Inr sv' \<and> TickMain sv' = Inl NullDeref"
proof -
  let ?w = "worker_count (iv_config sv)"
  have w: "unat (?w * 8) = unat ?w * 8" using assms(4) by (simp add: unat_word_ariths)
  obtain p where "new_ObjectPool (?w * 8) ?w 1 = Inr (Some p)" "length (op_pool p) = unat (?w * 8)"
    using object_pool_construction [of ?w "?w * 8" 1] assms(3,4) w by auto
  then have len: "length (op_pool (iv_tick_pool sv)) = 8 * unat ?w" using assms(5) w by (simp add: tick_pool_def)
  obtain sv' where "foldr_res (\<lambda>_. TickMain) [0..<8] sv = Inr sv'" "iv_start sv'" "iv_config sv' = iv_config sv" "op_pool (iv_tick_pool sv') = []"
    using tick_rounds [OF assms(1,2), of 8] len by auto
  moreover have "0 < unat ?w" using assms(3) by (simp add: unat_gt_0)
  ultimately show ?thesis using send_ticks_fail [of sv' "[0..<unat ?w]"] assms(2) by (auto simp: TickMain_def)
qed

theorem unhandled_ticks_crash_witness:
  "\<exists>sv sv'. iv_config sv = sample_config \<and> foldr_res (\<lambda>_. TickMain) [0..<8] sv = Inr sv' \<and> TickMain sv' = Inl NullDeref"
proof -
  obtain p where p: "tick_pool sample_config = Inr (Some p)"
    using object_pool_construction [of 1 8 1] by (auto simp: tick_pool_def sample_config_def)
  let ?sv = "(idle_server sample_config sample_start p)\<lparr>iv_start := True\<rparr>"
  have "\<exists>sv'. foldr_res (\<lambda>_. TickMain) [0..<8] ?sv = Inr sv' \<and> TickMain sv' = Inl NullDeref"
    by (rule unhandled_ticks_crash) (use p in \<open>simp_all add: idle_server_def sample_config_def\<close>)
  moreover have "iv_config ?sv = sample_config" by (simp add: idle_server_def)
  ultimately show ?thesis by blast
qed

theorem refused_accept_duplicates_stream_witness:
  "\<exists>sv sv1. AcceptSocket (\<lambda>_. False) sv = Inr (False, sv1) \<and> pooled sv1 = [6, 6, 8]"
proof -
  let ?b = "\<lambda>i. \<lparr>bl_id = i, bl_is_heap_allocation = False\<rparr>"
  let ?sv = "(idle_server sample_config sample_start \<lparr>op_pool = [], op_object_sequence = 1\<rparr>)
     \<lparr>iv_acceptor_socket_pool := Some \<lparr>op_pool = [?b 6, ?b 8], op_object_sequence = 9\<rparr>\<rparr>"
  have "\<exists>sv1 sv2 sv3. AcceptSocket (\<lambda>_. False) ?sv = Inr (False, sv1) \<and> pooled sv1 = bl_id (?b 6) # bl_id (?b 6) # map bl_id [?b 8] \<and>
     AcceptSocket (\<lambda>_. True) sv1 = Inr (True, sv2) \<and> AcceptSocket (\<lambda>_. True) sv2 = Inr (True, sv3) \<and> iv_accepts sv3 = [bl_id (?b 6), bl_id (?b 6)]"
    by (rule refused_accept_duplicates_stream [where es = sample_stream and p = "\<lparr>op_pool = [?b 6, ?b 8], op_object_sequence = 9\<rparr>"])
      (simp_all add: idle_server_def CONNECTOR_SOCKET_START_ID_def sample_start_def Engine_Initialize_def sample_stream_def)
  then show ?thesis by auto
qed

section \<open>The server drives the engine\<close>

text \<open>What the threads of the server do to the engine are steps of the engine, so all that holds for its runs holds below this server.\<close>

lemma two_steps: "R a b \<Longrightarrow> R b c \<Longrightarrow> R\<^sup>*\<^sup>* a c"
  by (meson r_into_rtranclp rtranclp.rtrancl_into_rtrancl)

lemma io_dispatch_steps:
  assumes "io_dispatch pack unpack slots key garbage now i c e = Inr e'"
  shows "(engine_step pack unpack slots wh)\<^sup>*\<^sup>* e e'"
proof (cases "ic_operation c")
  case ReadOp
  then show ?thesis using assms by (auto simp: io_dispatch_def intro: engine_step.read)
next
  case WriteIoOp
  then show ?thesis using assms by (auto simp: io_dispatch_def intro: engine_step.written)
next
  case TickOp
  then show ?thesis using assms by (auto simp: io_dispatch_def intro: engine_step.tick)
next
  case DisconnectIoOp
  then obtain e1 where "OnDisconnect pack slots (ic_stream c) (ic_attachment c) e = Inr e1" "return_write (ic_buffer c) (ic_stream c) e1 = Inr e'"
    using assms by (auto simp: io_dispatch_def res_iff)
  then show ?thesis unfolding return_write_def by (intro two_steps [of _ e e1]) (rule engine_step.disconnect, assumption, rule engine_step.stream)
next
  case AcceptOp
  then obtain e1 where "OnAccept now (ic_stream c) e = Inr e1" "return_read (ic_stream c) e1 = Inr e'" using assms by (auto simp: io_dispatch_def res_iff)
  then show ?thesis unfolding return_read_def by (intro two_steps [of _ e e1]) (rule engine_step.accept, assumption, rule engine_step.stream)
next
  case ConnectOp
  then obtain e1 where 1: "IoConnect pack now c e = Inr e1" and 2: "return_write (ic_buffer c) (ic_stream c) e1 = Inr e'"
    using assms by (auto simp: io_dispatch_def res_iff)
  have "(engine_step pack unpack slots wh)\<^sup>*\<^sup>* e e1"
  proof (cases "ic_connected c")
    case True
    then obtain e2 where "on_stream (ic_stream c) (\<lambda>es. es\<lparr>en_stream := snd (SetConnectionStatus True (en_stream es))\<rparr>) e = Inr e2"
        and "OnConnect pack now (Some (ic_stream c)) (ic_attachment c) e2 = Inr e1"
      using 1 by (auto simp: IoConnect_def res_iff)
    then show ?thesis by (intro two_steps [of _ e e2]) (rule engine_step.stream, assumption, rule engine_step.connect)
  next
    case False
    then show ?thesis using 1 by (intro r_into_rtranclp engine_step.connect) (simp add: IoConnect_def)
  qed
  moreover have "engine_step pack unpack slots wh e1 e'" using 2 unfolding return_write_def by (rule engine_step.stream)
  ultimately show ?thesis by (rule rtranclp.rtrancl_into_rtrancl)
qed (use assms in \<open>simp add: io_dispatch_def\<close>)

lemma server_run:
  assumes "IoMain pack unpack slots key garbage now i c sv = Inr (b, sv')" "engine_run pack unpack slots wh (iv_engine sv)"
  shows "engine_run pack unpack slots wh (iv_engine sv')"
proof -
  have same: "iv_engine (return_tick i sv) = iv_engine sv" for i sv by (simp add: return_tick_def split: option.split prod.split)
  then have "(engine_step pack unpack slots wh)\<^sup>*\<^sup>* (iv_engine sv) (iv_engine sv')"
    using assms(1) by (auto simp: IoMain_def res_iff same split: if_splits intro: io_dispatch_steps)
  then show ?thesis by (induction rule: rtranclp_induct) (use assms(2) in \<open>auto intro: engine_run.step\<close>)
qed

end
