(* ===== verification/NestedMap.thy ===== *)
theory NestedMap
  imports Concurrent
begin

text \<open>
  \<^verbatim>\<open>utility/MultiDimensionMap.h\<close>: a map whose keys are sequences, kept as a tree of hash maps, and the contract it shares with
  \<^verbatim>\<open>ConcurrentMap\<close>. An element that \<^verbatim>\<open>operator[]\<close> creates on the way has the default value and is not enabled. A key vector with its size is a
  list; \<^verbatim>\<open>TryGet\<close> leaves its result untouched when it fails (\<open>None\<close>).
\<close>

datatype ('k, 'v) Node = Node (node_value: 'v) (value_enabled: bool) (next_node_map: "('k \<times> ('k, 'v) Node) list")

definition empty_node :: "'v \<Rightarrow> ('k, 'v) Node" where
  "empty_node d = Node d False []"

fun InsertNode :: "'v \<Rightarrow> 'k list \<Rightarrow> 'v \<Rightarrow> ('k, 'v) Node \<Rightarrow> ('k, 'v) Node" where
  "InsertNode d [] v (Node _ _ m) = Node v True m"
| "InsertNode d (k # ks) v (Node w b m) =
    (let (child, m1) = um_at (empty_node d) k m in Node w b (um_set k (InsertNode d ks v child) m1))"

fun FindValue :: "'k list \<Rightarrow> ('k, 'v) Node \<Rightarrow> 'v option" where
  "FindValue [] (Node v b m) = (if b then Some v else None)"
| "FindValue (k # ks) (Node v b m) = (case um_find m k of None \<Rightarrow> None | Some child \<Rightarrow> FindValue ks child)"

definition MultiDimensionMap_Insert :: "'v \<Rightarrow> 'k \<Rightarrow> 'v \<Rightarrow> ('k, 'v) Node \<Rightarrow> ('k, 'v) Node" where
  "MultiDimensionMap_Insert d k v = InsertNode d [k] v"

definition MultiDimensionMap_TryGet :: "'k \<Rightarrow> ('k, 'v) Node \<Rightarrow> 'v option" where
  "MultiDimensionMap_TryGet k = FindValue [k]"

section \<open>The contract of a map\<close>

text \<open>A table that is filled by insertions. A later insertion for a key replaces an earlier one.\<close>

locale lookup_table =
  fixes new :: 't and insert :: "'k \<Rightarrow> 'v \<Rightarrow> 't \<Rightarrow> 't" and lookup :: "'k \<Rightarrow> 't \<Rightarrow> 'v option"
  assumes lookup_new: "lookup k new = None"
    and lookup_insert: "lookup k' (insert k v t) = (if k' = k then Some v else lookup k' t)"
begin

definition filled :: "('k \<times> 'v) list \<Rightarrow> 't" where
  "filled kvs = fold (\<lambda>(k, v). insert k v) kvs new"

lemma lookup_fold: "lookup k (fold (\<lambda>(k, v). insert k v) kvs t) = (case map_of (rev kvs) k of None \<Rightarrow> lookup k t | Some v \<Rightarrow> Some v)"
proof (induction kvs arbitrary: t)
  case (Cons kv kvs)
  then show ?case by (cases kv) (auto simp: lookup_insert map_add_def split: option.split)
qed simp

lemma lookup_filled: "lookup k (filled kvs) = map_of (rev kvs) k"
  by (simp add: filled_def lookup_fold lookup_new split: option.split)

lemma filled_cong: "map_of (rev kvs) = map_of (rev kvs') \<Longrightarrow> lookup k (filled kvs) = lookup k (filled kvs')"
  by (simp add: lookup_filled)

end

lemma FindValue_empty: "FindValue ks (empty_node d) = None"
  by (cases ks) (simp_all add: empty_node_def)

lemma FindValue_Insert: "FindValue ks' (InsertNode d ks v n) = (if ks' = ks then Some v else FindValue ks' n)"
proof (induction d ks v n arbitrary: ks' rule: InsertNode.induct)
  case (1 d v w b m)
  then show ?case by (cases ks') simp_all
next
  case (2 d k ks v w b m)
  let ?child = "um_get (empty_node d) k m"
  obtain m1 where at: "um_at (empty_node d) k m = (?child, m1)" and m1: "um_find m1 k' = (if k' = k then Some ?child else um_find m k')" for k'
    using um_at_fst [of "empty_node d" k m] um_at_find [of "empty_node d" k m] by (cases "um_at (empty_node d) k m") auto
  have child: "FindValue ls ?child = (case um_find m k of None \<Rightarrow> None | Some c \<Rightarrow> FindValue ls c)" for ls
    by (cases "um_find m k") (simp_all add: FindValue_empty)
  show ?case
  proof (cases ks')
    case (Cons k' ls)
    show ?thesis using 2 [OF at [symmetric] refl, of ls] child [of ls] Cons by (auto simp: at m1)
  qed (simp add: at)
qed

interpretation nested: lookup_table "empty_node d" "InsertNode d" FindValue for d
  by unfold_locales (simp_all add: FindValue_empty FindValue_Insert)

interpretation concurrent: lookup_table "[] :: ('k, 'v) umap" "\<lambda>k v m. snd (cm_Insert k v m)" cm_TryGet
  by unfold_locales (simp_all add: cm_TryGet_def cm_Insert_def)

text \<open>C32. A \<^verbatim>\<open>MultiDimensionMap\<close> is equivalent to a flat map from key sequences. After any insertions, a lookup of any sequence of keys gives what
  the last insertion for exactly that sequence put there, and nothing if there was none: neither a prefix of an inserted sequence
  nor an extension of one is found.\<close>

theorem nested_map_equals_flat_map:
  "FindValue ks (fold (\<lambda>(ks, v). InsertNode d ks v) kvs (empty_node d)) = map_of (rev kvs) ks"
  using nested.lookup_filled [of ks d kvs] by (simp add: nested.filled_def)

end
