(* ===== verification/CloudConfig.thy ===== *)
theory CloudConfig
  imports SocketServers Supervisor
begin

text \<open>
  How a server gets its configuration from the supervisor before it starts: \<^verbatim>\<open>engine/CloudConfigManager.cpp\<close>.

  The worker of the manager runs on an engine of its own and leaves the configuration in a queue; the main thread polls the queue every 100
  milliseconds. The packets that arrive between two polls are the input of \<open>GetCloudConfig\<close>.
\<close>

definition default_config :: SocketServerConfig where
  "default_config = \<lparr>parallel_acceptor_count = 1, max_connectable_socket_count = 256, max_acceptable_socket_count = 1024, worker_count = 2,
     read_buffer_pool_size = 8, read_buffer_capacity = 65536, write_buffer_pool_size = 8, write_buffer_capacity = 65536, update_tick = 0\<rparr>"

definition default_option :: NetworkEngineOption where
  "default_option = \<lparr>socket_idle_timeout_ms = 5000, session_idle_timeout_ms = 5000, session_heartbeat_interval_ms = 2000, max_session_count = 64,
     use_session_reconnect = False, session_reconnect_timeout_ms = 30000, worker_update_tick_ms = 500\<rparr>"

text \<open>\<^verbatim>\<open>SocketServerConfig _config = { 0 }\<close> sets the first member only.\<close>

definition unset_config :: SocketServerConfig where
  "unset_config = default_config\<lparr>parallel_acceptor_count := 0\<rparr>"

text \<open>What the operating system does for a socket server, and \<^verbatim>\<open>NetworkEngine::Start\<close>, which also starts the worker; a worker that runs
  keeps its tick.\<close>

record os_calls =
  os_socket :: "u64 \<Rightarrow> socket_setup"
  os_ports :: bool
  os_acceptor_ready :: bool
  os_acceptor_registered :: bool
  os_accept_ex :: "u64 \<Rightarrow> bool"
  os_bind_error :: "u32 option"
  os_last_error :: u32

definition LinearWorker_Start :: "int \<Rightarrow> int \<Rightarrow> int" where
  "LinearWorker_Start tick current = (if current \<noteq> 0 then current else tick)"

definition NetworkEngine_Start :: "os_calls \<Rightarrow> int \<Rightarrow> IocpSocketServer \<Rightarrow> (u32 option \<times> int \<times> IocpSocketServer) res" where
  "NetworkEngine_Start os tick sv =
    rbind (IocpSocketServer_Start (os_accept_ex os) (os_bind_error os) (os_last_error os) sv) (\<lambda>(result, sv1).
    Inr (result,
      if result = Some 0 then LinearWorker_Start (int (unat (worker_update_tick_ms (ne_option (iv_engine sv1))))) tick else tick, sv1))"

record CloudConfigManager =
  cc_server_type :: ServerType
  cc_config_server_address :: SocketAddress
  cc_server :: IocpSocketServer
  cc_connector_id :: u64
  cc_update_tick :: int
  cc_result_queue :: "ServerConfig LinearWorkQueue"

definition CC_OnSocketSessionConnected :: "(Packet \<Rightarrow> u8 list) \<Rightarrow> CloudConfigManager \<Rightarrow> SocketSession \<Rightarrow> SocketSession res" where
  "CC_OnSocketSessionConnected pack m session = Session_Send pack (P_load_server_config_rq (cc_server_type m)) None' session"

definition CC_OnSocketSessionData ::
  "PacketType option \<times> Packet option \<Rightarrow> ServerConfig LinearWorkQueue \<Rightarrow> ServerConfig LinearWorkQueue res" where
  "CC_OnSocketSessionData = (\<lambda>(packet_type, body) q.
    if packet_type \<noteq> Some T_load_server_config_rs then Inl (Throw ''connected server is not a cloud config server'')
    else
      case body of
        Some (P_load_server_config_rs config) \<Rightarrow> Inr (snd (TryPush 64 config q))
      | _ \<Rightarrow> Inl (Throw ''cloud config server packet mismatch''))"

text \<open>\<^verbatim>\<open>RequestCloudConfig\<close>. The engine is initialised before the socket server, so it takes the number of workers from a configuration that is not set yet.\<close>

definition RequestCloudConfig ::
  "os_calls \<Rightarrow> nat \<Rightarrow> (u64 \<Rightarrow> u8 list) \<Rightarrow> ObjectPool \<Rightarrow> CloudConfigManager \<Rightarrow> CloudConfigManager res" where
  "RequestCloudConfig os queue_room keys ticks m =
    (let engine_option = default_option\<lparr>max_session_count := 2\<rparr>;
         e = Engine_Initialize engine_option unset_config queue_room keys (\<lambda>_. None);
         config = default_config\<lparr>read_buffer_pool_size := 4, write_buffer_pool_size := 4, parallel_acceptor_count := 1, worker_count := 1,
                    max_acceptable_socket_count := 2, max_connectable_socket_count := 2\<rparr>;
         sv = (idle_server unset_config e ticks)\<lparr>iv_is_initialized := False\<rparr> in
     rbind (IocpSocketServer_Initialize (os_socket os) (os_ports os) config sv) (\<lambda>(initialized, sv1).
     if \<not> initialized then Inl (Throw ''failed to initialize socket server'')
     else
       rbind (NetworkEngine_Start os 0 sv1) (\<lambda>(started, tick, sv2).
       if started \<noteq> Some 0 then Inl (Throw ''failed to start network engine'')
       else
         let (c, e2) = Engine_RegisterConnectorSocket (cc_config_server_address m) 0 (iv_engine sv2) in
         rbind (Connect (os_socket os) (cc_config_server_address m) c (sv2\<lparr>iv_engine := e2\<rparr>)) (\<lambda>sv3.
         Inr (m\<lparr>cc_server := sv3, cc_connector_id := c, cc_update_tick := tick\<rparr>)))))"

text \<open>The loop of \<^verbatim>\<open>GetCloudConfig\<close>. A round is one sleep: the packets that the worker of the manager gets during it and the
  socket server as its threads leave it. The result is \<open>None\<close> when the loop waits for more than the given rounds.\<close>

type_synonym poll_round = "(PacketType option \<times> Packet option) list \<times> IocpSocketServer"

fun await_config :: "poll_round list \<Rightarrow> CloudConfigManager \<Rightarrow> (ServerConfig \<times> CloudConfigManager) option res" where
  "await_config rounds m =
    (case TryPop (cc_result_queue m) of
       (Some config, q) \<Rightarrow> Inr (Some (config, m\<lparr>cc_result_queue := q\<rparr>))
     | (None, q) \<Rightarrow>
       (case rounds of
          [] \<Rightarrow> Inr None
        | (arrived, sv) # rest \<Rightarrow>
            rbind (foldr_res CC_OnSocketSessionData arrived q) (\<lambda>q1.
            await_config rest (m\<lparr>cc_server := sv, cc_result_queue := LockSubmissionQueue q1\<rparr>))))"

declare await_config.simps [simp del]

definition GetCloudConfig :: "poll_round list \<Rightarrow> CloudConfigManager \<Rightarrow> (ServerConfig \<times> CloudConfigManager) option res" where
  "GetCloudConfig rounds m =
    rbind (await_config rounds m) (\<lambda>r.
    case r of
      None \<Rightarrow> Inr None
    | Some (config, m1) \<Rightarrow>
        rbind (Engine_UnregisterConnectorSocket (cc_connector_id m1) (iv_engine (cc_server m1))) (\<lambda>e.
        Inr (Some (config, m1\<lparr>cc_server := (cc_server m1)\<lparr>iv_engine := e\<rparr>\<rparr>))))"

abbreviation queue_idle :: "CloudConfigManager \<Rightarrow> bool" where
  "queue_idle m \<equiv> lq_first (cc_result_queue m) = [] \<and> lq_second (cc_result_queue m) = []"

lemma await_config_wait:
  "queue_idle m \<Longrightarrow> await_config ((arrived, sv) # rest) m =
    rbind (foldr_res CC_OnSocketSessionData arrived (cc_result_queue m)) (\<lambda>q1.
    await_config rest (m\<lparr>cc_server := sv, cc_result_queue := LockSubmissionQueue q1\<rparr>))"
  by (subst await_config.simps) (simp add: TryPop_def fetch_def)

lemma await_config_idle:
  "queue_idle m \<Longrightarrow> \<forall>r \<in> set idle. fst r = [] \<Longrightarrow>
    \<exists>m'. await_config (idle @ rounds) m = await_config rounds m' \<and> queue_idle m' \<and> cc_connector_id m' = cc_connector_id m"
proof (induction idle arbitrary: m)
  case (Cons r idle)
  obtain sv where r: "r = ([], sv)" using Cons.prems(2) by (cases r) auto
  show ?case
    using Cons.IH [of "m\<lparr>cc_server := sv, cc_result_queue := LockSubmissionQueue (cc_result_queue m)\<rparr>"] Cons.prems
    by (simp add: r await_config_wait LockSubmissionQueue_def)
qed auto

lemma await_config_answer:
  "queue_idle m \<Longrightarrow> \<exists>m'. await_config [([(Some T_load_server_config_rs, Some (P_load_server_config_rs config))], sv)] m = Inr (Some (config, m')) \<and>
    cc_server m' = sv \<and> cc_connector_id m' = cc_connector_id m"
  by (simp add: await_config_wait CC_OnSocketSessionData_def TryPush_def try_push_at_def await_config.simps [of "[]"] LockSubmissionQueue_def
      TryPop_def fetch_def)

lemma Engine_UnregisterConnectorSocket_removes:
  assumes "\<forall>info k. um_find (ne_connector_list e) c = Some info \<and> ci_stream info = Some k \<longrightarrow> ne_streams e k \<noteq> None"
  shows "\<exists>e'. Engine_UnregisterConnectorSocket c e = Inr e' \<and> um_find (ne_connector_list e') c = None"
  using assms by (auto simp: Engine_UnregisterConnectorSocket_def cm_Remove_def transmit_disconnect_def on_stream_def stream_at_def put_stream_def
      Let_def split: option.splits)

text \<open>C12. A server gets the configuration that the supervisor sends it. However long the main thread has polled in vain, once the
  supervisor's answer to the request of an agency or of a play server has arrived, the next poll returns the configuration in the answer:
  the configuration of agencies, or the one of play servers with the supervisor's next port. The connector to the supervisor is then
  unregistered, provided the stream it may hold exists.\<close>

theorem cloud_config_delivered:
  assumes "server_type = AgencyServer \<or> server_type = PlayServer"
    and "queue_idle m" "\<forall>r \<in> set idle. fst r = []"
    and "\<forall>info k. um_find (ne_connector_list (iv_engine server)) (cc_connector_id m) = Some info \<and> ci_stream info = Some k \<longrightarrow>
           ne_streams (iv_engine server) k \<noteq> None"
  shows "\<exists>config m'. sv_out (OnServerLoadServerConfig garbage session server_type sv) =
       sv_out sv @ [SvSend session (P_load_server_config_rs config) None'] \<and>
     config = (if server_type = AgencyServer then AgencyServerConfig else PlayServerConfig\<lparr>intra_server_listen_port := sv_server_port sv\<rparr>) \<and>
     GetCloudConfig (idle @ [([(Some T_load_server_config_rs, Some (P_load_server_config_rs config))], server)]) m = Inr (Some (config, m')) \<and>
     um_find (ne_connector_list (iv_engine (cc_server m'))) (cc_connector_id m) = None"
proof -
  define config where "config = (if server_type = AgencyServer then AgencyServerConfig else PlayServerConfig\<lparr>intra_server_listen_port := sv_server_port sv\<rparr>)"
  define answer where "answer = [([(Some T_load_server_config_rs, Some (P_load_server_config_rs config))], server)]"
  obtain m1 where 1: "await_config (idle @ answer) m = await_config answer m1" "queue_idle m1" "cc_connector_id m1 = cc_connector_id m"
    using await_config_idle [OF assms(2,3), of answer] by blast
  obtain m2 where 2: "await_config answer m1 = Inr (Some (config, m2))" "cc_server m2 = server" "cc_connector_id m2 = cc_connector_id m"
    using await_config_answer [OF 1(2), of config server] 1(3) unfolding answer_def by auto
  obtain e where 3: "Engine_UnregisterConnectorSocket (cc_connector_id m) (iv_engine server) = Inr e"
      "um_find (ne_connector_list e) (cc_connector_id m) = None"
    using Engine_UnregisterConnectorSocket_removes [OF assms(4)] by blast
  have "GetCloudConfig (idle @ answer) m = Inr (Some (config, m2\<lparr>cc_server := server\<lparr>iv_engine := e\<rparr>\<rparr>))"
    using 1 2 3 by (simp add: GetCloudConfig_def)
  moreover have "sv_out (OnServerLoadServerConfig garbage session server_type sv) = sv_out sv @ [SvSend session (P_load_server_config_rs config) None']"
    using assms(1) by (auto simp: OnServerLoadServerConfig_def config_def sv_emit_def)
  ultimately show ?thesis
    using 3(2) unfolding answer_def
    by (intro exI [of _ config] exI [of _ "m2\<lparr>cc_server := server\<lparr>iv_engine := e\<rparr>\<rparr>"]) (auto simp: config_def)
qed

definition polled_server :: IocpSocketServer where
  "polled_server = idle_server unset_config
     (snd (Engine_RegisterConnectorSocket \<lparr>sa_ip = ''10.0.0.1'', sa_port = 9000\<rparr> 0 (Engine_Initialize default_option unset_config 8 (\<lambda>_. []) (\<lambda>_. None))))
     \<lparr>op_pool = [], op_object_sequence = 1\<rparr>"

definition requesting :: CloudConfigManager where
  "requesting = \<lparr>cc_server_type = AgencyServer, cc_config_server_address = \<lparr>sa_ip = ''10.0.0.1'', sa_port = 9000\<rparr>, cc_server = polled_server, cc_connector_id = 1, cc_update_tick = 500,
     cc_result_queue = new_LinearWorkQueue\<rparr>"

theorem cloud_config_delivered_witness:
  "\<exists>m'. GetCloudConfig [([], polled_server), ([(Some T_load_server_config_rs, Some (P_load_server_config_rs AgencyServerConfig))], polled_server)]
      requesting = Inr (Some (AgencyServerConfig, m'))"
  using cloud_config_delivered [where server_type = AgencyServer and m = requesting and idle = "[([], polled_server)]" and server = polled_server
      and garbage = AgencyServerConfig and session = 7 and sv = "new_Supervisor 0"]
  by (auto simp: requesting_def polled_server_def new_LinearWorkQueue_def Engine_RegisterConnectorSocket_def Engine_Initialize_def cm_Insert_def
      no_connector_def idle_server_def Let_def)

end
