(* ===== verification/Startup.thy ===== *)
theory Startup
  imports CloudConfig Agency PlayWorkers
begin

text \<open>
  The main programs \<^verbatim>\<open>agency/agency.cpp\<close>, \<^verbatim>\<open>play/play.cpp\<close> and \<^verbatim>\<open>supervisor/supervisor.cpp\<close>: how a process puts socket servers, engines
  and worker together and starts them. The configuration that an agency or a play server gets from the supervisor is an argument. Both
  engines of a process share one worker, whose tick is \<open>gp_update_tick\<close>.
\<close>

section \<open>The main programs\<close>

text \<open>Before an engine is attached to a socket server, only its table of streams is used.\<close>

definition no_engine :: NetworkEngine where
  "no_engine = Engine_Initialize (default_option\<lparr>max_session_count := 0\<rparr>) (unset_config\<lparr>worker_count := 0\<rparr>) 0 (\<lambda>_. []) (\<lambda>_. None)"

definition new_IocpSocketServer :: IocpSocketServer where
  "new_IocpSocketServer = (idle_server unset_config no_engine \<lparr>op_pool = [], op_object_sequence = 1\<rparr>)\<lparr>iv_is_initialized := False\<rparr>"

definition prepare_server :: "os_calls \<Rightarrow> string \<Rightarrow> SocketServerConfig \<Rightarrow> IocpSocketServer \<Rightarrow> IocpSocketServer res" where
  "prepare_server os name config sv =
    rbind (IocpSocketServer_Initialize (os_socket os) (os_ports os) config sv) (\<lambda>(initialized, sv1).
    if \<not> initialized then Inl (Throw (''failed to initialize '' @ name))
    else
      rbind (InitializeAcceptor (os_socket os) (os_acceptor_ready os) (os_acceptor_registered os) sv1) (\<lambda>(initialized, sv2).
      if \<not> initialized then Inl (Throw (''failed to initialize '' @ name @ '' acceptor'')) else Inr sv2))"

definition attach_engine :: "NetworkEngineOption \<Rightarrow> nat \<Rightarrow> (u64 \<Rightarrow> u8 list) \<Rightarrow> IocpSocketServer \<Rightarrow> IocpSocketServer" where
  "attach_engine option queue_room keys sv = sv\<lparr>iv_engine := Engine_Initialize option (iv_config sv) queue_room keys (ne_streams (iv_engine sv))\<rparr>"

record ('h, 'g) GameProcess =
  gp_intra :: IocpSocketServer
  gp_user :: IocpSocketServer
  gp_update_tick :: int
  gp_server :: "('h, 'g) GameServer"

definition SupervisorAddress :: SocketAddress where
  "SupervisorAddress = \<lparr>sa_ip = ''127.0.0.1'', sa_port = 9987\<rparr>"

text \<open>What the two game programs have in common. \<open>os_i\<close> and \<open>os_u\<close> are the operating system as the server for other servers and the one for
  users see it; \<open>initialize\<close> is \<^verbatim>\<open>GameServer::Initialize\<close> with the server's own address, which also connects to the supervisor.\<close>

definition game_main ::
  "os_calls \<Rightarrow> os_calls \<Rightarrow> nat \<Rightarrow> (u64 \<Rightarrow> u8 list) \<Rightarrow> string \<Rightarrow> string \<Rightarrow> (SocketAddress \<Rightarrow> GameConfig \<Rightarrow> ('h, 'g) GameServer option) \<Rightarrow> ServerConfig \<Rightarrow>
   ('h, 'g) GameProcess res" where
  "game_main os_i os_u queue_room keys worker_failure user_failure initialize config =
    rbind (prepare_server os_i ''intra server'' (intra_socket_server_config config) new_IocpSocketServer) (\<lambda>intra.
    rbind (prepare_server os_u ''user server'' (user_socket_server_config config) new_IocpSocketServer) (\<lambda>user.
    let intra1 = attach_engine (intra_network_engine_option config) queue_room keys intra;
        user1 = attach_engine (user_network_engine_option config) queue_room keys user in
    case initialize \<lparr>sa_ip = ''127.0.0.1'', sa_port = intra_server_listen_port config\<rparr> (game_config config) of
      None \<Rightarrow> Inl (Throw worker_failure)
    | Some server \<Rightarrow>
        let (c, e) = Engine_RegisterConnectorSocket SupervisorAddress SUPERVISOR_SERVER_ID (iv_engine intra1) in
        rbind (Connect (os_socket os_i) SupervisorAddress c (intra1\<lparr>iv_engine := e\<rparr>)) (\<lambda>intra2.
        rbind (NetworkEngine_Start os_i 0 intra2) (\<lambda>(started, tick, intra3).
        if started \<noteq> Some 0 then Inl (Throw ''failed to start intra server engine'')
        else
          rbind (NetworkEngine_Start os_u tick user1) (\<lambda>(started, tick, user2).
          if started \<noteq> Some 0 then Inl (Throw user_failure)
          else Inr \<lparr>gp_intra = intra3, gp_user = user2, gp_update_tick = tick, gp_server = server\<rparr>)))))"

definition agency_initialize :: "int \<Rightarrow> u64 \<Rightarrow> ServerInfo \<Rightarrow> 'h \<Rightarrow> SocketAddress \<Rightarrow> GameConfig \<Rightarrow> ('h, AgencyState) GameServer option" where
  "agency_initialize now loopback zero heap address =
    GS_Initialize now loopback zero heap new_AgencyState AgencyServer address
      [\<lparr>ic_server_type = PlayServer, ic_connection_policy = ConnectAll, ic_sector_listening_policy = ListenNot\<rparr>] SupervisorAddress"

definition agency_main ::
  "os_calls \<Rightarrow> os_calls \<Rightarrow> nat \<Rightarrow> (u64 \<Rightarrow> u8 list) \<Rightarrow> int \<Rightarrow> u64 \<Rightarrow> ServerInfo \<Rightarrow> 'h \<Rightarrow> ServerConfig \<Rightarrow> ('h, AgencyState) GameProcess res" where
  "agency_main os_i os_u queue_room keys now loopback zero heap =
    game_main os_i os_u queue_room keys ''failed to initialize agency worker'' ''failed to initialize user server engine''
      (agency_initialize now loopback zero heap)"

definition play_initialize :: "int \<Rightarrow> u64 \<Rightarrow> ServerInfo \<Rightarrow> 'h \<Rightarrow> SocketAddress \<Rightarrow> GameConfig \<Rightarrow> ('h, World) GameServer option" where
  "play_initialize now loopback zero heap address =
    GS_Initialize now loopback zero heap new_World PlayServer address
      [\<lparr>ic_server_type = PlayServer, ic_connection_policy = ConnectAll, ic_sector_listening_policy = ListenNot\<rparr>,
       \<lparr>ic_server_type = AgencyServer, ic_connection_policy = ConnectNot, ic_sector_listening_policy = ListenAll\<rparr>] SupervisorAddress"

definition play_main ::
  "os_calls \<Rightarrow> os_calls \<Rightarrow> nat \<Rightarrow> (u64 \<Rightarrow> u8 list) \<Rightarrow> int \<Rightarrow> u64 \<Rightarrow> ServerInfo \<Rightarrow> 'h \<Rightarrow> ServerConfig \<Rightarrow> ('h, World) GameProcess res" where
  "play_main os_i os_u queue_room keys now loopback zero heap =
    game_main os_i os_u queue_room keys ''failed to initialize play worker'' ''failed to start user server engine''
      (play_initialize now loopback zero heap)"

definition supervisor_config :: SocketServerConfig where
  "supervisor_config = default_config\<lparr>read_buffer_capacity := 65536, read_buffer_pool_size := 16, max_acceptable_socket_count := 32,
     max_connectable_socket_count := 32, parallel_acceptor_count := 8, update_tick := 500, worker_count := 4\<rparr>"

definition supervisor_option :: NetworkEngineOption where
  "supervisor_option = default_option\<lparr>max_session_count := 100, session_idle_timeout_ms := 180000, session_heartbeat_interval_ms := 100,
     socket_idle_timeout_ms := 50000, use_session_reconnect := False, worker_update_tick_ms := 100\<rparr>"

definition supervisor_main :: "os_calls \<Rightarrow> nat \<Rightarrow> (u64 \<Rightarrow> u8 list) \<Rightarrow> int \<Rightarrow> (IocpSocketServer \<times> int \<times> Supervisor) res" where
  "supervisor_main os queue_room keys now =
    rbind (prepare_server os ''supervisor server'' supervisor_config new_IocpSocketServer) (\<lambda>sv.
    rbind (NetworkEngine_Start os 0 (attach_engine supervisor_option queue_room keys sv)) (\<lambda>(started, tick, sv1).
    if started \<noteq> Some 0 then Inl (Throw ''failed to start supervisor server engine'') else Inr (sv1, tick, new_Supervisor now)))"

section \<open>Socket servers that start\<close>

definition config_ok :: "SocketServerConfig \<Rightarrow> bool" where
  "config_ok c \<longleftrightarrow>
    read_buffer_capacity c \<noteq> 0 \<and> read_buffer_capacity c mod 4096 = 0 \<and> write_buffer_capacity c \<noteq> 0 \<and> write_buffer_capacity c mod 4096 = 0 \<and>
    \<not> read_buffer_pool_size c < 4 \<and> \<not> write_buffer_pool_size c < 4 \<and> worker_count c > 0 \<and>
    0 < max_connectable_socket_count c \<and> unat (max_connectable_socket_count c) < 2 ^ 31 \<and>
    0 < max_acceptable_socket_count c \<and> unat (max_acceptable_socket_count c) < 2 ^ 31 \<and>
    unat (parallel_acceptor_count c) \<le> unat (max_acceptable_socket_count c)"

definition os_works :: "os_calls \<Rightarrow> bool" where
  "os_works os \<longleftrightarrow> os_socket os = (\<lambda>_. SocketReady) \<and> os_ports os \<and> os_acceptor_ready os \<and> os_acceptor_registered os \<and>
     os_accept_ex os = (\<lambda>_. True) \<and> os_bind_error os = None"

definition has_buffers :: "NetworkEngine \<Rightarrow> u64 \<Rightarrow> bool" where
  "has_buffers e i \<longleftrightarrow> (\<exists>es. ne_streams e i = Some es \<and> st_read_free (en_stream es) > 0 \<and> st_write_free (en_stream es) > 0)"

definition pool_ready :: "nat \<Rightarrow> NetworkEngine \<Rightarrow> ObjectPool option \<Rightarrow> bool" where
  "pool_ready n e p \<longleftrightarrow> (\<exists>pool. p = Some pool \<and> length (op_pool pool) = n \<and> distinct (map bl_id (op_pool pool)) \<and>
     (\<forall>b \<in> set (op_pool pool). \<not> bl_is_heap_allocation b \<and> has_buffers e (bl_id b)))"

definition server_ready :: "SocketServerConfig \<Rightarrow> IocpSocketServer \<Rightarrow> bool" where
  "server_ready config sv \<longleftrightarrow> iv_config sv = config \<and> iv_is_initialized sv \<and> iv_acceptor_stream sv \<and> iv_accepts sv = [] \<and> iv_connects sv = [] \<and>
     pool_ready (unat (max_acceptable_socket_count config)) (iv_engine sv) (iv_acceptor_socket_pool sv) \<and>
     pool_ready (unat (max_connectable_socket_count config)) (iv_engine sv) (iv_connector_socket_pool sv)"

lemma fresh_streams:
  assumes "os = (\<lambda>_. SocketReady)" "config_ok config"
  shows "\<exists>e'. foldr_res (\<lambda>i e. rbind (SocketInitializer_Initialize os config i) (\<lambda>es. Inr (put_stream i es e))) ids e = Inr e' \<and>
    (\<forall>i. i \<in> set ids \<or> has_buffers e i \<longrightarrow> has_buffers e' i)"
proof (induction ids arbitrary: e)
  case (Cons i ids)
  have "worker_count config \<noteq> 0" "0 < unat (read_buffer_pool_size config)" "0 < unat (write_buffer_pool_size config)"
    using assms(2) by (auto simp: config_ok_def word_less_nat_alt)
  then obtain es where es: "SocketInitializer_Initialize os config i = Inr es" "st_read_free (en_stream es) > 0" "st_write_free (en_stream es) > 0"
    using assms(1) by (auto simp: SocketInitializer_Initialize_def)
  show ?case using Cons.IH [of "put_stream i es e"] es by (auto simp: has_buffers_def put_stream_def)
qed simp

lemma new_socket_pool_ready:
  assumes "os = (\<lambda>_. SocketReady)" "config_ok config" "0 < n" "unat n < 2 ^ 31" "unat start < 2 ^ 32"
  shows "\<exists>pool e'. new_socket_pool os config n start e = Inr (pool, e') \<and> pool_ready (unat n) e' (Some pool) \<and> (\<forall>i. has_buffers e i \<longrightarrow> has_buffers e' i)"
proof -
  obtain pool where pool: "new_ObjectPool n n start = Inr (Some pool)" "length (op_pool pool) = unat n" "distinct (map bl_id (op_pool pool))"
    using object_pool_construction [of n n start] assms(3-5) by auto
  have "allocate_loop n n 0 ([], start) = Some (AllocateChunk (unat n) ([], start))"
    using assms(3) by (subst allocate_loop.simps, simp, subst allocate_loop.simps, simp)
  then have heap: "\<forall>b \<in> set (op_pool pool). \<not> bl_is_heap_allocation b"
    using pool(1) by (auto simp: new_ObjectPool_def res_iff AllocateChunk_eq)
  obtain e' where "foldr_res (\<lambda>i e. rbind (SocketInitializer_Initialize os config i) (\<lambda>es. Inr (put_stream i es e))) (rev (map bl_id (op_pool pool))) e = Inr e'"
      "\<forall>i. i \<in> set (rev (map bl_id (op_pool pool))) \<or> has_buffers e i \<longrightarrow> has_buffers e' i"
    using fresh_streams [OF assms(1,2)] by blast
  then show ?thesis using pool heap by (auto simp: new_socket_pool_def pool_ready_def)
qed

lemma pool_ready_mono: "pool_ready n e p \<Longrightarrow> \<forall>i. has_buffers e i \<longrightarrow> has_buffers e' i \<Longrightarrow> pool_ready n e' p"
  by (auto simp: pool_ready_def)

lemma prepare_server_ready:
  assumes "os_works os" "config_ok config"
  shows "\<exists>sv. prepare_server os name config new_IocpSocketServer = Inr sv \<and> server_ready config sv"
proof -
  have os: "os_socket os = (\<lambda>_. SocketReady)" "os_ports os" "os_acceptor_ready os" "os_acceptor_registered os" using assms(1) by (auto simp: os_works_def)
  have c: "read_buffer_capacity config \<noteq> 0" "read_buffer_capacity config mod 4096 = 0" "write_buffer_capacity config \<noteq> 0"
    "write_buffer_capacity config mod 4096 = 0" "\<not> read_buffer_pool_size config < 4" "\<not> write_buffer_pool_size config < 4"
    "0 < max_connectable_socket_count config" "unat (max_connectable_socket_count config) < 2 ^ 31"
    "0 < max_acceptable_socket_count config" "unat (max_acceptable_socket_count config) < 2 ^ 31"
    using assms(2) by (auto simp: config_ok_def)
  obtain p e1 where 1: "new_socket_pool (os_socket os) config (max_connectable_socket_count config) CONNECTOR_SOCKET_START_ID no_engine = Inr (p, e1)"
    and p: "pool_ready (unat (max_connectable_socket_count config)) e1 (Some p)"
    using new_socket_pool_ready [OF os(1) assms(2) c(7,8), of CONNECTOR_SOCKET_START_ID no_engine] by (auto simp: CONNECTOR_SOCKET_START_ID_def)
  obtain q e2 where 2: "new_socket_pool (os_socket os) config (max_acceptable_socket_count config) 1 e1 = Inr (q, e2)"
    and q: "pool_ready (unat (max_acceptable_socket_count config)) e2 (Some q)" "\<forall>i. has_buffers e1 i \<longrightarrow> has_buffers e2 i"
    using new_socket_pool_ready [OF os(1) assms(2) c(9,10), of 1 e1] by auto
  let ?sv = "new_IocpSocketServer\<lparr>iv_is_initialized := True, iv_config := config, iv_connector_socket_pool := Some p,
      iv_acceptor_socket_pool := Some q, iv_engine := e2, iv_acceptor_stream := True\<rparr>"
  have "prepare_server os name config new_IocpSocketServer = Inr ?sv"
    using 1 2 c(1-6) os by (simp add: prepare_server_def IocpSocketServer_Initialize_def InitializeAcceptor_def new_IocpSocketServer_def idle_server_def)
  moreover have "server_ready config ?sv"
    using pool_ready_mono [OF p q(2)] q(1) by (simp add: server_ready_def new_IocpSocketServer_def idle_server_def)
  ultimately show ?thesis by blast
qed

lemma attach_engine_ready: "server_ready config sv \<Longrightarrow> server_ready config (attach_engine option queue_room keys sv)"
  by (simp add: server_ready_def attach_engine_def pool_ready_def has_buffers_def Engine_Initialize_def Let_def)

text \<open>An accept takes the next stream; the others keep their buffers.\<close>

definition readable :: "NetworkEngine \<Rightarrow> ObjectBlock list \<Rightarrow> bool" where
  "readable e blocks \<longleftrightarrow> (\<forall>b \<in> set blocks. \<exists>es. ne_streams e (bl_id b) = Some es \<and> st_read_free (en_stream es) > 0)"

lemma start_accepts_succeeds:
  "iv_acceptor_socket_pool sv = Some p \<Longrightarrow> distinct (map bl_id (op_pool p)) \<Longrightarrow> readable (iv_engine sv) (op_pool p) \<Longrightarrow> n \<le> length (op_pool p) \<Longrightarrow>
   \<exists>sv'. start_accepts (\<lambda>_. True) n sv = Inr (True, sv') \<and> length (iv_accepts sv') = length (iv_accepts sv) + n \<and> iv_connects sv' = iv_connects sv \<and>
     iv_config sv' = iv_config sv \<and> ne_option (iv_engine sv') = ne_option (iv_engine sv) \<and> ne_pool (iv_engine sv') = ne_pool (iv_engine sv) \<and>
     ne_connector_list (iv_engine sv') = ne_connector_list (iv_engine sv)"
proof (induction n arbitrary: sv p)
  case (Suc n)
  then obtain b bs where b: "op_pool p = b # bs" by (cases "op_pool p") auto
  then obtain es where es: "ne_streams (iv_engine sv) (bl_id b) = Some es" "st_read_free (en_stream es) > 0"
    using Suc.prems(3) by (auto simp: readable_def)
  let ?es = "es\<lparr>en_stream := (en_stream es)\<lparr>st_read_free := st_read_free (en_stream es) - 1\<rparr>\<rparr>"
  let ?sv = "sv\<lparr>iv_acceptor_socket_pool := Some (p\<lparr>op_pool := bs\<rparr>), iv_engine := put_stream (bl_id b) ?es (iv_engine sv), iv_accepts := iv_accepts sv @ [bl_id b]\<rparr>"
  have "AcceptSocket (\<lambda>_. True) sv = Inr (True, ?sv)"
    using Suc.prems(1) b es by (simp add: AcceptSocket_def Pool_Pop_def TransmitAccept_def stream_at_def AllocateReadBuffer_def)
  moreover have "readable (iv_engine ?sv) bs" using Suc.prems(2,3) b by (auto simp: readable_def put_stream_def image_iff)
  ultimately show ?case using Suc.IH [of ?sv "p\<lparr>op_pool := bs\<rparr>"] Suc.prems(2,4) b by (auto simp: put_stream_def)
qed auto

lemma NetworkEngine_Start_ready:
  assumes "os_works os" "config_ok config" "iv_config sv = config" "iv_is_initialized sv" "iv_acceptor_stream sv" "iv_accepts sv = []"
    and p: "iv_acceptor_socket_pool sv = Some p" "length (op_pool p) = unat (max_acceptable_socket_count config)" "distinct (map bl_id (op_pool p))"
      "readable (iv_engine sv) (op_pool p)"
  shows "\<exists>sv'. NetworkEngine_Start os tick sv =
      Inr (Some 0, LinearWorker_Start (int (unat (worker_update_tick_ms (ne_option (iv_engine sv))))) tick, sv') \<and>
    length (iv_accepts sv') = unat (parallel_acceptor_count config) \<and> iv_connects sv' = iv_connects sv \<and>
    ne_pool (iv_engine sv') = ne_pool (iv_engine sv) \<and> ne_connector_list (iv_engine sv') = ne_connector_list (iv_engine sv)"
proof -
  obtain sv' where "start_accepts (\<lambda>_. True) (unat (parallel_acceptor_count config)) (sv\<lparr>iv_start := True\<rparr>) = Inr (True, sv')"
      "length (iv_accepts sv') = unat (parallel_acceptor_count config)" "iv_connects sv' = iv_connects sv"
      "ne_option (iv_engine sv') = ne_option (iv_engine sv)" "ne_pool (iv_engine sv') = ne_pool (iv_engine sv)"
      "ne_connector_list (iv_engine sv') = ne_connector_list (iv_engine sv)"
    using start_accepts_succeeds [of "sv\<lparr>iv_start := True\<rparr>" p "unat (parallel_acceptor_count config)"] p assms(2,6) by (auto simp: config_ok_def)
  then show ?thesis
    using assms(1,3-5) by (auto simp: NetworkEngine_Start_def IocpSocketServer_Start_def os_works_def Let_def)
qed

lemma Connect_ready:
  assumes "os_works os" "config_ok config" "server_ready config sv"
  shows "\<exists>k sv'. Connect (os_socket os) address c sv = Inr sv' \<and> iv_connects sv' = [(k, address, c)] \<and> iv_config sv' = config \<and> iv_is_initialized sv' \<and>
    iv_acceptor_stream sv' \<and> iv_accepts sv' = [] \<and> ne_option (iv_engine sv') = ne_option (iv_engine sv) \<and>
    ne_pool (iv_engine sv') = ne_pool (iv_engine sv) \<and> ne_connector_list (iv_engine sv') = ne_connector_list (iv_engine sv) \<and>
    (\<exists>p. iv_acceptor_socket_pool sv' = Some p \<and> length (op_pool p) = unat (max_acceptable_socket_count config) \<and> distinct (map bl_id (op_pool p)) \<and>
      readable (iv_engine sv') (op_pool p))"
proof -
  obtain q where q: "iv_connector_socket_pool sv = Some q" "length (op_pool q) = unat (max_connectable_socket_count config)"
      "\<forall>b \<in> set (op_pool q). \<not> bl_is_heap_allocation b \<and> has_buffers (iv_engine sv) (bl_id b)"
    using assms(3) by (auto simp: server_ready_def pool_ready_def)
  have "0 < unat (max_connectable_socket_count config)" using assms(2) by (auto simp: config_ok_def word_less_nat_alt)
  then obtain b bs where b: "op_pool q = b # bs" using q(2) by (cases "op_pool q") auto
  then obtain es where es: "ne_streams (iv_engine sv) (bl_id b) = Some es" "st_read_free (en_stream es) > 0" "st_write_free (en_stream es) > 0"
      and heap: "\<not> bl_is_heap_allocation b"
    using q(3) by (auto simp: has_buffers_def)
  let ?es = "es\<lparr>en_stream := (en_stream es)\<lparr>st_write_free := st_write_free (en_stream es) - 1\<rparr>\<rparr>"
  let ?sv = "sv\<lparr>iv_connector_socket_pool := Some (q\<lparr>op_pool := bs\<rparr>), iv_engine := put_stream (bl_id b) ?es (iv_engine sv),
      iv_connects := [(bl_id b, address, c)]\<rparr>"
  have "Connect (os_socket os) address c sv = Inr ?sv"
    using q(1) b es heap assms(3) by (simp add: Connect_def Pool_Pop_def TransmitConnect_def stream_at_def AllocateWriteBuffer_def server_ready_def)
  moreover have "readable (iv_engine ?sv) (op_pool p)" if "\<forall>b \<in> set (op_pool p). has_buffers (iv_engine sv) (bl_id b)" for p
    using that es(2) by (fastforce simp: readable_def has_buffers_def put_stream_def)
  ultimately show ?thesis
    using assms(3) by (intro exI [of _ "bl_id b"] exI [of _ ?sv]) (auto simp: server_ready_def pool_ready_def put_stream_def)
qed

section \<open>Processes that start\<close>

lemma register_ready:
  "server_ready config sv \<Longrightarrow> server_ready config (sv\<lparr>iv_engine := snd (Engine_RegisterConnectorSocket address attachment (iv_engine sv))\<rparr>)"
  by (simp add: server_ready_def pool_ready_def has_buffers_def Engine_RegisterConnectorSocket_def Let_def)

definition runs :: "SocketServerConfig \<Rightarrow> NetworkEngineOption \<Rightarrow> IocpSocketServer \<Rightarrow> bool" where
  "runs config option sv \<longleftrightarrow> length (iv_accepts sv) = unat (parallel_acceptor_count config) \<and>
     length (ne_pool (iv_engine sv)) = unat (max_session_count option)"

lemma game_main_starts:
  assumes os: "os_works os_i" "os_works os_u"
    and config: "config_ok (intra_socket_server_config config)" "config_ok (user_socket_server_config config)"
    and server: "initialize \<lparr>sa_ip = ''127.0.0.1'', sa_port = intra_server_listen_port config\<rparr> (game_config config) = Some server"
    and tick: "worker_update_tick_ms (intra_network_engine_option config) \<noteq> 0"
  shows "\<exists>p k. game_main os_i os_u queue_room keys failure1 failure2 initialize config = Inr p \<and> gp_server p = server \<and>
    gp_update_tick p = int (unat (worker_update_tick_ms (intra_network_engine_option config))) \<and>
    runs (intra_socket_server_config config) (intra_network_engine_option config) (gp_intra p) \<and>
    runs (user_socket_server_config config) (user_network_engine_option config) (gp_user p) \<and>
    iv_connects (gp_intra p) = [(k, SupervisorAddress, 1)] \<and>
    map_option ci_remote_address (um_find (ne_connector_list (iv_engine (gp_intra p))) 1) = Some SupervisorAddress"
proof -
  let ?ci = "intra_socket_server_config config" and ?cu = "user_socket_server_config config"
  let ?oi = "intra_network_engine_option config" and ?ou = "user_network_engine_option config"
  obtain intra where 1: "prepare_server os_i ''intra server'' ?ci new_IocpSocketServer = Inr intra" "server_ready ?ci intra"
    using prepare_server_ready [OF os(1) config(1)] by blast
  obtain user where 2: "prepare_server os_u ''user server'' ?cu new_IocpSocketServer = Inr user" "server_ready ?cu user"
    using prepare_server_ready [OF os(2) config(2)] by blast
  let ?intra = "attach_engine ?oi queue_room keys intra" and ?user = "attach_engine ?ou queue_room keys user"
  obtain c e where 3: "Engine_RegisterConnectorSocket SupervisorAddress SUPERVISOR_SERVER_ID (iv_engine ?intra) = (c, e)" by fastforce
  then have e: "c = 1" "ne_pool e = ne_pool (iv_engine ?intra)" "ne_option e = ?oi"
      "map_option ci_remote_address (um_find (ne_connector_list e) 1) = Some SupervisorAddress"
    by (auto simp: Engine_RegisterConnectorSocket_def attach_engine_def Engine_Initialize_def cm_Insert_def Let_def)
  have "server_ready ?ci (?intra\<lparr>iv_engine := e\<rparr>)"
    using register_ready [OF attach_engine_ready [OF 1(2)]] 3 by (metis snd_conv)
  from Connect_ready [OF os(1) config(1) this, of SupervisorAddress c] obtain k intra2 p where
    4: "Connect (os_socket os_i) SupervisorAddress c (?intra\<lparr>iv_engine := e\<rparr>) = Inr intra2" "iv_connects intra2 = [(k, SupervisorAddress, c)]"
      "iv_config intra2 = ?ci" "iv_is_initialized intra2" "iv_acceptor_stream intra2" "iv_accepts intra2 = []"
      "iv_acceptor_socket_pool intra2 = Some p" "length (op_pool p) = unat (max_acceptable_socket_count ?ci)" "distinct (map bl_id (op_pool p))"
      "readable (iv_engine intra2) (op_pool p)"
    and 5: "ne_option (iv_engine intra2) = ?oi" "ne_pool (iv_engine intra2) = ne_pool e" "ne_connector_list (iv_engine intra2) = ne_connector_list e"
    using e by auto
  obtain intra3 where 6: "NetworkEngine_Start os_i 0 intra2 = Inr (Some 0, int (unat (worker_update_tick_ms ?oi)), intra3)"
      "length (iv_accepts intra3) = unat (parallel_acceptor_count ?ci)" "iv_connects intra3 = iv_connects intra2"
      "ne_pool (iv_engine intra3) = ne_pool e" "ne_connector_list (iv_engine intra3) = ne_connector_list e"
    using NetworkEngine_Start_ready [OF os(1) config(1) 4(3-10), of 0] 5 by (auto simp: LinearWorker_Start_def)
  obtain q where q: "iv_acceptor_socket_pool ?user = Some q" "length (op_pool q) = unat (max_acceptable_socket_count ?cu)" "distinct (map bl_id (op_pool q))"
      "readable (iv_engine ?user) (op_pool q)"
    using attach_engine_ready [OF 2(2), of ?ou queue_room keys] unfolding server_ready_def pool_ready_def readable_def has_buffers_def by blast
  have u: "iv_config ?user = ?cu" "iv_is_initialized ?user" "iv_acceptor_stream ?user" "iv_accepts ?user = []"
    using attach_engine_ready [OF 2(2), of ?ou queue_room keys] by (simp_all add: server_ready_def)
  obtain user2 where 7: "NetworkEngine_Start os_u (int (unat (worker_update_tick_ms ?oi))) ?user =
        Inr (Some 0, int (unat (worker_update_tick_ms ?oi)), user2)"
      "length (iv_accepts user2) = unat (parallel_acceptor_count ?cu)" "ne_pool (iv_engine user2) = ne_pool (iv_engine ?user)"
    using NetworkEngine_Start_ready [OF os(2) config(2) u q, of "int (unat (worker_update_tick_ms ?oi))"] tick by (auto simp: LinearWorker_Start_def uint_0_iff)
  have "game_main os_i os_u queue_room keys failure1 failure2 initialize config =
      Inr \<lparr>gp_intra = intra3, gp_user = user2, gp_update_tick = int (unat (worker_update_tick_ms ?oi)), gp_server = server\<rparr>"
    using 1(1) 2(1) 3 4(1) 6(1) 7(1) server by (simp add: game_main_def)
  moreover have "length (ne_pool e) = unat (max_session_count ?oi)" "length (ne_pool (iv_engine user2)) = unat (max_session_count ?ou)"
    using e(2) 7(3) by (simp_all add: attach_engine_def Engine_Initialize_def Let_def del: upt_Suc)
  ultimately show ?thesis using e 4(2) 6 7(2) by (auto simp: runs_def)
qed

lemma supervisor_starts:
  assumes "os_works os"
  shows "\<exists>sv. supervisor_main os queue_room keys now = Inr (sv, 100, new_Supervisor now) \<and> length (iv_accepts sv) = 8 \<and> length (ne_pool (iv_engine sv)) = 100"
proof -
  have ok: "config_ok supervisor_config" by (simp add: config_ok_def supervisor_config_def default_config_def)
  obtain sv where 1: "prepare_server os ''supervisor server'' supervisor_config new_IocpSocketServer = Inr sv" "server_ready supervisor_config sv"
    using prepare_server_ready [OF assms ok] by blast
  let ?sv = "attach_engine supervisor_option queue_room keys sv"
  have ready: "server_ready supervisor_config ?sv" by (rule attach_engine_ready) (rule 1(2))
  obtain q where q: "iv_acceptor_socket_pool ?sv = Some q" "length (op_pool q) = unat (max_acceptable_socket_count supervisor_config)"
      "distinct (map bl_id (op_pool q))" "readable (iv_engine ?sv) (op_pool q)"
    using ready unfolding server_ready_def pool_ready_def readable_def has_buffers_def by blast
  have u: "iv_config ?sv = supervisor_config" "iv_is_initialized ?sv" "iv_acceptor_stream ?sv" "iv_accepts ?sv = []"
    using ready by (simp_all add: server_ready_def)
  have e: "ne_option (iv_engine ?sv) = supervisor_option" "length (ne_pool (iv_engine ?sv)) = 100"
    by (simp_all add: attach_engine_def Engine_Initialize_def Let_def supervisor_option_def default_option_def del: upt_Suc)
  show ?thesis using NetworkEngine_Start_ready [OF assms ok u q, of 0] 1(1) e
    by (auto simp: supervisor_main_def LinearWorker_Start_def supervisor_option_def supervisor_config_def default_config_def)
qed

lemma agency_config:
  "config_ok (intra_socket_server_config AgencyServerConfig)" "config_ok (user_socket_server_config AgencyServerConfig)"
  "unat (parallel_acceptor_count (intra_socket_server_config AgencyServerConfig)) = 1"
  "unat (parallel_acceptor_count (user_socket_server_config AgencyServerConfig)) = 4"
  "unat (max_session_count (intra_network_engine_option AgencyServerConfig)) = 256"
  "unat (max_session_count (user_network_engine_option AgencyServerConfig)) = 1024"
  "worker_update_tick_ms (intra_network_engine_option AgencyServerConfig) = 33"
  by (simp_all add: config_ok_def AgencyServerConfig_def)

lemma play_config:
  "config_ok (intra_socket_server_config (PlayServerConfig\<lparr>intra_server_listen_port := port\<rparr>))"
  "config_ok (user_socket_server_config (PlayServerConfig\<lparr>intra_server_listen_port := port\<rparr>))"
  "unat (parallel_acceptor_count (intra_socket_server_config PlayServerConfig)) = 2"
  "unat (parallel_acceptor_count (user_socket_server_config PlayServerConfig)) = 1"
  "unat (max_session_count (intra_network_engine_option PlayServerConfig)) = 256"
  "unat (max_session_count (user_network_engine_option PlayServerConfig)) = 64"
  "worker_update_tick_ms (intra_network_engine_option PlayServerConfig) = 33"
  by (simp_all add: config_ok_def PlayServerConfig_def)

text \<open>C13. The system comes up. Provided the calls of the operating system succeed, the main programs of an agency and of a play server, run with
  the configurations that the supervisor hands out, reach their idle loop: each socket server has all its
  \<^verbatim>\<open>parallel_acceptor_count\<close> accepts in progress and each engine all its sessions free, the one shared worker runs with a tick of 33 milliseconds,
  and exactly one connection is being made, to the supervisor, registered as connector 1. The supervisor starts with eight accepts in progress and
  100 free sessions.\<close>

theorem system_starts:
  assumes "os_works os_i" "os_works os_u"
  shows "(\<exists>p k. agency_main os_i os_u queue_room keys now loopback zero heap AgencyServerConfig = Inr p \<and> gp_update_tick p = 33 \<and>
       length (iv_accepts (gp_intra p)) = 1 \<and> length (ne_pool (iv_engine (gp_intra p))) = 256 \<and>
       length (iv_accepts (gp_user p)) = 4 \<and> length (ne_pool (iv_engine (gp_user p))) = 1024 \<and>
       iv_connects (gp_intra p) = [(k, SupervisorAddress, 1)] \<and>
       map_option ci_remote_address (um_find (ne_connector_list (iv_engine (gp_intra p))) 1) = Some SupervisorAddress) \<and>
    (\<exists>p k. play_main os_i os_u queue_room keys now loopback zero heap (PlayServerConfig\<lparr>intra_server_listen_port := port\<rparr>) = Inr p \<and>
       gp_update_tick p = 33 \<and>
       length (iv_accepts (gp_intra p)) = 2 \<and> length (ne_pool (iv_engine (gp_intra p))) = 256 \<and>
       length (iv_accepts (gp_user p)) = 1 \<and> length (ne_pool (iv_engine (gp_user p))) = 64 \<and>
       iv_connects (gp_intra p) = [(k, SupervisorAddress, 1)] \<and>
       map_option ci_remote_address (um_find (ne_connector_list (iv_engine (gp_intra p))) 1) = Some SupervisorAddress) \<and>
    (\<exists>sv. supervisor_main os_i queue_room keys now = Inr (sv, 100, new_Supervisor now) \<and>
       length (iv_accepts sv) = 8 \<and> length (ne_pool (iv_engine sv)) = 100)"
    (is "?agency \<and> ?play \<and> ?supervisor")
proof (intro conjI)
  let ?address = "\<lambda>c. \<lparr>sa_ip = ''127.0.0.1'', sa_port = intra_server_listen_port c\<rparr>"
  obtain agency where "agency_initialize now loopback zero heap (?address AgencyServerConfig) (game_config AgencyServerConfig) = Some agency"
    by (simp add: agency_initialize_def GS_Initialize_def Let_def)
  from game_main_starts [OF assms agency_config(1,2), where initialize = "agency_initialize now loopback zero heap", OF this] show ?agency
    unfolding agency_main_def using agency_config(3-) by (fastforce simp: runs_def)
  let ?config = "PlayServerConfig\<lparr>intra_server_listen_port := port\<rparr>"
  obtain play where "play_initialize now loopback zero heap (?address ?config) (game_config ?config) = Some play"
    by (simp add: play_initialize_def GS_Initialize_def Let_def)
  from game_main_starts [OF assms play_config(1,2), where initialize = "play_initialize now loopback zero heap", OF this] show ?play
    unfolding play_main_def using play_config(3-) by (fastforce simp: runs_def)
  show ?supervisor using supervisor_starts [OF assms(1)] .
qed

definition working_os :: os_calls where
  "working_os = \<lparr>os_socket = (\<lambda>_. SocketReady), os_ports = True, os_acceptor_ready = True, os_acceptor_registered = True, os_accept_ex = (\<lambda>_. True),
     os_bind_error = None, os_last_error = 0\<rparr>"

theorem system_starts_witness:
  "\<exists>sv. supervisor_main working_os 8 (\<lambda>_. []) 0 = Inr (sv, 100, new_Supervisor 0) \<and> length (iv_accepts sv) = 8"
  using system_starts [of working_os working_os 8 "\<lambda>_. []" 0 0 "\<lparr>si_server_type = AgencyServer, si_server_id = 0, si_address = SupervisorAddress\<rparr>" "()" 11001] by (auto simp: os_works_def working_os_def)

end
