(* ===== verification/SharedPools.thy ===== *)
theory SharedPools
  imports Memory
begin

text \<open>
  \<^verbatim>\<open>memory/SharedObjectPool.h\<close>: a pool that hands out its objects as counted pointers whose deleter returns them, as the engine does with
  sessions and the socket server with streams. The pointers are those of \<open>ptr_store\<close>; the address of an object is its number, its
  \<^verbatim>\<open>pool_address\<close> the pool it is in.
\<close>

section \<open>Operations\<close>

definition new_SharedObjectPool :: "u32 \<Rightarrow> u32 \<Rightarrow> u32 \<Rightarrow> ObjectBlock list option res" where
  "new_SharedObjectPool pool_size chunk_size start_sequence =
    assert_that (chunk_size > 0) (Inr (map_option fst (allocate_loop pool_size chunk_size 0 ([], ucast start_sequence))))"

definition SharedObjectPool_Push :: "nat set \<Rightarrow> nat \<Rightarrow> ObjectBlock list \<Rightarrow> ObjectBlock list res" where
  "SharedObjectPool_Push members a pool =
    assert_that (a \<in> members) (Inr (stack_push \<lparr>bl_id = of_nat a, bl_is_heap_allocation = False\<rparr> pool))"

text \<open>The deleter of the pointers, for the objects that an operation on pointers deletes.\<close>

definition IntrusivePtrDeleter :: "nat set \<Rightarrow> ptr_store \<Rightarrow> ptr_store \<Rightarrow> ObjectBlock list \<Rightarrow> ObjectBlock list res" where
  "IntrusivePtrDeleter members st st' = foldr_res (SharedObjectPool_Push members) (drop (length (ps_deleted st)) (ps_deleted st'))"

text \<open>What a program does with the pool and its pointers, of which it has fewer than \<open>n\<close>.\<close>

inductive shared_op :: "nat \<Rightarrow> ptr_store \<Rightarrow> ptr_store \<Rightarrow> bool" for n where
  copy: "dst \<noteq> src \<Longrightarrow> dst < n \<Longrightarrow> shared_op n st (ip_copy_assign dst src st)"
| move: "dst \<noteq> src \<Longrightarrow> dst < n \<Longrightarrow> shared_op n st (ip_move_assign dst src st)"
| release: "shared_op n st (ip_Release v st)"

inductive shared_run :: "nat \<Rightarrow> nat set \<Rightarrow> ObjectBlock list \<Rightarrow> ptr_store \<Rightarrow> bool" for n where
  start: "new_SharedObjectPool pool_size chunk_size start_sequence = Inr (Some pool) \<Longrightarrow> unat pool_size + unat chunk_size < 2 ^ 32 \<Longrightarrow>
    shared_run n ((\<lambda>b. unat (bl_id b)) ` set pool) pool no_pointers"
| pop: "shared_run n members pool st \<Longrightarrow> ps_ptr st v = None \<Longrightarrow> v < n \<Longrightarrow> SharedObjectPool_Pop v pool st = (pool', st') \<Longrightarrow>
    shared_run n members pool' st'"
| use: "shared_run n members pool st \<Longrightarrow> shared_op n st st' \<Longrightarrow> IntrusivePtrDeleter members st st' pool = Inr pool' \<Longrightarrow>
    shared_run n members pool' st'"

section \<open>What is deleted\<close>

definition deleted_by :: "ptr_store \<Rightarrow> ptr_store \<Rightarrow> nat list" where
  "deleted_by st st' = drop (length (ps_deleted st)) (ps_deleted st')"

lemma Release_deletes:
  assumes "counted d st" "\<And>a. card (refs st a) + d a < 2 ^ 32"
  shows "ps_deleted (ip_Release v st) = ps_deleted st @ (case ps_ptr st v of None \<Rightarrow> [] | Some a \<Rightarrow> if card (refs st a) + d a = 1 then [a] else [])"
proof (cases "ps_ptr st v")
  case (Some a)
  have "Release (ps_count st a) = 0 \<longleftrightarrow> ps_count st a = of_nat 1" by (simp add: Release_def)
  also have "\<dots> \<longleftrightarrow> card (refs st a) + d a = 1" using assms u32_of_nat_inj [of "card (refs st a) + d a" 1] by (simp add: counted_def)
  finally show ?thesis using Some by (simp add: ip_Release_def Let_def)
qed (simp add: ip_Release_def)

lemma refs_Release: "refs (ip_Release v st) a = refs st a - {v}"
  by (auto simp: refs_def ip_Release_ptr)

lemma card_one_iff: "finite (live st) \<Longrightarrow> ps_ptr st v = Some a \<Longrightarrow> card (refs st a) = 1 \<longleftrightarrow> refs st a - {v} = {}"
proof -
  assume "finite (live st)" "ps_ptr st v = Some a"
  then have "finite (refs st a)" "v \<in> refs st a" using finite_refs by (auto simp: refs_def)
  then show ?thesis by (auto simp: card_1_singleton_iff)
qed

text \<open>An operation on pointers deletes each object once that has lost its last pointer, and no other.\<close>

definition deletes_exactly :: "ptr_store \<Rightarrow> ptr_store \<Rightarrow> bool" where
  "deletes_exactly st st' \<longleftrightarrow> (\<exists>ds. ps_deleted st' = ps_deleted st @ ds \<and> distinct ds \<and> set ds = {a. refs st a \<noteq> {} \<and> refs st' a = {}}) \<and>
     (\<forall>a. refs st a = {} \<longrightarrow> refs st' a = {})"

text \<open>One pointer loses its object, another object may gain one.\<close>

lemma deletes_exactlyI:
  assumes "ptr_inv st" "ps_deleted st' = ps_deleted st @ (case ps_ptr st v of None \<Rightarrow> [] | Some b \<Rightarrow> if card (refs st b) = 1 \<and> Some b \<noteq> kept then [b] else [])"
    and "\<And>b. Some b \<noteq> kept \<Longrightarrow> refs st' b = refs st b - {v}" "\<And>b. kept = Some b \<Longrightarrow> refs st b \<noteq> {} \<and> refs st' b \<noteq> {}"
  shows "deletes_exactly st st'"
proof -
  have fin: "finite (live st)" using assms(1) by (simp add: ptr_inv_def)
  have other: "refs st' b = refs st b \<or> kept = Some b" if "ps_ptr st v \<noteq> Some b" for b
    using that assms(3) [of b] by (auto simp: refs_def)
  have "\<forall>b. refs st b = {} \<longrightarrow> refs st' b = {}" using assms(3,4) by (metis Diff_empty Diff_eq_empty_iff empty_subsetI)
  moreover have "{b. refs st b \<noteq> {} \<and> refs st' b = {}} =
      set (case ps_ptr st v of None \<Rightarrow> [] | Some b \<Rightarrow> if card (refs st b) = 1 \<and> Some b \<noteq> kept then [b] else [])"
  proof (cases "ps_ptr st v")
    case None
    then show ?thesis using other assms(4) by fastforce
  next
    case (Some b)
    have "refs st c \<noteq> {} \<and> refs st' c = {} \<longleftrightarrow> c = b \<and> card (refs st b) = 1 \<and> Some b \<noteq> kept" for c
      using other [of c] Some assms(3) [of c] assms(4) [of c] card_one_iff [OF fin Some] by (cases "c = b") (auto simp: refs_def)
    then show ?thesis using Some by auto
  qed
  ultimately show ?thesis unfolding deletes_exactly_def assms(2) by (auto split: option.splits)
qed

lemma shared_op_deletes:
  assumes "shared_op n st st'" "ptr_inv st" "\<And>a. card (refs st a) + 1 < 2 ^ 32"
  shows "deletes_exactly st st'"
proof -
  have small: "card (refs st a) < 2 ^ 32" for a using assms(3) [of a] by simp
  have release: "ps_deleted (ip_Release v st) = ps_deleted st @ (case ps_ptr st v of None \<Rightarrow> [] | Some a \<Rightarrow> if card (refs st a) = 1 then [a] else [])" for v
    using Release_deletes [of "\<lambda>_. 0" st v] assms(2) small by (simp add: counted_0 cong: option.case_cong if_cong)
  have single: "deletes_exactly st (ip_Release v st)" for v
    by (rule deletes_exactlyI [where v = v and kept = None]) (use assms(2) release [of v] in \<open>simp_all add: refs_Release split: option.splits\<close>)
  from assms(1) show ?thesis
  proof cases
    case (copy dst src)
    show ?thesis
    proof (cases "ps_ptr st src")
      case None
      then show ?thesis using copy single by (simp add: ip_copy_assign_def)
    next
      case (Some a)
      define st0 where "st0 = st\<lparr>ps_count := (ps_count st)(a := Retain (ps_count st a))\<rparr>"
      have c: "counted ((\<lambda>_. 0)(a := Suc 0)) st0" using assms(2) by (simp add: st0_def counted_def ptr_inv_def Retain_def)
      have st': "st' = (ip_Release dst st0)\<lparr>ps_ptr := (ps_ptr st)(dst \<mapsto> a)\<rparr>"
        using copy Some by (simp add: ip_copy_assign_def Let_def st0_def [symmetric] ip_Release_ptr) (simp add: st0_def)
      have pos: "card (refs st a) \<noteq> 0" using refs_pos [OF _ Some] assms(2) by (simp add: ptr_inv_def)
      have bound: "card (refs st0 b) + ((\<lambda>_. 0)(a := Suc 0)) b < 2 ^ 32" for b using assms(3) [of b] assms(3) [of a] by (simp add: st0_def)
      show ?thesis
      proof (rule deletes_exactlyI [where v = dst and kept = "Some a"])
        show "ps_deleted st' = ps_deleted st @ (case ps_ptr st dst of None \<Rightarrow> [] | Some b \<Rightarrow> if card (refs st b) = 1 \<and> Some b \<noteq> Some a then [b] else [])"
          using Release_deletes [OF c bound, of dst] pos by (auto simp: st' st0_def split: option.splits)
      qed (use assms(2) Some copy(2) in \<open>auto simp: st' refs_def\<close>)
    qed
  next
    case (move dst src)
    show ?thesis
    proof (cases "ps_ptr st src")
      case None
      then show ?thesis using move single by (simp add: ip_move_assign_def)
    next
      case (Some a)
      have st': "ps_ptr st' = (ps_ptr st)(dst \<mapsto> a, src := None)" "ps_deleted st' = ps_deleted (ip_Release dst st)"
        using move Some by (simp_all add: ip_move_assign_def Let_def ip_Release_ptr fun_eq_iff)
      have two: "card (refs st a) \<noteq> 1" if "ps_ptr st dst = Some a"
        using card_one_iff [OF _ that] Some move(2) assms(2) by (auto simp: ptr_inv_def refs_def)
      show ?thesis
      proof (rule deletes_exactlyI [where v = dst and kept = "Some a"])
        show "ps_deleted st' = ps_deleted st @ (case ps_ptr st dst of None \<Rightarrow> [] | Some b \<Rightarrow> if card (refs st b) = 1 \<and> Some b \<noteq> Some a then [b] else [])"
          using release [of dst] two by (auto simp: st' split: option.splits)
      qed (use assms(2) Some move(2) in \<open>auto simp: st' refs_def\<close>)
    qed
  next
    case (release v)
    then show ?thesis using single by simp
  qed
qed

section \<open>The pool holds exactly the objects that nobody refers to\<close>

definition object_ids :: "ObjectBlock list \<Rightarrow> nat list" where
  "object_ids pool = map (\<lambda>b. unat (bl_id b)) pool"

definition shared_inv :: "nat \<Rightarrow> nat set \<Rightarrow> ObjectBlock list \<Rightarrow> ptr_store \<Rightarrow> bool" where
  "shared_inv n members pool st \<longleftrightarrow> ptr_inv st \<and> live st \<subseteq> {..<n} \<and> (\<forall>a \<in> members. a < 2 ^ 64) \<and> distinct (object_ids pool) \<and>
     set (object_ids pool) = {a \<in> members. refs st a = {}} \<and> (\<forall>a. refs st a \<noteq> {} \<longrightarrow> a \<in> members)"

lemma push_all:
  "set ds \<subseteq> members \<Longrightarrow> foldr_res (SharedObjectPool_Push members) ds pool =
     Inr (rev (map (\<lambda>a. \<lparr>bl_id = of_nat a, bl_is_heap_allocation = False\<rparr>) ds) @ pool)"
  by (induction ds arbitrary: pool) (simp_all add: SharedObjectPool_Push_def stack_push_def)

lemma shared_op_step: "shared_op n st st' \<Longrightarrow> ptr_step st st'"
  by (induction rule: shared_op.induct) (auto intro: ptr_step.intros)

lemma shared_op_live: "shared_op n st st' \<Longrightarrow> live st \<subseteq> {..<n} \<Longrightarrow> live st' \<subseteq> {..<n}"
  by (induction rule: shared_op.induct)
    (auto simp: live_def ip_copy_assign_def ip_move_assign_def ip_Release_ptr Let_def split: option.splits if_splits)

lemma few_refs:
  assumes "shared_inv n members pool st" "n < 2 ^ 32 - 1"
  shows "card (refs st a) + 1 < 2 ^ 32"
proof -
  have "refs st a \<subseteq> {..<n}" using assms(1) by (auto simp: shared_inv_def refs_def live_def)
  then have "card (refs st a) \<le> n" using card_mono [of "{..<n}" "refs st a"] by simp
  then show ?thesis using assms(2) by simp
qed

lemma use_inv:
  assumes "shared_inv n members pool st" "n < 2 ^ 32 - 1" "shared_op n st st'" "IntrusivePtrDeleter members st st' pool = Inr pool'"
  shows "shared_inv n members pool' st'"
proof -
  note inv = assms(1) [unfolded shared_inv_def]
  obtain ds where ds: "ps_deleted st' = ps_deleted st @ ds" "distinct ds" "set ds = {a. refs st a \<noteq> {} \<and> refs st' a = {}}"
    and gone: "\<forall>a. refs st a = {} \<longrightarrow> refs st' a = {}"
    using shared_op_deletes [OF assms(3) _ few_refs [OF assms(1,2)]] inv by (auto simp: deletes_exactly_def)
  have sub: "set ds \<subseteq> members" using ds(3) inv by blast
  have "pool' = rev (map (\<lambda>a. \<lparr>bl_id = of_nat a, bl_is_heap_allocation = False\<rparr>) ds) @ pool"
    using assms(4) push_all [OF sub] by (simp add: IntrusivePtrDeleter_def ds(1))
  moreover have "map (\<lambda>a. unat (of_nat a :: u64)) ds = ds" using sub inv by (intro map_idI) (auto simp: u64_of_nat)
  ultimately have ids: "object_ids pool' = rev ds @ object_ids pool" by (simp add: object_ids_def rev_map [symmetric] o_def)
  have "distinct (object_ids pool')" "set (object_ids pool') = {a \<in> members. refs st' a = {}}"
    using ids ds(2,3) inv gone by auto
  then show ?thesis
    using inv ptr_step_inv [OF shared_op_step [OF assms(3)]] shared_op_live [OF assms(3)] gone unfolding shared_inv_def by blast
qed

lemma pop_object_inv:
  assumes "shared_inv n members pool st" "ps_ptr st v = None" "v < n" "SharedObjectPool_Pop v pool st = (pool', st')"
  shows "shared_inv n members pool' st'"
proof (cases pool)
  case Nil
  then have "pool' = pool" "st' = st" using assms(2,4) by (auto simp: SharedObjectPool_Pop_def fun_upd_idem)
  then show ?thesis using assms(1) by simp
next
  case (Cons b rest)
  let ?a = "unat (bl_id b)"
  note inv = assms(1) [unfolded shared_inv_def]
  have st': "pool' = rest" "st' = ip_construct v ?a st" using assms(4) Cons by (simp_all add: SharedObjectPool_Pop_def)
  have "ptr_inv st'" using ptr_step_inv [OF ptr_step.construct [OF assms(2)]] inv by (simp add: st'(2))
  moreover have refs: "refs st' c = (if c = ?a then insert v (refs st c) else refs st c)" for c
    using assms(2) by (auto simp: st'(2) ip_construct_def refs_def)
  moreover have "live st' = insert v (live st)" by (auto simp: st'(2) ip_construct_def live_def)
  moreover have "object_ids pool = ?a # object_ids rest" by (simp add: object_ids_def Cons)
  then have "?a \<in> members" "distinct (object_ids rest)" "set (object_ids rest) = {a \<in> members. refs st a = {}} - {?a}"
    using inv by auto
  ultimately show ?thesis using inv assms(3) unfolding shared_inv_def st'(1) by (auto split: if_splits)
qed

lemma start_pool_inv:
  assumes "new_SharedObjectPool pool_size chunk_size start_sequence = Inr (Some pool)" "unat pool_size + unat chunk_size < 2 ^ 32"
  shows "shared_inv n (set (object_ids pool)) pool no_pointers"
proof -
  have "0 < chunk_size" using assms(1) by (auto simp: new_SharedObjectPool_def res_iff)
  moreover have "unat (ucast start_sequence :: u64) + unat pool_size < 2 ^ 64"
    using unsigned_less [of start_sequence, where ?'a = nat] unsigned_less [of pool_size, where ?'a = nat]
    by (simp add: unsigned_ucast_eq take_bit_nat_eq_self)
  ultimately obtain p where "new_ObjectPool pool_size chunk_size (ucast start_sequence) = Inr (Some p)" "distinct (map bl_id (op_pool p))"
    using object_pool_construction [OF _ assms(2), of "ucast start_sequence"] by auto
  then have "distinct (map bl_id pool)" using assms(1) by (auto simp: new_SharedObjectPool_def new_ObjectPool_def res_iff)
  moreover have "object_ids pool = map unat (map bl_id pool)" by (simp add: object_ids_def o_def)
  ultimately have "distinct (object_ids pool)" by (auto simp: distinct_map inj_on_def intro: unsigned_word_eqI)
  moreover have "a < 2 ^ 64" if "a \<in> set (object_ids pool)" for a using that unsigned_less [where ?'a = nat] by (fastforce simp: object_ids_def)
  ultimately show ?thesis using ptr_inv_no_pointers by (simp add: shared_inv_def no_pointers_def live_def refs_def)
qed

lemma shared_run_inv: "shared_run n members pool st \<Longrightarrow> n < 2 ^ 32 - 1 \<Longrightarrow> shared_inv n members pool st"
proof (induction rule: shared_run.induct)
  case (start pool_size chunk_size start_sequence pool)
  then show ?case using start_pool_inv by (simp add: object_ids_def)
next
  case (pop members pool st v pool' st')
  then show ?case using pop_object_inv by blast
next
  case (use members pool st st' pool')
  then show ?case using use_inv by blast
qed

text \<open>C18. A \<^verbatim>\<open>SharedObjectPool\<close> holds exactly the objects that nobody refers to. Whatever a program with fewer than \<open>2\<^sup>32 - 1\<close> pointers does (taking objects from
  the pool, copying, moving and releasing pointers; self-assignment apart), an object of the pool is free just when no pointer refers to it, it is in
  the pool at most once, and so the pool never hands out an object that is in use. The deleter never meets a pointer that is not of the pool.\<close>

theorem shared_pool_exact:
  assumes "shared_run n members pool st" "n < 2 ^ 32 - 1"
  shows "distinct (object_ids pool) \<and> (\<forall>a \<in> members. a \<in> set (object_ids pool) \<longleftrightarrow> refs st a = {}) \<and>
     (shared_op n st st' \<longrightarrow> (\<exists>pool'. IntrusivePtrDeleter members st st' pool = Inr pool'))"
proof -
  note inv = shared_run_inv [OF assms]
  have "\<exists>pool'. IntrusivePtrDeleter members st st' pool = Inr pool'" if op: "shared_op n st st'"
  proof -
    obtain ds where ds: "ps_deleted st' = ps_deleted st @ ds" "set ds = {a. refs st a \<noteq> {} \<and> refs st' a = {}}"
      using shared_op_deletes [OF op _ few_refs [OF inv assms(2)]] inv by (auto simp: deletes_exactly_def shared_inv_def)
    have "set ds \<subseteq> members" using ds(2) inv by (auto simp: shared_inv_def)
    then show ?thesis using push_all [of ds members pool] ds(1) by (simp add: IntrusivePtrDeleter_def)
  qed
  then show ?thesis using inv by (auto simp: shared_inv_def)
qed

theorem shared_pool_exact_witness:
  "\<exists>pool st. shared_run 2 {1, 2} pool st \<and> object_ids pool = [1] \<and> refs st 2 = {0} \<and> refs st 1 = {}"
proof -
  let ?b = "\<lambda>i. \<lparr>bl_id = i, bl_is_heap_allocation = False\<rparr>"
  have "new_SharedObjectPool 2 2 1 = Inr (Some [?b 2, ?b 1])"
    by (simp add: new_SharedObjectPool_def allocate_loop.simps [of 2 2 0] allocate_loop.simps [of 2 2 2] AllocateChunk_eq upt_conv_Cons)
  from shared_run.start [OF this, of 2] have 1: "shared_run 2 {2, 1} [?b 2, ?b 1] no_pointers" by simp
  have 2: "shared_run 2 {2, 1} [?b 1] (ip_construct 0 2 no_pointers)"
    by (rule shared_run.pop [OF 1, of 0]) (simp_all add: no_pointers_def SharedObjectPool_Pop_def)
  have ids: "object_ids [?b 1] = [1]" by (simp add: object_ids_def)
  have "refs (ip_construct 0 2 no_pointers) 2 = {0}" by (auto simp: refs_def ip_construct_def no_pointers_def)
  moreover have "refs (ip_construct 0 2 no_pointers) 1 = {}" using conjunct1 [OF conjunct2 [OF shared_pool_exact [OF 2]]] ids by simp
  ultimately show ?thesis using 2 ids by (metis insert_commute)
qed

end
