(* ===== verification/DateTimes.thy ===== *)
theory DateTimes
  imports Prelude
begin

text \<open>
  Dates and times: \<^verbatim>\<open>utility/Time.h\<close>, with the part of the calendar of \<^verbatim>\<open>std::chrono\<close> that it uses.

  Durations and points in time are integers, in nanoseconds. A time zone is its offset at a point in system time, and its conversion
  of a local time, which fails (the library throws) for a local time that is skipped or that occurs twice.
\<close>

section \<open>The calendar\<close>

record year_month_day =
  ymd_year :: int
  ymd_month :: int
  ymd_day :: int

definition is_leap :: "int \<Rightarrow> bool" where
  "is_leap y \<longleftrightarrow> y mod 4 = 0 \<and> (y mod 100 \<noteq> 0 \<or> y mod 400 = 0)"

definition last_day :: "int \<Rightarrow> int \<Rightarrow> int" where
  "last_day y m = (if m = 2 then (if is_leap y then 29 else 28) else if m \<in> {4, 6, 9, 11} then 30 else 31)"

definition valid_ymd :: "year_month_day \<Rightarrow> bool" where
  "valid_ymd d \<longleftrightarrow> 1 \<le> ymd_month d \<and> ymd_month d \<le> 12 \<and> 1 \<le> ymd_day d \<and> ymd_day d \<le> last_day (ymd_year d) (ymd_month d)"

text \<open>The conversion to days since 1970-01-01. Years are counted from March, in cycles of 400 years. A day beyond the end of its month counts on
  into the next one, as the library does.\<close>

definition march_day :: "int \<Rightarrow> int" where
  "march_day mp = (153 * mp + 2) div 5"

definition days_from_civil :: "year_month_day \<Rightarrow> int" where
  "days_from_civil d =
    (let y = (if ymd_month d \<le> 2 then ymd_year d - 1 else ymd_year d);
         mp = (if ymd_month d > 2 then ymd_month d - 3 else ymd_month d + 9);
         yoe = y mod 400 in
     y div 400 * 146097 + (yoe * 365 + yoe div 4 - yoe div 100) + (march_day mp + ymd_day d - 1) - 719468)"

definition civil_from_days :: "int \<Rightarrow> year_month_day" where
  "civil_from_days z =
    (let doe = (z + 719468) mod 146097;
         c = min 3 (doe div 36524);
         r1 = doe - 36524 * c;
         q = r1 div 1461;
         r2 = r1 - 1461 * q;
         a = min 3 (r2 div 365);
         doy = r2 - 365 * a;
         y = (z + 719468) div 146097 * 400 + 100 * c + 4 * q + a;
         mp = (5 * doy + 2) div 153 in
     \<lparr>ymd_year = (if mp < 10 then y else y + 1), ymd_month = (if mp < 10 then mp + 3 else mp - 9), ymd_day = doy - march_day mp + 1\<rparr>)"

lemma div_bounds:
  fixes x k :: int
  assumes "0 < k"
  shows "k * (x div k) \<le> x" "x < k * (x div k) + k"
  using assms pos_mod_bound [of k x] pos_mod_sign [of k x] mult_div_mod_eq [of k x] by linarith+

lemma div_unique:
  fixes x k :: int
  assumes "k * q \<le> x" "x < k * q + k"
  shows "x div k = q"
  using assms by (intro int_div_pos_eq [of _ _ _ "x - k * q"]) auto

lemma div_range:
  fixes x k :: int
  assumes "0 \<le> x" "0 < k"
  shows "0 \<le> x div k" "x < b * k \<Longrightarrow> x div k < b"
proof -
  show "0 \<le> x div k" using assms by (simp add: pos_imp_zdiv_nonneg_iff)
  assume x: "x < b * k"
  have "b * k \<le> k * (x div k)" if "b \<le> x div k" using that assms(2) by (simp add: mult.commute)
  then show "x div k < b" using x div_bounds(1) [OF assms(2), of x] by linarith
qed

lemma split_by: "0 < k \<Longrightarrow> \<exists>q r. x = k * q + r \<and> 0 \<le> r \<and> r < (k :: int)"
  by (intro exI [of _ "x div k"] exI [of _ "x mod k"]) simp

lemma year_split: "\<exists>e c q a. 0 \<le> c \<and> c \<le> 3 \<and> 0 \<le> q \<and> q \<le> 24 \<and> 0 \<le> a \<and> a \<le> 3 \<and> y = e * 400 + 100 * c + 4 * q + (a :: int)"
proof -
  obtain e w where w: "y = 400 * e + w" "0 \<le> w" "w < 400" using split_by [of 400 y] by auto
  obtain c v where v: "w = 100 * c + v" "0 \<le> v" "v < 100" using split_by [of 100 w] by auto
  obtain q a where a: "v = 4 * q + a" "0 \<le> a" "a < 4" using split_by [of 4 v] by auto
  have "0 \<le> c \<and> c \<le> 3 \<and> 0 \<le> q \<and> q \<le> 24 \<and> 0 \<le> a \<and> a \<le> 3 \<and> y = e * 400 + 100 * c + 4 * q + a" using w v a by linarith
  then show ?thesis by blast
qed

lemma march_range:
  assumes "0 \<le> doy" "doy \<le> 365" "mp = (5 * doy + 2) div 153"
  shows "0 \<le> mp" "mp \<le> 11" "march_day mp \<le> doy" "doy < march_day (mp + 1)"
proof -
  note b = div_bounds [of 153 "5 * doy + 2"] div_bounds [of 5 "153 * mp + 2"] div_bounds [of 5 "153 * (mp + 1) + 2"]
  show "0 \<le> mp" "mp \<le> 11" "march_day mp \<le> doy" "doy < march_day (mp + 1)"
    using b assms(1,2) unfolding march_day_def assms(3) [symmetric] by simp_all
qed

lemma march_unique:
  assumes "march_day mp \<le> doy" "doy < march_day (mp + 1) \<or> 11 \<le> mp" "doy \<le> 365"
  shows "(5 * doy + 2) div 153 = mp"
proof (rule div_unique)
  note b = div_bounds [of 5 "153 * mp + 2"] div_bounds [of 5 "153 * (mp + 1) + 2"]
  show "153 * mp \<le> 5 * doy + 2" "5 * doy + 2 < 153 * mp + 153" using b assms unfolding march_day_def by auto
qed

text \<open>The year of a day in a cycle: centuries, groups of four years, years.\<close>

lemma cycle_split:
  fixes doe :: int
  assumes "0 \<le> doe" "doe < 146097" "c = min 3 (doe div 36524)" "r1 = doe - 36524 * c" "q = r1 div 1461" "r2 = r1 - 1461 * q" "a = min 3 (r2 div 365)"
  shows "0 \<le> c" "c \<le> 3" "0 \<le> q" "q \<le> 24" "0 \<le> a" "a \<le> 3" "0 \<le> r2 - 365 * a" "r2 - 365 * a \<le> 365"
    and "r2 - 365 * a = 365 \<Longrightarrow> a = 3 \<and> (q = 24 \<longrightarrow> c = 3)"
proof -
  have c: "0 \<le> c \<and> c \<le> 3 \<and> 0 \<le> r1 \<and> r1 \<le> 36524 \<and> (r1 = 36524 \<longrightarrow> c = 3)"
    using assms(1-4) div_bounds [of 36524 doe] by (auto simp: min_def)
  have q: "0 \<le> q \<and> q \<le> 24 \<and> 0 \<le> r2 \<and> r2 \<le> 1460 \<and> r1 = 1461 * q + r2"
    using c assms(5,6) div_bounds [of 1461 r1] by auto
  have a: "0 \<le> a \<and> a \<le> 3 \<and> 0 \<le> r2 - 365 * a \<and> r2 - 365 * a \<le> 365 \<and> (r2 - 365 * a = 365 \<longrightarrow> a = 3 \<and> r2 = 1460)"
    using q assms(7) div_bounds [of 365 r2] by (auto simp: min_def)
  show "0 \<le> c" "c \<le> 3" "0 \<le> q" "q \<le> 24" "0 \<le> a" "a \<le> 3" "0 \<le> r2 - 365 * a" "r2 - 365 * a \<le> 365" using c q a by simp_all
  show "a = 3 \<and> (q = 24 \<longrightarrow> c = 3)" if "r2 - 365 * a = 365" using c q a that by auto
qed

lemma year_parts:
  fixes c q a :: int
  assumes "0 \<le> c" "c \<le> 3" "0 \<le> q" "q \<le> 24" "0 \<le> a" "a \<le> 3"
  shows "(e * 400 + 100 * c + 4 * q + a) div 400 = e" "(e * 400 + 100 * c + 4 * q + a) mod 400 = 100 * c + 4 * q + a"
    "(100 * c + 4 * q + a) div 4 = 25 * c + q" "(100 * c + 4 * q + a) div 100 = c"
proof -
  show 1: "(e * 400 + 100 * c + 4 * q + a) div 400 = e" by (rule div_unique) (use assms in auto)
  show "(e * 400 + 100 * c + 4 * q + a) mod 400 = 100 * c + 4 * q + a"
    using mult_div_mod_eq [of 400 "e * 400 + 100 * c + 4 * q + a"] unfolding 1 by linarith
  show "(100 * c + 4 * q + a) div 4 = 25 * c + q" "(100 * c + 4 * q + a) div 100 = c" by (rule div_unique; use assms in auto)+
qed

lemma multiple_in_range: "1 \<le> w \<Longrightarrow> w \<le> k \<Longrightarrow> (k * n + w) mod k = 0 \<longleftrightarrow> w = (k :: int)"
  using zdvd_imp_le [of k w] by (auto simp: mod_eq_0_iff_dvd)

lemma leap_parts:
  fixes c q a :: int
  assumes "0 \<le> c" "c \<le> 3" "0 \<le> q" "q \<le> 24" "0 \<le> a" "a \<le> 3"
  shows "is_leap (e * 400 + 100 * c + 4 * q + a + 1) \<longleftrightarrow> a = 3 \<and> (q = 24 \<longrightarrow> c = 3)"
proof -
  let ?y = "e * 400 + 100 * c + 4 * q + a + 1"
  have y: "?y = 4 * (100 * e + 25 * c + q) + (a + 1)" "?y = 100 * (4 * e + c) + (4 * q + a + 1)" "?y = 400 * e + (100 * c + 4 * q + a + 1)" by simp_all
  have w: "4 * q + a + 1 = 100 \<longleftrightarrow> q = 24 \<and> a = 3" "100 * c + 4 * q + a + 1 = 400 \<longleftrightarrow> c = 3 \<and> q = 24 \<and> a = 3"
    using assms by (rule_tac [!] iffI; (intro conjI)?; linarith)+
  have "?y mod 4 = 0 \<longleftrightarrow> a = 3" unfolding y(1) using assms by (subst multiple_in_range) auto
  moreover have "?y mod 100 = 0 \<longleftrightarrow> q = 24 \<and> a = 3" unfolding y(2) w(1) [symmetric] using assms by (intro multiple_in_range) auto
  moreover have "?y mod 400 = 0 \<longleftrightarrow> c = 3 \<and> q = 24 \<and> a = 3" unfolding y(3) w(2) [symmetric] using assms by (intro multiple_in_range) auto
  ultimately show ?thesis by (auto simp: is_leap_def)
qed

text \<open>The months, counted from March: their first days and their lengths.\<close>

lemma march_table:
  "march_day 0 = 0" "march_day 1 = 31" "march_day 2 = 61" "march_day 3 = 92" "march_day 4 = 122" "march_day 5 = 153" "march_day 6 = 184"
  "march_day 7 = 214" "march_day 8 = 245" "march_day 9 = 275" "march_day 10 = 306" "march_day 11 = 337" "march_day 12 = 367"
  by (simp_all add: march_day_def)

lemma twelve_cases:
  fixes mp :: int
  assumes "0 \<le> mp" "mp \<le> 11"
  shows "mp \<in> {0, 1, 2, 3, 4, 5, 6, 7, 8, 9, 10, 11}"
  using assms by simp presburger

lemma month_length:
  assumes "0 \<le> mp" "mp \<le> 10"
  shows "last_day y (if mp < 10 then mp + 3 else mp - 9) = march_day (mp + 1) - march_day mp"
proof -
  from twelve_cases [of mp] assms show ?thesis by (auto simp: march_table last_day_def)
qed

definition date_parts :: "int \<Rightarrow> int \<Rightarrow> int \<Rightarrow> int \<Rightarrow> int \<Rightarrow> int \<Rightarrow> int \<Rightarrow> bool" where
  "date_parts z e c q a doy mp \<longleftrightarrow> 0 \<le> c \<and> c \<le> 3 \<and> 0 \<le> q \<and> q \<le> 24 \<and> 0 \<le> a \<and> a \<le> 3 \<and> 0 \<le> doy \<and> doy \<le> 365 \<and>
     (doy = 365 \<longrightarrow> a = 3 \<and> (q = 24 \<longrightarrow> c = 3)) \<and> z = e * 146097 + 36524 * c + 1461 * q + 365 * a + doy - 719468 \<and> mp = (5 * doy + 2) div 153"

definition parts_date :: "int \<Rightarrow> int \<Rightarrow> int \<Rightarrow> int \<Rightarrow> int \<Rightarrow> int \<Rightarrow> year_month_day" where
  "parts_date e c q a doy mp = \<lparr>ymd_year = (if mp < 10 then e * 400 + 100 * c + 4 * q + a else e * 400 + 100 * c + 4 * q + a + 1),
     ymd_month = (if mp < 10 then mp + 3 else mp - 9), ymd_day = doy - march_day mp + 1\<rparr>"

lemma civil_parts: "\<exists>e c q a doy mp. date_parts z e c q a doy mp \<and> civil_from_days z = parts_date e c q a doy mp"
proof -
  define doe where "doe = (z + 719468) mod 146097"
  define c where "c = min 3 (doe div 36524)"
  define r1 where "r1 = doe - 36524 * c"
  define q where "q = r1 div 1461"
  define r2 where "r2 = r1 - 1461 * q"
  define a where "a = min 3 (r2 div 365)"
  have doe: "0 \<le> doe" "doe < 146097" by (simp_all add: doe_def)
  have z: "z = (z + 719468) div 146097 * 146097 + 36524 * c + 1461 * q + 365 * a + (r2 - 365 * a) - 719468"
    using div_mult_mod_eq [of "z + 719468" 146097] by (simp add: r2_def r1_def doe_def)
  have "date_parts z ((z + 719468) div 146097) c q a (r2 - 365 * a) ((5 * (r2 - 365 * a) + 2) div 153)"
    using cycle_split [OF doe c_def r1_def q_def r2_def a_def] z by (simp add: date_parts_def)
  moreover have "civil_from_days z = parts_date ((z + 719468) div 146097) c q a (r2 - 365 * a) ((5 * (r2 - 365 * a) + 2) div 153)"
    by (simp only: civil_from_days_def parts_date_def Let_def a_def r2_def q_def r1_def c_def doe_def)
  ultimately show ?thesis by blast
qed

lemma parts_valid: "date_parts z e c q a doy mp \<Longrightarrow> valid_ymd (parts_date e c q a doy mp)"
proof -
  assume p: "date_parts z e c q a doy mp"
  then have m: "0 \<le> mp" "mp \<le> 11" "march_day mp \<le> doy" "doy < march_day (mp + 1)" using march_range [of doy mp] by (auto simp: date_parts_def)
  show ?thesis
  proof (cases "mp = 11")
    case True
    then show ?thesis using m p leap_parts [of c q a e] by (auto simp: parts_date_def date_parts_def valid_ymd_def last_day_def march_table)
  next
    case False
    then have "last_day y (if mp < 10 then mp + 3 else mp - 9) = march_day (mp + 1) - march_day mp" for y using m by (intro month_length) auto
    then show ?thesis using m False by (auto simp: parts_date_def valid_ymd_def)
  qed
qed

lemma parts_days:
  assumes "0 \<le> c" "c \<le> 3" "0 \<le> q" "q \<le> 24" "0 \<le> a" "a \<le> 3" "0 \<le> mp" "mp \<le> 11"
  shows "days_from_civil (parts_date e c q a doy mp) = e * 146097 + 36524 * c + 1461 * q + 365 * a + doy - 719468"
proof -
  let ?d = "parts_date e c q a doy mp" and ?y = "e * 400 + 100 * c + 4 * q + a"
  have y: "(if ymd_month ?d \<le> 2 then ymd_year ?d - 1 else ymd_year ?d) = ?y" and mp: "(if ymd_month ?d > 2 then ymd_month ?d - 3 else ymd_month ?d + 9) = mp"
    using assms(7,8) by (simp_all add: parts_date_def)
  have day: "ymd_day ?d = doy - march_day mp + 1" by (simp add: parts_date_def)
  show ?thesis
    unfolding days_from_civil_def Let_def y mp day year_parts(1,2) [OF assms(1-6)] year_parts(3,4) [OF assms(1-6)] by simp
qed

text \<open>Every valid date has parts, so the conversion to days loses nothing.\<close>

lemma valid_parts:
  assumes "valid_ymd d"
  shows "\<exists>e c q a doy mp. date_parts (days_from_civil d) e c q a doy mp \<and> d = parts_date e c q a doy mp"
proof -
  define y where "y = (if ymd_month d \<le> 2 then ymd_year d - 1 else ymd_year d)"
  define mp where "mp = (if ymd_month d > 2 then ymd_month d - 3 else ymd_month d + 9)"
  define doy where "doy = march_day mp + ymd_day d - 1"
  obtain e c q a where ranges: "0 \<le> c" "c \<le> 3" "0 \<le> q" "q \<le> 24" "0 \<le> a" "a \<le> 3" and y: "y = e * 400 + 100 * c + 4 * q + a"
    using year_split by blast
  have mp: "0 \<le> mp" "mp \<le> 11" "ymd_month d = (if mp < 10 then mp + 3 else mp - 9)" and year: "ymd_year d = (if mp < 10 then y else y + 1)"
    using assms by (auto simp: mp_def y_def valid_ymd_def)
  have day: "1 \<le> ymd_day d" "mp \<le> 10 \<Longrightarrow> ymd_day d \<le> march_day (mp + 1) - march_day mp" "mp = 11 \<Longrightarrow> ymd_day d \<le> (if is_leap (y + 1) then 29 else 28)"
    using assms mp year month_length [of mp "ymd_year d"] by (auto simp: valid_ymd_def last_day_def)
  have d: "d = parts_date e c q a doy mp"
    using mp(3) year y by (intro year_month_day.equality) (simp_all add: parts_date_def doy_def)
  have doy: "march_day mp \<le> doy" "doy < march_day (mp + 1) \<or> 11 \<le> mp" "0 \<le> doy" "doy \<le> 365" "doy = 365 \<longrightarrow> a = 3 \<and> (q = 24 \<longrightarrow> c = 3)"
    using twelve_cases [OF mp(1,2)] day leap_parts [OF ranges, of e] unfolding y by (auto simp: doy_def march_table split: if_splits)
  then have "date_parts (days_from_civil d) e c q a doy mp"
    using ranges parts_days [OF ranges mp(1,2), of e doy] march_unique [OF doy(1,2,4)] by (simp add: date_parts_def d [symmetric])
  then show ?thesis using d by blast
qed

lemma min3_div:
  fixes x k c r :: int
  assumes "x = k * c + r" "0 \<le> r" "r \<le> k" "0 < k" "c \<le> 3" "r = k \<longrightarrow> c = 3"
  shows "min 3 (x div k) = c"
proof (cases "r = k")
  case True
  then have "x div k = 4" using assms by (intro div_unique) auto
  then show ?thesis using True assms(6) by simp
next
  case False
  then have "x div k = c" using assms by (intro div_unique) auto
  then show ?thesis using assms(5) by simp
qed

lemma civil_of_parts:
  assumes "date_parts z e c q a doy mp"
  shows "civil_from_days z = parts_date e c q a doy mp"
proof -
  let ?doe = "36524 * c + 1461 * q + 365 * a + doy"
  have p: "0 \<le> c" "c \<le> 3" "0 \<le> q" "q \<le> 24" "0 \<le> a" "a \<le> 3" "0 \<le> doy" "doy \<le> 365" "doy = 365 \<longrightarrow> a = 3 \<and> (q = 24 \<longrightarrow> c = 3)"
      "z + 719468 = 146097 * e + ?doe" "mp = (5 * doy + 2) div 153"
    using assms by (auto simp: date_parts_def)
  have e: "(z + 719468) div 146097 = e" using p by (intro div_unique) auto
  then have doe: "(z + 719468) mod 146097 = ?doe" using mult_div_mod_eq [of 146097 "z + 719468"] p(10) by linarith
  have c: "min 3 (?doe div 36524) = c" by (rule min3_div [where r = "1461 * q + 365 * a + doy"]) (use p in auto)
  have q: "(?doe - 36524 * c) div 1461 = q" by (rule div_unique) (use p in auto)
  have a: "min 3 ((?doe - 36524 * c - 1461 * q) div 365) = a" by (rule min3_div [where r = doy]) (use p in auto)
  have doy: "?doe - 36524 * c - 1461 * q - 365 * a = doy" by simp
  show ?thesis unfolding civil_from_days_def parts_date_def Let_def e doe c q a doy p(11) [symmetric] by simp
qed

lemma civil_days: "valid_ymd d \<Longrightarrow> civil_from_days (days_from_civil d) = d"
  using valid_parts civil_of_parts by metis

lemma days_civil: "days_from_civil (civil_from_days z) = z" and civil_valid: "valid_ymd (civil_from_days z)"
proof -
  obtain e c q a doy mp where p: "date_parts z e c q a doy mp" "civil_from_days z = parts_date e c q a doy mp" using civil_parts by blast
  then have "0 \<le> mp" "mp \<le> 11" using march_range [of doy mp] by (auto simp: date_parts_def)
  then show "days_from_civil (civil_from_days z) = z" using p parts_days [of c q a mp e doy] by (simp add: date_parts_def)
  show "valid_ymd (civil_from_days z)" using p parts_valid by simp
qed

text \<open>A valid date and the first of its month.\<close>

lemma days_in_month: "days_from_civil (d\<lparr>ymd_day := k\<rparr>) = days_from_civil d + k - ymd_day d"
  by (simp add: days_from_civil_def Let_def)

section \<open>Time zones\<close>

record Timezone =
  tz_offset :: "int \<Rightarrow> int"
  tz_to_sys :: "int \<Rightarrow> int option"

text \<open>What \<^verbatim>\<open>std::chrono::time_zone\<close> documents: a local time converts to a system time whose local time it is.\<close>

definition zone_law :: "Timezone \<Rightarrow> bool" where
  "zone_law tz \<longleftrightarrow> (\<forall>l s. tz_to_sys tz l = Some s \<longrightarrow> s + tz_offset tz s = l)"

definition fixed_zone :: "int \<Rightarrow> Timezone" where
  "fixed_zone off = \<lparr>tz_offset = (\<lambda>_. off), tz_to_sys = (\<lambda>l. Some (l - off))\<rparr>"

section \<open>DateTime\<close>

definition Day_ns :: int where "Day_ns = 86400000000000"

record DateTime =
  dt_ymd :: year_month_day
  dt_hms :: int
  dt_epoch :: int
  dt_zone :: Timezone

definition ToLocalTimePoint :: "year_month_day \<Rightarrow> int \<Rightarrow> int" where
  "ToLocalTimePoint ymd hms = days_from_civil ymd * Day_ns + hms"

text \<open>\<^verbatim>\<open>SetTimeData\<close> at a system time, and at a local time. It sets every member, so the old value does not matter.\<close>

definition local_time :: "Timezone \<Rightarrow> int \<Rightarrow> int" where
  "local_time tz s = s + tz_offset tz s"

definition SetTimeData :: "int \<Rightarrow> Timezone \<Rightarrow> DateTime" where
  "SetTimeData epoch_time tz =
    (let l = local_time tz epoch_time;
         days = l div Day_ns in
     \<lparr>dt_ymd = civil_from_days days, dt_hms = l - days * Day_ns, dt_epoch = epoch_time, dt_zone = tz\<rparr>)"

definition SetTimeData_local :: "int \<Rightarrow> Timezone \<Rightarrow> DateTime res" where
  "SetTimeData_local l tz =
    (case tz_to_sys tz l of None \<Rightarrow> Inl (Throw ''nonexistent or ambiguous local time'') | Some s \<Rightarrow> Inr (SetTimeData s tz))"

text \<open>The constructor from fields: year, month and day are kept in 16, 8 and 8 bits, the time of day is computed in 32 bits.\<close>

definition DateTime_of :: "u32 \<Rightarrow> u32 \<Rightarrow> u32 \<Rightarrow> u32 \<Rightarrow> u32 \<Rightarrow> u32 \<Rightarrow> Timezone \<Rightarrow> DateTime res" where
  "DateTime_of year month day hour minute second tz =
    SetTimeData_local
      (ToLocalTimePoint \<lparr>ymd_year = sint (ucast year :: 16 word), ymd_month = uint (ucast month :: 8 word), ymd_day = uint (ucast day :: 8 word)\<rparr>
        (uint (hour * 3600 + minute * 60 + second) * 1000000000)) tz"

definition ToEpochTimestamp :: "int \<Rightarrow> DateTime \<Rightarrow> int" where
  "ToEpochTimestamp unit dt = (if dt_epoch dt < 0 then - (- dt_epoch dt div unit) else dt_epoch dt div unit)"

definition DT_Add :: "int \<Rightarrow> DateTime \<Rightarrow> DateTime" where
  "DT_Add time dt = SetTimeData (dt_epoch dt + time) (dt_zone dt)"

definition DT_Plus :: "int \<Rightarrow> DateTime \<Rightarrow> DateTime" where
  "DT_Plus time dt = SetTimeData (dt_epoch dt + time) (dt_zone dt)"

definition DT_Floor :: "int \<Rightarrow> DateTime \<Rightarrow> DateTime res" where
  "DT_Floor unit dt = SetTimeData_local (local_time (dt_zone dt) (dt_epoch dt) div unit * unit) (dt_zone dt)"

definition Floor_Months :: "DateTime \<Rightarrow> DateTime res" where
  "Floor_Months dt = SetTimeData_local (ToLocalTimePoint ((dt_ymd dt)\<lparr>ymd_day := 1\<rparr>) 0) (dt_zone dt)"

definition Floor_Years :: "DateTime \<Rightarrow> DateTime res" where
  "Floor_Years dt = SetTimeData_local (ToLocalTimePoint ((dt_ymd dt)\<lparr>ymd_month := 1, ymd_day := 1\<rparr>) 0) (dt_zone dt)"

text \<open>\<^verbatim>\<open>year_month_day += months\<close> and \<open>+= years\<close>: the day stays, even if the month is shorter.\<close>

definition plus_months :: "int \<Rightarrow> year_month_day \<Rightarrow> year_month_day" where
  "plus_months n d = (let k = ymd_month d - 1 + n in d\<lparr>ymd_year := ymd_year d + k div 12, ymd_month := k mod 12 + 1\<rparr>)"

definition Add_Months :: "int \<Rightarrow> DateTime \<Rightarrow> DateTime res" where
  "Add_Months n dt = Floor_Months (dt\<lparr>dt_ymd := plus_months n (dt_ymd dt)\<rparr>)"

definition Add_Years :: "int \<Rightarrow> DateTime \<Rightarrow> DateTime res" where
  "Add_Years n dt = Floor_Years (dt\<lparr>dt_ymd := (dt_ymd dt)\<lparr>ymd_year := ymd_year (dt_ymd dt) + n\<rparr>\<rparr>)"

definition Plus_Months :: "int \<Rightarrow> DateTime \<Rightarrow> DateTime res" where
  "Plus_Months n dt = rbind (SetTimeData_local (ToLocalTimePoint (plus_months n (dt_ymd dt)) (dt_hms dt)) (dt_zone dt)) Floor_Months"

definition Plus_Years :: "int \<Rightarrow> DateTime \<Rightarrow> DateTime res" where
  "Plus_Years n dt =
    rbind (SetTimeData_local (ToLocalTimePoint ((dt_ymd dt)\<lparr>ymd_year := ymd_year (dt_ymd dt) + n\<rparr>) (dt_hms dt)) (dt_zone dt)) Floor_Years"

text \<open>Reading the members, and the local date as a string.\<close>

definition DT_Year :: "DateTime \<Rightarrow> int" where "DT_Year dt = ymd_year (dt_ymd dt)"
definition DT_Month :: "DateTime \<Rightarrow> int" where "DT_Month dt = ymd_month (dt_ymd dt)"
definition DT_Day :: "DateTime \<Rightarrow> int" where "DT_Day dt = ymd_day (dt_ymd dt)"
definition IsLeapYear :: "DateTime \<Rightarrow> bool" where "IsLeapYear dt = is_leap (ymd_year (dt_ymd dt))"
definition IsLastDayOfMonth :: "DateTime \<Rightarrow> bool" where
  "IsLastDayOfMonth dt = (last_day (ymd_year (dt_ymd dt)) (ymd_month (dt_ymd dt)) = ymd_day (dt_ymd dt))"
definition DT_Hour :: "DateTime \<Rightarrow> int" where "DT_Hour dt = dt_hms dt div 3600000000000"
definition DT_Minute :: "DateTime \<Rightarrow> int" where "DT_Minute dt = dt_hms dt mod 3600000000000 div 60000000000"
definition DT_Second :: "DateTime \<Rightarrow> int" where "DT_Second dt = dt_hms dt mod 60000000000 div 1000000000"
definition SubSecond :: "DateTime \<Rightarrow> int" where "SubSecond dt = dt_hms dt mod 1000000000"

fun digits :: "nat \<Rightarrow> string" where
  "digits n = (if n < 10 then [char_of (48 + n)] else digits (n div 10) @ [char_of (48 + n mod 10)])"

declare digits.simps [simp del]

text \<open>\<^verbatim>\<open>operator<<\<close> of an integer, alone and with \<^verbatim>\<open>setfill('0')\<close> and \<^verbatim>\<open>setw\<close>.\<close>

definition put_int :: "int \<Rightarrow> string" where
  "put_int n = (if n < 0 then CHR ''-'' # digits (nat (- n)) else digits (nat n))"

definition put_padded :: "nat \<Rightarrow> int \<Rightarrow> string" where
  "put_padded w n = replicate (w - length (put_int n)) (CHR ''0'') @ put_int n"

definition ToLocalDateString :: "DateTime \<Rightarrow> string" where
  "ToLocalDateString dt =
    put_int (DT_Year dt) @ ''-'' @ put_padded 2 (DT_Month dt) @ ''-'' @ put_padded 2 (DT_Day dt) @ '' '' @
    put_padded 2 (DT_Hour dt) @ '':'' @ put_padded 2 (DT_Minute dt) @ '':'' @ put_padded 2 (DT_Second dt) @ ''.'' @
    put_padded 3 (SubSecond dt div 1000000)"

section \<open>Well-formed values\<close>

text \<open>The members agree: the date exists, the time is within a day, and together they are the local time of the point in time.\<close>

definition dt_wf :: "DateTime \<Rightarrow> bool" where
  "dt_wf dt \<longleftrightarrow> valid_ymd (dt_ymd dt) \<and> 0 \<le> dt_hms dt \<and> dt_hms dt < Day_ns \<and>
     ToLocalTimePoint (dt_ymd dt) (dt_hms dt) = local_time (dt_zone dt) (dt_epoch dt)"

lemma Day_ns_pos [simp]: "0 < Day_ns"
  by (simp add: Day_ns_def)

lemma SetTimeData_wf: "dt_wf (SetTimeData s tz)"
  using pos_mod_bound [OF Day_ns_pos, of "local_time tz s"] pos_mod_sign [OF Day_ns_pos, of "local_time tz s"]
  by (simp add: dt_wf_def SetTimeData_def Let_def civil_valid days_civil ToLocalTimePoint_def minus_div_mult_eq_mod)

lemma SetTimeData_fields: "dt_epoch (SetTimeData s tz) = s" "dt_zone (SetTimeData s tz) = tz"
  by (simp_all add: SetTimeData_def Let_def)

lemma wf_determined:
  assumes "dt_wf dt"
  shows "SetTimeData (dt_epoch dt) (dt_zone dt) = dt"
proof -
  let ?l = "local_time (dt_zone dt) (dt_epoch dt)"
  have l: "?l = days_from_civil (dt_ymd dt) * Day_ns + dt_hms dt" and h: "0 \<le> dt_hms dt" "dt_hms dt < Day_ns" and v: "valid_ymd (dt_ymd dt)"
    using assms by (auto simp: dt_wf_def ToLocalTimePoint_def)
  have "?l div Day_ns = days_from_civil (dt_ymd dt)" by (rule div_unique) (use l h in \<open>auto simp: mult.commute\<close>)
  then show ?thesis using l v by (simp add: SetTimeData_def Let_def civil_days)
qed

lemma local_wf: "SetTimeData_local l tz = Inr dt \<Longrightarrow> dt_wf dt"
  by (auto simp: SetTimeData_local_def SetTimeData_wf split: option.splits)



section \<open>Values from their fields\<close>

lemma local_fields:
  assumes "zone_law tz" "tz_to_sys tz (ToLocalTimePoint ymd hms) = Some sys" "valid_ymd ymd" "0 \<le> hms" "hms < Day_ns"
  shows "SetTimeData_local (ToLocalTimePoint ymd hms) tz = Inr \<lparr>dt_ymd = ymd, dt_hms = hms, dt_epoch = sys, dt_zone = tz\<rparr>"
proof -
  have "local_time tz sys = ToLocalTimePoint ymd hms" using assms(1,2) by (auto simp: zone_law_def local_time_def)
  then have "dt_wf \<lparr>dt_ymd = ymd, dt_hms = hms, dt_epoch = sys, dt_zone = tz\<rparr>" using assms(3-5) by (simp add: dt_wf_def)
  from wf_determined [OF this] show ?thesis using assms(2) by (simp add: SetTimeData_local_def)
qed

lemma time_of_day:
  fixes h m sc :: int
  assumes "0 \<le> h" "h < 24" "0 \<le> m" "m < 60" "0 \<le> sc" "sc < 60" "t = (h * 3600 + m * 60 + sc) * 1000000000"
  shows "0 \<le> t" "t < Day_ns" "t div 3600000000000 = h" "t mod 3600000000000 div 60000000000 = m" "t mod 60000000000 div 1000000000 = sc" "t mod 1000000000 = 0"
proof -
  show "0 \<le> t" "t < Day_ns" using assms by (simp_all add: Day_ns_def)
  show 1: "t div 3600000000000 = h" by (rule div_unique) (use assms in auto)
  have "t mod 3600000000000 = (m * 60 + sc) * 1000000000" using minus_mult_div_eq_mod [of t 3600000000000] unfolding 1 by (simp add: assms(7) algebra_simps)
  then show "t mod 3600000000000 div 60000000000 = m" by (simp only:) (rule div_unique; use assms in auto)
  have 2: "t div 60000000000 = h * 60 + m" by (rule div_unique) (use assms in auto)
  have "t mod 60000000000 = sc * 1000000000" using minus_mult_div_eq_mod [of t 60000000000] unfolding 2 by (simp add: assms(7) algebra_simps)
  then show "t mod 60000000000 div 1000000000 = sc" by simp
  show "t mod 1000000000 = 0" by (simp add: assms(7))
qed

text \<open>A \<^verbatim>\<open>DateTime\<close> built from a date and a time that exist, in a zone that converts the local time, reads back as the year, month,
  day, hour, minute and second it was built from, and its point in time is the one the zone gives.\<close>

theorem datetime_fields_round_trip:
  assumes "zone_law tz" "uint year < 2 ^ 15" "valid_ymd \<lparr>ymd_year = uint year, ymd_month = uint month, ymd_day = uint day\<rparr>"
    and "hour < 24" "minute < 60" "second < 60"
    and "tz_to_sys tz (ToLocalTimePoint \<lparr>ymd_year = uint year, ymd_month = uint month, ymd_day = uint day\<rparr>
           ((uint hour * 3600 + uint minute * 60 + uint second) * 1000000000)) = Some sys"
  shows "\<exists>dt. DateTime_of year month day hour minute second tz = Inr dt \<and> dt_epoch dt = sys \<and> DT_Year dt = uint year \<and> DT_Month dt = uint month \<and>
     DT_Day dt = uint day \<and> DT_Hour dt = uint hour \<and> DT_Minute dt = uint minute \<and> DT_Second dt = uint second \<and> SubSecond dt = 0"
proof -
  let ?ymd = "\<lparr>ymd_year = uint year, ymd_month = uint month, ymd_day = uint day\<rparr>" and ?t = "(uint hour * 3600 + uint minute * 60 + uint second) * 1000000000"
  have b: "uint month \<le> 12" "uint day \<le> 31" using assms(3) by (auto simp: valid_ymd_def last_day_def split: if_splits)
  have small: "uint hour < 24" "uint minute < 60" "uint second < 60" using assms(4-6) by (simp_all add: word_less_def)
  have fields: "sint (ucast year :: 16 word) = uint year" "uint (ucast month :: 8 word) = uint month" "uint (ucast day :: 8 word) = uint day"
    using assms(2) b order_trans [OF _ uint_ge_0, of "- 32768" year] by (simp_all add: sint_uint signed_take_bit_int_eq_self_iff unsigned_ucast_eq take_bit_int_eq_self)
  define t where "t = ?t"
  note tod = time_of_day [OF uint_ge_0 small(1) uint_ge_0 small(2) uint_ge_0 small(3) t_def]
  have seconds: "uint (hour * 3600 + minute * 60 + second) * 1000000000 = t"
    using small by (simp add: uint_word_ariths t_def)
  have "DateTime_of year month day hour minute second tz = Inr \<lparr>dt_ymd = ?ymd, dt_hms = t, dt_epoch = sys, dt_zone = tz\<rparr>"
    unfolding DateTime_of_def fields seconds using local_fields [OF assms(1) _ assms(3) tod(1,2)] assms(7) by (simp add: t_def)
  then show ?thesis
    using tod(3-6) by (simp add: DT_Year_def DT_Month_def DT_Day_def DT_Hour_def DT_Minute_def DT_Second_def SubSecond_def)
qed

theorem datetime_fields_round_trip_witness:
  "\<exists>dt. DateTime_of 2024 2 29 23 59 58 (fixed_zone 32400000000000) = Inr dt \<and> DT_Day dt = 29 \<and> DT_Second dt = 58"
  using datetime_fields_round_trip [of "fixed_zone 32400000000000" 2024 2 29 23 59 58]
  by (auto simp: fixed_zone_def zone_law_def valid_ymd_def last_day_def is_leap_def)

section \<open>Adding months\<close>

lemma plus_months_valid: "1 \<le> ymd_month (plus_months n d) \<and> ymd_month (plus_months n d) \<le> 12"
  by (simp add: plus_months_def Let_def)

lemma first_valid: "1 \<le> ymd_month d \<Longrightarrow> ymd_month d \<le> 12 \<Longrightarrow> 1 \<le> k \<Longrightarrow> k \<le> 28 \<Longrightarrow> valid_ymd (d\<lparr>ymd_day := k\<rparr>)"
  by (simp add: valid_ymd_def last_day_def)

text \<open>The first of the next month comes after the last day of the month.\<close>

lemma march_first:
  assumes "0 \<le> c" "c \<le> 3" "0 \<le> q" "q \<le> 24" "0 \<le> a" "a \<le> 3"
  shows "days_from_civil \<lparr>ymd_year = e * 400 + 100 * c + 4 * q + a + 1, ymd_month = 3, ymd_day = 1\<rparr> =
    e * 146097 + 36524 * c + 1461 * q + 365 * a + (if a = 3 \<and> (q = 24 \<longrightarrow> c = 3) then 366 else 365) - 719468"
proof -
  have first: "\<lparr>ymd_year = e' * 400 + 100 * c' + 4 * q' + a', ymd_month = 3, ymd_day = 1\<rparr> = parts_date e' c' q' a' 0 0" for e' c' q' a'
    by (simp add: parts_date_def march_table)
  consider "a < 3" | "a = 3" "q < 24" | "a = 3" "q = 24" "c < 3" | "a = 3" "q = 24" "c = 3" using assms by linarith
  then show ?thesis
  proof cases
    case 1
    then show ?thesis using assms first [of e c q "a + 1"] parts_days [of c q "a + 1" 0 e 0] by (simp add: algebra_simps)
  next
    case 2
    then show ?thesis using assms first [of e c "q + 1" 0] parts_days [of c "q + 1" 0 0 e 0] by (simp add: algebra_simps)
  next
    case 3
    then show ?thesis using assms first [of e "c + 1" 0 0] parts_days [of "c + 1" 0 0 0 e 0] by (simp add: algebra_simps)
  next
    case 4
    then show ?thesis using assms first [of "e + 1" 0 0 0] parts_days [of 0 0 0 0 "e + 1" 0] by (simp add: algebra_simps)
  qed
qed

definition march_year :: "int \<Rightarrow> int" where
  "march_year y = y div 400 * 146097 + (y mod 400 * 365 + y mod 400 div 4 - y mod 400 div 100) - 719468"

lemma days_by_march:
  "days_from_civil d = march_year (if ymd_month d \<le> 2 then ymd_year d - 1 else ymd_year d) +
     march_day (if ymd_month d > 2 then ymd_month d - 3 else ymd_month d + 9) + ymd_day d - 1"
  by (simp add: days_from_civil_def march_year_def Let_def)

lemma next_month:
  assumes "1 \<le> ymd_month d" "ymd_month d \<le> 12"
  shows "days_from_civil ((plus_months 1 d)\<lparr>ymd_day := 1\<rparr>) = days_from_civil (d\<lparr>ymd_day := 1\<rparr>) + last_day (ymd_year d) (ymd_month d)"
proof (cases "ymd_month d = 2")
  case True
  obtain e c q a where r: "0 \<le> c" "c \<le> 3" "0 \<le> q" "q \<le> 24" "0 \<le> a" "a \<le> 3" and "ymd_year d - 1 = e * 400 + 100 * c + 4 * q + a"
    using year_split by blast
  then have y: "ymd_year d = e * 400 + 100 * c + 4 * q + a + 1" by simp
  have "d\<lparr>ymd_day := 1\<rparr> = parts_date e c q a 337 11" using True y by (intro year_month_day.equality) (simp_all add: parts_date_def march_table)
  moreover have "(plus_months 1 d)\<lparr>ymd_day := 1\<rparr> = \<lparr>ymd_year = e * 400 + 100 * c + 4 * q + a + 1, ymd_month = 3, ymd_day = 1\<rparr>"
    using True y by (intro year_month_day.equality) (simp_all add: plus_months_def)
  ultimately show ?thesis
    using True y parts_days [OF r, of 11 e 337] march_first [OF r, of e] leap_parts [OF r, of e] by (simp add: last_day_def)
next
  case False
  then have "ymd_month d \<in> {1, 3, 4, 5, 6, 7, 8, 9, 10, 11, 12}" using assms by simp presburger
  then show ?thesis by (elim insertE emptyE) (simp_all add: days_by_march plus_months_def last_day_def march_table)
qed

lemma month_overflow:
  assumes "1 \<le> ymd_month d" "ymd_month d \<le> 12" "1 \<le> ymd_day d" "ymd_day d \<le> 31"
  shows "civil_from_days (days_from_civil d) =
    (if ymd_day d \<le> last_day (ymd_year d) (ymd_month d) then d
     else (plus_months 1 d)\<lparr>ymd_day := ymd_day d - last_day (ymd_year d) (ymd_month d)\<rparr>)"
proof (cases "ymd_day d \<le> last_day (ymd_year d) (ymd_month d)")
  case True
  then show ?thesis using assms civil_days [of d] by (simp add: valid_ymd_def)
next
  case False
  let ?k = "ymd_day d - last_day (ymd_year d) (ymd_month d)"
  have "valid_ymd ((plus_months 1 d)\<lparr>ymd_day := ?k\<rparr>)"
    using False assms plus_months_valid [of 1 d] by (intro first_valid) (auto simp: last_day_def)
  moreover have "days_from_civil ((plus_months 1 d)\<lparr>ymd_day := ?k\<rparr>) = days_from_civil d"
    using next_month [OF assms(1,2)] by (simp add: days_in_month)
  ultimately show ?thesis using False civil_days [of "(plus_months 1 d)\<lparr>ymd_day := ?k\<rparr>"] by simp
qed

definition first_of_month :: "int \<Rightarrow> year_month_day \<Rightarrow> DateTime" where
  "first_of_month off d = \<lparr>dt_ymd = d\<lparr>ymd_day := 1\<rparr>, dt_hms = 0, dt_epoch = ToLocalTimePoint (d\<lparr>ymd_day := 1\<rparr>) 0 - off, dt_zone = fixed_zone off\<rparr>"

lemma fixed_local:
  assumes "valid_ymd ymd" "0 \<le> hms" "hms < Day_ns"
  shows "SetTimeData_local (ToLocalTimePoint ymd hms) (fixed_zone off) =
    Inr \<lparr>dt_ymd = ymd, dt_hms = hms, dt_epoch = ToLocalTimePoint ymd hms - off, dt_zone = fixed_zone off\<rparr>"
  by (rule local_fields) (use assms in \<open>simp_all add: zone_law_def fixed_zone_def\<close>)

lemma Floor_Months_fixed:
  assumes "dt_zone dt = fixed_zone off" "1 \<le> ymd_month (dt_ymd dt)" "ymd_month (dt_ymd dt) \<le> 12"
  shows "Floor_Months dt = Inr (first_of_month off (dt_ymd dt))"
  unfolding Floor_Months_def assms(1) first_of_month_def by (rule fixed_local [OF first_valid]) (use assms in simp_all)

text \<open>What adding months does, in a zone with a fixed offset. \<^verbatim>\<open>Add\<close> moves to the first of the month that is \<open>n\<close> months away, at midnight. \<^verbatim>\<open>Plus\<close>
  does the same only if the day of the month exists there; from a later day, such as the 31st, it ends one month too far.\<close>

theorem add_and_plus_months:
  assumes "dt_wf dt" "dt_zone dt = fixed_zone off"
  shows "let d = plus_months n (dt_ymd dt) in
    Add_Months n dt = Inr (first_of_month off d) \<and>
    Plus_Months n dt = Inr (first_of_month off (if ymd_day d \<le> last_day (ymd_year d) (ymd_month d) then d else plus_months 1 d))"
proof -
  define d where "d = plus_months n (dt_ymd dt)"
  define d' where "d' = civil_from_days (days_from_civil d)"
  have month: "1 \<le> ymd_month d" "ymd_month d \<le> 12" using plus_months_valid [of n "dt_ymd dt"] by (simp_all add: d_def)
  have "ymd_day d = ymd_day (dt_ymd dt)" by (simp add: d_def plus_months_def Let_def)
  then have day: "1 \<le> ymd_day d" "ymd_day d \<le> 31" using assms(1) by (auto simp: dt_wf_def valid_ymd_def last_day_def split: if_splits)
  have hms: "0 \<le> dt_hms dt" "dt_hms dt < Day_ns" using assms(1) by (simp_all add: dt_wf_def)
  have "Add_Months n dt = Inr (first_of_month off d)"
    unfolding Add_Months_def d_def [symmetric] using assms(2) month by (subst Floor_Months_fixed) simp_all
  moreover have "ToLocalTimePoint d (dt_hms dt) = ToLocalTimePoint d' (dt_hms dt)" by (simp add: ToLocalTimePoint_def d'_def days_civil)
  then have "Plus_Months n dt = Inr (first_of_month off d')"
    using fixed_local [of d' "dt_hms dt" off] Floor_Months_fixed hms assms(2) civil_valid [of "days_from_civil d"]
    by (simp add: Plus_Months_def d_def [symmetric] d'_def [symmetric] valid_ymd_def)
  moreover have "first_of_month off d' = first_of_month off (if ymd_day d \<le> last_day (ymd_year d) (ymd_month d) then d else plus_months 1 d)"
    using month_overflow [OF month day] by (simp add: d'_def first_of_month_def)
  ultimately show ?thesis by (simp add: d_def [symmetric])
qed

theorem add_and_plus_months_witness:
  "\<exists>dt. dt_ymd dt = \<lparr>ymd_year = 2023, ymd_month = 1, ymd_day = 31\<rparr> \<and>
     Add_Months 1 dt = Inr (first_of_month 0 \<lparr>ymd_year = 2023, ymd_month = 2, ymd_day = 31\<rparr>) \<and>
     Plus_Months 1 dt = Inr (first_of_month 0 \<lparr>ymd_year = 2023, ymd_month = 3, ymd_day = 31\<rparr>)"
proof -
  let ?ymd = "\<lparr>ymd_year = 2023, ymd_month = 1, ymd_day = 31\<rparr>"
  let ?dt = "\<lparr>dt_ymd = ?ymd, dt_hms = 0, dt_epoch = ToLocalTimePoint ?ymd 0, dt_zone = fixed_zone 0\<rparr>"
  have "dt_wf ?dt" by (simp add: dt_wf_def valid_ymd_def last_day_def local_time_def fixed_zone_def)
  from add_and_plus_months [OF this, of 0 1] show ?thesis
    by (intro exI [of _ ?dt]) (simp add: plus_months_def last_day_def is_leap_def)
qed

section \<open>The date as a string\<close>

definition read_int :: "string \<Rightarrow> int" where
  "read_int s = foldl (\<lambda>n c. 10 * n + (int (of_char c) - 48)) 0 s"

lemma read_digits: "read_int (digits n) = int n"
proof (induction n rule: digits.induct)
  case (1 n)
  have digit: "int (of_char (char_of (48 + k) :: char)) = 48 + int k" if "k < 10" for k :: nat using that by simp
  show ?case
  proof (cases "n < 10")
    case True
    then show ?thesis using digit [of n] by (simp add: read_int_def digits.simps [of n])
  next
    case False
    then have "read_int (digits n) = 10 * int (n div 10) + int (n mod 10)"
      using 1 digit [of "n mod 10"] by (simp add: read_int_def digits.simps [of n])
    then show ?thesis by presburger
  qed
qed

lemma length_digits: "n < 10 ^ k \<Longrightarrow> 0 < k \<Longrightarrow> length (digits n) \<le> k"
proof (induction k arbitrary: n)
  case (Suc k)
  show ?case
  proof (cases "n < 10")
    case True
    then show ?thesis by (simp add: digits.simps [of n])
  next
    case False
    then have "n div 10 < 10 ^ k" "0 < k" using Suc.prems by (auto simp: less_mult_imp_div_less mult.commute intro: ccontr)
    then show ?thesis using Suc.IH [of "n div 10"] False by (simp add: digits.simps [of n])
  qed
qed simp

lemma read_padded: "0 \<le> n \<Longrightarrow> read_int (put_padded w n) = n"
proof -
  have zeros: "foldl (\<lambda>n c. 10 * n + (int (of_char c) - 48)) 0 (replicate k (CHR ''0'')) = 0" for k by (induction k) simp_all
  assume "0 \<le> n"
  then show ?thesis using read_digits [of "nat n"] by (simp add: put_padded_def put_int_def read_int_def zeros)
qed

lemma length_padded: "0 \<le> n \<Longrightarrow> n < 10 ^ w \<Longrightarrow> 0 < w \<Longrightarrow> length (put_padded w n) = w"
  using length_digits [of "nat n" w] by (simp add: put_padded_def put_int_def nat_less_iff)

lemma year_digits: "1000 \<le> n \<Longrightarrow> n < 10000 \<Longrightarrow> put_int n = put_padded 4 n"
proof -
  assume n: "1000 \<le> n" "n < (10000 :: int)"
  have "4 \<le> length (digits k)" if "1000 \<le> k" for k
    using that div_le_mono [OF that, of 10] div_le_mono [OF that, of 100] by (simp add: digits.simps [of k] digits.simps [of "k div 10"] digits.simps [of "k div 100"] digits.simps [of "k div 1000"] div_mult2_eq [symmetric])
  then show ?thesis using n by (simp add: put_padded_def put_int_def)
qed

text \<open>The date string of a well-formed value with a year of four digits has 23 characters, and reading its parts back gives the
  year, month, day, hour, minute, second and millisecond of the value.\<close>

theorem date_string_reads_back:
  assumes "dt_wf dt" "1000 \<le> DT_Year dt" "DT_Year dt < 10000"
  shows "let s = ToLocalDateString dt in
    length s = 23 \<and> read_int (take 4 s) = DT_Year dt \<and> read_int (take 2 (drop 5 s)) = DT_Month dt \<and> read_int (take 2 (drop 8 s)) = DT_Day dt \<and>
    read_int (take 2 (drop 11 s)) = DT_Hour dt \<and> read_int (take 2 (drop 14 s)) = DT_Minute dt \<and> read_int (take 2 (drop 17 s)) = DT_Second dt \<and>
    read_int (take 3 (drop 20 s)) = SubSecond dt div 1000000"
proof -
  have date: "0 \<le> DT_Month dt" "DT_Month dt < 10\<^sup>2" "0 \<le> DT_Day dt" "DT_Day dt < 10\<^sup>2"
    using assms(1) by (auto simp: dt_wf_def valid_ymd_def DT_Month_def DT_Day_def last_day_def split: if_splits)
  have hms: "0 \<le> dt_hms dt" "dt_hms dt < 86400000000000" using assms(1) by (simp_all add: dt_wf_def Day_ns_def)
  have time: "0 \<le> DT_Hour dt" "DT_Hour dt < 10\<^sup>2" "0 \<le> DT_Minute dt" "DT_Minute dt < 10\<^sup>2" "0 \<le> DT_Second dt" "DT_Second dt < 10\<^sup>2"
      "0 \<le> SubSecond dt div 1000000" "SubSecond dt div 1000000 < 10 ^ 3"
    using hms by (simp_all add: DT_Hour_def DT_Minute_def DT_Second_def SubSecond_def div_range)
  have year: "put_int (DT_Year dt) = put_padded 4 (DT_Year dt)" "0 \<le> DT_Year dt" "DT_Year dt < 10 ^ 4" using assms(2,3) year_digits by simp_all
  note lengths = length_padded [OF year(2,3)] length_padded [OF date(1,2)] length_padded [OF date(3,4)] length_padded [OF time(1,2)]
    length_padded [OF time(3,4)] length_padded [OF time(5,6)] length_padded [OF time(7,8)]
  show ?thesis using lengths date time year by (simp add: ToLocalDateString_def Let_def read_padded)
qed

theorem date_string_reads_back_witness:
  "length (ToLocalDateString (SetTimeData 0 (fixed_zone 0))) = 23 \<and> read_int (take 4 (ToLocalDateString (SetTimeData 0 (fixed_zone 0)))) = 1970"
proof -
  have "civil_from_days 0 = \<lparr>ymd_year = 1970, ymd_month = 1, ymd_day = 1\<rparr>"
    using civil_days [of "\<lparr>ymd_year = 1970, ymd_month = 1, ymd_day = 1\<rparr>"]
    by (simp add: valid_ymd_def last_day_def days_from_civil_def march_day_def)
  then have year: "DT_Year (SetTimeData 0 (fixed_zone 0)) = 1970" by (simp add: DT_Year_def SetTimeData_def local_time_def fixed_zone_def)
  have "1000 \<le> DT_Year (SetTimeData 0 (fixed_zone 0))" "DT_Year (SetTimeData 0 (fixed_zone 0)) < 10000" unfolding year by simp_all
  from date_string_reads_back [OF SetTimeData_wf this] show ?thesis unfolding Let_def year by blast
qed

end
