(* ===== verification/Logging.thy ===== *)
theory Logging
  imports Memory DateTimes "HOL-Library.Multiset"
begin

text \<open>
  The logger: \<^verbatim>\<open>utility/Logger.h\<close>. Threads put logs into queues, chosen by the hash of their identifier; one thread takes them out and prints
  them. The hash, the printed form of a thread identifier and the local time zone are arguments. A queue is first in, first out; pushing to a full
  queue waits (\<^verbatim>\<open>AtomicQueueB::push\<close> spins), which is the result \<open>Inr None\<close>.
\<close>

section \<open>State\<close>

datatype LogLevel = LogInfo | LogWarn | LogError | LogFatal | LogMax

record 'thread Log =
  lg_time :: int
  lg_file :: string
  lg_line :: nat
  lg_thread :: 'thread
  lg_level :: LogLevel
  lg_message :: string

fun level_str :: "LogLevel \<Rightarrow> string" where
  "level_str LogInfo = ''Info''"
| "level_str LogWarn = ''Warn''"
| "level_str LogError = ''Error''"
| "level_str LogFatal = ''Fatal''"
| "level_str LogMax = ''Max''"

record 'thread Logger =
  lo_buffer_pool :: "ObjectPool list"
  lo_log_queue :: "(ObjectBlock \<times> 'thread Log) list list"
  lo_max_log_size :: u32
  lo_parallelism :: u32
  lo_sstream :: string
  lo_out :: string

definition new_Logger :: "'thread Logger" where
  "new_Logger = \<lparr>lo_buffer_pool = [], lo_log_queue = [], lo_max_log_size = 0, lo_parallelism = 0, lo_sstream = [], lo_out = []\<rparr>"

section \<open>Operations\<close>

text \<open>\<^verbatim>\<open>InitializeLogger\<close>; the thread it starts runs \<open>LoggerMain\<close>.\<close>

definition InitializeLogger :: "u32 \<Rightarrow> u32 \<Rightarrow> 'thread Logger \<Rightarrow> 'thread Logger res" where
  "InitializeLogger max_log_size parallelism lo =
    rbind (new_ObjectPool 1024 8 1) (\<lambda>pool.
    case pool of
      None \<Rightarrow> Inl Undefined
    | Some p \<Rightarrow>
        Inr (lo\<lparr>lo_max_log_size := max_log_size, lo_parallelism := parallelism,
               lo_buffer_pool := lo_buffer_pool lo @ replicate (unat parallelism) p,
               lo_log_queue := lo_log_queue lo @ replicate (unat parallelism) []\<rparr>))"

definition queue_capacity :: "'thread Logger \<Rightarrow> nat" where
  "queue_capacity lo = unat (1024 * lo_parallelism lo)"

text \<open>\<^verbatim>\<open>PushLog\<close> with the formatted message. \<^verbatim>\<open>sprintf_s\<close> ends the process when the message and its terminator do not fit.\<close>

definition log_index :: "('thread \<Rightarrow> u64) \<Rightarrow> 'thread \<Rightarrow> 'thread Logger \<Rightarrow> nat" where
  "log_index hash thread lo = unat (hash thread mod ucast (lo_parallelism lo))"

definition PushLog :: "('thread \<Rightarrow> u64) \<Rightarrow> 'thread Log \<Rightarrow> 'thread Logger \<Rightarrow> 'thread Logger option res" where
  "PushLog hash entry lo =
    (if lo_parallelism lo = 0 then Inl Undefined
     else
       let i = log_index hash (lg_thread entry) lo in
       rbind (array_at (lo_buffer_pool lo) i) (\<lambda>pool.
       case Pool_Pop True pool of
         (None, _) \<Rightarrow> Inl NullDeref
       | (Some block, pool') \<Rightarrow>
           if unat (lo_max_log_size lo) \<le> length (lg_message entry) then Inl (Throw ''sprintf_s'')
           else assert_that (length (lg_message entry) \<noteq> unat (lo_max_log_size lo))
             (rbind (array_at (lo_log_queue lo) i) (\<lambda>queue.
              if queue_capacity lo \<le> length queue then Inr None
              else Inr (Some (lo\<lparr>lo_buffer_pool := (lo_buffer_pool lo)[i := pool'], lo_log_queue := (lo_log_queue lo)[i := queue @ [(block, entry)]]\<rparr>))))))"

definition log_line :: "Timezone \<Rightarrow> ('thread \<Rightarrow> string) \<Rightarrow> 'thread Log \<Rightarrow> string" where
  "log_line zone show_thread entry =
    ''['' @ level_str (lg_level entry) @ ''][''  @ ToLocalDateString (SetTimeData (lg_time entry * 1000000) zone) @ ''][''  @ lg_file entry @
    '' line:'' @ digits (lg_line entry) @ ''][''  @ show_thread (lg_thread entry) @ ''][ '' @ lg_message entry @ '' ]'' @ [CHR 0x0A]"

text \<open>The loop over one queue, one step of it, and a round of \<^verbatim>\<open>LoggerMain\<close>.\<close>

definition pop_log :: "Timezone \<Rightarrow> ('thread \<Rightarrow> string) \<Rightarrow> nat \<Rightarrow> 'thread Logger \<Rightarrow> 'thread Logger option" where
  "pop_log zone show_thread i lo =
    (case lo_log_queue lo ! i of
       [] \<Rightarrow> None
     | (block, entry) # rest \<Rightarrow>
         Some (lo\<lparr>lo_log_queue := (lo_log_queue lo)[i := rest], lo_sstream := lo_sstream lo @ log_line zone show_thread entry,
                 lo_buffer_pool := (lo_buffer_pool lo)[i := Pool_Push block (lo_buffer_pool lo ! i)]\<rparr>))"

fun drain_queue :: "Timezone \<Rightarrow> ('thread \<Rightarrow> string) \<Rightarrow> nat \<Rightarrow> nat \<Rightarrow> 'thread Logger \<Rightarrow> 'thread Logger" where
  "drain_queue zone show_thread i 0 lo = lo"
| "drain_queue zone show_thread i (Suc n) lo =
    (case pop_log zone show_thread i lo of None \<Rightarrow> lo | Some lo' \<Rightarrow> drain_queue zone show_thread i n lo')"

definition flush_stream :: "'thread Logger \<Rightarrow> 'thread Logger" where
  "flush_stream lo = (if lo_sstream lo \<noteq> [] then lo\<lparr>lo_out := lo_out lo @ lo_sstream lo, lo_sstream := []\<rparr> else lo)"

definition LoggerMain :: "Timezone \<Rightarrow> ('thread \<Rightarrow> string) \<Rightarrow> 'thread Logger \<Rightarrow> 'thread Logger" where
  "LoggerMain zone show_thread lo =
    flush_stream (fold (\<lambda>i lo. drain_queue zone show_thread i (length (lo_log_queue lo ! i)) lo) [0..<length (lo_log_queue lo)] lo)"

section \<open>Every entry is printed once, and in order\<close>

inductive log_run :: "('thread \<Rightarrow> u64) \<Rightarrow> Timezone \<Rightarrow> ('thread \<Rightarrow> string) \<Rightarrow> 'thread Log list \<Rightarrow> 'thread Logger \<Rightarrow> bool"
  for hash zone show_thread where
  start: "InitializeLogger max_log_size parallelism new_Logger = Inr lo \<Longrightarrow> log_run hash zone show_thread [] lo"
| push: "log_run hash zone show_thread pushed lo \<Longrightarrow> PushLog hash entry lo = Inr (Some lo') \<Longrightarrow> log_run hash zone show_thread (pushed @ [entry]) lo'"
| pop: "log_run hash zone show_thread pushed lo \<Longrightarrow> i < length (lo_log_queue lo) \<Longrightarrow> pop_log zone show_thread i lo = Some lo' \<Longrightarrow>
    log_run hash zone show_thread pushed lo'"
| flush: "log_run hash zone show_thread pushed lo \<Longrightarrow> log_run hash zone show_thread pushed (flush_stream lo)"

definition of_thread :: "'thread \<Rightarrow> 'thread Log list \<Rightarrow> 'thread Log list" where
  "of_thread t = filter (\<lambda>l. lg_thread l = t)"

definition queued :: "nat \<Rightarrow> 'thread Logger \<Rightarrow> 'thread Log list" where
  "queued i lo = map snd (lo_log_queue lo ! i)"

text \<open>The logs that are printed or in the stream, and for every thread what it pushed: first what is printed, then what is in its queue.\<close>

definition log_inv :: "('thread \<Rightarrow> u64) \<Rightarrow> Timezone \<Rightarrow> ('thread \<Rightarrow> string) \<Rightarrow> 'thread Log list \<Rightarrow> 'thread Log list \<Rightarrow> 'thread Logger \<Rightarrow> bool" where
  "log_inv hash zone show_thread pushed printed lo \<longleftrightarrow>
    length (lo_log_queue lo) = unat (lo_parallelism lo) \<and>
    lo_out lo @ lo_sstream lo = concat (map (log_line zone show_thread) printed) \<and>
    (\<forall>i < length (lo_log_queue lo). \<forall>l \<in> set (queued i lo). log_index hash (lg_thread l) lo = i) \<and>
    (\<forall>t. lo_parallelism lo \<noteq> 0 \<longrightarrow> of_thread t pushed = of_thread t printed @ of_thread t (queued (log_index hash t lo) lo)) \<and>
    (lo_parallelism lo = 0 \<longrightarrow> pushed = [] \<and> printed = [])"

lemma log_index_bound: "lo_parallelism lo \<noteq> 0 \<Longrightarrow> log_index hash t lo < unat (lo_parallelism lo)"
proof -
  assume "lo_parallelism lo \<noteq> 0"
  then have "0 < unat (lo_parallelism lo)" by (simp add: unat_gt_0)
  moreover have "unat (lo_parallelism lo) < 2 ^ 64" using unsigned_less [of "lo_parallelism lo", where ?'a = nat] by simp
  ultimately show ?thesis by (simp add: log_index_def unat_mod unsigned_ucast_eq take_bit_nat_eq_self)
qed

lemma PushLog_result:
  assumes "PushLog hash entry lo = Inr (Some lo')"
  obtains block pools where "lo_parallelism lo \<noteq> 0" "log_index hash (lg_thread entry) lo < length (lo_log_queue lo)"
    "lo' = lo\<lparr>lo_buffer_pool := pools, lo_log_queue := (lo_log_queue lo)[log_index hash (lg_thread entry) lo :=
       lo_log_queue lo ! log_index hash (lg_thread entry) lo @ [(block, entry)]]\<rparr>"
  using assms by (auto simp: PushLog_def array_at_def res_iff Let_def split: if_splits option.splits prod.splits)

lemma log_push_inv:
  assumes "log_inv hash zone show_thread pushed printed lo" "PushLog hash entry lo = Inr (Some lo')"
  shows "log_inv hash zone show_thread (pushed @ [entry]) printed lo'"
proof -
  let ?i = "log_index hash (lg_thread entry) lo"
  obtain block pools where p: "lo_parallelism lo \<noteq> 0" "?i < length (lo_log_queue lo)"
    "lo' = lo\<lparr>lo_buffer_pool := pools, lo_log_queue := (lo_log_queue lo)[?i := lo_log_queue lo ! ?i @ [(block, entry)]]\<rparr>"
    using PushLog_result [OF assms(2)] by metis
  have index: "log_index hash t lo' = log_index hash t lo" for t by (simp add: p(3) log_index_def)
  have queue: "queued j lo' = (if j = ?i then queued j lo @ [entry] else queued j lo)" if "j < length (lo_log_queue lo)" for j
    using that p(2) by (simp add: p(3) queued_def nth_list_update)
  have small: "log_index hash t lo < length (lo_log_queue lo)" for t using assms(1) log_index_bound [OF p(1)] by (simp add: log_inv_def)
  have "of_thread t (pushed @ [entry]) = of_thread t printed @ of_thread t (queued (log_index hash t lo) lo')" for t
    using assms(1) p(1) by (auto simp: log_inv_def queue [OF small] of_thread_def)
  moreover have "\<forall>j < length (lo_log_queue lo). \<forall>l \<in> set (queued j lo'). log_index hash (lg_thread l) lo = j"
    using assms(1) queue by (auto simp: log_inv_def split: if_splits)
  moreover have "lo_out lo' = lo_out lo" "lo_sstream lo' = lo_sstream lo" "lo_parallelism lo' = lo_parallelism lo"
      "length (lo_log_queue lo') = length (lo_log_queue lo)"
    by (simp_all add: p(3))
  ultimately show ?thesis using assms(1) p(1) unfolding log_inv_def index by simp
qed

lemma log_pop_inv:
  assumes "log_inv hash zone show_thread pushed printed lo" "i < length (lo_log_queue lo)" "pop_log zone show_thread i lo = Some lo'"
  shows "log_inv hash zone show_thread pushed (printed @ [hd (queued i lo)]) lo'"
proof -
  obtain block entry rest where q: "lo_log_queue lo ! i = (block, entry) # rest"
    and lo': "lo' = lo\<lparr>lo_log_queue := (lo_log_queue lo)[i := rest], lo_sstream := lo_sstream lo @ log_line zone show_thread entry,
                 lo_buffer_pool := (lo_buffer_pool lo)[i := Pool_Push block (lo_buffer_pool lo ! i)]\<rparr>"
    using assms(3) by (auto simp: pop_log_def split: list.splits)
  have index: "log_index hash t lo' = log_index hash t lo" for t by (simp add: lo' log_index_def)
  have queue: "queued j lo' = (if j = i then map snd rest else queued j lo)" if "j < length (lo_log_queue lo)" for j
    using that assms(2) by (simp add: lo' queued_def nth_list_update)
  have qi: "queued i lo = entry # map snd rest" by (simp add: queued_def q)
  have p: "lo_parallelism lo \<noteq> 0" using assms(1,2) by (auto simp: log_inv_def)
  have small: "log_index hash t lo < length (lo_log_queue lo)" for t using assms(1) log_index_bound [OF p] by (simp add: log_inv_def)
  have owner: "log_index hash (lg_thread entry) lo = i" using assms(1,2) qi by (auto simp: log_inv_def)
  have "of_thread t pushed = of_thread t (printed @ [entry]) @ of_thread t (queued (log_index hash t lo) lo')" for t
  proof (cases "log_index hash t lo = i")
    case True
    then show ?thesis using assms(1) p qi queue [OF small, of t] by (auto simp: log_inv_def of_thread_def)
  next
    case False
    then have "lg_thread entry \<noteq> t" using owner by auto
    then show ?thesis using assms(1) p False queue [OF small, of t] by (auto simp: log_inv_def of_thread_def)
  qed
  moreover have "\<forall>j < length (lo_log_queue lo). \<forall>l \<in> set (queued j lo'). log_index hash (lg_thread l) lo = j"
    using assms(1) queue qi by (auto simp: log_inv_def split: if_splits)
  moreover have "lo_out lo' @ lo_sstream lo' = concat (map (log_line zone show_thread) (printed @ [entry]))"
    using assms(1) by (simp add: lo' log_inv_def)
  ultimately show ?thesis using assms(1) p qi unfolding log_inv_def index by (simp add: lo')
qed

lemma log_start_inv:
  assumes "InitializeLogger max_log_size parallelism new_Logger = Inr lo"
  shows "log_inv hash zone show_thread [] [] lo"
proof -
  have lo: "lo_log_queue lo = replicate (unat parallelism) []" "lo_parallelism lo = parallelism" "lo_out lo = []" "lo_sstream lo = []"
    using assms by (auto simp: InitializeLogger_def new_Logger_def res_iff split: option.splits)
  have "queued (log_index hash t lo) lo = []" if "parallelism \<noteq> 0" for t
    using that log_index_bound [of lo hash t] lo by (simp add: queued_def)
  then show ?thesis using lo by (simp add: log_inv_def of_thread_def queued_def)
qed

lemma log_flush_inv: "log_inv hash zone show_thread pushed printed lo \<Longrightarrow> log_inv hash zone show_thread pushed printed (flush_stream lo)"
  by (auto simp: log_inv_def flush_stream_def queued_def log_index_def)

lemma log_run_inv: "log_run hash zone show_thread pushed lo \<Longrightarrow> \<exists>printed. log_inv hash zone show_thread pushed printed lo"
proof (induction rule: log_run.induct)
  case (start max_log_size parallelism lo)
  then show ?case using log_start_inv by blast
next
  case (push pushed lo entry lo')
  then show ?case using log_push_inv by blast
next
  case (pop pushed lo i lo')
  then show ?case using log_pop_inv by blast
next
  case (flush pushed lo)
  then show ?case using log_flush_inv by blast
qed

lemma drain_queue_result:
  assumes "log_run hash zone show_thread pushed lo" "i < length (lo_log_queue lo)" "n = length (lo_log_queue lo ! i)" "lo' = drain_queue zone show_thread i n lo"
  shows "log_run hash zone show_thread pushed lo' \<and> lo_log_queue lo' = (lo_log_queue lo)[i := []]"
  using assms
proof (induction n arbitrary: lo)
  case 0
  then show ?case using list_update_id [of "lo_log_queue lo" i] by simp
next
  case (Suc n)
  then obtain block entry rest where q: "lo_log_queue lo ! i = (block, entry) # rest" by (cases "lo_log_queue lo ! i") auto
  let ?lo = "lo\<lparr>lo_log_queue := (lo_log_queue lo)[i := rest], lo_sstream := lo_sstream lo @ log_line zone show_thread entry,
                 lo_buffer_pool := (lo_buffer_pool lo)[i := Pool_Push block (lo_buffer_pool lo ! i)]\<rparr>"
  have pop: "pop_log zone show_thread i lo = Some ?lo" by (simp add: pop_log_def q)
  have "log_run hash zone show_thread pushed ?lo" using log_run.pop [OF Suc.prems(1,2) pop] .
  then show ?case using Suc.IH [of ?lo] Suc.prems(2-4) q pop by simp
qed

lemma drain_queues_result:
  assumes "log_run hash zone show_thread pushed lo" "k \<le> length (lo_log_queue lo)"
    and "lo' = fold (\<lambda>i lo. drain_queue zone show_thread i (length (lo_log_queue lo ! i)) lo) [0..<k] lo"
  shows "log_run hash zone show_thread pushed lo' \<and> length (lo_log_queue lo') = length (lo_log_queue lo) \<and> (\<forall>i < k. lo_log_queue lo' ! i = [])"
  using assms(2,3)
proof (induction k arbitrary: lo')
  case (Suc k)
  let ?lo = "fold (\<lambda>i lo. drain_queue zone show_thread i (length (lo_log_queue lo ! i)) lo) [0..<k] lo"
  have 1: "log_run hash zone show_thread pushed ?lo" "length (lo_log_queue ?lo) = length (lo_log_queue lo)" "\<forall>i < k. lo_log_queue ?lo ! i = []"
    using Suc.IH [of ?lo] Suc.prems(1) by auto
  show ?case using drain_queue_result [OF 1(1) _ refl Suc.prems(2) [unfolded upt_Suc_append [OF le0], simplified]] 1 Suc.prems(1)
    by (auto simp: less_Suc_eq)
qed (use assms(1) in simp)

text \<open>C19. The logger prints every log once, and the logs of a thread in the order in which the thread pushed them, however pushes, pops and
  flushes of the output interleave: what is printed is the lines of a list of logs, and for every thread those in the list followed by those that still wait in
  its queue are what it has pushed. After one more round of the logger's thread, everything pushed so far is in the output.\<close>

theorem logs_printed_in_order:
  assumes "log_run hash zone show_thread pushed lo" "lo_parallelism lo \<noteq> 0"
  shows "(\<exists>printed. lo_out lo @ lo_sstream lo = concat (map (log_line zone show_thread) printed) \<and>
      (\<forall>t. of_thread t printed @ of_thread t (queued (log_index hash t lo) lo) = of_thread t pushed)) \<and>
    (\<exists>printed. lo_out (LoggerMain zone show_thread lo) = concat (map (log_line zone show_thread) printed) \<and>
      (\<forall>t. of_thread t printed = of_thread t pushed))"
proof (intro conjI)
  show "\<exists>printed. lo_out lo @ lo_sstream lo = concat (map (log_line zone show_thread) printed) \<and>
      (\<forall>t. of_thread t printed @ of_thread t (queued (log_index hash t lo) lo) = of_thread t pushed)"
    using log_run_inv [OF assms(1)] assms(2) unfolding log_inv_def by metis
  let ?lo = "fold (\<lambda>i lo. drain_queue zone show_thread i (length (lo_log_queue lo ! i)) lo) [0..<length (lo_log_queue lo)] lo"
  have 1: "log_run hash zone show_thread pushed ?lo" "\<forall>i < length (lo_log_queue ?lo). lo_log_queue ?lo ! i = []"
    using drain_queues_result [OF assms(1) order_refl refl] by auto
  obtain printed where inv: "log_inv hash zone show_thread pushed printed (LoggerMain zone show_thread lo)"
    using log_run_inv [OF log_run.flush [OF 1(1)]] unfolding LoggerMain_def by blast
  have stream: "lo_sstream (LoggerMain zone show_thread lo) = []" by (simp add: LoggerMain_def flush_stream_def)
  have empty: "queued i (LoggerMain zone show_thread lo) = []" if "i < length (lo_log_queue (LoggerMain zone show_thread lo))" for i
    using that 1(2) by (simp add: LoggerMain_def flush_stream_def queued_def split: if_splits)
  show "\<exists>printed. lo_out (LoggerMain zone show_thread lo) = concat (map (log_line zone show_thread) printed) \<and> (\<forall>t. of_thread t printed = of_thread t pushed)"
  proof (cases "lo_parallelism (LoggerMain zone show_thread lo) = 0")
    case True
    then show ?thesis using inv stream by (intro exI [of _ "[]"]) (auto simp: log_inv_def)
  next
    case False
    have "queued (log_index hash t (LoggerMain zone show_thread lo)) (LoggerMain zone show_thread lo) = []" for t
      using empty log_index_bound [OF False] inv by (simp add: log_inv_def)
    then show ?thesis using inv stream False by (auto simp: log_inv_def of_thread_def)
  qed
qed

definition sample_log :: "u64 Log" where
  "sample_log = \<lparr>lg_time = 0, lg_file = ''main.cpp'', lg_line = 7, lg_thread = 5, lg_level = LogWarn, lg_message = ''hello''\<rparr>"

theorem logs_printed_in_order_witness:
  "\<exists>lo printed. log_run (\<lambda>t. t) (fixed_zone 0) (\<lambda>_ :: u64. ''5'') [sample_log] lo \<and>
     lo_out (LoggerMain (fixed_zone 0) (\<lambda>_. ''5'') lo) = concat (map (log_line (fixed_zone 0) (\<lambda>_. ''5'')) printed) \<and>
     of_thread 5 printed = [sample_log]"
proof -
  obtain p where "new_ObjectPool 1024 8 1 = Inr (Some p)" using object_pool_construction [of 8 1024 1] by auto
  then obtain lo :: "u64 Logger" where lo: "InitializeLogger 4096 4 new_Logger = Inr lo" "lo_parallelism lo = 4" "lo_max_log_size lo = 4096"
      "lo_buffer_pool lo = replicate 4 p" "lo_log_queue lo = replicate 4 []"
    by (simp add: InitializeLogger_def new_Logger_def)
  have run: "log_run (\<lambda>t. t) (fixed_zone 0) (\<lambda>_ :: u64. ''5'') [] lo" by (rule log_run.start [OF lo(1)])
  obtain block pool where "Pool_Pop True p = (Some block, pool)" by (cases "op_pool p") (auto simp: Pool_Pop_def)
  then obtain lo' where lo': "PushLog (\<lambda>t. t) sample_log lo = Inr (Some lo')" "lo_parallelism lo' = 4"
    using lo(2-5) by (simp add: PushLog_def log_index_def sample_log_def array_at_def queue_capacity_def)
  have "log_run (\<lambda>t. t) (fixed_zone 0) (\<lambda>_ :: u64. ''5'') [sample_log] lo'" "lo_parallelism lo' \<noteq> 0" using log_run.push [OF run lo'(1)] lo'(2) by simp_all
  moreover from conjunct2 [OF logs_printed_in_order [OF this]] obtain printed where
    "lo_out (LoggerMain (fixed_zone 0) (\<lambda>_ :: u64. ''5'') lo') = concat (map (log_line (fixed_zone 0) (\<lambda>_. ''5'')) printed)"
    "\<forall>t. of_thread t printed = of_thread t [sample_log]"
    by blast
  moreover from this(2) have "of_thread 5 printed = [sample_log]" by (simp add: of_thread_def sample_log_def)
  ultimately show ?thesis by blast
qed

end
