(* ===== verification/Locks.thy ===== *)
theory Locks
  imports Memory
begin

text \<open>
  The spin lock (\<^verbatim>\<open>SpinLock.h\<close>) and the stack it guards (\<^verbatim>\<open>ConcurrentStack.h\<close>), one
  statement at a time and with any number of threads.

  \<open>SpinLock_Lock\<close> is one turn of the loops of \<^verbatim>\<open>Lock\<close>; \<open>push_code\<close> and \<open>try_pop_code\<close> are
  the statements of \<^verbatim>\<open>push\<close> and \<^verbatim>\<open>try_pop\<close>, with a program counter per thread. A thread
  that is scheduled executes one statement; \<open>stack_step\<close> is the interleaving. The memory
  orders of the sources (acquire on the lock, release on the unlock) make the statements of a
  critical section visible to the next holder, so the interleaving is sequentially consistent.

  The specification is a stack whose operations take effect in one step between call and
  return (\<open>atomic_step\<close>, over \<open>stack_push\<close> and \<open>stack_try_pop\<close>); every history of calls and
  returns of the threads is one of the specification. This is what the theories that use the
  pools rely on when they take \<open>stack_push\<close> and \<open>stack_try_pop\<close> as single steps.
\<close>

section \<open>Simulation of labelled steps\<close>

text \<open>A labelled step either shows an event or is silent. \<open>exec\<close> collects the events of a run.\<close>

inductive exec :: "('e option \<Rightarrow> 's \<Rightarrow> 's \<Rightarrow> bool) \<Rightarrow> 's \<Rightarrow> 'e list \<Rightarrow> 's \<Rightarrow> bool"
  for step :: "'e option \<Rightarrow> 's \<Rightarrow> 's \<Rightarrow> bool" and s0 :: 's where
  start: "exec step s0 [] s0"
| silent: "exec step s0 h s \<Longrightarrow> step None s t \<Longrightarrow> exec step s0 h t"
| visible: "exec step s0 h s \<Longrightarrow> step (Some e) s t \<Longrightarrow> exec step s0 (h @ [e]) t"

text \<open>The contract between a program and its specification: an invariant of the program's steps,
  and for each of its steps one of the specification with the same label, or none when the
  step is silent and does not show in the abstraction.\<close>

locale labelled_simulation =
  fixes cstep :: "'e option \<Rightarrow> 'c \<Rightarrow> 'c \<Rightarrow> bool"
    and astep :: "'e option \<Rightarrow> 'a \<Rightarrow> 'a \<Rightarrow> bool"
    and inv :: "'c \<Rightarrow> bool"
    and abs :: "'c \<Rightarrow> 'a"
  assumes inv_step: "inv c \<Longrightarrow> cstep l c c' \<Longrightarrow> inv c'"
    and sim_step: "inv c \<Longrightarrow> cstep l c c' \<Longrightarrow> astep l (abs c) (abs c') \<or> (l = None \<and> abs c' = abs c)"
begin

lemma exec_inv: "exec cstep c0 h c \<Longrightarrow> inv c0 \<Longrightarrow> inv c"
  by (induction rule: exec.induct) (auto intro: inv_step)

lemma exec_refines: "exec cstep c0 h c \<Longrightarrow> inv c0 \<Longrightarrow> exec astep (abs c0) h (abs c)"
proof (induction rule: exec.induct)
  case (silent h s t)
  then show ?case using sim_step [of s None t] exec_inv by (metis exec.silent)
next
  case (visible h s e t)
  then show ?case using sim_step [of s "Some e" t] exec_inv by (metis exec.visible option.distinct(1))
qed (rule exec.start)

end

section \<open>The spin lock\<close>

text \<open>Where a thread is inside \<^verbatim>\<open>Lock\<close>: before the \<^verbatim>\<open>test_and_set\<close> of the outer loop, before the
  \<^verbatim>\<open>test\<close> of the inner loop (compiled in when the library has \<^verbatim>\<open>atomic_flag::test\<close>), or past it.\<close>

datatype lock_pc = TestAndSet | SpinTest | Acquired

fun SpinLock_Lock :: "bool \<Rightarrow> lock_pc \<Rightarrow> bool \<Rightarrow> lock_pc \<times> bool" where
  "SpinLock_Lock has_test TestAndSet flag =
     (if flag then (if has_test then SpinTest else TestAndSet) else Acquired, True)"
| "SpinLock_Lock has_test SpinTest flag = (if flag then SpinTest else TestAndSet, flag)"
| "SpinLock_Lock has_test Acquired flag = (Acquired, flag)"

definition SpinLock_Unlock :: "bool \<Rightarrow> bool" where
  "SpinLock_Unlock flag = False"

section \<open>The stack under the lock\<close>

record 'a ConcurrentStack =
  cs_stack :: "'a list"
  cs_spin_lock :: bool

datatype 'a stack_op = Push 'a | TryPop

datatype 'a stack_ret = Pushed | Popped "'a option"

text \<open>The next statement of a thread. \<open>PushAt\<close> and \<open>PopAt\<close> with \<open>Acquired\<close> stand after \<^verbatim>\<open>Lock\<close>:
  before \<^verbatim>\<open>_stack.push\<close> and before \<^verbatim>\<open>_stack.empty\<close>.\<close>

datatype 'a stack_pc =
    Idle
  | PushAt lock_pc 'a
  | PushUnlock
  | PopAt lock_pc
  | PopTop
  | PopPop 'a
  | PopUnlock "'a option"
  | Finished "'a stack_ret"

fun push_code :: "bool \<Rightarrow> 'a stack_pc \<Rightarrow> 'a ConcurrentStack \<Rightarrow> 'a stack_pc \<times> 'a ConcurrentStack" where
  "push_code has_test (PushAt Acquired value) s = (PushUnlock, s\<lparr>cs_stack := value # cs_stack s\<rparr>)"
| "push_code has_test (PushAt l value) s =
     (case SpinLock_Lock has_test l (cs_spin_lock s) of (l', flag) \<Rightarrow> (PushAt l' value, s\<lparr>cs_spin_lock := flag\<rparr>))"
| "push_code has_test PushUnlock s = (Finished Pushed, s\<lparr>cs_spin_lock := SpinLock_Unlock (cs_spin_lock s)\<rparr>)"
| "push_code has_test pc s = (pc, s)"

text \<open>\<^verbatim>\<open>top\<close> and \<^verbatim>\<open>pop\<close> of an empty \<^verbatim>\<open>std::stack\<close> are undefined.\<close>

fun try_pop_code :: "bool \<Rightarrow> 'a stack_pc \<Rightarrow> 'a ConcurrentStack \<Rightarrow> ('a stack_pc \<times> 'a ConcurrentStack) res" where
  "try_pop_code has_test (PopAt Acquired) s = Inr (if cs_stack s = [] then PopUnlock None else PopTop, s)"
| "try_pop_code has_test (PopAt l) s =
     (case SpinLock_Lock has_test l (cs_spin_lock s) of (l', flag) \<Rightarrow> Inr (PopAt l', s\<lparr>cs_spin_lock := flag\<rparr>))"
| "try_pop_code has_test PopTop s = (case cs_stack s of [] \<Rightarrow> Inl Undefined | x # st \<Rightarrow> Inr (PopPop x, s))"
| "try_pop_code has_test (PopPop result) s =
     (case cs_stack s of [] \<Rightarrow> Inl Undefined | x # st \<Rightarrow> Inr (PopUnlock (Some result), s\<lparr>cs_stack := st\<rparr>))"
| "try_pop_code has_test (PopUnlock r) s =
     Inr (Finished (Popped r), s\<lparr>cs_spin_lock := SpinLock_Unlock (cs_spin_lock s)\<rparr>)"
| "try_pop_code has_test pc s = Inr (pc, s)"

fun enter :: "'a stack_op \<Rightarrow> 'a stack_pc" where
  "enter (Push value) = PushAt TestAndSet value"
| "enter TryPop = PopAt TestAndSet"

fun in_push :: "'a stack_pc \<Rightarrow> bool" where
  "in_push (PushAt l v) = True" | "in_push PushUnlock = True" | "in_push pc = False"

fun in_pop :: "'a stack_pc \<Rightarrow> bool" where
  "in_pop (PopAt l) = True" | "in_pop PopTop = True" | "in_pop (PopPop x) = True"
| "in_pop (PopUnlock r) = True" | "in_pop pc = False"

definition stack_code :: "bool \<Rightarrow> 'a stack_pc \<Rightarrow> 'a ConcurrentStack \<Rightarrow> ('a stack_pc \<times> 'a ConcurrentStack) res" where
  "stack_code has_test pc s = (if in_push pc then Inr (push_code has_test pc s) else try_pop_code has_test pc s)"

datatype 'a stack_event = Call nat "'a stack_op" | Return nat "'a stack_ret"

type_synonym 'a stack_system = "'a ConcurrentStack \<times> (nat \<Rightarrow> 'a stack_pc)"

inductive stack_step :: "bool \<Rightarrow> 'a stack_event option \<Rightarrow> 'a stack_system \<Rightarrow> 'a stack_system \<Rightarrow> bool"
  for has_test :: bool where
  call: "pcs t = Idle \<Longrightarrow> stack_step has_test (Some (Call t op)) (s, pcs) (s, pcs(t := enter op))"
| run: "in_push (pcs t) \<or> in_pop (pcs t) \<Longrightarrow> stack_code has_test (pcs t) s = Inr (pc, s') \<Longrightarrow>
    stack_step has_test None (s, pcs) (s', pcs(t := pc))"
| return: "pcs t = Finished r \<Longrightarrow> stack_step has_test (Some (Return t r)) (s, pcs) (s, pcs(t := Idle))"

definition new_ConcurrentStack :: "'a stack_system" where
  "new_ConcurrentStack = (\<lparr>cs_stack = [], cs_spin_lock = False\<rparr>, \<lambda>t. Idle)"

section \<open>The specification\<close>

datatype 'a client = Outside | Called "'a stack_op" | Answered "'a stack_ret"

fun stack_apply :: "'a stack_op \<Rightarrow> 'a list \<Rightarrow> 'a stack_ret \<times> 'a list" where
  "stack_apply (Push value) st = (Pushed, stack_push value st)"
| "stack_apply TryPop st =
     (case stack_try_pop st of None \<Rightarrow> (Popped None, st) | Some (x, rest) \<Rightarrow> (Popped (Some x), rest))"

inductive atomic_step :: "'a stack_event option \<Rightarrow> 'a list \<times> (nat \<Rightarrow> 'a client) \<Rightarrow> 'a list \<times> (nat \<Rightarrow> 'a client) \<Rightarrow> bool" where
  call: "cl t = Outside \<Longrightarrow> atomic_step (Some (Call t op)) (st, cl) (st, cl(t := Called op))"
| commit: "cl t = Called op \<Longrightarrow> stack_apply op st = (r, st') \<Longrightarrow> atomic_step None (st, cl) (st', cl(t := Answered r))"
| return: "cl t = Answered r \<Longrightarrow> atomic_step (Some (Return t r)) (st, cl) (st, cl(t := Outside))"

fun client_of :: "'a stack_pc \<Rightarrow> 'a client" where
  "client_of Idle = Outside"
| "client_of (PushAt l v) = Called (Push v)"
| "client_of PushUnlock = Answered Pushed"
| "client_of (PopAt l) = Called TryPop"
| "client_of PopTop = Called TryPop"
| "client_of (PopPop x) = Called TryPop"
| "client_of (PopUnlock r) = Answered (Popped r)"
| "client_of (Finished r) = Answered r"

definition stack_abs :: "'a stack_system \<Rightarrow> 'a list \<times> (nat \<Rightarrow> 'a client)" where
  "stack_abs c = (cs_stack (fst c), client_of \<circ> snd c)"

section \<open>Mutual exclusion\<close>

fun holds_lock :: "'a stack_pc \<Rightarrow> bool" where
  "holds_lock (PushAt l v) = (l = Acquired)"
| "holds_lock PushUnlock = True"
| "holds_lock (PopAt l) = (l = Acquired)"
| "holds_lock PopTop = True"
| "holds_lock (PopPop x) = True"
| "holds_lock (PopUnlock r) = True"
| "holds_lock pc = False"

text \<open>What a thread inside its critical section knows about the stack.\<close>

fun knows :: "'a stack_pc \<Rightarrow> 'a list \<Rightarrow> bool" where
  "knows PopTop st = (st \<noteq> [])"
| "knows (PopPop x) st = (st \<noteq> [] \<and> hd st = x)"
| "knows pc st = True"

definition stack_inv :: "'a stack_system \<Rightarrow> bool" where
  "stack_inv c = (case c of (s, pcs) \<Rightarrow>
     (\<exists>h. \<forall>t. holds_lock (pcs t) = (cs_spin_lock s \<and> t = h)) \<and> (\<forall>t. knows (pcs t) (cs_stack s)))"

lemma knows_idle [simp]: "\<not> holds_lock pc \<Longrightarrow> knows pc st"
  by (cases pc) auto

lemma enter_simps [simp]: "\<not> holds_lock (enter op)" "client_of (enter op) = Called op"
  by (cases op; simp)+

text \<open>One statement of a thread in terms of the lock: it keeps what it holds and leaves the stack alone
  unless it holds the lock, acquires the lock only when it is free, or releases it.\<close>

lemma stack_code_cases:
  assumes "stack_code has_test pc s = Inr (pc', s')" "in_push pc \<or> in_pop pc" "knows pc (cs_stack s)"
    "holds_lock pc \<Longrightarrow> cs_spin_lock s"
  shows "(\<not> holds_lock pc \<and> holds_lock pc' \<and> \<not> cs_spin_lock s \<and> cs_spin_lock s' \<and> cs_stack s' = cs_stack s \<and>
      knows pc' (cs_stack s)) \<or>
    (\<not> holds_lock pc \<and> \<not> holds_lock pc' \<and> s' = s) \<or>
    (holds_lock pc \<and> holds_lock pc' \<and> cs_spin_lock s' = cs_spin_lock s \<and> knows pc' (cs_stack s')) \<or>
    (holds_lock pc \<and> \<not> holds_lock pc' \<and> \<not> cs_spin_lock s' \<and> cs_stack s' = cs_stack s)"
  using assms
  by (cases "(has_test, pc, s)" rule: try_pop_code.cases; cases "(has_test, pc, s)" rule: push_code.cases)
    (auto simp: stack_code_def SpinLock_Unlock_def split: if_splits list.splits)

lemma stack_code_abs:
  assumes "stack_code has_test pc s = Inr (pc', s')" "in_push pc \<or> in_pop pc" "knows pc (cs_stack s)"
  shows "(client_of pc' = client_of pc \<and> cs_stack s' = cs_stack s) \<or>
    (\<exists>op r. client_of pc = Called op \<and> stack_apply op (cs_stack s) = (r, cs_stack s') \<and> client_of pc' = Answered r)"
  using assms
  by (cases "(has_test, pc, s)" rule: try_pop_code.cases; cases "(has_test, pc, s)" rule: push_code.cases)
    (auto simp: stack_code_def stack_push_def split: if_splits list.splits)

lemma stack_inv_init: "stack_inv new_ConcurrentStack"
  by (simp add: stack_inv_def new_ConcurrentStack_def)

text \<open>When thread \<open>t\<close> changes the shared state, the others either do not hold the lock or nothing changes for them.\<close>

lemma stack_inv_run:
  assumes inv: "stack_inv (s, pcs)" and pc: "in_push (pcs t) \<or> in_pop (pcs t)"
    and c: "stack_code has_test (pcs t) s = Inr (pc, s')"
  shows "stack_inv (s', pcs(t := pc))"
proof -
  from inv obtain h where h: "\<And>u. holds_lock (pcs u) = (cs_spin_lock s \<and> u = h)"
    and k: "\<And>u. knows (pcs u) (cs_stack s)" by (auto simp: stack_inv_def)
  have hl: "holds_lock (pcs t) \<Longrightarrow> cs_spin_lock s" using h by simp
  consider (acquire) "\<not> holds_lock (pcs t)" "holds_lock pc" "\<not> cs_spin_lock s" "cs_spin_lock s'" "cs_stack s' = cs_stack s" "knows pc (cs_stack s)"
    | (wait) "\<not> holds_lock (pcs t)" "\<not> holds_lock pc" "s' = s"
    | (keep) "holds_lock (pcs t)" "holds_lock pc" "cs_spin_lock s' = cs_spin_lock s" "knows pc (cs_stack s')"
    | (release) "holds_lock (pcs t)" "\<not> holds_lock pc" "\<not> cs_spin_lock s'" "cs_stack s' = cs_stack s"
    using stack_code_cases [OF c pc k hl] by blast
  then show ?thesis
  proof cases
    case acquire
    then show ?thesis using h k by (auto simp: stack_inv_def)
  next
    case wait
    then show ?thesis using h k by (auto simp: stack_inv_def)
  next
    case keep
    then have "\<not> holds_lock (pcs u)" if "u \<noteq> t" for u using that h by metis
    then show ?thesis using keep h by (auto simp: stack_inv_def intro!: exI [of _ h])
  next
    case release
    then have "\<not> holds_lock (pcs u)" if "u \<noteq> t" for u using that h by metis
    then show ?thesis using release k by (auto simp: stack_inv_def)
  qed
qed

lemma stack_inv_step: "stack_inv c \<Longrightarrow> stack_step has_test l c c' \<Longrightarrow> stack_inv c'"
proof (erule stack_step.cases, goal_cases)
  case (1 pcs t op s)
  then have "holds_lock ((pcs(t := enter op)) u) = holds_lock (pcs u)" for u by simp
  with 1 show ?case by (simp add: stack_inv_def)
next
  case (2 pcs t s pc s')
  then show ?case using stack_inv_run by blast
next
  case (3 pcs t r s)
  then have "holds_lock ((pcs(t := Idle)) u) = holds_lock (pcs u)" for u by simp
  with 3 show ?case by (simp add: stack_inv_def)
qed

lemma stack_sim_step:
  "stack_inv c \<Longrightarrow> stack_step has_test l c c' \<Longrightarrow>
    atomic_step l (stack_abs c) (stack_abs c') \<or> (l = None \<and> stack_abs c' = stack_abs c)"
proof (erule stack_step.cases, goal_cases)
  case (1 pcs t op s)
  then show ?case using atomic_step.call [of "client_of \<circ> pcs" t op "cs_stack s"]
    by (simp add: stack_abs_def fun_upd_comp)
next
  case (2 pcs t s pc s')
  have "knows (pcs t) (cs_stack s)" using 2 by (simp add: stack_inv_def)
  from stack_code_abs [OF 2(6,5) this] show ?case
    using 2 atomic_step.commit [of "client_of \<circ> pcs" t _ "cs_stack s"]
    by (auto simp: stack_abs_def fun_upd_comp fun_upd_idem)
next
  case (3 pcs t r s)
  then show ?case using atomic_step.return [of "client_of \<circ> pcs" t r "cs_stack s"]
    by (simp add: stack_abs_def fun_upd_comp)
qed

interpretation spin_stack: labelled_simulation "stack_step has_test" atomic_step stack_inv stack_abs
  by unfold_locales (fact stack_inv_step, fact stack_sim_step)

lemma stack_code_no_fault:
  "knows pc (cs_stack s) \<Longrightarrow> \<exists>r. stack_code has_test pc s = Inr r"
  by (cases "(has_test, pc, s)" rule: try_pop_code.cases) (auto simp: stack_code_def neq_Nil_conv)

lemma new_ConcurrentStack_abs [simp]: "stack_abs new_ConcurrentStack = ([], \<lambda>t. Outside)"
  by (simp add: stack_abs_def new_ConcurrentStack_def comp_def)

text \<open>C17. The stack guarded by the spin lock is linearizable: in every interleaving of the statements
  of any number of threads, the calls and returns are those of a stack on which each operation takes
  effect in one step between its call and its return, with the same content. At most one thread is
  inside a critical section, exactly when the flag is set, and no thread reads the top of an empty
  stack.\<close>

theorem concurrent_stack_linearizable:
  assumes "exec (stack_step has_test) new_ConcurrentStack h (s, pcs)"
  shows "exec atomic_step ([], \<lambda>t. Outside) h (cs_stack s, client_of \<circ> pcs) \<and>
    (\<forall>t u. holds_lock (pcs t) \<and> holds_lock (pcs u) \<longrightarrow> t = u) \<and>
    (cs_spin_lock s \<longleftrightarrow> (\<exists>t. holds_lock (pcs t))) \<and>
    (\<forall>t. \<exists>r. stack_code has_test (pcs t) s = Inr r)"
proof (intro conjI)
  have inv: "stack_inv (s, pcs)" using spin_stack.exec_inv [OF assms stack_inv_init] .
  have "exec atomic_step (stack_abs new_ConcurrentStack) h (stack_abs (s, pcs))"
    by (rule spin_stack.exec_refines [OF assms stack_inv_init])
  then show "exec atomic_step ([], \<lambda>t. Outside) h (cs_stack s, client_of \<circ> pcs)"
    unfolding new_ConcurrentStack_abs by (simp add: stack_abs_def)
  show "\<forall>t u. holds_lock (pcs t) \<and> holds_lock (pcs u) \<longrightarrow> t = u" "cs_spin_lock s \<longleftrightarrow> (\<exists>t. holds_lock (pcs t))"
    using inv by (auto simp: stack_inv_def)
  show "\<forall>t. \<exists>r. stack_code has_test (pcs t) s = Inr r"
    using inv stack_code_no_fault by (fastforce simp: stack_inv_def)
qed

text \<open>A schedule names the thread of each turn and the operation it calls when it is outside.\<close>

fun stack_schedule :: "bool \<Rightarrow> (nat \<times> 'a stack_op) list \<Rightarrow> 'a stack_event list \<Rightarrow> 'a stack_system \<Rightarrow>
    ('a stack_event list \<times> 'a stack_system) option" where
  "stack_schedule has_test [] h c = Some (h, c)"
| "stack_schedule has_test ((t, op) # ts) h (s, pcs) =
     (case pcs t of
        Idle \<Rightarrow> stack_schedule has_test ts (h @ [Call t op]) (s, pcs(t := enter op))
      | Finished r \<Rightarrow> stack_schedule has_test ts (h @ [Return t r]) (s, pcs(t := Idle))
      | _ \<Rightarrow> (case stack_code has_test (pcs t) s of
                Inl e \<Rightarrow> None
              | Inr (pc, s') \<Rightarrow> stack_schedule has_test ts h (s', pcs(t := pc))))"

lemma stack_schedule_exec:
  "stack_schedule has_test ts h c = Some (h', c') \<Longrightarrow> exec (stack_step has_test) c0 h c \<Longrightarrow>
    exec (stack_step has_test) c0 h' c'"
proof (induction ts arbitrary: h c)
  case (Cons x ts)
  obtain t op where x: "x = (t, op)" by fastforce
  obtain s pcs where c: "c = (s, pcs)" by fastforce
  note e = Cons.prems(2) [unfolded c]
  show ?case
  proof (cases "in_push (pcs t) \<or> in_pop (pcs t)")
    case True
    then obtain pc s' where d: "stack_code has_test (pcs t) s = Inr (pc, s')"
        "stack_schedule has_test ts h (s', pcs(t := pc)) = Some (h', c')"
      using Cons.prems(1) by (cases "pcs t") (auto simp: x c split: sum.splits)
    show ?thesis
      by (rule Cons.IH [OF d(2) exec.silent [OF e stack_step.run [of pcs t, OF True d(1)]]])
  next
    case False
    then show ?thesis
      using Cons exec.visible [OF e stack_step.call [of pcs t]] exec.visible [OF e stack_step.return [of pcs t]]
      by (cases "pcs t") (auto simp: x c)
  qed
qed simp

theorem concurrent_stack_linearizable_witness:
  "exec atomic_step ([], \<lambda>t. Outside)
     [Call 0 (Push (5::nat)), Call 1 TryPop, Return 0 Pushed, Return 1 (Popped (Some 5))]
     ([], \<lambda>t. Outside)"
proof -
  have "stack_schedule True
      [(0, Push (5::nat)), (1, TryPop), (0, TryPop), (1, TryPop), (1, TryPop), (0, TryPop), (0, TryPop), (1, TryPop),
       (0, TryPop), (1, TryPop), (1, TryPop), (1, TryPop), (1, TryPop), (1, TryPop), (1, TryPop)] [] new_ConcurrentStack =
    Some ([Call 0 (Push 5), Call 1 TryPop, Return 0 Pushed, Return 1 (Popped (Some 5))],
       \<lparr>cs_stack = [], cs_spin_lock = False\<rparr>, \<lambda>t. Idle)"
    by (simp add: new_ConcurrentStack_def stack_code_def SpinLock_Unlock_def fun_upd_twist fun_eq_iff)
  from stack_schedule_exec [OF this exec.start]
  show ?thesis using concurrent_stack_linearizable by (fastforce simp: comp_def)
qed

section \<open>Progress\<close>

text \<open>The statements the holder of the lock has left.\<close>

fun statements_left :: "'a stack_pc \<Rightarrow> nat" where
  "statements_left (PushAt l v) = 2"
| "statements_left PushUnlock = 1"
| "statements_left (PopAt l) = 4"
| "statements_left PopTop = 3"
| "statements_left (PopPop x) = 2"
| "statements_left (PopUnlock r) = 1"
| "statements_left pc = 0"

lemma holder_runs:
  assumes "holds_lock pc" "knows pc (cs_stack s)" "cs_spin_lock s"
  obtains pc' s' where "stack_code has_test pc s = Inr (pc', s')" "in_push pc \<or> in_pop pc"
    "statements_left pc' < statements_left pc" "holds_lock pc' \<or> (\<exists>r. pc' = Finished r)"
  using assms
  by (cases "(has_test, pc, s)" rule: try_pop_code.cases; cases "(has_test, pc, s)" rule: push_code.cases)
    (auto simp: stack_code_def neq_Nil_conv)

lemma holder_finishes:
  assumes "stack_inv (s, pcs)" "holds_lock (pcs u)"
  shows "\<exists>s' r. (stack_step has_test None)\<^sup>*\<^sup>* (s, pcs) (s', pcs(u := Finished r)) \<and> \<not> cs_spin_lock s'"
  using assms
proof (induction "statements_left (pcs u)" arbitrary: s pcs rule: less_induct)
  case less
  have "knows (pcs u) (cs_stack s)" "cs_spin_lock s" using less.prems by (auto simp: stack_inv_def)
  from holder_runs [OF less.prems(2) this] obtain pc s'
    where c: "stack_code has_test (pcs u) s = Inr (pc, s')" "in_push (pcs u) \<or> in_pop (pcs u)"
      and d: "statements_left pc < statements_left (pcs u)" and e: "holds_lock pc \<or> (\<exists>r. pc = Finished r)" .
  note st = stack_step.run [of pcs u, OF c(2,1)] and inv = stack_inv_run [of s pcs u, OF less.prems(1) c(2,1)]
  from e show ?case
  proof
    assume "holds_lock pc"
    then show ?thesis using less.hyps [of "pcs(u := pc)" s'] d inv st
      by (auto intro: converse_rtranclp_into_rtranclp)
  next
    assume "\<exists>r. pc = Finished r"
    then obtain r where r: "pc = Finished r" ..
    have "\<not> cs_spin_lock s'"
      using stack_code_cases [OF c] less.prems r by (auto simp: stack_inv_def)
    then show ?thesis using st r by blast
  qed
qed

lemma waiter_cases:
  assumes "in_push pc \<or> in_pop pc" "\<not> holds_lock pc"
  obtains v where "pc = PushAt TestAndSet v" | v where "pc = PushAt SpinTest v"
    | "pc = PopAt TestAndSet" | "pc = PopAt SpinTest"
  using assms by (cases pc) (auto, (metis lock_pc.exhaust)+)

text \<open>A waiting thread takes a free lock in at most two turns.\<close>

lemma free_lock_acquired:
  assumes "stack_inv (s, pcs)" "in_push (pcs t) \<or> in_pop (pcs t)" "\<not> holds_lock (pcs t)" "\<not> cs_spin_lock s"
  shows "\<exists>s' pc. (stack_step has_test None)\<^sup>*\<^sup>* (s, pcs) (s', pcs(t := pc)) \<and> stack_inv (s', pcs(t := pc)) \<and> holds_lock pc"
proof -
  have go: "\<exists>s' pc'. (stack_step has_test None)\<^sup>*\<^sup>* (s, pcs(t := pc)) (s', pcs(t := pc')) \<and>
      stack_inv (s', pcs(t := pc')) \<and> holds_lock pc'"
    if "stack_inv (s, pcs(t := pc))" "in_push pc \<or> in_pop pc" "stack_code has_test pc s = Inr (pc', s')" "holds_lock pc'" for pc pc' s'
    using that stack_inv_run [OF that(1), of t has_test pc' s'] stack_step.run [of "pcs(t := pc)" t has_test s pc' s']
    by (intro exI [of _ s'] exI [of _ pc']) auto
  have spin: ?thesis
    if "stack_code has_test (pcs t) s = Inr (pc, s)" "in_push pc \<or> in_pop pc" "stack_code has_test pc s = Inr (pc', s')" "holds_lock pc'" for pc pc' s'
    using go [OF stack_inv_run [OF assms(1,2) that(1)] that(2,3,4)] stack_step.run [of pcs t, OF assms(2) that(1)]
    by (meson converse_rtranclp_into_rtranclp)
  have direct: ?thesis if "stack_code has_test (pcs t) s = Inr (pc', s')" "holds_lock pc'" for pc' s'
    using go [of "pcs t" pc' s', OF _ assms(2) that] assms(1) by (simp add: fun_upd_triv)
  from assms(2,3) show ?thesis
  proof (cases rule: waiter_cases)
    case (1 v)
    then show ?thesis using direct assms(4) by (simp add: stack_code_def)
  next
    case (2 v)
    then show ?thesis using spin assms(4) by (simp add: stack_code_def)
  next
    case 3
    then show ?thesis using direct assms(4) by (simp add: stack_code_def)
  next
    case 4
    then show ?thesis using spin assms(4) by (simp add: stack_code_def)
  qed
qed

text \<open>C34. The stack never deadlocks: in every reachable state in which some thread is inside an
  operation, some thread can run on to the end of its operation, leaving the lock free. So the
  spinning of \<^verbatim>\<open>Lock\<close> always has a holder whose critical section ends.\<close>

theorem concurrent_stack_progress:
  assumes "exec (stack_step has_test) new_ConcurrentStack h (s, pcs)" "in_push (pcs t) \<or> in_pop (pcs t)"
  shows "\<exists>u s' r. (stack_step has_test None)\<^sup>*\<^sup>* (s, pcs) (s', pcs(u := Finished r)) \<and> \<not> cs_spin_lock s'"
proof -
  have inv: "stack_inv (s, pcs)" using spin_stack.exec_inv [OF assms(1) stack_inv_init] .
  show ?thesis
  proof (cases "cs_spin_lock s")
    case True
    then obtain u where "holds_lock (pcs u)" using inv by (auto simp: stack_inv_def)
    then show ?thesis using holder_finishes [OF inv] by blast
  next
    case False
    have "\<not> holds_lock (pcs t)" using inv False by (auto simp: stack_inv_def)
    from free_lock_acquired [OF inv assms(2) this False] obtain s' pc
      where st: "(stack_step has_test None)\<^sup>*\<^sup>* (s, pcs) (s', pcs(t := pc))" and inv': "stack_inv (s', pcs(t := pc))"
        and pc: "holds_lock pc" by blast
    from holder_finishes [OF inv', of t has_test] pc obtain s'' r
      where "(stack_step has_test None)\<^sup>*\<^sup>* (s', pcs(t := pc)) (s'', pcs(t := Finished r))" "\<not> cs_spin_lock s''"
      by auto
    then show ?thesis using st by (meson rtranclp_trans)
  qed
qed

theorem concurrent_stack_progress_witness:
  "\<exists>u s' r. (stack_step True None)\<^sup>*\<^sup>*
     (\<lparr>cs_stack = [5::nat], cs_spin_lock = True\<rparr>, (\<lambda>t. Idle)(0 := PushUnlock, 1 := PopAt SpinTest))
     (s', (\<lambda>t. Idle)(0 := PushUnlock, 1 := PopAt SpinTest, u := Finished r)) \<and> \<not> cs_spin_lock s'"
proof -
  have "stack_schedule True [(0, Push (5::nat)), (1, TryPop), (0, TryPop), (1, TryPop), (0, TryPop)] [] new_ConcurrentStack =
    Some ([Call 0 (Push 5), Call 1 TryPop],
      \<lparr>cs_stack = [5], cs_spin_lock = True\<rparr>, (\<lambda>t. Idle)(0 := PushUnlock, 1 := PopAt SpinTest))"
    by (simp add: new_ConcurrentStack_def stack_code_def fun_upd_twist fun_eq_iff)
  from concurrent_stack_progress [OF stack_schedule_exec [OF this exec.start], of 0] show ?thesis by simp
qed

end
