(* ===== verification/EndToEnd.thy ===== *)
theory EndToEnd
  imports EngineFraming PacketThrottling
begin

text \<open>
  The two ends of a connection together: what a session or the packet throttler of one process writes
  (\<open>Sessions\<close>, \<open>PacketThrottling\<close>) is what the network engine of the other process hands to its worker
  (\<open>EngineFraming\<close>). The transport between them delivers the written bytes in order and in pieces of
  its own choosing.
\<close>

section \<open>Sending on a session\<close>

lemma Session_Send_ok:
  assumes "ss_state s = Opened" "so_stream s = Some st" "st_connected st" "0 < st_write_free st"
    "12 + length (pack p) \<le> unat (st_write_capacity st)"
  shows "Session_Send pack p e s = Inr (s\<lparr>so_stream := Some (st\<lparr>st_write_free := st_write_free st - 1,
     st_ops := st_ops st @ [WriteOp (frame pack (p, e)) 0]\<rparr>)\<rparr>)"
  using assms SerializePacket_fits [where pack = pack, OF assms(5), of e]
  by (auto simp: Session_Send_def send_serialized_def session_unfold)

lemma Session_Sends_ok:
  assumes "ss_state s = Opened" "so_stream s = Some st" "st_connected st" "length ps \<le> st_write_free st"
    "\<forall>pe \<in> set ps. 12 + length (pack (fst pe)) \<le> unat (st_write_capacity st)"
  shows "foldr_res (\<lambda>pe. Session_Send pack (fst pe) (snd pe)) ps s =
    Inr (s\<lparr>so_stream := Some (st\<lparr>st_write_free := st_write_free st - length ps,
      st_ops := st_ops st @ map (\<lambda>pe. WriteOp (frame pack pe) 0) ps\<rparr>)\<rparr>)"
  using assms
proof (induction ps arbitrary: s st)
  case (Cons pe ps)
  let ?st = "st\<lparr>st_write_free := st_write_free st - 1, st_ops := st_ops st @ [WriteOp (frame pack pe) 0]\<rparr>"
  have "Session_Send pack (fst pe) (snd pe) s = Inr (s\<lparr>so_stream := Some ?st\<rparr>)"
    using Session_Send_ok [OF Cons.prems(1-3), of pack "fst pe" "snd pe"] Cons.prems(4,5) by simp
  moreover have "foldr_res (\<lambda>pe. Session_Send pack (fst pe) (snd pe)) ps (s\<lparr>so_stream := Some ?st\<rparr>) =
    Inr (s\<lparr>so_stream := Some (?st\<lparr>st_write_free := st_write_free ?st - length ps,
      st_ops := st_ops ?st @ map (\<lambda>pe. WriteOp (frame pack pe) 0) ps\<rparr>)\<rparr>)"
    by (subst Cons.IH [of _ ?st]) (use Cons.prems in auto)
  ultimately show ?case by simp
qed simp

lemma frames_nonempty: "concat chunks = concat (map (frame pack) ps) \<Longrightarrow> chunks = [] \<Longrightarrow> ps = []"
  by (cases ps) (auto simp: length_frame simp flip: length_0_conv)

section \<open>The other end\<close>

text \<open>Stream \<open>k\<close> of engine \<open>e\<close> carries the open session \<open>s\<close>, reads into an empty buffer of \<open>cap\<close> bytes, has handed nothing to its
  worker yet, and has room for the packets \<open>ps\<close>; these are data packets that the peer's deserialiser understands.\<close>

definition receiver_ready ::
  "(Packet \<Rightarrow> u8 list) \<Rightarrow> (PacketType \<Rightarrow> u8 list \<Rightarrow> Packet option) \<Rightarrow> nat \<Rightarrow> u32 \<Rightarrow> (Packet \<times> ErrorCode) list \<Rightarrow> u64 \<Rightarrow> u64 \<Rightarrow> NetworkEngine \<Rightarrow> bool" where
  "receiver_ready pack unpack slots cap ps k s e \<longleftrightarrow>
     (\<forall>pe \<in> set ps. sendable pack unpack pe \<and> 12 + length (pack (fst pe)) \<le> unat cap) \<and> unat cap < 2147483648 \<and>
     slots \<ge> 1 \<and> (length ps \<le> slots \<or> (\<forall>pe \<in> set ps. 12 < length (pack (fst pe)))) \<and>
     (\<exists>r a room. connection k s cap r [(\<lparr>db_bytes = [], db_capacity = cap\<rparr>, a)] [] room e \<and> 2 * length ps \<le> r \<and> 2 * length ps \<le> room)"

text \<open>After the reads of \<open>chunks\<close> the worker has been handed exactly \<open>ps\<close>, in order and attributed to session \<open>s\<close>, and the stream
  waits for more.\<close>

definition worker_receives ::
  "(Packet \<Rightarrow> u8 list) \<Rightarrow> (PacketType \<Rightarrow> u8 list \<Rightarrow> Packet option) \<Rightarrow> nat \<Rightarrow> u8 list \<Rightarrow> packet_session_auth_rq \<Rightarrow> int \<Rightarrow> u64 \<Rightarrow> u64 \<Rightarrow>
   u8 list list \<Rightarrow> NetworkEngine \<Rightarrow> (Packet \<times> ErrorCode) list \<Rightarrow> bool" where
  "worker_receives pack unpack slots key garbage now_ms k s chunks e ps \<longleftrightarrow>
     (\<exists>e' cap r a sub room. foldr_res (IoRead pack unpack slots key garbage now_ms k) chunks e = Inr e' \<and>
        connection k s cap r [(\<lparr>db_bytes = [], db_capacity = cap\<rparr>, a)] sub room e' \<and> map (delivered unpack) (concat sub) = map (seen s) ps)"

lemma stream_received:
  assumes "receiver_ready pack unpack slots cap ps k s e" "concat chunks = concat (map (frame pack) ps)"
    "chunks_fit (unat cap) (map (\<lambda>pe. length (frame pack pe)) ps) 0 chunks"
  shows "worker_receives pack unpack slots key garbage now_ms k s chunks e ps"
proof -
  obtain r a room where rr: "\<forall>pe \<in> set ps. sendable pack unpack pe \<and> 12 + length (pack (fst pe)) \<le> unat cap"
      "slots \<ge> 1" "length ps \<le> slots \<or> (\<forall>pe \<in> set ps. 12 < length (pack (fst pe)))" "unat cap < 2147483648"
    and c: "connection k s cap r [(\<lparr>db_bytes = [], db_capacity = cap\<rparr>, a)] [] room e" "2 * length ps \<le> r" "2 * length ps \<le> room"
    using assms(1) unfolding receiver_ready_def by blast
  show ?thesis
    using stream_reassembled_from [where pre = "[]" and chunks = chunks and key = key and garbage = garbage and now_ms = now_ms, OF rr _ _ c]
      assms(2,3) frames_nonempty [OF assms(2)]
    unfolding worker_receives_def by simp blast
qed

section \<open>From one process to the other\<close>

text \<open>Packets sent with \<^verbatim>\<open>SocketSession::Send\<close> reach the worker of the peer. On an open session with a free write buffer
  for each packet every send succeeds, and in whatever pieces that fit the read buffer the written bytes arrive, the peer's engine
  hands exactly these packets to its worker, once each, in order, with their error codes and the session of the connection.\<close>

theorem sends_arrive:
  assumes "ss_state c = Opened" "so_stream c = Some st" "st_connected st" "length ps \<le> st_write_free st"
    and "\<forall>pe \<in> set ps. 12 + length (pack (fst pe)) \<le> unat (st_write_capacity st)"
    and "receiver_ready pack unpack slots cap ps k s e"
  shows "\<exists>c' st'. foldr_res (\<lambda>pe. Session_Send pack (fst pe) (snd pe)) ps c = Inr c' \<and> so_stream c' = Some st' \<and>
    (\<forall>chunks. written (st_ops st') = written (st_ops st) @ concat chunks \<longrightarrow>
       chunks_fit (unat cap) (map (\<lambda>pe. length (frame pack pe)) ps) 0 chunks \<longrightarrow>
       worker_receives pack unpack slots key garbage now_ms k s chunks e ps)"
proof -
  let ?st = "st\<lparr>st_write_free := st_write_free st - length ps, st_ops := st_ops st @ map (\<lambda>pe. WriteOp (frame pack pe) 0) ps\<rparr>"
  have "written (st_ops ?st) = written (st_ops st) @ concat (map (frame pack) ps)" by (simp add: written_def o_def)
  then show ?thesis
    using Session_Sends_ok [OF assms(1-5)] stream_received [OF assms(6)]
    by (intro exI [of _ "c\<lparr>so_stream := Some ?st\<rparr>"] exI [of _ ?st]) auto
qed

definition sample_frame :: "u8 list" where
  "sample_frame = frame (\<lambda>_. [7]) (P_start_skill_rq 1, None')"

lemma sample_frame_cut:
  "concat [take 5 sample_frame, drop 5 sample_frame] = sample_frame"
  "chunks_fit (unat (100 :: u32)) [length (frame (\<lambda>_. [7]) (P_start_skill_rq 1, None'))] 0 [take 5 sample_frame, drop 5 sample_frame]"
  by (simp_all add: sample_frame_def length_frame flip: length_greater_0_conv)

lemma sample_receiver:
  "receiver_ready (\<lambda>_. [7]) (\<lambda>_ _. Some (P_start_skill_rq 1)) 2 100 [(P_start_skill_rq 1, None')] 6 3 (sample_engine 2 2 (Some 3))"
  unfolding receiver_ready_def using sample_connection [of 2 2] by (simp add: sendable_def data_packet_def) blast

definition sample_sender :: SocketSession where
  "sample_sender = \<lparr>ss_state = Opened, ss_initialized = True, ss_ping = 0, ss_heartbeat_receiving = 0,
     ss_heartbeat_sending = 0, ss_abandoned = 0, ss_key = [], ss_user_data = [], ss_session_id = 1,
     so_stream = Some \<lparr>st_connected = True, st_write_free = 2, st_write_capacity = 20, st_read_free = 0, st_ops = []\<rparr>\<rparr>"

theorem sends_arrive_witness:
  "\<exists>c'. foldr_res (\<lambda>pe. Session_Send (\<lambda>_. [7]) (fst pe) (snd pe)) [(P_start_skill_rq 1, None')] sample_sender = Inr c' \<and>
    worker_receives (\<lambda>_. [7]) (\<lambda>_ _. Some (P_start_skill_rq 1)) 2 [] \<lparr>sar_session_id = 0, sar_session_key = []\<rparr> 0 6 3
      [take 5 sample_frame, drop 5 sample_frame] (sample_engine 2 2 (Some 3)) [(P_start_skill_rq 1, None')]"
proof -
  let ?st = "\<lparr>st_connected = True, st_write_free = 2, st_write_capacity = 20, st_read_free = 0, st_ops = []\<rparr>"
  let ?ps = "[(P_start_skill_rq 1, None')]"
  have c: "ss_state sample_sender = Opened" "so_stream sample_sender = Some ?st" "st_connected ?st" "length ?ps \<le> st_write_free ?st"
    "\<forall>pe \<in> set ?ps. 12 + length ((\<lambda>_. [7 :: u8]) (fst pe)) \<le> unat (st_write_capacity ?st)"
    by (simp_all add: sample_sender_def)
  obtain c' st' where f: "foldr_res (\<lambda>pe. Session_Send (\<lambda>_. [7]) (fst pe) (snd pe)) ?ps sample_sender = Inr c'" "so_stream c' = Some st'"
    and w: "\<And>chunks. written (st_ops st') = written (st_ops ?st) @ concat chunks \<Longrightarrow>
       chunks_fit (unat (100 :: u32)) (map (\<lambda>pe. length (frame (\<lambda>_. [7]) pe)) ?ps) 0 chunks \<Longrightarrow>
       worker_receives (\<lambda>_. [7]) (\<lambda>_ _. Some (P_start_skill_rq 1)) 2 [] \<lparr>sar_session_id = 0, sar_session_key = []\<rparr> 0 6 3 chunks (sample_engine 2 2 (Some 3)) ?ps"
    using sends_arrive [where key = "[]" and garbage = "\<lparr>sar_session_id = 0, sar_session_key = []\<rparr>" and now_ms = 0, OF c sample_receiver]
    by blast
  have "written (st_ops st') = sample_frame"
    using f Session_Sends_ok [OF c] by (auto simp: written_def sample_frame_def)
  then show ?thesis using f(1) w [of "[take 5 sample_frame, drop 5 sample_frame]"] sample_frame_cut by (auto simp: written_def)
qed

text \<open>C2. The same with the packet throttler in between, as the play server and the agency send: packets posted for any sessions in
  any interleaving and then flushed; the peer of session \<open>j\<close> is handed exactly the packets posted for \<open>j\<close>, in the order they were
  posted, although several of them travel in one write.\<close>

theorem throttled_posts_arrive:
  assumes "pt_throttle_data pt = []"
    and "\<forall>k \<in> fst ` set posts. heap_ready capacity (length (filter (\<lambda>x. fst x = k) posts)) k h"
    and "\<forall>x \<in> set posts. 12 + length (pack (snd x)) \<le> unat capacity"
    and "receiver_ready pack unpack slots cap (map (\<lambda>x. (snd x, None')) (filter (\<lambda>x. fst x = j) posts)) k s e"
  shows "\<exists>pt1 h1 pt2 h2.
    foldr_res (\<lambda>(k, p) (pt, h). PostPacket (heap_ops pack) pack k p Throttle pt h) posts (pt, h) = Inr (pt1, h1) \<and>
    ForceFlushPacket (heap_ops pack) pt1 h1 = Inr (pt2, h2) \<and>
    (\<forall>chunks. heap_sent h2 j = heap_sent h j @ concat chunks \<longrightarrow>
       chunks_fit (unat cap) (map (\<lambda>x. length (frame pack (snd x, None'))) (filter (\<lambda>x. fst x = j) posts)) 0 chunks \<longrightarrow>
       worker_receives pack unpack slots key garbage now_ms k s chunks e (map (\<lambda>x. (snd x, None')) (filter (\<lambda>x. fst x = j) posts)))"
proof -
  obtain pt1 h1 pt2 h2 where
    f: "foldr_res (\<lambda>(k, p) (pt, h). PostPacket (heap_ops pack) pack k p Throttle pt h) posts (pt, h) = Inr (pt1, h1)"
       "ForceFlushPacket (heap_ops pack) pt1 h1 = Inr (pt2, h2)"
       "heap_sent h2 j = heap_sent h j @ concat (map (\<lambda>x. frame pack (snd x, None')) (filter (\<lambda>x. fst x = j) posts))"
    using heap.posts_then_flush [of pt posts capacity h pack pack] assms(1-3) by auto
  show ?thesis
    using f(1,2) f(3) stream_received [OF assms(4)] by (intro exI [of _ pt1] exI [of _ h1] exI [of _ pt2] exI [of _ h2]) (auto simp: o_def)
qed

theorem throttled_posts_arrive_witness:
  "\<exists>pt1 h1 pt2 h2. foldr_res (\<lambda>(k, p) (pt, h). PostPacket (heap_ops (\<lambda>_. [7])) (\<lambda>_. [7]) k p Throttle pt h)
      [(2, P_session_close_rq 0), (1, P_start_skill_rq 1)] (new_PacketThrottler 0 10, sample_heap) = Inr (pt1, h1) \<and>
    ForceFlushPacket (heap_ops (\<lambda>_. [7])) pt1 h1 = Inr (pt2, h2) \<and> heap_sent h2 1 = sample_frame \<and>
    worker_receives (\<lambda>_. [7]) (\<lambda>_ _. Some (P_start_skill_rq 1)) 2 [] \<lparr>sar_session_id = 0, sar_session_key = []\<rparr> 0 6 3
      [take 5 sample_frame, drop 5 sample_frame] (sample_engine 2 2 (Some 3)) [(P_start_skill_rq 1, None')]"
proof -
  let ?posts = "[(2, P_session_close_rq 0), (1, P_start_skill_rq 1)] :: (u64 \<times> Packet) list"
  let ?pack = "\<lambda>_ :: Packet. [7 :: u8]" and ?pt = "new_PacketThrottler 0 10"
  have a: "pt_throttle_data ?pt = []" by (simp add: new_PacketThrottler_def)
  have b: "\<forall>k \<in> fst ` set ?posts. heap_ready 20 (length (filter (\<lambda>x. fst x = k) ?posts)) k sample_heap"
    by (simp add: heap_ready_def sample_heap_def sample_net_def)
  have c: "\<forall>x \<in> set ?posts. 12 + length (?pack (snd x)) \<le> unat (20 :: u32)" by simp
  have d: "receiver_ready ?pack (\<lambda>_ _. Some (P_start_skill_rq 1)) 2 100 (map (\<lambda>x. (snd x, None')) (filter (\<lambda>x. fst x = 1) ?posts)) 6 3
      (sample_engine 2 2 (Some 3))"
    using sample_receiver by simp
  obtain pt1 h1 pt2 h2 where
    f: "foldr_res (\<lambda>(k, p) (pt, h). PostPacket (heap_ops ?pack) ?pack k p Throttle pt h) ?posts (?pt, sample_heap) = Inr (pt1, h1)"
       "ForceFlushPacket (heap_ops ?pack) pt1 h1 = Inr (pt2, h2)"
    and w: "\<And>chunks. heap_sent h2 1 = heap_sent sample_heap 1 @ concat chunks \<Longrightarrow>
       chunks_fit (unat (100 :: u32)) (map (\<lambda>x. length (frame ?pack (snd x, None'))) (filter (\<lambda>x. fst x = 1) ?posts)) 0 chunks \<Longrightarrow>
       worker_receives ?pack (\<lambda>_ _. Some (P_start_skill_rq 1)) 2 [] \<lparr>sar_session_id = 0, sar_session_key = []\<rparr> 0 6 3 chunks
         (sample_engine 2 2 (Some 3)) (map (\<lambda>x. (snd x, None')) (filter (\<lambda>x. fst x = 1) ?posts))"
    using throttled_posts_arrive [where key = "[]" and garbage = "\<lparr>sar_session_id = 0, sar_session_key = []\<rparr>" and now_ms = 0, OF a b c d]
    by (elim exE conjE) metis
  have h: "heap_sent sample_heap 1 = []" by (simp add: heap_sent_def sample_heap_def sample_net_def written_def)
  have "heap_sent h2 1 = sample_frame"
    using heap.posts_then_flush [of ?pt ?posts 20 sample_heap ?pack ?pack] a b c f h by (auto simp: sample_frame_def)
  then show ?thesis using f w [of "[take 5 sample_frame, drop 5 sample_frame]"] sample_frame_cut h
    by (intro exI [of _ pt1] exI [of _ h1] exI [of _ pt2] exI [of _ h2]) (auto simp del: foldr_res.simps)
qed

end
