(* ===== verification/OsInterface.thy ===== *)
theory OsInterface
  imports SocketServers
begin

text \<open>
  Where the program meets the socket library: \<^verbatim>\<open>network/Meta.cpp\<close>, \<^verbatim>\<open>network/SocketStreamBase.h\<close> and the calls that
  \<^verbatim>\<open>network/iocp/IocpTransferStream.cpp\<close> makes to start an operation.

  The functions of the operating system (\<^verbatim>\<open>WSAStartup\<close>, \<^verbatim>\<open>setsockopt\<close>, \<^verbatim>\<open>WSAIoctl\<close>, \<^verbatim>\<open>inet_addr\<close>, \<^verbatim>\<open>inet_ntop\<close>,
  \<^verbatim>\<open>WSASend\<close>, \<^verbatim>\<open>DisconnectEx\<close>) are parameters; what is documented of them appears as a hypothesis where it is needed. The other
  theories name an address by its text and take the operations of a stream as started; here the fixed array behind the text and
  the results of the calls are spelled out, with the lemmas that connect the two.
\<close>

section \<open>Addresses\<close>

type_synonym sockaddr_text = "char list"

record RawSocketAddress =
  ra_ip :: sockaddr_text
  ra_port :: u16

record sockaddr_in =
  sin_family :: u16
  sin_port :: u16
  sin_addr :: u32

definition AF_INET :: u16 where "AF_INET = 2"

definition INADDR_NONE :: u32 where "INADDR_NONE = - 1"

text \<open>The bytes of a 16-bit number in network order, on a little endian machine.\<close>

definition htons :: "u16 \<Rightarrow> u16" where
  "htons p = word_of_nat (256 * (unat p mod 256) + unat p div 256)"

text \<open>A C string ends before its first NUL character.\<close>

definition c_str :: "char list \<Rightarrow> string" where
  "c_str = takeWhile (\<lambda>c. c \<noteq> CHR 0x00)"

text \<open>\<^verbatim>\<open>SocketAddress::New\<close>: the text is copied over a zeroed array of 16 characters, without a test of its length, and terminated. A
  copy beyond the array is undefined; the index of the terminator is checked.\<close>

definition SocketAddress_New :: "(string \<Rightarrow> u32) \<Rightarrow> string \<Rightarrow> u16 \<Rightarrow> RawSocketAddress res" where
  "SocketAddress_New inet_addr ip port =
    assert_that (inet_addr (c_str ip) \<noteq> INADDR_NONE)
      (if length ip > 16 then Inl Undefined
       else
         let array = ip @ drop (length ip) (replicate 16 (CHR 0x00)) in
         if length ip < length array then Inr \<lparr>ra_ip = array[length ip := CHR 0x00], ra_port = port\<rparr> else Inl OutOfRange)"

definition SocketAddress_Empty :: "(string \<Rightarrow> u32) \<Rightarrow> RawSocketAddress res" where
  "SocketAddress_Empty inet_addr = SocketAddress_New inet_addr ''0.0.0.0'' 0"

definition ToInetSocketAddress :: "(string \<Rightarrow> u32) \<Rightarrow> RawSocketAddress \<Rightarrow> sockaddr_in" where
  "ToInetSocketAddress inet_addr a =
    \<lparr>sin_family = AF_INET, sin_port = htons (ra_port a), sin_addr = inet_addr (c_str (ra_ip a))\<rparr>"

text \<open>The address as the rest of the development names it.\<close>

definition address_of :: "RawSocketAddress \<Rightarrow> SocketAddress" where
  "address_of a = \<lparr>sa_ip = c_str (ra_ip a), sa_port = ra_port a\<rparr>"

text \<open>\<^verbatim>\<open>IocpSocketServer::IoAccept\<close> keeps the address of the peer; \<open>inet_ntop\<close> is \<open>None\<close> if it cannot be written.\<close>

definition accepted_address :: "(string \<Rightarrow> u32) \<Rightarrow> (u32 \<Rightarrow> string option) \<Rightarrow> sockaddr_in \<Rightarrow> RawSocketAddress res" where
  "accepted_address inet_addr inet_ntop remote =
    (case inet_ntop (sin_addr remote) of
       None \<Rightarrow> Inl (Throw ''cannot convert address to ip'')
     | Some text \<Rightarrow> SocketAddress_New inet_addr text (htons (sin_port remote)))"

lemma u16_of_nat: "n < 65536 \<Longrightarrow> unat (of_nat n :: u16) = n"
  by (simp add: unsigned_of_nat take_bit_nat_eq_self)

lemma htons_htons [simp]: "htons (htons p) = p"
proof -
  define x where "x = unat p"
  have x: "x < 65536" unfolding x_def using unsigned_less [of p, where ?'a = nat] by simp
  have d: "x div 256 < 256" using x by (simp add: div_less_iff_less_mult)
  have "256 * (x mod 256) + x div 256 < 65536"
    using d mod_less_divisor [of 256 x] by linarith
  then have u: "unat (htons p) = 256 * (x mod 256) + x div 256"
    unfolding htons_def x_def [symmetric] by (rule u16_of_nat)
  have "htons (htons p) = word_of_nat (256 * (x div 256) + x mod 256)"
    using d by (simp add: htons_def [of "htons p"] u)
  then show ?thesis by (simp add: x_def)
qed

lemma c_str_terminated: "CHR 0x00 \<notin> set ip \<Longrightarrow> c_str (ip @ CHR 0x00 # rest) = ip"
  unfolding c_str_def by (induction ip) auto

lemma c_str_id: "CHR 0x00 \<notin> set ip \<Longrightarrow> c_str ip = ip"
  unfolding c_str_def by (simp add: takeWhile_eq_all_conv) blast

lemma SocketAddress_New_array:
  assumes "length ip < 16"
  shows "SocketAddress_New inet_addr ip port =
    assert_that (inet_addr (c_str ip) \<noteq> INADDR_NONE) (Inr \<lparr>ra_ip = ip @ replicate (16 - length ip) (CHR 0x00), ra_port = port\<rparr>)"
proof -
  obtain n where n: "16 - length ip = Suc n" using assms by (metis Suc_diff_Suc)
  then have "(ip @ replicate (16 - length ip) (CHR 0x00))[length ip := CHR 0x00] = ip @ replicate (16 - length ip) (CHR 0x00)"
    by simp
  then show ?thesis using assms by (simp add: SocketAddress_New_def Let_def)
qed

text \<open>C40. An address made from a valid text of at most 15 characters is that text and port: the array has its 16 characters, reads
  back as the text and converts to the number of the text and the port in network order. A longer text is written beyond the array or indexed out of
  range, whatever the text.\<close>

theorem socket_address_round_trip:
  assumes "CHR 0x00 \<notin> set ip" "inet_addr ip \<noteq> INADDR_NONE"
  shows "(length ip < 16 \<longrightarrow> (\<exists>a. SocketAddress_New inet_addr ip port = Inr a \<and> length (ra_ip a) = 16 \<and>
      address_of a = \<lparr>sa_ip = ip, sa_port = port\<rparr> \<and>
      ToInetSocketAddress inet_addr a = \<lparr>sin_family = AF_INET, sin_port = htons port, sin_addr = inet_addr ip\<rparr>)) \<and>
    (length ip = 16 \<longrightarrow> SocketAddress_New inet_addr ip port = Inl OutOfRange) \<and>
    (length ip > 16 \<longrightarrow> SocketAddress_New inet_addr ip port = Inl Undefined)"
proof (intro conjI impI)
  assume l: "length ip < 16"
  then have "16 - length ip = Suc (15 - length ip)" by simp
  then have c: "c_str (ip @ replicate (16 - length ip) (CHR 0x00)) = ip" using c_str_terminated [OF assms(1)] by simp
  show "\<exists>a. SocketAddress_New inet_addr ip port = Inr a \<and> length (ra_ip a) = 16 \<and> address_of a = \<lparr>sa_ip = ip, sa_port = port\<rparr> \<and>
      ToInetSocketAddress inet_addr a = \<lparr>sin_family = AF_INET, sin_port = htons port, sin_addr = inet_addr ip\<rparr>"
    using assms l by (auto simp: SocketAddress_New_array c_str_id c address_of_def ToInetSocketAddress_def)
qed (use assms in \<open>simp_all add: SocketAddress_New_def c_str_id Let_def\<close>)

theorem socket_address_round_trip_witness:
  "\<exists>a. SocketAddress_New (\<lambda>t. if t = ''127.0.0.1'' then 16777343 else INADDR_NONE) ''127.0.0.1'' 9987 = Inr a \<and>
    address_of a = \<lparr>sa_ip = ''127.0.0.1'', sa_port = 9987\<rparr>"
  using socket_address_round_trip [of "''127.0.0.1''" "\<lambda>t. if t = ''127.0.0.1'' then 16777343 else INADDR_NONE" 9987]
  by (auto simp: INADDR_NONE_def)

text \<open>The address stored for an accepted peer converts back to the peer's own address, given that the library reads what it wrote. The one
  exception is 255.255.255.255, whose number is the library's error value.\<close>

theorem accepted_address_converts_back:
  assumes "inet_ntop (sin_addr remote) = Some text" "length text < 16" "CHR 0x00 \<notin> set text" "inet_addr text = sin_addr remote"
    "sin_family remote = AF_INET"
  shows "if sin_addr remote = INADDR_NONE then accepted_address inet_addr inet_ntop remote = Inl AssertFail
    else \<exists>a. accepted_address inet_addr inet_ntop remote = Inr a \<and> ToInetSocketAddress inet_addr a = remote"
proof -
  have "16 - length text = Suc (15 - length text)" using assms(2) by simp
  then have c: "c_str (text @ replicate (16 - length text) (CHR 0x00)) = text" using c_str_terminated [OF assms(3)] by simp
  show ?thesis
    using assms by (auto simp: accepted_address_def SocketAddress_New_array c_str_id c ToInetSocketAddress_def)
qed

section \<open>Starting the socket library\<close>

datatype extension_function = ConnectEx | AcceptEx | GetAcceptExSockAddrs | DisconnectEx

text \<open>\<^verbatim>\<open>WinSockFnTable\<close>: the four pointers, null until they are loaded.\<close>

type_synonym 'f WinSockFnTable = "extension_function \<Rightarrow> 'f option"

fun function_name :: "extension_function \<Rightarrow> string" where
  "function_name ConnectEx = ''ConnectEx''"
| "function_name AcceptEx = ''AcceptEx''"
| "function_name GetAcceptExSockAddrs = ''GetAcceptExSockAddrs''"
| "function_name DisconnectEx = ''DisconnectEx''"

text \<open>\<open>ioctl\<close> is \<^verbatim>\<open>WSAIoctl\<close> for one extension function, \<open>None\<close> when it returns -1.\<close>

definition load_function :: "(extension_function \<Rightarrow> 'f option) \<Rightarrow> extension_function \<Rightarrow> 'f WinSockFnTable \<Rightarrow> 'f WinSockFnTable res" where
  "load_function ioctl f table =
    (case ioctl f of
       None \<Rightarrow> Inl (Throw (''cannot initialize '' @ function_name f @ '' function''))
     | Some p \<Rightarrow> Inr (table(f \<mapsto> p)))"

definition WinSockFnTable_Initialize :: "(extension_function \<Rightarrow> 'f option) \<Rightarrow> 'f WinSockFnTable \<Rightarrow> 'f WinSockFnTable res" where
  "WinSockFnTable_Initialize ioctl = foldr_res (load_function ioctl) [ConnectEx, AcceptEx, GetAcceptExSockAddrs, DisconnectEx]"

definition SOCKET_ERROR :: int where "SOCKET_ERROR = - 1"

text \<open>\<^verbatim>\<open>InitializeSocketService\<close>; \<open>startup\<close> is the result of \<^verbatim>\<open>WSAStartup\<close>.\<close>

definition InitializeSocketService :: "int \<Rightarrow> (extension_function \<Rightarrow> 'f option) \<Rightarrow> 'f WinSockFnTable \<Rightarrow> 'f WinSockFnTable res" where
  "InitializeSocketService startup ioctl table =
    (if startup = SOCKET_ERROR then Inl (Throw ''wsa startup failed'') else WinSockFnTable_Initialize ioctl table)"

text \<open>Either every pointer is loaded, or the process stops with the name of the first function that is missing.\<close>

lemma WinSockFnTable_Initialize_cases:
  "WinSockFnTable_Initialize ioctl table =
    (case find (\<lambda>f. ioctl f = None) [ConnectEx, AcceptEx, GetAcceptExSockAddrs, DisconnectEx] of
       None \<Rightarrow> Inr ioctl
     | Some f \<Rightarrow> Inl (Throw (''cannot initialize '' @ function_name f @ '' function'')))"
proof -
  have all: "table(ConnectEx \<mapsto> a, AcceptEx \<mapsto> b, GetAcceptExSockAddrs \<mapsto> c, DisconnectEx \<mapsto> d) = ioctl"
    if "ioctl ConnectEx = Some a" "ioctl AcceptEx = Some b" "ioctl GetAcceptExSockAddrs = Some c" "ioctl DisconnectEx = Some d" for a b c d
    using that by (intro ext) (case_tac x; simp)
  show ?thesis
    unfolding WinSockFnTable_Initialize_def by (auto simp: load_function_def all split: option.split)
qed

text \<open>A failing \<^verbatim>\<open>WSAStartup\<close> is not noticed as such: it returns zero or a positive error code, never \<^verbatim>\<open>SOCKET_ERROR\<close>, so whatever
  it returns the service goes on to load the extension functions, and the message about the startup is never given.\<close>

theorem startup_failure_unnoticed:
  assumes "startup \<ge> 0"
  shows "InitializeSocketService startup ioctl table = WinSockFnTable_Initialize ioctl table \<and>
    InitializeSocketService startup ioctl table \<noteq> Inl (Throw ''wsa startup failed'') \<and>
    (\<forall>t. InitializeSocketService startup ioctl table = Inr t \<longrightarrow> t = ioctl \<and> (\<forall>f. ioctl f \<noteq> None))"
proof -
  have e: "InitializeSocketService startup ioctl table = WinSockFnTable_Initialize ioctl table"
    using assms by (simp add: InitializeSocketService_def SOCKET_ERROR_def)
  show ?thesis
  proof (cases "find (\<lambda>f. ioctl f = None) [ConnectEx, AcceptEx, GetAcceptExSockAddrs, DisconnectEx]")
    case None
    then have "\<forall>f \<in> set [ConnectEx, AcceptEx, GetAcceptExSockAddrs, DisconnectEx]. ioctl f \<noteq> None"
      by (auto split: if_splits)
    then have "ioctl f \<noteq> None" for f by (cases f) simp_all
    then show ?thesis unfolding e WinSockFnTable_Initialize_cases None by simp
  next
    case (Some f)
    then show ?thesis unfolding e WinSockFnTable_Initialize_cases Some by simp
  qed
qed

theorem startup_failure_unnoticed_witness:
  "InitializeSocketService 10091 (\<lambda>f. None :: unit option) (\<lambda>f. None) = Inl (Throw ''cannot initialize ConnectEx function'')"
  using startup_failure_unnoticed [of 10091 "\<lambda>f. None :: unit option" "\<lambda>f. None"] by (simp add: WinSockFnTable_Initialize_cases)

section \<open>Socket options\<close>

definition SOL_SOCKET :: int where "SOL_SOCKET = 65535"
definition IPPROTO_TCP :: int where "IPPROTO_TCP = 6"
definition TCP_NODELAY :: int where "TCP_NODELAY = 1"
definition SO_CONDITIONAL_ACCEPT :: int where "SO_CONDITIONAL_ACCEPT = 12290"

text \<open>\<open>setsockopt level name value\<close> returns 0 or \<^verbatim>\<open>SOCKET_ERROR\<close> and changes the socket \<open>'k\<close>. The results are added up.\<close>

fun SetSocketOptions_loop :: "(int \<Rightarrow> int \<Rightarrow> int \<Rightarrow> 'k \<Rightarrow> int \<times> 'k) \<Rightarrow> (int \<times> int) list \<Rightarrow> int \<Rightarrow> 'k \<Rightarrow> int \<times> 'k" where
  "SetSocketOptions_loop setsockopt [] result socket = (result, socket)"
| "SetSocketOptions_loop setsockopt ((name, v) # options) result socket =
    (let (r, socket') = setsockopt SOL_SOCKET name v socket in SetSocketOptions_loop setsockopt options (result + r) socket')"

definition SetSocketOptions :: "(int \<Rightarrow> int \<Rightarrow> int \<Rightarrow> 'k \<Rightarrow> int \<times> 'k) \<Rightarrow> (int \<times> int) list \<Rightarrow> 'k \<Rightarrow> int \<times> 'k" where
  "SetSocketOptions setsockopt options = SetSocketOptions_loop setsockopt options 0"

text \<open>The part of \<^verbatim>\<open>InitializeAcceptor\<close> before the acceptor stream exists; \<open>created\<close> and \<open>port\<close> tell whether the socket and the port could be
  made. Its result is the argument \<open>socket_ready\<close> of \<open>SocketServers.InitializeAcceptor\<close>.\<close>

definition acceptor_socket_ready ::
  "(int \<Rightarrow> int \<Rightarrow> int \<Rightarrow> 'k \<Rightarrow> int \<times> 'k) \<Rightarrow> (int \<times> int) list \<Rightarrow> 'k option \<Rightarrow> bool \<Rightarrow> bool \<times> 'k option" where
  "acceptor_socket_ready setsockopt options created port =
    (case created of
       None \<Rightarrow> (False, None)
     | Some socket \<Rightarrow>
         (case SetSocketOptions setsockopt options socket of (r, socket1) \<Rightarrow>
            if r < 0 then (False, Some socket1)
            else (case SetSocketOptions setsockopt [(SO_CONDITIONAL_ACCEPT, 1)] socket1 of (r, socket2) \<Rightarrow>
                    if r < 0 then (False, Some socket2) else (port, Some socket2))))"

fun all_set :: "(int \<Rightarrow> int \<Rightarrow> int \<Rightarrow> 'k \<Rightarrow> int \<times> 'k) \<Rightarrow> (int \<times> int) list \<Rightarrow> 'k \<Rightarrow> bool" where
  "all_set setsockopt [] s = True"
| "all_set setsockopt ((name, v) # options) s =
    (fst (setsockopt SOL_SOCKET name v s) = 0 \<and> all_set setsockopt options (snd (setsockopt SOL_SOCKET name v s)))"

text \<open>The sum of the results is negative exactly when one of the calls failed.\<close>

lemma SetSocketOptions_loop_result:
  assumes "\<And>level name v s. fst (setsockopt level name v s) \<in> {0, SOCKET_ERROR}"
  shows "fst (SetSocketOptions_loop setsockopt options result s) \<le> result \<and>
    (fst (SetSocketOptions_loop setsockopt options result s) = result \<longleftrightarrow> all_set setsockopt options s)"
proof (induction options arbitrary: result s)
  case (Cons x options)
  obtain name v where x: "x = (name, v)" by fastforce
  obtain r s' where r: "setsockopt SOL_SOCKET name v s = (r, s')" by fastforce
  have "r = 0 \<or> r = -1" using assms [of SOL_SOCKET name v s] r by (simp add: SOCKET_ERROR_def)
  then show ?case using Cons.IH [of "result + r" s'] by (auto simp: x r)
qed simp

lemma SetSocketOptions_result:
  assumes "\<And>level name v s. fst (setsockopt level name v s) \<in> {0, SOCKET_ERROR}"
  shows "fst (SetSocketOptions setsockopt options s) < 0 \<longleftrightarrow> \<not> all_set setsockopt options s"
  using SetSocketOptions_loop_result [where setsockopt = setsockopt, OF assms, of options 0 s] by (auto simp: SetSocketOptions_def)

text \<open>Options that a call leaves alone stay as they are.\<close>

lemma SetSocketOptions_loop_frame:
  assumes "\<And>level name v s l n. (l, n) \<noteq> (level, name) \<Longrightarrow> value_of (snd (setsockopt level name v s)) l n = value_of s l n"
    "l \<noteq> SOL_SOCKET"
  shows "value_of (snd (SetSocketOptions_loop setsockopt options result s)) l n = value_of s l n"
proof (induction options arbitrary: result s)
  case (Cons x options)
  obtain name v where x: "x = (name, v)" by fastforce
  obtain r s' where r: "setsockopt SOL_SOCKET name v s = (r, s')" by fastforce
  have "value_of s' l n = value_of s l n" using assms(1) [of l n SOL_SOCKET name v s] assms(2) r by simp
  then show ?case using Cons.IH by (simp add: x r)
qed simp

text \<open>The main programs ask for \<^verbatim>\<open>TCP_NODELAY\<close> on their listening sockets, but every option is set at the level of the socket: the
  option of that name at the level of TCP keeps its value. Known of the library: a call changes at most the option it names.\<close>

theorem nodelay_never_set:
  assumes "\<And>level name v s l n. (l, n) \<noteq> (level, name) \<Longrightarrow> value_of (snd (setsockopt level name v s)) l n = value_of s l n"
  shows "case acceptor_socket_ready setsockopt [(TCP_NODELAY, 1)] (Some socket) port of (ok, socket') \<Rightarrow>
    \<exists>s. socket' = Some s \<and> value_of s IPPROTO_TCP TCP_NODELAY = value_of socket IPPROTO_TCP TCP_NODELAY"
proof -
  have frame: "value_of (snd (SetSocketOptions setsockopt options s)) IPPROTO_TCP n = value_of s IPPROTO_TCP n" for options s n
    unfolding SetSocketOptions_def
    by (rule SetSocketOptions_loop_frame [where setsockopt = setsockopt, OF assms]) (simp_all add: IPPROTO_TCP_def SOL_SOCKET_def)
  obtain r1 s1 where 1: "SetSocketOptions setsockopt [(TCP_NODELAY, 1)] socket = (r1, s1)" by fastforce
  obtain r2 s2 where 2: "SetSocketOptions setsockopt [(SO_CONDITIONAL_ACCEPT, 1)] s1 = (r2, s2)" by fastforce
  show ?thesis
    using frame [of "[(TCP_NODELAY, 1)]" socket] frame [of "[(SO_CONDITIONAL_ACCEPT, 1)]" s1] 1 2
    by (simp add: acceptor_socket_ready_def)
qed

theorem nodelay_never_set_witness:
  "case acceptor_socket_ready (\<lambda>level name v s. (0, s(level := (s level)(name := v)))) [(TCP_NODELAY, 1)] (Some (\<lambda>l n. 0)) True of
     (ok, socket') \<Rightarrow> \<exists>s. socket' = Some s \<and> s IPPROTO_TCP TCP_NODELAY = (0 :: int)"
  using nodelay_never_set [where value_of = "\<lambda>s. s" and setsockopt = "\<lambda>level name v s. (0, s(level := (s level)(name := v)))"
      and socket = "\<lambda>l n. 0 :: int" and port = True]
  by (auto simp: fun_upd_def)

section \<open>Starting an operation\<close>

definition WSA_IO_PENDING :: int where "WSA_IO_PENDING = 997"

definition WSAOperationResult :: "int \<Rightarrow> int \<Rightarrow> bool" where
  "WSAOperationResult result last_error = (if result = SOCKET_ERROR then last_error = WSA_IO_PENDING else True)"

text \<open>\<^verbatim>\<open>TransmitWrite\<close> with the result of \<^verbatim>\<open>WSASend\<close>: a send that fails at once is completed by the stream itself, with 0 bytes.\<close>

definition TransmitWrite_os :: "int \<Rightarrow> int \<Rightarrow> WriteBuffer option \<Rightarrow> u64 \<Rightarrow> Stream \<Rightarrow> Stream res" where
  "TransmitWrite_os result last_error buffer attachment st =
    (case buffer of
       None \<Rightarrow> Inl NullDeref
     | Some b \<Rightarrow> Inr (st\<lparr>st_ops := st_ops st @
         [if st_connected st \<and> WSAOperationResult result last_error then WriteOp (wb_bytes b) attachment else FailedOp attachment]\<rparr>))"

text \<open>\<^verbatim>\<open>TransmitDisconnect\<close> with the result of \<^verbatim>\<open>DisconnectEx\<close>, which is a \<^verbatim>\<open>BOOL\<close>.\<close>

definition TransmitDisconnect_os :: "bool \<Rightarrow> int \<Rightarrow> u64 \<Rightarrow> Stream \<Rightarrow> Stream res" where
  "TransmitDisconnect_os result last_error attachment st =
    (let (changed, st1) = SetConnectionStatus False st in
     if changed then
       (case AllocateWriteBuffer True st1 of
          (None, _) \<Rightarrow> Inl NullDeref
        | (Some b, st2) \<Rightarrow>
            if result \<or> last_error = WSA_IO_PENDING then Inr (st2\<lparr>st_ops := st_ops st2 @ [DisconnectOp attachment]\<rparr>)
            else Inr (ReleaseWriteBuffer b st2))
     else Inr st1)"

text \<open>When the operating system takes the operation, these are the operations of \<open>Sessions\<close>.\<close>

lemma transmit_os_refines:
  "WSAOperationResult result last_error \<Longrightarrow> TransmitWrite_os result last_error = TransmitWrite"
  "ok \<or> last_error = WSA_IO_PENDING \<Longrightarrow> TransmitDisconnect_os ok last_error a st = Inr (TransmitDisconnect a st)"
  by (auto simp: fun_eq_iff TransmitWrite_os_def TransmitWrite_def TransmitDisconnect_os_def TransmitDisconnect_def SetConnectionStatus_def
      AllocateWriteBuffer_def split: option.splits)

text \<open>A disconnect that the operating system refuses strands the stream: its buffer goes back to the pool and no operation is started, but
  the stream counts as disconnected, so no completion ever reports it and every later disconnect, with whatever result, does nothing.\<close>

theorem refused_disconnect_strands_stream:
  assumes "st_connected st" "\<not> ok" "last_error \<noteq> WSA_IO_PENDING"
  shows "\<exists>st'. TransmitDisconnect_os ok last_error a st = Inr st' \<and> st_ops st' = st_ops st \<and> st_write_free st' = st_write_free st \<and>
    \<not> st_connected st' \<and> (\<forall>ok' e' a'. TransmitDisconnect_os ok' e' a' st' = Inr st')"
  using assms by (cases st) (auto simp: TransmitDisconnect_os_def SetConnectionStatus_def AllocateWriteBuffer_def ReleaseWriteBuffer_def)

theorem refused_disconnect_strands_stream_witness:
  "\<exists>st'. TransmitDisconnect_os False 10057 1
      \<lparr>st_connected = True, st_write_free = 2, st_write_capacity = 64, st_read_free = 1, st_ops = []\<rparr> = Inr st' \<and> st_ops st' = []"
  using refused_disconnect_strands_stream [of "\<lparr>st_connected = True, st_write_free = 2, st_write_capacity = 64, st_read_free = 1, st_ops = []\<rparr>" False 10057 1]
  by (auto simp: WSA_IO_PENDING_def)

section \<open>Streams before they are used\<close>

record SocketStreamBase =
  sb_id :: u64
  sb_server :: "nat option"
  sb_socket :: nat
  sb_socket_address :: SocketAddress
  sb_connected :: bool
  sb_is_connector_socket :: bool
  sb_worker_index :: u32
  sb_user_data :: u64

definition SocketStreamBase_Initialize ::
  "u64 \<Rightarrow> u32 \<Rightarrow> nat option \<Rightarrow> nat \<Rightarrow> SocketAddress \<Rightarrow> bool \<Rightarrow> SocketStreamBase \<Rightarrow> SocketStreamBase res" where
  "SocketStreamBase_Initialize i worker_index server socket address is_connector_socket s =
    assert_that (sb_server s = None)
      (Inr (s\<lparr>sb_server := server, sb_worker_index := worker_index, sb_id := i, sb_socket := socket, sb_socket_address := address,
         sb_is_connector_socket := is_connector_socket\<rparr>))"

definition SocketStreamBase_SetConnectionStatus :: "bool \<Rightarrow> SocketStreamBase \<Rightarrow> bool \<times> SocketStreamBase" where
  "SocketStreamBase_SetConnectionStatus connect s =
    (let expected = (\<not> connect) in if sb_connected s = expected then (True, s\<lparr>sb_connected := connect\<rparr>) else (False, s))"

definition SetSocketAddress :: "SocketAddress \<Rightarrow> SocketStreamBase \<Rightarrow> SocketStreamBase" where
  "SetSocketAddress address s = s\<lparr>sb_socket_address := address\<rparr>"

definition Stream_SetUserData :: "u64 \<Rightarrow> SocketStreamBase \<Rightarrow> SocketStreamBase" where
  "Stream_SetUserData user_data s = s\<lparr>sb_user_data := user_data\<rparr>"

text \<open>A stream keeps its identity for good: once it belongs to a server it cannot be initialised again, and connecting, disconnecting and
  user data do not touch it.\<close>

lemma stream_identity_fixed:
  assumes "SocketStreamBase_Initialize i w (Some server) socket address c s = Inr s'"
  shows "SocketStreamBase_Initialize j v server' socket' address' c' s' = Inl AssertFail"
    and "f \<in> {snd \<circ> SocketStreamBase_SetConnectionStatus b, SetSocketAddress a, Stream_SetUserData d} \<Longrightarrow>
      sb_id (f s') = i \<and> sb_worker_index (f s') = w \<and> sb_server (f s') = Some server \<and> sb_is_connector_socket (f s') = c"
  using assms by (auto simp: SocketStreamBase_Initialize_def SocketStreamBase_SetConnectionStatus_def SetSocketAddress_def
      Stream_SetUserData_def Let_def res_iff split: if_splits)

text \<open>\<^verbatim>\<open>IoContextInitializer::Initialize\<close> of a new buffer and \<^verbatim>\<open>InitializeBufferPool\<close>, whose pools are built in quarters. The pools that the
  stream has already are kept.\<close>

definition IoContext_Initialize :: "u64 \<Rightarrow> DynamicBuffer" where
  "IoContext_Initialize param = \<lparr>db_bytes = [], db_capacity = ucast param\<rparr>"

type_synonym buffer_pools = "ObjectPool option \<times> ObjectPool option"

definition buffer_pool :: "ObjectPool option \<Rightarrow> u32 \<Rightarrow> ObjectPool option res" where
  "buffer_pool pool pool_size =
    (case pool of
       Some p \<Rightarrow> Inr (Some p)
     | None \<Rightarrow> rbind (new_ObjectPool pool_size (pool_size div 4) 1) (\<lambda>p. case p of None \<Rightarrow> Inl Undefined | Some p \<Rightarrow> Inr (Some p)))"

definition InitializeBufferPool :: "u32 \<Rightarrow> u32 \<Rightarrow> buffer_pools \<Rightarrow> buffer_pools res" where
  "InitializeBufferPool read_size write_size pools =
    rbind (buffer_pool (fst pools) read_size) (\<lambda>r.
    rbind (buffer_pool (snd pools) write_size) (\<lambda>w. Inr (r, w)))"

lemma buffer_pool_fresh:
  assumes "4 \<le> unat n" "unat n < 2 ^ 31"
  shows "\<exists>p. buffer_pool None n = Inr (Some p) \<and> length (op_pool p) = unat n \<and> distinct (map bl_id (op_pool p))"
proof -
  have q: "unat (n div 4) = unat n div 4" by (simp add: unat_div)
  have b: "1 \<le> unat n div 4" "unat n div 4 \<le> unat n" using assms(1) by (simp_all add: less_eq_div_iff_mult_less_eq)
  have c: "0 < n div 4" using b(1) q by (simp add: word_less_nat_alt del: unat_div)
  have s: "unat n + unat (n div 4) < 2 ^ 32" "unat (1 :: u64) + unat n < 2 ^ 64" using b(2) assms(2) by (simp_all add: q del: unat_div)
  from object_pool_construction [OF c s] show ?thesis by (auto simp: buffer_pool_def)
qed

text \<open>A new stream gets exactly the buffers of its configuration. With at least four buffers of each kind, which
  \<^verbatim>\<open>IocpSocketServer::Initialize\<close> checks, both pools are built, end with as many different buffers as configured and survive a second
  call; a pool of fewer than four would fail the pool's own assertion.\<close>

theorem buffer_pools_built:
  assumes "unat r < 2 ^ 31" "unat w < 2 ^ 31"
  shows "if 4 \<le> unat r \<and> 4 \<le> unat w
    then \<exists>p q. InitializeBufferPool r w (None, None) = Inr (Some p, Some q) \<and> length (op_pool p) = unat r \<and> length (op_pool q) = unat w \<and>
      distinct (map bl_id (op_pool p)) \<and> distinct (map bl_id (op_pool q)) \<and>
      (\<forall>r' w'. InitializeBufferPool r' w' (Some p, Some q) = Inr (Some p, Some q))
    else InitializeBufferPool r w (None, None) = Inl AssertFail"
proof (cases "4 \<le> unat r \<and> 4 \<le> unat w")
  case True
  then show ?thesis
    using buffer_pool_fresh [of r] buffer_pool_fresh [of w] assms by (auto simp: InitializeBufferPool_def) (auto simp: buffer_pool_def)
next
  case False
  have small: "buffer_pool None n = Inl AssertFail" if "\<not> 4 \<le> unat n" for n
    using that by (simp add: buffer_pool_def new_ObjectPool_def word_less_nat_alt unat_div)
  show ?thesis
    using False small [of r] small [of w] buffer_pool_fresh [of r] assms(1) by (cases "4 \<le> unat r") (auto simp: InitializeBufferPool_def)
qed

theorem buffer_pools_built_witness:
  "\<exists>p q. InitializeBufferPool 5 8 (None, None) = Inr (Some p, Some q) \<and> length (op_pool p) = 5 \<and> length (op_pool q) = 8"
  using buffer_pools_built [of 5 8] by auto

end
