(* ===== verification/TestClients.thy ===== *)
theory TestClients
  imports Startup EndToEnd
begin

text \<open>
  The load generator \<^verbatim>\<open>TestClient/TestClient.cpp\<close>: a worker that enters the game on 200 connections and lets every character walk
  in a random direction twice a second.

  A session pointer is an address in a \<open>session_heap\<close>. The worker keeps a counted pointer to every session (\<open>sf_session\<close>) and, in
  \<^verbatim>\<open>fixture.user_data\<close>, a raw pointer through which it sends. \<^verbatim>\<open>utility::RandomUint64\<close> is a generator \<open>rng\<close> with its state; the
  members of the request that the client leaves unset are those of \<open>unset\<close>.
\<close>

section \<open>The worker\<close>

record SessionFixture =
  sf_fixture :: Fixture
  sf_session :: "u64 option"

record ClientWorker =
  cw_sessions :: "(u64, SessionFixture) umap"
  cw_timer :: Timer

definition new_ClientWorker :: "int \<Rightarrow> ClientWorker" where
  "new_ClientWorker now = \<lparr>cw_sessions = [], cw_timer = new_Timer now 500\<rparr>"

definition Client_OnSocketSessionConnected :: "u64 \<Rightarrow> session_heap \<Rightarrow> ClientWorker \<Rightarrow> ClientWorker res" where
  "Client_OnSocketSessionConnected k h w =
    rbind (heap_GetSessionId k h) (\<lambda>i. Inr (w\<lparr>cw_sessions := um_set i \<lparr>sf_fixture = new_Fixture, sf_session = Some k\<rparr> (cw_sessions w)\<rparr>))"

definition Client_OnSocketSessionClosed :: "u64 \<Rightarrow> session_heap \<Rightarrow> ClientWorker \<Rightarrow> ClientWorker res" where
  "Client_OnSocketSessionClosed k h w = rbind (heap_GetSessionId k h) (\<lambda>i. Inr (w\<lparr>cw_sessions := um_erase i (cw_sessions w)\<rparr>))"

text \<open>The type in the header of the packet and its body; a body that cannot be read leaves the local variable \<open>garbage\<close>.\<close>

definition Client_OnSocketSessionData ::
  "packet_game_enter_request_rs \<Rightarrow> PacketType option \<times> Packet option \<Rightarrow> u64 \<Rightarrow> session_heap \<Rightarrow> ClientWorker \<Rightarrow> ClientWorker res" where
  "Client_OnSocketSessionData garbage = (\<lambda>(packet_type, body) k h w.
    if packet_type = Some T_game_enter_request_rs then
      let packet = (case body of Some (P_game_enter_request_rs p) \<Rightarrow> p | _ \<Rightarrow> garbage);
          fixture = (oi_fixture (ger_object_info packet))\<lparr>fx_user_data := k\<rparr> in
      rbind (heap_GetSessionId k h) (\<lambda>i.
      let (sf, sessions) = um_at \<lparr>sf_fixture = new_Fixture, sf_session = None\<rparr> i (cw_sessions w) in
      Inr (w\<lparr>cw_sessions := um_set i (sf\<lparr>sf_fixture := fixture\<rparr>) sessions\<rparr>))
    else Inr w)"

definition direction_of :: "u64 \<Rightarrow> Direction" where
  "direction_of x = [DirUp, DirUpRight, DirRight, DirDownRight, DirDown, DirDownLeft, DirLeft, DirUpLeft, DirMax] ! unat x"

definition move_request :: "packet_character_move_rq \<Rightarrow> Fixture \<Rightarrow> packet_character_move_rq" where
  "move_request unset f = unset\<lparr>cm_direction := fx_direction f, cm_object_id := fx_id f, cm_starting_position := fx_position f\<rparr>"

text \<open>The loop of \<^verbatim>\<open>Update\<close> that sends. The pointer in \<^verbatim>\<open>user_data\<close> is used as it is.\<close>

fun send_moves ::
  "(Packet \<Rightarrow> u8 list) \<Rightarrow> ('r \<Rightarrow> u64 \<times> 'r) \<Rightarrow> packet_character_move_rq \<Rightarrow> (u64, SessionFixture) umap \<Rightarrow> 'r \<Rightarrow> session_heap \<Rightarrow>
   ((u64, SessionFixture) umap \<times> 'r \<times> session_heap) res" where
  "send_moves pack rng unset [] r h = Inr ([], r, h)"
| "send_moves pack rng unset ((i, sf) # sessions) r h =
    (if fx_id (sf_fixture sf) = 0 then
       rbind (send_moves pack rng unset sessions r h) (\<lambda>(sessions', r', h'). Inr ((i, sf) # sessions', r', h'))
     else
       let (x, r1) = rng r;
           f = (sf_fixture sf)\<lparr>fx_direction := direction_of (x mod 8)\<rparr> in
       case h (fx_user_data f) of
         Some (NetSession s) \<Rightarrow>
           rbind (Session_Send pack (P_character_move_rq (move_request unset f)) None' s) (\<lambda>s'.
           rbind (send_moves pack rng unset sessions r1 (h(fx_user_data f \<mapsto> NetSession s'))) (\<lambda>(sessions', r', h').
           Inr ((i, sf\<lparr>sf_fixture := f\<rparr>) # sessions', r', h')))
       | _ \<Rightarrow> Inl Undefined)"

definition walk :: "int \<Rightarrow> SessionFixture \<Rightarrow> SessionFixture" where
  "walk delta_time sf = (if fx_id (sf_fixture sf) \<noteq> 0 then sf\<lparr>sf_fixture := snd (Move delta_time (sf_fixture sf))\<rparr> else sf)"

definition Client_Update ::
  "(Packet \<Rightarrow> u8 list) \<Rightarrow> ('r \<Rightarrow> u64 \<times> 'r) \<Rightarrow> packet_character_move_rq \<Rightarrow> int \<Rightarrow> int \<Rightarrow> ClientWorker \<times> 'r \<times> session_heap \<Rightarrow>
   (ClientWorker \<times> 'r \<times> session_heap) res" where
  "Client_Update pack rng unset now delta_time = (\<lambda>(w, r, h).
    let sessions = map (\<lambda>(i, sf). (i, walk delta_time sf)) (cw_sessions w);
        (fires, timer) = Timer_fires now (cw_timer w);
        w1 = w\<lparr>cw_sessions := sessions, cw_timer := timer\<rparr> in
    if fires then rbind (send_moves pack rng unset sessions r h) (\<lambda>(sessions', r', h'). Inr (w1\<lparr>cw_sessions := sessions'\<rparr>, r', h'))
    else Inr (w1, r, h))"

section \<open>The main program\<close>

definition client_config :: SocketServerConfig where
  "client_config = default_config\<lparr>read_buffer_capacity := 131072, read_buffer_pool_size := 8, max_connectable_socket_count := 1024,
     update_tick := 500, worker_count := 2\<rparr>"

definition client_option :: NetworkEngineOption where
  "client_option = default_option\<lparr>max_session_count := 1024, session_idle_timeout_ms := 5000, session_heartbeat_interval_ms := 2000,
     socket_idle_timeout_ms := 5000, use_session_reconnect := False, worker_update_tick_ms := 33\<rparr>"

definition AgencyAddress :: SocketAddress where
  "AgencyAddress = \<lparr>sa_ip = ''127.0.0.1'', sa_port = 9997\<rparr>"

text \<open>\<^verbatim>\<open>NetworkEngine::RegisterConnectorSocket\<close> with the connect it starts.\<close>

definition register_and_connect :: "(u64 \<Rightarrow> socket_setup) \<Rightarrow> SocketAddress \<Rightarrow> u64 \<Rightarrow> IocpSocketServer \<Rightarrow> IocpSocketServer res" where
  "register_and_connect os address attachment sv =
    (let (c, e) = Engine_RegisterConnectorSocket address attachment (iv_engine sv) in Connect os address c (sv\<lparr>iv_engine := e\<rparr>))"

definition client_main :: "os_calls \<Rightarrow> nat \<Rightarrow> (u64 \<Rightarrow> u8 list) \<Rightarrow> int \<Rightarrow> (IocpSocketServer \<times> int \<times> ClientWorker) res" where
  "client_main os queue_room keys now =
    rbind (IocpSocketServer_Initialize (os_socket os) (os_ports os) client_config new_IocpSocketServer) (\<lambda>(initialized, sv).
    if \<not> initialized then Inl (Throw ''failed to initialize user server'')
    else
      rbind (NetworkEngine_Start os 0 (attach_engine client_option queue_room keys sv)) (\<lambda>(started, tick, sv1).
      if started \<noteq> Some 0 then Inl (Throw ''failed to start user server engine'')
      else
        rbind (foldr_res (\<lambda>_. register_and_connect (os_socket os) AgencyAddress 0) [0 ..< 200 :: nat] sv1) (\<lambda>sv2.
        Inr (sv2, tick, new_ClientWorker now))))"

section \<open>Pointers of the worker\<close>

text \<open>A character that has entered is reached through the pointer that is also counted, and it belongs to the session it is filed under.\<close>

definition client_inv :: "session_heap \<Rightarrow> ClientWorker \<Rightarrow> bool" where
  "client_inv h w \<longleftrightarrow> um_ok (cw_sessions w) \<and>
     (\<forall>(i, sf) \<in> set (cw_sessions w). \<exists>k. sf_session sf = Some k \<and> heap_GetSessionId k h = Inr i \<and>
        (fx_id (sf_fixture sf) \<noteq> 0 \<longrightarrow> fx_user_data (sf_fixture sf) = k))"

lemma client_inv_find:
  "client_inv h w \<longleftrightarrow> um_ok (cw_sessions w) \<and>
     (\<forall>i sf. um_find (cw_sessions w) i = Some sf \<longrightarrow> (\<exists>k. sf_session sf = Some k \<and> heap_GetSessionId k h = Inr i \<and>
        (fx_id (sf_fixture sf) \<noteq> 0 \<longrightarrow> fx_user_data (sf_fixture sf) = k)))"
  unfolding client_inv_def by (auto dest: map_of_SomeD simp: map_of_eq_Some_iff)

lemma client_invD:
  assumes "client_inv h w" "(i, sf) \<in> set (cw_sessions w)"
  shows "\<exists>k. sf_session sf = Some k \<and> heap_GetSessionId k h = Inr i \<and> (fx_id (sf_fixture sf) \<noteq> 0 \<longrightarrow> fx_user_data (sf_fixture sf) = k)"
  using assms(1) bspec [OF _ assms(2)] unfolding client_inv_def by blast

lemma client_inv_set:
  assumes "client_inv h w" "heap_GetSessionId k h = Inr i" "sf_session sf = Some k"
    "fx_id (sf_fixture sf) \<noteq> 0 \<Longrightarrow> fx_user_data (sf_fixture sf) = k"
  shows "client_inv h (w\<lparr>cw_sessions := um_set i sf (cw_sessions w)\<rparr>)"
  using assms unfolding client_inv_find by (simp add: distinct_update split: if_split_asm)

lemma client_inv_connected:
  assumes "client_inv h w" "Client_OnSocketSessionConnected k h w = Inr w'"
  shows "client_inv h w'"
  using assms by (auto simp: Client_OnSocketSessionConnected_def res_iff new_Fixture_def intro!: client_inv_set)

lemma client_inv_closed:
  assumes "client_inv h w" "Client_OnSocketSessionClosed k h w = Inr w'"
  shows "client_inv h w'"
  using assms unfolding client_inv_find
  by (auto simp: Client_OnSocketSessionClosed_def res_iff distinct_delete split: if_split_asm)

lemma client_inv_data:
  assumes "client_inv h w" "Client_OnSocketSessionData garbage p k h w = Inr w'"
    and "heap_GetSessionId k h = Inr i" "um_find (cw_sessions w) i = Some sf" "sf_session sf = Some k"
  shows "client_inv h w'"
  using assms
  by (cases p) (auto simp: Client_OnSocketSessionData_def um_at_def Let_def split: if_splits intro!: client_inv_set)

lemma Session_Send_id:
  "Session_Send_buffer b s = Inr s' \<Longrightarrow> ss_session_id s' = ss_session_id s"
  "send_serialized pack p err wb s = Inr s' \<Longrightarrow> ss_session_id s' = ss_session_id s"
  "Session_Send_must pack p err s = Inr s' \<Longrightarrow> ss_session_id s' = ss_session_id s"
  "CloseSession pack s = Inr s' \<Longrightarrow> ss_session_id s' = ss_session_id s"
  "Session_Send pack p err s = Inr s' \<Longrightarrow> ss_session_id s' = ss_session_id s"
proof -
  have w: "with_stream f s = Inr (r, s') \<Longrightarrow> ss_session_id s' = ss_session_id s" for f :: "Stream \<Rightarrow> ('r \<times> Stream) res" and r s s'
    by (auto simp: with_stream_def res_iff split: option.splits)
  have g: "GetSocketStream f s = Inr (r, s') \<Longrightarrow> ss_session_id s' = ss_session_id s" for f :: "Stream \<Rightarrow> ('r \<times> Stream) res" and r s s'
    by (auto simp: GetSocketStream_def res_iff dest: w)
  have b: "Session_Send_buffer b s = Inr s' \<Longrightarrow> ss_session_id s' = ss_session_id s" for b s s'
    by (auto simp: Session_Send_buffer_def res_iff dest: g)
  have z: "send_serialized pack p err wb s = Inr s' \<Longrightarrow> ss_session_id s' = ss_session_id s" for p err wb s s'
    by (auto simp: send_serialized_def split: prod.splits option.splits dest: b)
  have m: "Session_Send_must pack p err s = Inr s' \<Longrightarrow> ss_session_id s' = ss_session_id s" for p err s s'
    by (auto simp: Session_Send_must_def res_iff split: option.splits dest!: z w)
  have c: "CloseSession pack s = Inr s' \<Longrightarrow> ss_session_id s' = ss_session_id s" for s s'
    by (auto simp: CloseSession_def res_iff dest!: m g)
  show "Session_Send_buffer b s = Inr s' \<Longrightarrow> ss_session_id s' = ss_session_id s" by (rule b)
  show "send_serialized pack p err wb s = Inr s' \<Longrightarrow> ss_session_id s' = ss_session_id s" by (rule z)
  show "Session_Send_must pack p err s = Inr s' \<Longrightarrow> ss_session_id s' = ss_session_id s" by (rule m)
  show "CloseSession pack s = Inr s' \<Longrightarrow> ss_session_id s' = ss_session_id s" by (rule c)
  show "Session_Send pack p err s = Inr s' \<Longrightarrow> ss_session_id s' = ss_session_id s"
    by (auto simp: Session_Send_def res_iff split: option.splits dest!: c z w)
qed

text \<open>What \<^verbatim>\<open>Update\<close> keeps of an entry.\<close>

definition same_owner :: "u64 \<times> SessionFixture \<Rightarrow> u64 \<times> SessionFixture \<Rightarrow> bool" where
  "same_owner x y \<longleftrightarrow> fst x = fst y \<and> sf_session (snd x) = sf_session (snd y) \<and>
     fx_id (sf_fixture (snd x)) = fx_id (sf_fixture (snd y)) \<and> fx_user_data (sf_fixture (snd x)) = fx_user_data (sf_fixture (snd y))"

lemma Move_user_data [simp]: "fx_user_data (snd (Move dt f)) = fx_user_data f" "fx_id (snd (Move dt f)) = fx_id f"
  by (simp_all add: Move_def Let_def)

lemma walk_owner: "list_all2 same_owner m (map (\<lambda>(i, sf). (i, walk dt sf)) m)"
  by (induction m) (auto simp: same_owner_def walk_def)

lemma send_moves_owner:
  "send_moves pack rng unset m r h = Inr (m', r', h') \<Longrightarrow>
    list_all2 same_owner m m' \<and> (\<forall>k. heap_GetSessionId k h' = heap_GetSessionId k h)"
proof (induction m arbitrary: r h m' r' h')
  case (Cons x m)
  obtain i sf where x: "x = (i, sf)" by fastforce
  show ?case
  proof (cases "fx_id (sf_fixture sf) = 0")
    case True
    then obtain m1 where "send_moves pack rng unset m r h = Inr (m1, r', h')" "m' = (i, sf) # m1"
      using Cons.prems by (auto simp: x res_iff)
    then show ?thesis using Cons.IH by (auto simp: x same_owner_def)
  next
    case False
    obtain y r1 where y: "rng r = (y, r1)" by fastforce
    let ?f = "(sf_fixture sf)\<lparr>fx_direction := direction_of (y mod 8)\<rparr>"
    obtain s s' m1 where s: "h (fx_user_data ?f) = Some (NetSession s)"
        "Session_Send pack (P_character_move_rq (move_request unset ?f)) None' s = Inr s'"
        "send_moves pack rng unset m r1 (h(fx_user_data ?f \<mapsto> NetSession s')) = Inr (m1, r', h')"
        "m' = (i, sf\<lparr>sf_fixture := ?f\<rparr>) # m1"
      using Cons.prems False y
      by (cases "h (fx_user_data (sf_fixture sf))"; cases "the (h (fx_user_data (sf_fixture sf)))") (auto simp: x res_iff Let_def)
    have "heap_GetSessionId k (h(fx_user_data ?f \<mapsto> NetSession s')) = heap_GetSessionId k h" for k
      using s(1) Session_Send_id(5) [OF s(2)] by (simp add: heap_GetSessionId_def)
    with Cons.IH [OF s(3)] have "list_all2 same_owner m m1" "\<forall>k. heap_GetSessionId k h' = heap_GetSessionId k h" by metis+
    then show ?thesis using s(4) by (simp add: x) (simp add: same_owner_def)
  qed
qed simp

lemma client_inv_owner:
  assumes "client_inv h w" "list_all2 same_owner (cw_sessions w) m'" "\<And>k. heap_GetSessionId k h' = heap_GetSessionId k h"
  shows "client_inv h' (w\<lparr>cw_sessions := m', cw_timer := t\<rparr>)"
proof -
  have "map fst m' = map fst (cw_sessions w)"
    using assms(2) by (induction rule: list_all2_induct) (auto simp: same_owner_def)
  moreover have "\<exists>sf. (i, sf) \<in> set (cw_sessions w) \<and> same_owner (i, sf) (i, sf')" if "(i, sf') \<in> set m'" for i sf'
    using assms(2) that by (induction rule: list_all2_induct) (auto simp: same_owner_def)
  moreover have "\<exists>k. sf_session sf' = Some k \<and> heap_GetSessionId k h' = Inr i \<and> (fx_id (sf_fixture sf') \<noteq> 0 \<longrightarrow> fx_user_data (sf_fixture sf') = k)"
    if "(i, sf) \<in> set (cw_sessions w)" "same_owner (i, sf) (i, sf')" for i sf sf'
    using client_invD [OF assms(1) that(1)] that(2) by (simp add: same_owner_def assms(3))
  ultimately show ?thesis using assms(1) unfolding client_inv_def by simp blast
qed

lemma client_inv_update:
  assumes "client_inv h w" "Client_Update pack rng unset now dt (w, r, h) = Inr (w', r', h')"
  shows "client_inv h' w' \<and> (\<forall>k. heap_GetSessionId k h' = heap_GetSessionId k h)"
proof -
  obtain b t where t: "Timer_fires now (cw_timer w) = (b, t)" by fastforce
  have o: "list_all2 same_owner (cw_sessions w) m'" if "list_all2 same_owner (map (\<lambda>(i, sf). (i, walk dt sf)) (cw_sessions w)) m'" for m'
    by (rule list_all2_trans [OF _ walk_owner that]) (auto simp: same_owner_def)
  show ?thesis
  proof (cases b)
    case True
    then obtain m' where m: "send_moves pack rng unset (map (\<lambda>(i, sf). (i, walk dt sf)) (cw_sessions w)) r h = Inr (m', r', h')"
        "w' = w\<lparr>cw_sessions := m', cw_timer := t\<rparr>"
      using assms(2) t by (auto simp: Client_Update_def res_iff Let_def)
    show ?thesis using send_moves_owner [OF m(1)] client_inv_owner [OF assms(1) o] m(2) by blast
  next
    case False
    then show ?thesis using assms t client_inv_owner [OF assms(1) walk_owner] by (auto simp: Client_Update_def)
  qed
qed

text \<open>What can happen to the worker: a session connects, the worker gets data of a session that is connected (the engine hands over data
  between connect and close only), a session closes, the worker updates.\<close>

inductive client_reach ::
  "(Packet \<Rightarrow> u8 list) \<Rightarrow> ('r \<Rightarrow> u64 \<times> 'r) \<Rightarrow> ClientWorker \<times> 'r \<times> session_heap \<Rightarrow> ClientWorker \<times> 'r \<times> session_heap \<Rightarrow> bool"
  for pack :: "Packet \<Rightarrow> u8 list" and rng :: "'r \<Rightarrow> u64 \<times> 'r" and c0 :: "ClientWorker \<times> 'r \<times> session_heap" where
  start: "client_reach pack rng c0 c0"
| connected: "client_reach pack rng c0 (w, r, h) \<Longrightarrow> Client_OnSocketSessionConnected k h w = Inr w' \<Longrightarrow> client_reach pack rng c0 (w', r, h)"
| data: "client_reach pack rng c0 (w, r, h) \<Longrightarrow> heap_GetSessionId k h = Inr i \<Longrightarrow> um_find (cw_sessions w) i = Some sf \<Longrightarrow>
    sf_session sf = Some k \<Longrightarrow> Client_OnSocketSessionData garbage p k h w = Inr w' \<Longrightarrow> client_reach pack rng c0 (w', r, h)"
| closed: "client_reach pack rng c0 (w, r, h) \<Longrightarrow> Client_OnSocketSessionClosed k h w = Inr w' \<Longrightarrow> client_reach pack rng c0 (w', r, h)"
| update: "client_reach pack rng c0 (w, r, h) \<Longrightarrow> Client_Update pack rng unset now dt (w, r, h) = Inr (w', r', h') \<Longrightarrow>
    client_reach pack rng c0 (w', r', h')"

lemma client_reach_inv:
  assumes "client_reach pack rng (new_ClientWorker now, r0, h0) c"
  shows "client_inv (snd (snd c)) (fst c)"
  using assms
proof induction
  case start
  then show ?case by (simp add: client_inv_def new_ClientWorker_def)
next
  case (data w r h k i sf garbage p w')
  then show ?case using client_inv_data by simp
next
  case (update w r h unset now dt w' r' h')
  then show ?case using client_inv_update [of h w, OF _ update.hyps(2)] by simp
qed (auto intro: client_inv_connected client_inv_closed)


definition sample_character :: Packet where
  "sample_character = P_game_enter_request_rs \<lparr>ger_nickname = [], ger_object_info = \<lparr>oi_object_id = 5, oi_sector_id = 0, oi_type = Character,
     oi_fixture = new_Fixture\<lparr>fx_id := 5\<rparr>, oi_vital = \<lparr>hp = 1, speed = 1, damage = 1\<rparr>\<rparr>\<rparr>"

definition sample_client :: "ClientWorker" where
  "sample_client = \<lparr>cw_sessions = [(1, \<lparr>sf_fixture = new_Fixture\<lparr>fx_id := 5, fx_user_data := 9\<rparr>, sf_session = Some 9\<rparr>)], cw_timer = new_Timer 0 500\<rparr>"

lemma sample_client_reached:
  "client_reach pack rng (new_ClientWorker 0, r, [9 \<mapsto> sample_net 2 100]) (sample_client, r, [9 \<mapsto> sample_net 2 100])"
proof -
  let ?h = "[9 \<mapsto> sample_net 2 100]"
  let ?w = "(new_ClientWorker 0)\<lparr>cw_sessions := [(1, \<lparr>sf_fixture = new_Fixture, sf_session = Some 9\<rparr>)]\<rparr>"
  have g: "heap_GetSessionId 9 ?h = Inr 1" by (simp add: heap_GetSessionId_def sample_net_def)
  have c: "Client_OnSocketSessionConnected 9 ?h (new_ClientWorker 0) = Inr ?w"
    by (simp add: Client_OnSocketSessionConnected_def g new_ClientWorker_def)
  have d: "Client_OnSocketSessionData undefined (Some T_game_enter_request_rs, Some sample_character) 9 ?h ?w = Inr sample_client"
    by (simp add: Client_OnSocketSessionData_def g sample_character_def sample_client_def um_at_def new_ClientWorker_def)
  show ?thesis
    by (rule client_reach.data [where sf = "\<lparr>sf_fixture = new_Fixture, sf_session = Some 9\<rparr>", OF client_reach.connected [OF client_reach.start c] g _ _ d])
      simp_all
qed


section \<open>What the client sends\<close>

definition entered :: "(u64, SessionFixture) umap \<Rightarrow> (u64, SessionFixture) umap" where
  "entered = filter (\<lambda>(i, sf). fx_id (sf_fixture sf) \<noteq> 0)"

definition can_send :: "(Packet \<Rightarrow> u8 list) \<Rightarrow> session_heap \<Rightarrow> u64 \<Rightarrow> bool" where
  "can_send pack h k \<longleftrightarrow> (\<exists>s st. h k = Some (NetSession s) \<and> ss_state s = Opened \<and> so_stream s = Some st \<and> st_connected st \<and>
     0 < st_write_free st \<and> (\<forall>p. 12 + length (pack (P_character_move_rq p)) \<le> unat (st_write_capacity st)))"

definition pointer_of :: "u64 \<times> SessionFixture \<Rightarrow> u64" where
  "pointer_of x = fx_user_data (sf_fixture (snd x))"

text \<open>The request that reports the position of a fixture and the direction \<open>d\<close> it now takes.\<close>

definition move_frame :: "(Packet \<Rightarrow> u8 list) \<Rightarrow> packet_character_move_rq \<Rightarrow> SessionFixture \<Rightarrow> Direction \<Rightarrow> u8 list" where
  "move_frame pack unset sf d = frame pack (P_character_move_rq (move_request unset ((sf_fixture sf)\<lparr>fx_direction := d\<rparr>)), None')"

lemma direction_of_real: "direction_of (x mod 8) \<noteq> DirMax"
proof -
  have "n < 8 \<Longrightarrow> [DirUp, DirUpRight, DirRight, DirDownRight, DirDown, DirDownLeft, DirLeft, DirUpLeft, DirMax] ! n \<noteq> DirMax" for n :: nat
    by (auto simp: less_Suc_eq numeral_eq_Suc)
  moreover have "unat (x mod 8) < 8" by (simp add: unat_mod)
  ultimately show ?thesis unfolding direction_of_def by blast
qed

lemma can_send_step:
  assumes "can_send pack h k"
  shows "\<exists>s s'. h k = Some (NetSession s) \<and> Session_Send pack (P_character_move_rq p) None' s = Inr s' \<and>
    heap_sent (h(k \<mapsto> NetSession s')) = (heap_sent h)(k := heap_sent h k @ frame pack (P_character_move_rq p, None'))"
proof -
  obtain s st where s: "h k = Some (NetSession s)" "ss_state s = Opened" "so_stream s = Some st" "st_connected st" "0 < st_write_free st"
      "12 + length (pack (P_character_move_rq p)) \<le> unat (st_write_capacity st)"
    using assms unfolding can_send_def by blast
  show ?thesis
    using s(1,3) Session_Send_ok [where pack = pack, OF s(2-6), of None']
    by (auto simp: heap_sent_def written_def fun_eq_iff)
qed

lemma send_moves_sends:
  assumes "distinct (map pointer_of (entered m))" "\<forall>x \<in> set (entered m). can_send pack h (pointer_of x)"
  shows "\<exists>m' r' h'. send_moves pack rng unset m r h = Inr (m', r', h') \<and>
    (\<forall>x \<in> set (entered m). \<exists>d. d \<noteq> DirMax \<and> heap_sent h' (pointer_of x) = heap_sent h (pointer_of x) @ move_frame pack unset (snd x) d) \<and>
    (\<forall>k. k \<notin> pointer_of ` set (entered m) \<longrightarrow> heap_sent h' k = heap_sent h k)"
  using assms
proof (induction m arbitrary: r h)
  case (Cons x m)
  obtain i sf where x: "x = (i, sf)" by fastforce
  show ?case
  proof (cases "fx_id (sf_fixture sf) = 0")
    case True
    then have e: "entered (x # m) = entered m" by (simp add: x entered_def)
    then show ?thesis using Cons.IH [of h r] Cons.prems True unfolding e by (auto simp: x)
  next
    case False
    then have e: "entered (x # m) = x # entered m" by (simp add: x entered_def)
    obtain y r1 where y: "rng r = (y, r1)" by fastforce
    let ?d = "direction_of (y mod 8)" and ?k = "pointer_of x"
    let ?f = "(sf_fixture sf)\<lparr>fx_direction := ?d\<rparr>"
    have k: "?k = fx_user_data (sf_fixture sf)" by (simp add: x pointer_of_def)
    obtain s s' where s: "h ?k = Some (NetSession s)" "Session_Send pack (P_character_move_rq (move_request unset ?f)) None' s = Inr s'"
        "heap_sent (h(?k \<mapsto> NetSession s')) = (heap_sent h)(?k := heap_sent h ?k @ move_frame pack unset sf ?d)"
      using can_send_step [of pack h ?k "move_request unset ?f"] Cons.prems(2) by (auto simp: e move_frame_def)
    let ?h = "h(?k \<mapsto> NetSession s')"
    have o: "\<forall>z \<in> set (entered m). pointer_of z \<noteq> ?k" using Cons.prems(1) by (auto simp: e image_iff)
    then have cs: "\<forall>z \<in> set (entered m). can_send pack ?h (pointer_of z)" using Cons.prems(2) by (simp add: e can_send_def)
    have d: "distinct (map pointer_of (entered m))" using Cons.prems(1) by (simp add: e)
    obtain m' r' h' where IH: "send_moves pack rng unset m r1 ?h = Inr (m', r', h')"
        "\<forall>z \<in> set (entered m). \<exists>d. d \<noteq> DirMax \<and> heap_sent h' (pointer_of z) = heap_sent ?h (pointer_of z) @ move_frame pack unset (snd z) d"
        "\<forall>j. j \<notin> pointer_of ` set (entered m) \<longrightarrow> heap_sent h' j = heap_sent ?h j"
      using Cons.IH [OF d cs, of r1] by (elim exE conjE) (rule that)
    have "send_moves pack rng unset (x # m) r h = Inr ((i, sf\<lparr>sf_fixture := ?f\<rparr>) # m', r', h')"
      using False y s(1,2) IH(1) by (simp add: x k [unfolded x])
    moreover have "heap_sent h' ?k = heap_sent h ?k @ move_frame pack unset (snd x) ?d"
      using spec [OF IH(3), of ?k] o s(3) by (auto simp: x)
    moreover have "\<forall>z \<in> set (entered m). heap_sent ?h (pointer_of z) = heap_sent h (pointer_of z)" using o s(3) by simp
    moreover have "\<forall>j. j \<notin> pointer_of ` set (entered (x # m)) \<longrightarrow> heap_sent h' j = heap_sent h j" using IH(3) s(3) by (simp add: e)
    ultimately show ?thesis using IH(2) direction_of_real [of y] unfolding e by (intro exI conjI) (assumption, auto)
  qed
qed (simp add: entered_def)

lemma entered_pointers:
  assumes "client_inv h w"
  shows "distinct (map pointer_of (entered (cw_sessions w)))"
    and "(i, sf) \<in> set (entered (cw_sessions w)) \<Longrightarrow> sf_session sf = Some (pointer_of (i, sf))"
proof -
  have k: "heap_GetSessionId (pointer_of x) h = Inr (fst x) \<and> sf_session (snd x) = Some (pointer_of x)" if "x \<in> set (entered (cw_sessions w))" for x
    using client_invD [OF assms, of "fst x" "snd x"] that by (cases x) (auto simp: entered_def pointer_of_def)
  have "inj_on pointer_of (set (entered (cw_sessions w)))"
  proof (rule inj_onI)
    fix x y assume xy: "x \<in> set (entered (cw_sessions w))" "y \<in> set (entered (cw_sessions w))" "pointer_of x = pointer_of y"
    then have "fst x = fst y" using k [of x] k [of y] by simp
    moreover have "x \<in> set (cw_sessions w)" "y \<in> set (cw_sessions w)" "um_ok (cw_sessions w)"
      using xy assms by (auto simp: entered_def client_inv_def)
    ultimately show "x = y" by (metis eq_key_imp_eq_value prod.collapse)
  qed
  moreover have "distinct (entered (cw_sessions w))" using assms by (simp add: entered_def client_inv_def distinct_map)
  ultimately show "distinct (map pointer_of (entered (cw_sessions w)))" by (simp add: distinct_map)
  show "(i, sf) \<in> set (entered (cw_sessions w)) \<Longrightarrow> sf_session sf = Some (pointer_of (i, sf))" using k by fastforce
qed

lemma entered_walk:
  "entered (map (\<lambda>(i, sf). (i, walk dt sf)) m) = map (\<lambda>(i, sf). (i, walk dt sf)) (entered m)"
  "pointer_of (i, walk dt sf) = pointer_of (i, sf)"
  by (induction m) (auto simp: entered_def walk_def pointer_of_def)

text \<open>C39. Twice a second the client sends, on every session whose character has entered, exactly one request: with the position after the
  movement of this update and one of the eight directions. Nothing is sent on the others, and the update does not fail. Enough that the sessions of
  entered characters are open and have a free write buffer.\<close>

theorem client_update_sends:
  assumes "client_inv h w" "tm_last_tick_time (cw_timer w) + tm_tick (cw_timer w) < now"
    and "\<forall>x \<in> set (entered (cw_sessions w)). can_send pack h (pointer_of x)"
  shows "\<exists>w' r' h'. Client_Update pack rng unset now dt (w, r, h) = Inr (w', r', h') \<and>
    (\<forall>(i, sf) \<in> set (entered (cw_sessions w)). \<exists>d. d \<noteq> DirMax \<and>
       heap_sent h' (pointer_of (i, sf)) = heap_sent h (pointer_of (i, sf)) @ move_frame pack unset (walk dt sf) d) \<and>
    (\<forall>k. k \<notin> pointer_of ` set (entered (cw_sessions w)) \<longrightarrow> heap_sent h' k = heap_sent h k)"
proof -
  let ?m = "map (\<lambda>(i, sf). (i, walk dt sf)) (cw_sessions w)"
  have p: "map pointer_of (entered ?m) = map pointer_of (entered (cw_sessions w))"
    unfolding entered_walk(1) by (simp add: split_def entered_walk(2))
  have d: "distinct (map pointer_of (entered ?m))" unfolding p by (rule entered_pointers [OF assms(1)])
  have i: "pointer_of ` set (entered ?m) = pointer_of ` set (entered (cw_sessions w))" using arg_cong [OF p, of set] by simp
  have "\<forall>k \<in> pointer_of ` set (entered ?m). can_send pack h k" using assms(3) unfolding i by blast
  then have "\<forall>x \<in> set (entered ?m). can_send pack h (pointer_of x)" by blast
  from send_moves_sends [OF d this, of rng unset r] obtain m' r' h' where s: "send_moves pack rng unset ?m r h = Inr (m', r', h')"
      "\<forall>x \<in> set (entered ?m). \<exists>d. d \<noteq> DirMax \<and> heap_sent h' (pointer_of x) = heap_sent h (pointer_of x) @ move_frame pack unset (snd x) d"
      "\<forall>k. k \<notin> pointer_of ` set (entered ?m) \<longrightarrow> heap_sent h' k = heap_sent h k" by (elim exE conjE)
  have "\<exists>d. d \<noteq> DirMax \<and> heap_sent h' (pointer_of (j, sf)) = heap_sent h (pointer_of (j, sf)) @ move_frame pack unset (walk dt sf) d"
    if "(j, sf) \<in> set (entered (cw_sessions w))" for j sf
    using bspec [OF s(2), of "(j, walk dt sf)"] that by (force simp: entered_walk)
  then show ?thesis using s(1,3) assms(2) unfolding i
    by (intro exI [of _ "w\<lparr>cw_sessions := m', cw_timer := (cw_timer w)\<lparr>tm_last_tick_time := now\<rparr>\<rparr>"] exI [of _ r'] exI [of _ h'])
      (auto simp: Client_Update_def Timer_fires_def Let_def)
qed

theorem client_update_sends_witness:
  "\<exists>w' r' h'. Client_Update (\<lambda>_. [7]) (\<lambda>r :: unit. (0, r)) \<lparr>cm_sector_id = 0, cm_object_id = 0, cm_starting_position = vec2 0 0,
       cm_direction = DirUp, cm_to_owner = False\<rparr> 501 33 (sample_client, (), [9 \<mapsto> sample_net 2 100]) = Inr (w', r', h') \<and>
     length (heap_sent h' 9) = 13"
proof -
  let ?h = "[9 \<mapsto> sample_net 2 100]"
  let ?u = "\<lparr>cm_sector_id = 0, cm_object_id = 0, cm_starting_position = vec2 0 0, cm_direction = DirUp, cm_to_owner = False\<rparr>"
  have inv: "client_inv ?h sample_client"
    using client_reach_inv [OF sample_client_reached [of "\<lambda>_. [7]" "\<lambda>r :: unit. (0, r)" "()"]] by simp
  have e: "entered (cw_sessions sample_client) = [(1, \<lparr>sf_fixture = new_Fixture\<lparr>fx_id := 5, fx_user_data := 9\<rparr>, sf_session = Some 9\<rparr>)]"
    by (simp add: entered_def sample_client_def)
  have t: "tm_last_tick_time (cw_timer sample_client) + tm_tick (cw_timer sample_client) < 501"
    by (simp add: sample_client_def new_Timer_def)
  have s: "\<forall>x \<in> set (entered (cw_sessions sample_client)). can_send (\<lambda>_. [7]) ?h (pointer_of x)"
    unfolding e by (simp add: can_send_def pointer_of_def sample_net_def)
  have z: "heap_sent ?h 9 = []" by (simp add: heap_sent_def sample_net_def written_def)
  from client_update_sends [OF inv t s, of "\<lambda>r :: unit. (0, r)" ?u 33 "()"] z show ?thesis
    unfolding e by (auto simp: pointer_of_def move_frame_def length_frame)
qed

section \<open>The client starts\<close>

definition connectors_ready :: "nat \<Rightarrow> IocpSocketServer \<Rightarrow> bool" where
  "connectors_ready n sv \<longleftrightarrow> (\<exists>p. iv_connector_socket_pool sv = Some p \<and> n \<le> length (op_pool p) \<and> distinct (map bl_id (op_pool p)) \<and>
     (\<forall>b \<in> set (op_pool p). \<not> bl_is_heap_allocation b \<and> has_buffers (iv_engine sv) (bl_id b) \<and> bl_id b \<notin> fst ` set (iv_connects sv)))"

lemma register_and_connect_ready:
  assumes "connectors_ready (Suc n) sv"
  shows "\<exists>k sv'. register_and_connect os address a sv = Inr sv' \<and> connectors_ready n sv' \<and> k \<notin> fst ` set (iv_connects sv) \<and>
    iv_connects sv' = iv_connects sv @ [(k, address, ne_current_connector_id (iv_engine sv))] \<and>
    ne_current_connector_id (iv_engine sv') = ne_current_connector_id (iv_engine sv) + 1"
proof -
  obtain p b bs where p: "iv_connector_socket_pool sv = Some p" "op_pool p = b # bs" "n \<le> length bs" "distinct (map bl_id (b # bs))"
      "\<not> bl_is_heap_allocation b" "\<forall>c \<in> set (b # bs). \<not> bl_is_heap_allocation c \<and> has_buffers (iv_engine sv) (bl_id c)"
      "\<forall>c \<in> set (b # bs). bl_id c \<notin> fst ` set (iv_connects sv)"
    using assms by (auto simp: connectors_ready_def Suc_le_length_iff)
  obtain es where es: "ne_streams (iv_engine sv) (bl_id b) = Some es" "st_write_free (en_stream es) > 0"
    using p(6) by (auto simp: has_buffers_def)
  let ?c = "ne_current_connector_id (iv_engine sv)"
  obtain e' where e: "Engine_RegisterConnectorSocket address a (iv_engine sv) = (?c, e')" "ne_streams e' = ne_streams (iv_engine sv)"
      "ne_current_connector_id e' = ?c + 1"
    by (simp add: Engine_RegisterConnectorSocket_def Let_def)
  let ?es = "es\<lparr>en_stream := (en_stream es)\<lparr>st_write_free := st_write_free (en_stream es) - 1\<rparr>\<rparr>"
  let ?sv = "sv\<lparr>iv_engine := put_stream (bl_id b) ?es e', iv_connector_socket_pool := Some (p\<lparr>op_pool := bs\<rparr>),
      iv_connects := iv_connects sv @ [(bl_id b, address, ?c)]\<rparr>"
  have "register_and_connect os address a sv = Inr ?sv"
    unfolding register_and_connect_def e(1) using p(1,2,5) es e(2)
    by (simp add: Connect_def Pool_Pop_def TransmitConnect_def stream_at_def AllocateWriteBuffer_def)
  moreover have "connectors_ready n ?sv"
    using p(3,4,6,7) e(2) by (auto simp: connectors_ready_def has_buffers_def put_stream_def image_iff)
  ultimately show ?thesis using e(3) p(7) by (intro exI [of _ "bl_id b"] exI [of _ ?sv]) (auto simp: put_stream_def)
qed

lemma registers_connect:
  assumes "connectors_ready (length xs) sv" "distinct (map fst (iv_connects sv))"
  shows "\<exists>sv' ks. foldr_res (\<lambda>_. register_and_connect os address a) xs sv = Inr sv' \<and>
    iv_connects sv' = iv_connects sv @ ks \<and> length ks = length xs \<and> distinct (map fst (iv_connects sv')) \<and>
    map (fst \<circ> snd) ks = replicate (length xs) address \<and>
    map (snd \<circ> snd) ks = map (\<lambda>i. ne_current_connector_id (iv_engine sv) + of_nat i) [0 ..< length xs]"
  using assms
proof (induction xs arbitrary: sv)
  case (Cons x xs)
  let ?c = "ne_current_connector_id (iv_engine sv)"
  obtain k sv1 where 1: "register_and_connect os address a sv = Inr sv1" "connectors_ready (length xs) sv1" "k \<notin> fst ` set (iv_connects sv)"
      "iv_connects sv1 = iv_connects sv @ [(k, address, ?c)]" "ne_current_connector_id (iv_engine sv1) = ?c + 1"
    using register_and_connect_ready [of "length xs" sv os address a] Cons.prems(1) by auto
  have "distinct (map fst (iv_connects sv1))" using 1(3,4) Cons.prems(2) by simp
  from Cons.IH [OF 1(2) this] obtain sv' ks where
    2: "foldr_res (\<lambda>_. register_and_connect os address a) xs sv1 = Inr sv'" "iv_connects sv' = iv_connects sv1 @ ks" "length ks = length xs"
      "distinct (map fst (iv_connects sv'))" "map (fst \<circ> snd) ks = replicate (length xs) address"
      "map (snd \<circ> snd) ks = map (\<lambda>i. ?c + 1 + of_nat i) [0 ..< length xs]"
    unfolding 1(5) by blast
  have "map (\<lambda>i. ?c + of_nat i) [0 ..< length (x # xs)] = ?c # map (\<lambda>i. ?c + 1 + of_nat i) [0 ..< length xs]"
    by (simp add: upt_conv_Cons map_Suc_upt [symmetric] add.assoc del: upt_Suc)
  then show ?case using 1(1,4) 2
    by (intro exI [of _ sv'] exI [of _ "(k, address, ?c) # ks"]) (simp add: comp_def del: upt_Suc)
qed simp

lemma registers_start:
  "foldr_res (\<lambda>_. register_and_connect os address a) xs sv = Inr sv' \<Longrightarrow> iv_start sv' = iv_start sv"
proof (rule foldr_res_invariant [where P = "\<lambda>t. iv_start t = iv_start sv"], assumption, rule refl)
  fix x t u
  assume "iv_start t = iv_start sv" "register_and_connect os address a t = Inr u"
  then show "iv_start u = iv_start sv"
    by (auto simp: register_and_connect_def Connect_def TransmitConnect_def res_iff split: prod.splits option.splits if_splits)
qed

text \<open>Provided the calls of the operating system succeed, the test client reaches its idle loop with 200 connections in progress, all to the
  agency, each on a stream of its own and registered as connectors 1 to 200, and its worker runs with a tick of 33 milliseconds and no
  sessions yet.\<close>

theorem test_client_starts:
  assumes "os_works os"
  shows "\<exists>sv. client_main os queue_room keys now = Inr (sv, 33, new_ClientWorker now) \<and> iv_start sv \<and>
    distinct (map fst (iv_connects sv)) \<and> map (fst \<circ> snd) (iv_connects sv) = replicate 200 AgencyAddress \<and>
    map (snd \<circ> snd) (iv_connects sv) = map (\<lambda>i. 1 + of_nat i) [0 ..< 200]"
proof -
  have os: "os_socket os = (\<lambda>_. SocketReady)" "os_ports os" using assms by (auto simp: os_works_def)
  have ok: "config_ok client_config" by (simp add: config_ok_def client_config_def default_config_def)
  have c: "0 < max_connectable_socket_count client_config" "unat (max_connectable_socket_count client_config) < 2 ^ 31"
      "unat (max_connectable_socket_count client_config) = 1024"
    by (simp_all add: client_config_def)
  obtain p e where p: "new_socket_pool (os_socket os) client_config (max_connectable_socket_count client_config) CONNECTOR_SOCKET_START_ID no_engine = Inr (p, e)"
      "pool_ready 1024 e (Some p)"
    using new_socket_pool_ready [OF os(1) ok c(1,2), of CONNECTOR_SOCKET_START_ID no_engine] c(3) by (auto simp: CONNECTOR_SOCKET_START_ID_def)
  let ?sv = "new_IocpSocketServer\<lparr>iv_is_initialized := True, iv_config := client_config, iv_connector_socket_pool := Some p, iv_engine := e\<rparr>"
  have 1: "IocpSocketServer_Initialize (os_socket os) (os_ports os) client_config new_IocpSocketServer = Inr (True, ?sv)"
    using p(1) os(2) ok by (simp add: IocpSocketServer_Initialize_def new_IocpSocketServer_def idle_server_def config_ok_def)
  let ?sv1 = "attach_engine client_option queue_room keys ?sv"
  have 2: "NetworkEngine_Start os 0 ?sv1 = Inr (Some 0, 33, ?sv1\<lparr>iv_start := True\<rparr>)"
    by (simp add: NetworkEngine_Start_def IocpSocketServer_Start_def attach_engine_def new_IocpSocketServer_def idle_server_def
        Engine_Initialize_def Let_def LinearWorker_Start_def client_option_def del: upt_Suc)
  have n: "iv_connects ?sv1 = []" "ne_current_connector_id (iv_engine ?sv1) = 1"
    by (simp_all add: attach_engine_def new_IocpSocketServer_def idle_server_def Engine_Initialize_def Let_def)
  have "connectors_ready (length [0 ..< 200 :: nat]) (?sv1\<lparr>iv_start := True\<rparr>)"
    using p(2) n(1) by (auto simp: connectors_ready_def pool_ready_def attach_engine_def has_buffers_def Engine_Initialize_def Let_def)
  from registers_connect [OF this, of "os_socket os" AgencyAddress 0] n obtain sv2 where
    3: "foldr_res (\<lambda>_. register_and_connect (os_socket os) AgencyAddress 0) [0 ..< 200 :: nat] (?sv1\<lparr>iv_start := True\<rparr>) = Inr sv2"
      "distinct (map fst (iv_connects sv2))" "map (fst \<circ> snd) (iv_connects sv2) = replicate 200 AgencyAddress"
      "map (snd \<circ> snd) (iv_connects sv2) = map (\<lambda>i. 1 + of_nat i) [0 ..< 200]"
    by (auto simp del: upt_Suc)
  have "iv_start sv2" using registers_start [OF 3(1)] by simp
  moreover have "client_main os queue_room keys now = Inr (sv2, 33, new_ClientWorker now)"
    unfolding client_main_def 1 using 2 3(1) by simp
  ultimately show ?thesis using 3(2-4) by blast
qed

theorem test_client_starts_witness:
  "\<exists>sv. client_main working_os 8 (\<lambda>_. []) 0 = Inr (sv, 33, new_ClientWorker 0) \<and> distinct (map fst (iv_connects sv))"
  using test_client_starts [of working_os 8 "\<lambda>_. []" 0] by (auto simp: os_works_def working_os_def)

end
