(* ===== verification/Timezones.thy ===== *)
theory Timezones
  imports DateTimes
begin

text \<open>
  The rest of \<^verbatim>\<open>utility/Time.h\<close>: casts between units of time, the clocks, the table of time zones by offset and the operators of
  \<^verbatim>\<open>DateTime\<close>. A duration is its count together with the length of its unit in nanoseconds. The database of time zones and the
  readings of the clocks are arguments.
\<close>

section \<open>Durations\<close>

definition Second_ns :: int where "Second_ns = 1000000000"
definition Hour_ns :: int where "Hour_ns = 3600000000000"

text \<open>\<^verbatim>\<open>duration_cast\<close> truncates towards zero.\<close>

definition TimeCast :: "int \<Rightarrow> int \<Rightarrow> int \<Rightarrow> int" where
  "TimeCast origin_unit cast_unit org =
    (let x = org * origin_unit in if x < 0 then - (- x div cast_unit) else x div cast_unit)"

definition CurrentTick :: "int \<Rightarrow> int \<Rightarrow> int" where
  "CurrentTick cast_unit high_resolution_clock = TimeCast 1 cast_unit high_resolution_clock"

definition CurrentTimeEpoch :: "int \<Rightarrow> int \<Rightarrow> int" where
  "CurrentTimeEpoch cast_unit system_clock = TimeCast 1 cast_unit system_clock"

definition DateTime_now :: "int \<Rightarrow> Timezone \<Rightarrow> DateTime" where
  "DateTime_now system_clock tz = SetTimeData (CurrentTimeEpoch 1 system_clock) tz"

lemma TimeCast_exact:
  assumes "0 < u" "x * v = u * z"
  shows "TimeCast v u x = z"
proof -
  have "- (u * z) div u = - z" using assms(1) by (metis mult_minus_right less_irrefl nonzero_mult_div_cancel_left)
  then show ?thesis using assms by (simp add: TimeCast_def Let_def)
qed

lemma TimeCast_finer:
  assumes "0 < u" "v = u * k" "0 < k"
  shows "TimeCast v u x = x * k" "TimeCast u v (TimeCast v u x) = x"
proof -
  show f: "TimeCast v u x = x * k" using assms by (intro TimeCast_exact) simp_all
  show "TimeCast u v (TimeCast v u x) = x" unfolding f using assms by (intro TimeCast_exact) simp_all
qed

text \<open>A cast to a coarser unit loses less than one unit, towards zero.\<close>

lemma TimeCast_bounds:
  assumes "0 < u"
  shows "\<bar>TimeCast 1 u x * u\<bar> \<le> \<bar>x\<bar>" "\<bar>x\<bar> < \<bar>TimeCast 1 u x * u\<bar> + u"
proof -
  have b: "0 \<le> y \<Longrightarrow> y div u * u \<le> y \<and> y < y div u * u + u \<and> 0 \<le> y div u" for y
    using assms pos_mod_bound [OF assms, of y] pos_mod_sign [OF assms, of y] div_mult_mod_eq [of y u] pos_imp_zdiv_nonneg_iff [OF assms, of y]
    by linarith
  have "\<bar>TimeCast 1 u x * u\<bar> = \<bar>x\<bar> div u * u"
    using b [of "\<bar>x\<bar>"] assms by (cases "x < 0") (auto simp: TimeCast_def abs_mult)
  then show "\<bar>TimeCast 1 u x * u\<bar> \<le> \<bar>x\<bar>" "\<bar>x\<bar> < \<bar>TimeCast 1 u x * u\<bar> + u" using b [of "\<bar>x\<bar>"] by simp_all
qed

section \<open>Operators\<close>

text \<open>On durations with a fixed length; the count is in the given unit. Months and years go through \<open>Add_Months\<close> and its siblings.\<close>

definition DT_plus_assign :: "int \<Rightarrow> int \<Rightarrow> DateTime \<Rightarrow> DateTime" where
  "DT_plus_assign unit time dt = DT_Add (time * unit) dt"

definition DT_minus_assign :: "int \<Rightarrow> int \<Rightarrow> DateTime \<Rightarrow> DateTime" where
  "DT_minus_assign unit time dt = DT_Add (- time * unit) dt"

definition DT_plus :: "int \<Rightarrow> int \<Rightarrow> DateTime \<Rightarrow> DateTime" where
  "DT_plus unit time dt = DT_Plus (time * unit) dt"

definition DT_minus :: "int \<Rightarrow> int \<Rightarrow> DateTime \<Rightarrow> DateTime" where
  "DT_minus unit time dt = DT_Plus (- time * unit) dt"

text \<open>Moving a date forward and back again gives the same date, whatever the unit, the amount and the changes of the zone's offset in
  between; the compound and the simple operators agree; and moving in two steps is moving by the sum.\<close>

theorem datetime_arithmetic:
  assumes "dt_wf dt"
  shows "DT_minus_assign u t (DT_plus_assign u t dt) = dt \<and> DT_minus u t (DT_plus u t dt) = dt \<and>
    DT_plus_assign u t dt = DT_plus u t dt \<and> DT_plus u s (DT_plus u t dt) = DT_plus u (s + t) dt \<and>
    (0 < u \<longrightarrow> ToEpochTimestamp 1 (DT_plus u t dt) = ToEpochTimestamp 1 dt + t * u)"
  by (simp add: DT_minus_assign_def DT_plus_assign_def DT_minus_def DT_plus_def DT_Add_def DT_Plus_def SetTimeData_fields
      wf_determined [OF assms] ToEpochTimestamp_def algebra_simps)

theorem datetime_arithmetic_witness:
  "DT_minus Hour_ns 5 (DT_plus Hour_ns 5 (SetTimeData 7 (fixed_zone Hour_ns))) = SetTimeData 7 (fixed_zone Hour_ns)"
  using datetime_arithmetic [OF SetTimeData_wf [of 7 "fixed_zone Hour_ns"], of Hour_ns 5 0] by simp

section \<open>Zones by offset\<close>

text \<open>The table is filled once per thread, with the offsets of that moment; \<^verbatim>\<open>insert\<close> keeps the first zone of an offset.\<close>

fun fill_tz_list :: "int \<Rightarrow> Timezone list \<Rightarrow> (int, Timezone) umap \<Rightarrow> (int, Timezone) umap" where
  "fill_tz_list now [] timezones = timezones"
| "fill_tz_list now (tz # zones) timezones =
    (let offset = TimeCast 1 Second_ns (tz_offset tz now) in
     fill_tz_list now zones (if um_find timezones offset = None then um_set offset tz timezones else timezones))"

definition tz_list :: "int \<Rightarrow> Timezone list \<Rightarrow> (int, Timezone) umap option \<Rightarrow> (int, Timezone) umap" where
  "tz_list now zones cached = (case cached of Some timezones \<Rightarrow> timezones | None \<Rightarrow> fill_tz_list now zones [])"

definition GetAnyTimezoneByOffset :: "(int, Timezone) umap \<Rightarrow> int \<Rightarrow> int \<Rightarrow> Timezone option" where
  "GetAnyTimezoneByOffset timezones unit offset = um_find timezones (TimeCast unit Second_ns offset)"

definition GetTimezoneByName :: "(string \<Rightarrow> Timezone option) \<Rightarrow> string \<Rightarrow> Timezone res" where
  "GetTimezoneByName locate_zone name = (case locate_zone name of None \<Rightarrow> Inl (Throw ''unknown time zone'') | Some tz \<Rightarrow> Inr tz)"

lemma fill_tz_list_find:
  "um_find (fill_tz_list now zones m) off =
    (case um_find m off of Some tz \<Rightarrow> Some tz | None \<Rightarrow> find (\<lambda>tz. TimeCast 1 Second_ns (tz_offset tz now) = off) zones)"
proof (induction zones arbitrary: m)
  case (Cons tz zones)
  show ?case by (cases "um_find m (TimeCast 1 Second_ns (tz_offset tz now))") (auto simp: Cons.IH Let_def split: option.splits)
qed (simp split: option.splits)

text \<open>The zone that is found for an offset is the first zone of the database that had this offset, to the second, when the table was
  filled, and one is found exactly if there is such a zone. A later call answers from the same table, whatever the clock says then.\<close>

theorem timezone_by_offset:
  "GetAnyTimezoneByOffset (tz_list now zones None) u off = find (\<lambda>tz. TimeCast 1 Second_ns (tz_offset tz now) = TimeCast u Second_ns off) zones \<and>
   (GetAnyTimezoneByOffset (tz_list now zones None) u off = None \<longleftrightarrow>
     (\<forall>tz \<in> set zones. TimeCast 1 Second_ns (tz_offset tz now) \<noteq> TimeCast u Second_ns off)) \<and>
   tz_list later zones' (Some (tz_list now zones None)) = tz_list now zones None"
  by (auto simp: GetAnyTimezoneByOffset_def tz_list_def fill_tz_list_find find_None_iff)

text \<open>\<open>first_offset\<close> is \<^verbatim>\<open>get_info(local).first.offset\<close> of the zone.\<close>

definition GetTimezoneOffset :: "(int \<Rightarrow> int) \<Rightarrow> DateTime \<Rightarrow> int" where
  "GetTimezoneOffset first_offset dt = TimeCast 1 Hour_ns (first_offset (local_time (dt_zone dt) (dt_epoch dt)))"

text \<open>The offset is exact for whole hours only; a zone such as +05:30 or -03:30 is reported as +5 and -3, and is then not found again.\<close>

lemma timezone_offset_loses_minutes:
  "GetTimezoneOffset (\<lambda>_. h * Hour_ns) dt = h"
  "GetTimezoneOffset (\<lambda>_. 5 * Hour_ns + 1800 * Second_ns) dt = 5" "GetTimezoneOffset (\<lambda>_. - (3 * Hour_ns + 1800 * Second_ns)) dt = - 3"
  "GetAnyTimezoneByOffset (tz_list now [fixed_zone (5 * Hour_ns + 1800 * Second_ns)] None) Hour_ns 5 = None"
  by (simp add: GetTimezoneOffset_def TimeCast_exact Hour_ns_def)
    (simp_all add: GetTimezoneOffset_def TimeCast_def Hour_ns_def Second_ns_def GetAnyTimezoneByOffset_def tz_list_def fixed_zone_def)

end
