(* ===== verification/UnsafePointers.thy ===== *)
theory UnsafePointers
  imports Memory
begin

text \<open>
  The rest of \<^verbatim>\<open>memory/IntrusivePtr.h\<close> and \<^verbatim>\<open>memory/RefCounter.h\<close>: constructors and destructor, \<^verbatim>\<open>_UnsafeRetain\<close> and
  \<^verbatim>\<open>_UnsafeRelease\<close>, and the counter for one thread.

  The socket server keeps a connected stream alive with a reference that no pointer holds: \<^verbatim>\<open>IoAccept\<close> and \<^verbatim>\<open>IoConnect\<close> take it,
  \<^verbatim>\<open>IoDisconnect\<close> gives it back (\<^verbatim>\<open>network/iocp/IocpSocketServerOperation.cpp\<close>). The state of the development is a store of pointers together
  with the number \<open>d a\<close> of such references to object \<open>a\<close>.
\<close>

section \<open>Counters\<close>

text \<open>\<^verbatim>\<open>RefCounter\<close>: an atomic \<^verbatim>\<open>fetch_add\<close> wraps and gives the old value.\<close>

definition fetch_add :: "int \<Rightarrow> int \<Rightarrow> int \<times> int" where
  "fetch_add n c = (c, signed_take_bit 31 (c + n))"

definition RefCounter_RetainN :: "int \<Rightarrow> int \<Rightarrow> int \<times> int" where
  "RefCounter_RetainN n c = (let (old, c') = fetch_add n c in (signed_take_bit 31 (old + n), c'))"

definition RefCounter_ReleaseN :: "int \<Rightarrow> int \<Rightarrow> int \<times> int" where
  "RefCounter_ReleaseN n c = (let (old, c') = fetch_add (- n) c in (signed_take_bit 31 (old - n), c'))"

text \<open>\<^verbatim>\<open>SingleThreadRefCounter\<close>: an \<^verbatim>\<open>int32_t\<close> whose overflow is undefined.\<close>

definition int32_result :: "int \<Rightarrow> (int \<times> int) res" where
  "int32_result x = (if - 2147483648 \<le> x \<and> x \<le> 2147483647 then Inr (x, x) else Inl Undefined)"

definition ST_CAS :: "int \<Rightarrow> int \<Rightarrow> int \<Rightarrow> bool \<times> int" where
  "ST_CAS expected desired c = (if c = expected then (True, desired) else (False, c))"

definition ST_Retain :: "int \<Rightarrow> (int \<times> int) res" where "ST_Retain c = int32_result (c + 1)"

definition ST_RetainN :: "int \<Rightarrow> int \<Rightarrow> (int \<times> int) res" where "ST_RetainN n c = int32_result (c + n)"

definition ST_Release :: "int \<Rightarrow> (int \<times> int) res" where "ST_Release c = int32_result (c - 1)"

definition ST_ReleaseN :: "int \<Rightarrow> int \<Rightarrow> (int \<times> int) res" where "ST_ReleaseN n c = int32_result (c - n)"

text \<open>Wherever the counter for one thread is defined, it does what the atomic one does.\<close>

lemma single_thread_agrees:
  "ST_RetainN n c = Inr r \<Longrightarrow> RefCounter_RetainN n c = r" "ST_ReleaseN n c = Inr r \<Longrightarrow> RefCounter_ReleaseN n c = r"
  "ST_Retain c = Inr r \<Longrightarrow> RefCounter_RetainN 1 c = r" "ST_Release c = Inr r \<Longrightarrow> RefCounter_ReleaseN 1 c = r"
  by (auto simp: ST_RetainN_def ST_ReleaseN_def ST_Retain_def ST_Release_def int32_result_def RefCounter_RetainN_def RefCounter_ReleaseN_def
      fetch_add_def signed_take_bit_int_eq_self split: if_splits)

section \<open>Pointers\<close>

definition ip_null :: "nat \<Rightarrow> ptr_store \<Rightarrow> ptr_store" where
  "ip_null v st = st\<lparr>ps_ptr := (ps_ptr st)(v := None)\<rparr>"

text \<open>The copy and the move constructor assign to a new variable, which is null.\<close>

definition ip_copy_construct :: "nat \<Rightarrow> nat \<Rightarrow> ptr_store \<Rightarrow> ptr_store" where
  "ip_copy_construct v src st = ip_copy_assign v src (ip_null v st)"

definition ip_move_construct :: "nat \<Rightarrow> nat \<Rightarrow> ptr_store \<Rightarrow> ptr_store" where
  "ip_move_construct v src st = ip_move_assign v src (ip_null v st)"

definition ip_destruct :: "nat \<Rightarrow> ptr_store \<Rightarrow> ptr_store" where
  "ip_destruct v st = ip_Release v st"

definition ip_Valid :: "nat \<Rightarrow> ptr_store \<Rightarrow> bool" where
  "ip_Valid v st \<longleftrightarrow> ps_ptr st v \<noteq> None"

definition ip_Ref :: "nat \<Rightarrow> ptr_store \<Rightarrow> u32 res" where
  "ip_Ref v st = (case ps_ptr st v of None \<Rightarrow> Inl NullDeref | Some a \<Rightarrow> Inr (ps_count st a))"

definition ip_UnsafeRetain :: "nat \<Rightarrow> ptr_store \<Rightarrow> ptr_store res" where
  "ip_UnsafeRetain v st =
    (case ps_ptr st v of
       None \<Rightarrow> Inl NullDeref
     | Some a \<Rightarrow> Inr (st\<lparr>ps_count := (ps_count st)(a := Retain (ps_count st a))\<rparr>))"

definition ip_UnsafeRelease :: "nat \<Rightarrow> ptr_store \<Rightarrow> ptr_store res" where
  "ip_UnsafeRelease v st =
    (case ps_ptr st v of
       None \<Rightarrow> Inl NullDeref
     | Some a \<Rightarrow>
         let result = Release (ps_count st a);
             st1 = st\<lparr>ps_count := (ps_count st)(a := result)\<rparr> in
         Inr (if result = 0 then st1\<lparr>ps_deleted := ps_deleted st @ [a], ps_ptr := (ps_ptr st)(v := None)\<rparr> else st1))"

section \<open>References that no pointer holds\<close>

text \<open>Programs that give back through \<^verbatim>\<open>_UnsafeRelease\<close> only what they took through \<^verbatim>\<open>_UnsafeRetain\<close>.\<close>

type_synonym unsafe_state = "(nat \<Rightarrow> nat) \<times> ptr_store"

inductive unsafe_step :: "unsafe_state \<Rightarrow> unsafe_state \<Rightarrow> bool" where
  plain: "ptr_step st st' \<Longrightarrow> unsafe_step (d, st) (d, st')"
| retain: "ps_ptr st v = Some a \<Longrightarrow> ip_UnsafeRetain v st = Inr st' \<Longrightarrow> unsafe_step (d, st) (d(a := Suc (d a)), st')"
| release: "ps_ptr st v = Some a \<Longrightarrow> d a = Suc n \<Longrightarrow> ip_UnsafeRelease v st = Inr st' \<Longrightarrow> unsafe_step (d, st) (d(a := n), st')"

lemma of_nat_u32_nz:
  assumes "0 < n" "n < 2 ^ 32"
  shows "(of_nat n :: u32) \<noteq> 0"
  using assms u32_of_nat [of n] by auto

lemma counted_UnsafeRelease:
  assumes "counted d st" "ps_ptr st v = Some a" "d a = Suc n" "card (refs st a) + d a < 2 ^ 32"
  shows "ip_UnsafeRelease v st = Inr (st\<lparr>ps_count := (ps_count st)(a := Release (ps_count st a))\<rparr>)"
    and "counted (d(a := n)) (st\<lparr>ps_count := (ps_count st)(a := Release (ps_count st a))\<rparr>)"
proof -
  have fin: "finite (live st)" and c: "ps_count st a = of_nat (card (refs st a) + d a)" using assms(1) by (auto simp: counted_def)
  have r: "Release (ps_count st a) = of_nat (card (refs st a) + n)" using c assms(3) by (simp add: Release_def)
  have "Release (ps_count st a) \<noteq> 0"
    unfolding r using refs_pos [OF fin assms(2)] assms(3,4) by (intro of_nat_u32_nz) simp_all
  then show "ip_UnsafeRelease v st = Inr (st\<lparr>ps_count := (ps_count st)(a := Release (ps_count st a))\<rparr>)"
    using assms(2) by (simp add: ip_UnsafeRelease_def Let_def)
  show "counted (d(a := n)) (st\<lparr>ps_count := (ps_count st)(a := Release (ps_count st a))\<rparr>)"
    using assms(1) r by (simp add: counted_def)
qed

definition few :: "unsafe_state \<Rightarrow> bool" where
  "few c \<longleftrightarrow> (\<forall>a. card (refs (snd c) a) + fst c a < 2 ^ 32)"

lemma unsafe_step_counted:
  assumes "unsafe_step (d, st) (d', st')" "counted d st" "few (d, st)"
  shows "counted d' st'"
  using assms(1)
proof (cases rule: unsafe_step.cases)
  case plain
  then show ?thesis using ptr_step_counted assms(2) by blast
next
  case (retain v a)
  then show ?thesis using counted_Retain [OF assms(2)] by (auto simp: ip_UnsafeRetain_def)
next
  case (release v a n)
  have "card (refs st a) + d a < 2 ^ 32" using assms(3) by (simp add: few_def)
  from counted_UnsafeRelease [OF assms(2) release(2,3) this] release show ?thesis by simp
qed

inductive unsafe_reach :: "unsafe_state \<Rightarrow> bool" where
  start: "unsafe_reach (\<lambda>_. 0, no_pointers)"
| step: "unsafe_reach c \<Longrightarrow> few c \<Longrightarrow> unsafe_step c c' \<Longrightarrow> unsafe_reach c'"

lemma unsafe_reach_counted: "unsafe_reach c \<Longrightarrow> counted (fst c) (snd c)"
proof (induction rule: unsafe_reach.induct)
  case start
  then show ?case by (simp add: counted_0 ptr_inv_no_pointers)
next
  case (step c c')
  then show ?case using unsafe_step_counted [of "fst c" "snd c" "fst c'" "snd c'"] by simp
qed

text \<open>C35. References that no pointer holds keep an object alive exactly as pointers do. In every state a program reaches that gives back
  through \<^verbatim>\<open>_UnsafeRelease\<close> only what it took through \<^verbatim>\<open>_UnsafeRetain\<close> (with fewer than 2^32 references to an object), the counter of an object is
  the number of pointers to it plus the references taken; the deleter runs only when neither is left; and giving a reference back
  never runs it, since the pointer used for it still counts.\<close>

theorem unsafe_references_exact:
  assumes "unsafe_reach (d, st)" "few (d, st)"
  shows "ps_count st a = of_nat (card (refs st a) + d a) \<and>
    (ps_deleted (ip_Release v st) = ps_deleted st @ [a] \<longrightarrow> refs (ip_Release v st) a = {} \<and> d a = 0) \<and>
    (ps_ptr st v = Some a \<and> 0 < d a \<longrightarrow>
       (\<exists>st'. ip_UnsafeRelease v st = Inr st' \<and> ps_deleted st' = ps_deleted st \<and> ps_ptr st' v = Some a))"
proof -
  have c: "counted d st" using unsafe_reach_counted [OF assms(1)] by simp
  have f: "card (refs st a) + d a < 2 ^ 32" using assms(2) by (simp add: few_def)
  show ?thesis
  proof (intro conjI impI)
    show "ps_count st a = of_nat (card (refs st a) + d a)" using c by (simp add: counted_def)
    show "ps_deleted (ip_Release v st) = ps_deleted st @ [a] \<Longrightarrow> refs (ip_Release v st) a = {}"
      "ps_deleted (ip_Release v st) = ps_deleted st @ [a] \<Longrightarrow> d a = 0"
      using ip_Release_deleted [OF c _ f] by blast+
    assume "ps_ptr st v = Some a \<and> 0 < d a"
    then obtain n where n: "ps_ptr st v = Some a" "d a = Suc n" by (auto simp: gr0_conv_Suc)
    from counted_UnsafeRelease(1) [OF c n f] n(1)
    show "\<exists>st'. ip_UnsafeRelease v st = Inr st' \<and> ps_deleted st' = ps_deleted st \<and> ps_ptr st' v = Some a" by simp
  qed
qed

text \<open>The life of a stream: the context of its accept retains it and lets go of it, the context of its disconnect gives the reference back.\<close>

theorem unsafe_references_exact_witness:
  "let st1 = ip_construct 1 7 no_pointers;
       st2 = st1\<lparr>ps_count := (ps_count st1)(7 := Retain (ps_count st1 7))\<rparr> in
   ip_UnsafeRetain 1 st1 = Inr st2 \<and> ps_count st2 7 = of_nat (card (refs st2 7) + 1) \<and>
   ps_deleted (ip_Release 1 st2) = [] \<and> ps_count (ip_Release 1 st2) 7 = 1 \<and>
   (\<exists>st3. ip_UnsafeRelease 2 (ip_construct 2 7 (ip_Release 1 st2)) = Inr st3 \<and> ps_deleted (ip_Release 2 st3) = [7])"
proof -
  define st1 where "st1 = ip_construct 1 7 no_pointers"
  define st2 where "st2 = st1\<lparr>ps_count := (ps_count st1)(7 := Retain (ps_count st1 7))\<rparr>"
  have u: "ip_UnsafeRetain 1 st1 = Inr st2" by (simp add: ip_UnsafeRetain_def st1_def st2_def ip_construct_def)
  have few0: "few (\<lambda>_. 0, no_pointers)" by (simp add: few_def refs_def no_pointers_def)
  have r: "refs st1 a = (if a = 7 then {1} else {})" for a by (auto simp: refs_def st1_def ip_construct_def no_pointers_def)
  have r2: "refs st2 a = refs st1 a" for a by (simp add: st2_def)
  have 1: "unsafe_reach (\<lambda>_. 0, st1)" unfolding st1_def
    by (rule unsafe_reach.step [OF unsafe_reach.start few0 unsafe_step.plain [OF ptr_step.construct]]) (simp add: no_pointers_def)
  have few1: "few (\<lambda>_. 0, st1)" by (simp add: few_def r)
  have "unsafe_step (\<lambda>_. 0, st1) ((\<lambda>_. 0)(7 := Suc 0), st2)"
    by (rule unsafe_step.retain [of st1 1 7 st2 "\<lambda>_. 0", OF _ u]) (simp add: st1_def ip_construct_def)
  then have 2: "unsafe_reach ((\<lambda>_. 0)(7 := Suc 0), st2)" using unsafe_reach.step [OF 1 few1] by simp
  have few2: "few ((\<lambda>_. 0)(7 := Suc 0), st2)" by (simp add: few_def r2 r)
  have c: "ps_count st2 7 = of_nat (card (refs st2 7) + 1)" using unsafe_references_exact [OF 2 few2, of 7 1] by simp
  show ?thesis
    unfolding Let_def st1_def [symmetric] st2_def [symmetric] using u c
    by (simp add: st2_def st1_def ip_construct_def ip_Release_def ip_UnsafeRelease_def no_pointers_def Retain_def Release_def)
qed

end
