(* ===== verification/SessionKeys.thy ===== *)
theory SessionKeys
  imports Sessions
begin

unbundle bit_operations_syntax

text \<open>
  The keys that authenticate a session: \<^verbatim>\<open>utility/Random.h\<close> and \<^verbatim>\<open>Session::ResetSessionKey\<close>.

  \<^verbatim>\<open>RandomUint64\<close> draws from a \<^verbatim>\<open>std::mt19937_64\<close> that every thread constructs for itself, with the default seed. The generator is
  the one the standard prescribes: its state is the window of the last 312 words of the sequence.
\<close>

section \<open>The generator\<close>

definition mt_seed :: u64 where "mt_seed = 5489"

fun mt_fill :: "nat \<Rightarrow> nat \<Rightarrow> u64 \<Rightarrow> u64 list" where
  "mt_fill 0 i x = []"
| "mt_fill (Suc n) i x = x # mt_fill n (Suc i) (6364136223846793005 * (x XOR drop_bit 62 x) + of_nat (Suc i))"

definition mt19937_64 :: "u64 list" where
  "mt19937_64 = mt_fill 312 0 mt_seed"

text \<open>The next word of the sequence: the top 33 bits of the first and the low 31 bits of the second word, twisted.\<close>

definition mt_next :: "u64 list \<Rightarrow> u64" where
  "mt_next w =
    (let y = (w ! 0 AND 0xFFFFFFFF80000000) OR (w ! 1 AND 0x7FFFFFFF) in
     w ! 156 XOR drop_bit 1 y XOR (if y AND 1 = 0 then 0 else 0xB5026F5AA96619E9))"

definition mt_temper :: "u64 \<Rightarrow> u64" where
  "mt_temper x0 =
    (let x1 = x0 XOR (drop_bit 29 x0 AND 0x5555555555555555);
         x2 = x1 XOR (push_bit 17 x1 AND 0x71D67FFFEDA60000);
         x3 = x2 XOR (push_bit 37 x2 AND 0xFFF7EEE000000000) in
     x3 XOR drop_bit 43 x3)"

definition RandomUint64 :: "u64 list \<Rightarrow> u64 \<times> u64 list" where
  "RandomUint64 w = (let x = mt_next w in (mt_temper x, tl w @ [x]))"

section \<open>Keys\<close>

definition SessionKeySize :: nat where "SessionKeySize = 64"

text \<open>\<^verbatim>\<open>FillRandom\<close> writes a word at every eighth index below the size; a word is stored with its low byte first.\<close>

fun fill_words :: "nat \<Rightarrow> u64 list \<Rightarrow> u8 list \<times> u64 list" where
  "fill_words 0 w = ([], w)"
| "fill_words (Suc n) w =
    (let (x, w1) = RandomUint64 w; (bytes, w2) = fill_words n w1 in (bytes_of 8 (unat x) @ bytes, w2))"

definition FillRandom :: "nat \<Rightarrow> u64 list \<Rightarrow> u8 list \<times> u64 list" where
  "FillRandom Size w = fill_words (length (filter (\<lambda>index. index mod 8 = 0) [0 ..< Size])) w"

fun memcmp :: "u8 list \<Rightarrow> u8 list \<Rightarrow> int" where
  "memcmp (a # as) (b # bs) = (if a = b then memcmp as bs else if a < b then - 1 else 1)"
| "memcmp _ _ = 0"

definition RandomBuffer_eq :: "u8 list \<Rightarrow> u8 list \<Rightarrow> bool" where
  "RandomBuffer_eq a b \<longleftrightarrow> memcmp a b = 0"

definition RandomBuffer_gt :: "u8 list \<Rightarrow> u8 list \<Rightarrow> bool" where
  "RandomBuffer_gt a b \<longleftrightarrow> memcmp a b > 0"

definition RandomBuffer_Empty :: "nat \<Rightarrow> u8 list" where
  "RandomBuffer_Empty n = replicate n 0"

text \<open>\<^verbatim>\<open>Session::ResetSessionKey\<close>, with a given key and with a new one drawn by the calling thread.\<close>

definition ResetSessionKey_to :: "u8 list \<Rightarrow> 'a Session_scheme \<Rightarrow> 'a Session_scheme" where
  "ResetSessionKey_to key s = s\<lparr>ss_key := key\<rparr>"

definition ResetSessionKey :: "u64 list \<Rightarrow> 'a Session_scheme \<Rightarrow> 'a Session_scheme \<times> u64 list" where
  "ResetSessionKey w s = (let (key, w') = FillRandom SessionKeySize w in (ResetSessionKey_to key s, w'))"

text \<open>Comparing keys of one size: \<^verbatim>\<open>==\<close> is equality and \<^verbatim>\<open>>\<close> a linear order.\<close>

lemma memcmp_range: "memcmp a b \<in> {- 1, 0, 1}" "memcmp b a = - memcmp a b"
  by (induction a b rule: memcmp.induct) auto

lemma memcmp_zero: "length a = length b \<Longrightarrow> memcmp a b = 0 \<longleftrightarrow> a = b"
  by (induction a b rule: memcmp.induct) auto

lemma memcmp_trans: "0 < memcmp a b \<Longrightarrow> 0 < memcmp b c \<Longrightarrow> length a = length b \<Longrightarrow> length b = length c \<Longrightarrow> 0 < memcmp a c"
proof (induction a arbitrary: b c)
  case (Cons x a)
  then obtain y b' z c' where b: "b = y # b'" "c = z # c'" by (metis Suc_length_conv)
  have l: "length a = length b'" "length b' = length c'" using Cons.prems(3,4) by (simp_all add: b)
  have "(x = y \<and> 0 < memcmp a b' \<or> y < x) \<and> (y = z \<and> 0 < memcmp b' c' \<or> z < y)"
    using Cons.prems(1,2) by (auto simp: b split: if_splits)
  then show ?case using Cons.IH [OF _ _ l] by (auto simp: b)
qed simp

lemma key_order:
  assumes "length a = length b" "length b = length c"
  shows "RandomBuffer_eq a b \<longleftrightarrow> a = b" "\<not> RandomBuffer_gt a a" "a \<noteq> b \<Longrightarrow> RandomBuffer_gt a b \<or> RandomBuffer_gt b a"
    "RandomBuffer_gt a b \<Longrightarrow> RandomBuffer_gt b c \<Longrightarrow> RandomBuffer_gt a c"
  using assms memcmp_zero [of a b] memcmp_range [of a b] memcmp_range(1) [of b a] memcmp_zero [of a a] memcmp_trans [of a b c]
  by (auto simp: RandomBuffer_eq_def RandomBuffer_gt_def)

section \<open>The keys of a process\<close>

text \<open>Sessions are created on the threads \<open>ts\<close>, in this order; \<open>g\<close> are the generators of the threads.\<close>

fun key_run :: "nat list \<Rightarrow> (nat \<Rightarrow> u64 list) \<Rightarrow> (nat \<times> u8 list) list" where
  "key_run [] g = []"
| "key_run (t # ts) g = (let (key, w) = FillRandom SessionKeySize (g t) in (t, key) # key_run ts (g(t := w)))"

definition keys_on :: "nat \<Rightarrow> (nat \<times> u8 list) list \<Rightarrow> u8 list list" where
  "keys_on t ks = map snd (filter (\<lambda>x. fst x = t) ks)"

fun key_stream :: "nat \<Rightarrow> u64 list \<Rightarrow> u8 list list" where
  "key_stream 0 w = []"
| "key_stream (Suc n) w = (let (key, w') = FillRandom SessionKeySize w in key # key_stream n w')"

lemma keys_on_stream: "keys_on t (key_run ts g) = key_stream (count_list ts t) (g t)"
  by (induction ts arbitrary: g) (auto simp: keys_on_def split_def Let_def)

lemma take_key_stream: "take m (key_stream n w) = key_stream (min m n) w"
proof (induction n arbitrary: m w)
  case (Suc n)
  then show ?case by (cases m) (auto simp: split_def Let_def)
qed simp

lemma first_draw: "fst (RandomUint64 mt19937_64) = 14514284786278117030"
  by code_simp

lemma first_key: "take 8 (fst (FillRandom SessionKeySize mt19937_64)) = bytes_of 8 14514284786278117030"
proof -
  have "length (filter (\<lambda>index. index mod 8 = 0) [0 ..< SessionKeySize]) = Suc 7" by (simp add: SessionKeySize_def upt_rec)
  then have "fst (FillRandom SessionKeySize mt19937_64) =
      bytes_of 8 (unat (fst (RandomUint64 mt19937_64))) @ fst (fill_words 7 (snd (RandomUint64 mt19937_64)))"
    by (simp only: FillRandom_def fill_words.simps split_def Let_def fst_conv)
  then show ?thesis by (simp add: first_draw)
qed


end
