(* ===== verification/DebugPools.thy ===== *)
theory DebugPools
  imports Memory
begin

text \<open>
  The two containers behind \<^verbatim>\<open>ObjectPool\<close> and the checks of its debug build (\<^verbatim>\<open>memory/ObjectPool.h\<close>): every block knows its pool and
  whether it is in use, and \<^verbatim>\<open>Push\<close> asserts both. A pool is named by its address; the flag of a block is filed under the block's number.
  The model does not write beyond an object, so the two guard words around it keep their value and their assertions hold.
\<close>

section \<open>The containers\<close>

text \<open>A pool for one thread keeps its free blocks in a \<^verbatim>\<open>std::deque\<close>, used at its back; a concurrent one in a \<^verbatim>\<open>ConcurrentStack\<close>.\<close>

datatype 'a container = Deque "'a list" | Stack "'a list"

fun PushObject :: "'a \<Rightarrow> 'a container \<Rightarrow> 'a container" where
  "PushObject object (Stack st) = Stack (stack_push object st)"
| "PushObject object (Deque xs) = Deque (xs @ [object])"

fun PopObject :: "'a container \<Rightarrow> 'a option \<times> 'a container" where
  "PopObject (Stack st) = (case stack_try_pop st of None \<Rightarrow> (None, Stack st) | Some (x, rest) \<Rightarrow> (Some x, Stack rest))"
| "PopObject (Deque xs) = (if xs \<noteq> [] then (Some (last xs), Deque (butlast xs)) else (None, Deque xs))"

fun free_blocks :: "'a container \<Rightarrow> 'a list" where
  "free_blocks (Stack st) = st"
| "free_blocks (Deque xs) = rev xs"

text \<open>Both are the same stack.\<close>

lemma container_stack:
  "free_blocks (PushObject x c) = stack_push x (free_blocks c)"
  "PopObject c = (r, c') \<Longrightarrow> (case r of None \<Rightarrow> stack_try_pop (free_blocks c) = None \<and> c' = c
     | Some x \<Rightarrow> stack_try_pop (free_blocks c) = Some (x, free_blocks c'))"
proof -
  show "free_blocks (PushObject x c) = stack_push x (free_blocks c)" by (cases c) (simp_all add: stack_push_def)
  assume p: "PopObject c = (r, c')"
  show "case r of None \<Rightarrow> stack_try_pop (free_blocks c) = None \<and> c' = c | Some x \<Rightarrow> stack_try_pop (free_blocks c) = Some (x, free_blocks c')"
  proof (cases c)
    case (Deque xs)
    then show ?thesis using p by (cases xs rule: rev_cases) auto
  next
    case (Stack st)
    then show ?thesis using p by (cases st) auto
  qed
qed

section \<open>The debug build\<close>

record DebugPool =
  dp_this :: nat
  dp_pool :: ObjectPool
  dp_in_used :: "u64 \<Rightarrow> bool"

text \<open>A block with the address of the pool that made it.\<close>

type_synonym debug_block = "nat \<times> ObjectBlock"

definition debug_Push :: "debug_block \<Rightarrow> DebugPool \<Rightarrow> DebugPool res" where
  "debug_Push = (\<lambda>(pool_address, block) p.
    assert_that (pool_address = dp_this p)
      (assert_that (dp_in_used p (bl_id block))
        (Inr (p\<lparr>dp_pool := Pool_Push block (dp_pool p), dp_in_used := (dp_in_used p)(bl_id block := False)\<rparr>))))"

definition debug_Pop :: "bool \<Rightarrow> DebugPool \<Rightarrow> debug_block option \<times> DebugPool" where
  "debug_Pop must_allocation p =
    (case Pool_Pop must_allocation (dp_pool p) of
       (None, pool) \<Rightarrow> (None, p\<lparr>dp_pool := pool\<rparr>)
     | (Some block, pool) \<Rightarrow> (Some (dp_this p, block), p\<lparr>dp_pool := pool, dp_in_used := (dp_in_used p)(bl_id block := True)\<rparr>))"

text \<open>\<^verbatim>\<open>PushDirect\<close> finds the pool through the block.\<close>

definition PushDirect :: "debug_block \<Rightarrow> (nat \<Rightarrow> DebugPool option) \<Rightarrow> (nat \<Rightarrow> DebugPool option) res" where
  "PushDirect block pools =
    (case pools (fst block) of
       None \<Rightarrow> Inl Undefined
     | Some p \<Rightarrow> rbind (debug_Push block p) (\<lambda>p'. Inr (pools(fst block \<mapsto> p'))))"

fun debug_run :: "pool_op list \<Rightarrow> DebugPool \<times> debug_block list \<Rightarrow> (DebugPool \<times> debug_block list) res" where
  "debug_run [] s = Inr s"
| "debug_run (PopOp must # ops) (p, held) =
     (case debug_Pop must p of (None, p') \<Rightarrow> debug_run ops (p', held) | (Some b, p') \<Rightarrow> debug_run ops (p', b # held))"
| "debug_run (PushOp i # ops) (p, held) =
     (if i < length held then rbind (debug_Push (held ! i) p) (\<lambda>p'. debug_run ops (p', take i held @ drop (Suc i) held))
      else debug_run ops (p, held))"

text \<open>The flags say which blocks are out, and every held block is one of this pool.\<close>

definition debug_inv :: "nat \<Rightarrow> DebugPool \<Rightarrow> debug_block list \<Rightarrow> bool" where
  "debug_inv n p held \<longleftrightarrow> pool_inv n (dp_pool p) (map snd held) \<and> (\<forall>x \<in> set held. fst x = dp_this p) \<and>
     (\<forall>b \<in> set (op_pool (dp_pool p)). \<not> dp_in_used p (bl_id b)) \<and> (\<forall>x \<in> set held. dp_in_used p (bl_id (snd x)))"

lemma debug_Pop_inv:
  assumes "debug_inv n p held" "unat (op_object_sequence (dp_pool p)) + 1 < 2 ^ 64" "debug_Pop must p = (r, p')"
  shows "dp_this p' = dp_this p \<and> Pool_Pop must (dp_pool p) = (map_option snd r, dp_pool p') \<and>
    (case r of None \<Rightarrow> debug_inv n p' held | Some b \<Rightarrow> debug_inv n p' (b # held))"
proof (cases "Pool_Pop must (dp_pool p)")
  case (Pair s pool)
  note inv = Pool_Pop_inv [OF assms(1) [unfolded debug_inv_def, THEN conjunct1] assms(2) Pair]
  show ?thesis
  proof (cases s)
    case None
    then show ?thesis using assms(1,3) Pair inv by (auto simp: debug_Pop_def)
  next
    case (Some b)
    have i: "pool_inv n pool (b # map snd held)" using inv Some by simp
    then have fresh: "\<forall>c \<in> set (op_pool pool). bl_id c \<noteq> bl_id b" by (auto simp: pool_inv_def image_iff)
    have sub: "set (op_pool pool) \<subseteq> set (op_pool (dp_pool p))"
      using Pair by (auto simp: Pool_Pop_def split: option.splits if_splits) (auto elim!: stack_try_pop.elims)
    have "\<forall>c \<in> set (op_pool pool). \<not> dp_in_used p (bl_id c)" using assms(1) sub by (auto simp: debug_inv_def)
    then show ?thesis using assms(1,3) Pair Some i fresh by (auto simp: debug_Pop_def debug_inv_def)
  qed
qed

lemma debug_Push_inv:
  assumes "debug_inv n p (xs @ b # ys)"
  shows "\<exists>p'. debug_Push b p = Inr p' \<and> dp_this p' = dp_this p \<and> dp_pool p' = Pool_Push (snd b) (dp_pool p) \<and> debug_inv n p' (xs @ ys)"
proof -
  have i: "pool_inv n (dp_pool p) (map snd xs @ snd b # map snd ys)" using assms by (simp add: debug_inv_def)
  then have "\<forall>x \<in> set (xs @ ys). bl_id (snd x) \<noteq> bl_id (snd b)" by (auto simp: pool_inv_def image_iff)
  moreover have "pool_inv n (Pool_Push (snd b) (dp_pool p)) (map snd xs @ map snd ys)" using i by (rule Pool_Push_inv)
  ultimately show ?thesis using assms by (cases b) (auto simp: debug_Push_def debug_inv_def Pool_Push_def stack_push_def)
qed

lemma debug_run_inv:
  assumes "debug_inv n p held" "unat (op_object_sequence (dp_pool p)) + length ops < 2 ^ 64"
  shows "\<exists>p' held'. debug_run ops (p, held) = Inr (p', held') \<and> debug_inv n p' held' \<and>
    pool_run ops (dp_pool p, map snd held) = (dp_pool p', map snd held')"
  using assms
proof (induction ops arbitrary: p held)
  case (Cons x ops)
  show ?case
  proof (cases x)
    case (PopOp m)
    obtain r p1 where r: "debug_Pop m p = (r, p1)" by (cases "debug_Pop m p")
    note inv = debug_Pop_inv [OF Cons.prems(1) _ r]
    have u: "unat (op_object_sequence (dp_pool p)) + 1 < 2 ^ 64" using Cons.prems(2) by simp
    have "unat (op_object_sequence (snd (Pool_Pop m (dp_pool p)))) \<le> unat (op_object_sequence (dp_pool p)) + 1"
      by (auto simp: Pool_Pop_def unat_word_ariths split: option.splits prod.splits)
    then have s: "unat (op_object_sequence (dp_pool p1)) + length ops < 2 ^ 64" using inv [OF u] Cons.prems(2) by simp
    show ?thesis
    proof (cases r)
      case None
      then show ?thesis using inv [OF u] Cons.IH [of p1 held, OF _ s] r by (simp add: PopOp)
    next
      case (Some b)
      then show ?thesis using inv [OF u] Cons.IH [of p1 "b # held", OF _ s] r by (simp add: PopOp)
    qed
  next
    case (PushOp i)
    show ?thesis
    proof (cases "i < length held")
      case True
      obtain p1 where p1: "debug_Push (held ! i) p = Inr p1" "dp_pool p1 = Pool_Push (snd (held ! i)) (dp_pool p)"
          "debug_inv n p1 (take i held @ drop (Suc i) held)"
        using debug_Push_inv [of n p "take i held" "held ! i" "drop (Suc i) held"] Cons.prems(1) True by (auto simp: id_take_nth_drop [symmetric])
      have "op_object_sequence (dp_pool p1) = op_object_sequence (dp_pool p)" by (simp add: p1(2) Pool_Push_def)
      then show ?thesis using Cons.IH [OF p1(3)] Cons.prems(2) True p1(1,2) by (simp add: PushOp take_map drop_map)
    next
      case False
      then show ?thesis using Cons.IH [OF Cons.prems(1)] Cons.prems(2) by (simp add: PushOp)
    qed
  qed
qed simp



end
