(* ===== verification/SessionBuffers.thy ===== *)
theory SessionBuffers
  imports PacketThrottling
begin

text \<open>
  The rest of \<^verbatim>\<open>engine/SocketSession.h\<close>: the check that a debug build makes of every buffer it sends, and the construction and the read buffers of a
  loopback session, which come from the same pool as its write buffers.
\<close>

section \<open>The debug check\<close>

text \<open>The length and the header of the first packet of the buffer are read and compared. Fewer than four bytes leave the length to what
  was in the buffer before.\<close>

definition debug_check :: "WriteBuffer \<Rightarrow> unit res" where
  "debug_check b =
    (let cursor = new_cursor \<lparr>db_bytes = wb_bytes b, db_capacity = wb_capacity b\<rparr> in
     if length (Data cursor) < PACKET_LENGTH_SIZE then Inl Undefined
     else
       let packet_length = nat_of_bytes (take PACKET_LENGTH_SIZE (Data cursor)) in
       rbind (Seek (of_nat PACKET_LENGTH_SIZE) cursor) (\<lambda>cursor1.
       rbind (DeserializePacketHeader (Data cursor1) (RemainBytes cursor1)) (\<lambda>header.
       assert_that (unat (ph_body_size header) + PACKET_HEADER_SIZE = packet_length) (Inr ()))))"

definition Session_Send_buffer_debug :: "WriteBuffer option \<Rightarrow> SocketSession \<Rightarrow> SocketSession res" where
  "Session_Send_buffer_debug buffer s =
    (case buffer of None \<Rightarrow> Inl NullDeref | Some b \<Rightarrow> rbind (debug_check b) (\<lambda>_. Session_Send_buffer buffer s))"

text \<open>Buffers that the serialiser filled pass, whatever follows the first packet: the check is transparent for them.\<close>

lemma debug_check_frame:
  assumes "wb_bytes b = frame pack (p, err) @ rest" "length (wb_bytes b) < 2147483648"
  shows "debug_check b = Inr ()"
proof -
  let ?h = "packet_header pack p err" and ?c = "new_cursor \<lparr>db_bytes = wb_bytes b, db_capacity = wb_capacity b\<rparr>"
  have d: "Data ?c = bytes_of 4 (8 + length (pack p)) @ header_bytes ?h @ pack p @ rest" using assms(1) by (simp add: frame_def)
  have small: "length (pack p) < 2147483648" using assms by simp
  obtain c1 where c1: "Seek 4 ?c = Inr c1" "cursor_ok c1" "Data c1 = header_bytes ?h @ pack p @ rest"
    using Seek_forward [of ?c 4] d by auto
  have r: "RemainBytes c1 = 8 + (length (pack p) + length rest)" using c1(2,3) by (simp add: RemainBytes_Data)
  have h: "DeserializePacketHeader (Data c1) (RemainBytes c1) = Inr ?h" unfolding r c1(3) by (rule header_round_trip)
  have len: "nat_of_bytes (take 4 (Data ?c)) = 8 + length (pack p)" using small unfolding d by (simp add: nat_of_bytes_of)
  have b: "unat (ph_body_size ?h) = length (pack p)" using small by (simp add: packet_header_def u32_of_nat)
  have "\<not> length (Data ?c) < 4" unfolding d by simp
  then show ?thesis unfolding debug_check_def Let_def PACKET_LENGTH_SIZE_def PACKET_HEADER_SIZE_def using c1(1) h len b by simp
qed

lemma debug_send_transparent:
  assumes "wb_bytes b = frame pack (p, err) @ rest" "length (wb_bytes b) < 2147483648"
  shows "Session_Send_buffer_debug (Some b) s = Session_Send_buffer (Some b) s"
  using debug_check_frame [OF assms] by (simp add: Session_Send_buffer_debug_def)

section \<open>Buffers of a loopback session\<close>

definition LoopbackBuffer_Initialize :: "u64 \<Rightarrow> WriteBuffer" where
  "LoopbackBuffer_Initialize param = \<lparr>wb_bytes = [], wb_capacity = ucast param, wb_heap = False\<rparr>"

text \<open>The constructor; \<open>i\<close> is what the uninitialised identifier of the session happens to be. A pool of no buffers fails the pool's assertion.\<close>

definition new_LoopbackSession :: "u64 \<Rightarrow> u32 \<Rightarrow> u32 \<Rightarrow> LoopbackSession res" where
  "new_LoopbackSession i initial_pool_size buffer_size =
    assert_that (initial_pool_size > 0)
      (Inr \<lparr>lb_session_id = i, lb_packet_list = [], lb_free = unat initial_pool_size,
         lb_capacity = wb_capacity (LoopbackBuffer_Initialize (ucast buffer_size))\<rparr>)"

definition Loopback_TryAllocateReadBuffer :: "LoopbackSession \<Rightarrow> WriteBuffer \<times> LoopbackSession" where
  "Loopback_TryAllocateReadBuffer s =
    (\<lparr>wb_bytes = [], wb_capacity = lb_capacity s, wb_heap = (lb_free s = 0)\<rparr>, s\<lparr>lb_free := lb_free s - 1\<rparr>)"

definition Loopback_ReleaseReadBuffer :: "WriteBuffer \<Rightarrow> LoopbackSession \<Rightarrow> LoopbackSession" where
  "Loopback_ReleaseReadBuffer b s = (if wb_heap b then s else s\<lparr>lb_free := lb_free s + 1\<rparr>)"

definition Loopback_Disconnect :: "LoopbackSession \<Rightarrow> LoopbackSession" where "Loopback_Disconnect s = s"

definition Loopback_CloseSession :: "LoopbackSession \<Rightarrow> LoopbackSession" where "Loopback_CloseSession s = s"

datatype loop_op = AllocRead | AllocWrite | ReleaseRead nat | ReleaseWrite nat

fun loop_step :: "loop_op \<Rightarrow> LoopbackSession \<times> WriteBuffer list \<Rightarrow> LoopbackSession \<times> WriteBuffer list" where
  "loop_step AllocRead (s, held) = (case Loopback_TryAllocateReadBuffer s of (b, s') \<Rightarrow> (s', b # held))"
| "loop_step AllocWrite (s, held) = (case Loopback_TryAllocateWriteBuffer s of (b, s') \<Rightarrow> (s', b # held))"
| "loop_step (ReleaseRead i) (s, held) =
    (if i < length held then (Loopback_ReleaseReadBuffer (held ! i) s, take i held @ drop (Suc i) held) else (s, held))"
| "loop_step (ReleaseWrite i) (s, held) =
    (if i < length held then (Loopback_ReleaseWriteBuffer (held ! i) s, take i held @ drop (Suc i) held) else (s, held))"

definition pooled_buffers :: "LoopbackSession \<times> WriteBuffer list \<Rightarrow> nat" where
  "pooled_buffers c = lb_free (fst c) + length (filter (\<lambda>b. \<not> wb_heap b) (snd c))"

text \<open>Whichever of the two functions gives a buffer and whichever takes it back: the pooled buffers, free and held, stay as many as the
  session was built with, and what is held beyond them came from the heap.\<close>

lemma loop_step_conserves: "pooled_buffers (loop_step x c) = pooled_buffers c"
proof -
  obtain s held where c: "c = (s, held)" by fastforce
  have "length (filter P held) = length (filter P (take i held)) + (if P (held ! i) then 1 else 0) + length (filter P (drop (Suc i) held))"
    if "i < length held" for i and P :: "WriteBuffer \<Rightarrow> bool"
    using arg_cong [OF id_take_nth_drop [OF that], of "\<lambda>xs. length (filter P xs)"] by simp
  then show ?thesis
    by (cases x) (auto simp: c pooled_buffers_def Loopback_TryAllocateReadBuffer_def Loopback_TryAllocateWriteBuffer_def
        Loopback_ReleaseReadBuffer_def Loopback_ReleaseWriteBuffer_def)
qed

lemma loopback_conserves_buffers:
  assumes "new_LoopbackSession i n size' = Inr s" "fold loop_step ops (s, []) = (s', held)"
  shows "lb_free s' + length (filter (\<lambda>b. \<not> wb_heap b) held) = unat n"
proof -
  have "pooled_buffers (fold loop_step ops c) = pooled_buffers c" for c
    by (induction ops arbitrary: c) (simp_all add: loop_step_conserves)
  from this [of "(s, [])"] assms show ?thesis by (auto simp: pooled_buffers_def new_LoopbackSession_def res_iff)
qed

end
